(* ===== verification/Yolo_Prelude.thy ===== *)
theory Yolo_Prelude
  imports Complex_Main "HOL-Library.Char_ord" "HOL-Library.List_Lexorder"
    "HOL-Library.Product_Lexorder"
begin

text \<open>
  Shared vocabulary of the development: the exceptions of the program as values of a sum type,
  sequencing of fallible steps, the slices of Python sequences, and tables of rows (the shape
  of every SQLite table the store uses) with the lemmas that let \<open>simp\<close> and \<open>auto\<close> carry the
  component proofs.

  Text is \<^typ>\<open>string\<close>; a character stands for a code point. Only code whose result depends
  on the UTF-8 encoding uses lists of code points instead (theory \<open>Yolo_Review_Source\<close>).
  A time stamp (\<open>time.time()\<close>, a float) is a rational number; reading the clock and drawing a
  fresh identifier are inputs of the operation that does it.
\<close>

section \<open>Exceptions and sequencing\<close>

named_theorems db_simps \<open>unfolding rules for store operations\<close>
named_theorems table_simps \<open>rules on tables of rows\<close>

type_synonym timestamp = rat

datatype py_error =
    ValueError string
  | KeyError string
  | YoloError string
  | StateTransitionError string
  | IntegrityError string
  | OverflowError string
  | GitError string
  | MergeConflict string
  | OtherError string

definition rbind :: "'e + 'a \<Rightarrow> ('a \<Rightarrow> 'e + 'b) \<Rightarrow> 'e + 'b" where
  "rbind m f = (case m of Inl e \<Rightarrow> Inl e | Inr x \<Rightarrow> f x)"

definition require :: "bool \<Rightarrow> 'e \<Rightarrow> 'e + unit" where
  "require b e = (if b then Inr () else Inl e)"

lemma rbind_simps [simp]: "rbind (Inl e) f = Inl e" "rbind (Inr x) f = f x"
  by (simp_all add: rbind_def)

lemma require_simps [simp]: "require True e = Inr ()" "require False e = Inl e"
  by (simp_all add: require_def)

lemma rbind_Inr_iff: "rbind m f = Inr y \<longleftrightarrow> (\<exists>x. m = Inr x \<and> f x = Inr y)"
  by (cases m) auto

lemma rbind_Inl_iff:
  "rbind m f = Inl e \<longleftrightarrow> m = Inl e \<or> (\<exists>x. m = Inr x \<and> f x = Inl e)"
  by (cases m) auto

lemma require_Inr_iff [simp]: "require b e = Inr u \<longleftrightarrow> b"
  by (simp add: require_def)

lemma require_Inl_iff [simp]: "require b e = Inl e' \<longleftrightarrow> \<not> b \<and> e' = e"
  by (auto simp: require_def)

lemmas result_iffs = rbind_Inr_iff rbind_Inl_iff

text \<open>Running a check on every element, in order, stops at the first failure.\<close>

fun each :: "('a \<Rightarrow> 'e + unit) \<Rightarrow> 'a list \<Rightarrow> 'e + unit" where
  "each f [] = Inr ()"
| "each f (x # xs) = rbind (f x) (\<lambda>_. each f xs)"

lemma each_Inr_iff: "each f xs = Inr u \<longleftrightarrow> (\<forall>x \<in> set xs. f x = Inr ())"
  by (induction xs) (auto simp: rbind_Inr_iff)

lemma each_Inl_iff:
  "(\<exists>e. each f xs = Inl e) \<longleftrightarrow> (\<exists>x \<in> set xs. \<exists>e. f x = Inl e)"
proof (induction xs)
  case Nil
  then show ?case by simp
next
  case (Cons x xs)
  then show ?case by (cases "f x") auto
qed

text \<open>Mapping a fallible function over a list (a comprehension or an appending loop).\<close>

fun map_result :: "('a \<Rightarrow> 'e + 'b) \<Rightarrow> 'a list \<Rightarrow> 'e + 'b list" where
  "map_result f [] = Inr []"
| "map_result f (x # xs) = rbind (f x) (\<lambda>y. rbind (map_result f xs) (\<lambda>ys. Inr (y # ys)))"

lemma map_result_Inr_iff:
  "map_result f xs = Inr ys \<longleftrightarrow> list_all2 (\<lambda>x y. f x = Inr y) xs ys"
  by (induction xs arbitrary: ys) (auto simp: rbind_Inr_iff list_all2_Cons1)

lemma map_result_length: "map_result f xs = Inr ys \<Longrightarrow> length ys = length xs"
  by (simp add: map_result_Inr_iff list_all2_lengthD)

lemma map_result_all:
  assumes "map_result f xs = Inr ys"
    and "\<And>x y. x \<in> set xs \<Longrightarrow> f x = Inr y \<Longrightarrow> P y"
  shows "\<forall>y \<in> set ys. P y"
proof -
  from assms(1) have "list_all2 (\<lambda>x y. f x = Inr y) xs ys" by (simp add: map_result_Inr_iff)
  with assms(2) show ?thesis
    by (fastforce simp: list_all2_conv_all_nth in_set_conv_nth)
qed

section \<open>Python sequences\<close>

text \<open>\<open>xs[:n]\<close> and \<open>xs[-n:]\<close> for a positive constant \<open>n\<close>.\<close>

definition py_first :: "nat \<Rightarrow> 'a list \<Rightarrow> 'a list" where
  "py_first n xs = take n xs"

definition py_last :: "nat \<Rightarrow> 'a list \<Rightarrow> 'a list" where
  "py_last n xs = drop (length xs - n) xs"

lemma length_py_first: "length (py_first n xs) \<le> n"
  by (simp add: py_first_def)

lemma length_py_last: "length (py_last n xs) \<le> n"
  by (simp add: py_last_def)

lemma py_first_id: "length xs \<le> n \<Longrightarrow> py_first n xs = xs"
  by (simp add: py_first_def)

lemma py_last_id: "length xs \<le> n \<Longrightarrow> py_last n xs = xs"
  by (simp add: py_last_def)

text \<open>\<open>min(hi, max(lo, x))\<close>.\<close>

definition clamp :: "int \<Rightarrow> int \<Rightarrow> int \<Rightarrow> int" where
  "clamp lo hi x = min hi (max lo x)"

lemma clamp_bounds: "lo \<le> hi \<Longrightarrow> lo \<le> clamp lo hi x \<and> clamp lo hi x \<le> hi"
  by (simp add: clamp_def)

text \<open>
  \<open>str.strip\<close>, \<open>str.lower\<close> and \<open>str.startswith\<close> on code points below 256: the white space is
  what \<open>str.isspace\<close> accepts there, and the letters with a lower case are A to Z and the
  Latin-1 capitals.
\<close>

definition is_py_space :: "char \<Rightarrow> bool" where
  "is_py_space c =
     (let n = (of_char c :: nat)
      in (9 \<le> n \<and> n \<le> 13) \<or> (28 \<le> n \<and> n \<le> 32) \<or> n = 133 \<or> n = 160)"

definition py_strip :: "string \<Rightarrow> string" where
  "py_strip s = rev (dropWhile is_py_space (rev (dropWhile is_py_space s)))"

definition lower_char :: "char \<Rightarrow> char" where
  "lower_char c =
     (let n = (of_char c :: nat)
      in if (65 \<le> n \<and> n \<le> 90) \<or> (192 \<le> n \<and> n \<le> 222 \<and> n \<noteq> 215)
         then char_of (n + 32) else c)"

definition py_lower :: "string \<Rightarrow> string" where
  "py_lower s = map lower_char s"

definition starts_with :: "'a list \<Rightarrow> 'a list \<Rightarrow> bool" where
  "starts_with p s = (take (length p) s = p)"

definition ends_with :: "'a list \<Rightarrow> 'a list \<Rightarrow> bool" where
  "ends_with p s = (length p \<le> length s \<and> drop (length s - length p) s = p)"

fun contains :: "'a list \<Rightarrow> 'a list \<Rightarrow> bool" where
  "contains p [] = (p = [])"
| "contains p (c # s) = (starts_with p (c # s) \<or> contains p s)"

text \<open>\<open>sep.join(parts)\<close>.\<close>

fun join_with :: "'a list \<Rightarrow> 'a list list \<Rightarrow> 'a list" where
  "join_with sep [] = []"
| "join_with sep [x] = x"
| "join_with sep (x # y # ys) = x @ sep @ join_with sep (y # ys)"

lemma py_strip_Nil [simp]: "py_strip [] = []"
  by (simp add: py_strip_def)

lemma py_strip_length: "length (py_strip s) \<le> length s"
proof -
  have "length (py_strip s) \<le> length (rev (dropWhile is_py_space s))"
    unfolding py_strip_def by (simp only: length_rev) (rule length_dropWhile_le [THEN le_trans], simp)
  also have "\<dots> \<le> length s" by (simp add: length_dropWhile_le)
  finally show ?thesis .
qed

section \<open>Tables\<close>

text \<open>
  A table is the list of its rows in insertion order. \<open>UPDATE t SET .. WHERE P\<close> is
  \<open>update_where P f\<close>, its row count is \<open>count_where P\<close>, and a lookup by a unique column is the
  first row that has the key.
\<close>

definition update_where :: "('r \<Rightarrow> bool) \<Rightarrow> ('r \<Rightarrow> 'r) \<Rightarrow> 'r list \<Rightarrow> 'r list" where
  "update_where P f rows = map (\<lambda>r. if P r then f r else r) rows"

definition count_where :: "('r \<Rightarrow> bool) \<Rightarrow> 'r list \<Rightarrow> nat" where
  "count_where P rows = length (filter P rows)"

lemma update_where_Nil [simp]: "update_where P f [] = []"
  by (simp add: update_where_def)

lemma update_where_Cons [simp]:
  "update_where P f (r # rows) = (if P r then f r else r) # update_where P f rows"
  by (simp add: update_where_def)

lemma length_update_where [simp]: "length (update_where P f rows) = length rows"
  by (simp add: update_where_def)

lemma set_update_where [table_simps]:
  "r \<in> set (update_where P f rows) \<longleftrightarrow>
   (\<exists>r0 \<in> set rows. r = (if P r0 then f r0 else r0))"
  by (auto simp: update_where_def)

lemma map_key_update_where [table_simps]:
  "(\<And>r. k (f r) = k r) \<Longrightarrow> map k (update_where P f rows) = map k rows"
  by (simp add: update_where_def)

lemma update_where_none: "(\<And>r. r \<in> set rows \<Longrightarrow> \<not> P r) \<Longrightarrow> update_where P f rows = rows"
  by (induction rows) auto

lemma filter_update_where_other:
  "(\<And>r. r \<in> set rows \<Longrightarrow> P r \<Longrightarrow> \<not> Q r \<and> \<not> Q (f r)) \<Longrightarrow>
   filter Q (update_where P f rows) = filter Q rows"
  by (induction rows) auto

lemma filter_update_where_same:
  "(\<And>r. Q (f r) = Q r) \<Longrightarrow>
   filter Q (update_where P f rows) = update_where P f (filter Q rows)"
  by (induction rows) auto

text \<open>
  Two ways a table can change: rows outside a set of keys stay as they are, and every row that
  can be found before can be found after, related by \<open>R\<close>.
\<close>

definition same_outside :: "('r \<Rightarrow> 'k) \<Rightarrow> 'k set \<Rightarrow> 'r list \<Rightarrow> 'r list \<Rightarrow> bool" where
  "same_outside key J rows rows' \<longleftrightarrow>
     filter (\<lambda>r. key r \<notin> J) rows' = filter (\<lambda>r. key r \<notin> J) rows"

definition evolves ::
  "('k \<Rightarrow> 'r list \<Rightarrow> 'r option) \<Rightarrow> ('r \<Rightarrow> 'r \<Rightarrow> bool) \<Rightarrow> 'r list \<Rightarrow> 'r list \<Rightarrow> bool" where
  "evolves select R rows rows' \<longleftrightarrow>
     (\<forall>k r. select k rows = Some r \<longrightarrow> (\<exists>r'. select k rows' = Some r' \<and> R r r'))"

lemma same_outside_refl [simp, intro]: "same_outside key J rows rows"
  by (simp add: same_outside_def)

lemma same_outside_trans:
  "same_outside key J xs ys \<Longrightarrow> same_outside key J ys zs \<Longrightarrow> same_outside key J xs zs"
  by (simp add: same_outside_def)

lemma same_outside_update:
  "(\<And>r. r \<in> set rows \<Longrightarrow> P r \<Longrightarrow> key r \<in> J \<and> key (f r) \<in> J) \<Longrightarrow>
   same_outside key J rows (update_where P f rows)"
  unfolding same_outside_def by (rule filter_update_where_other) auto

lemma same_outside_append: "(\<And>r. r \<in> set rows' \<Longrightarrow> key r \<in> J) \<Longrightarrow>
   same_outside key J rows (rows @ rows')"
  by (simp add: same_outside_def filter_empty_conv)

lemma same_outside_mem:
  "same_outside key J rows rows' \<Longrightarrow> key r \<notin> J \<Longrightarrow> r \<in> set rows' \<longleftrightarrow> r \<in> set rows"
proof -
  assume "same_outside key J rows rows'" and out: "key r \<notin> J"
  then have "set (filter (\<lambda>r. key r \<notin> J) rows') = set (filter (\<lambda>r. key r \<notin> J) rows)"
    by (simp add: same_outside_def)
  with out show "r \<in> set rows' \<longleftrightarrow> r \<in> set rows" by auto
qed

lemma same_outside_filter:
  assumes "same_outside key J rows rows'" and "k \<notin> J"
  shows "filter (\<lambda>r. key r = k) rows' = filter (\<lambda>r. key r = k) rows"
proof -
  have "filter (\<lambda>r. key r = k) rs = filter (\<lambda>r. key r = k) (filter (\<lambda>r. key r \<notin> J) rs)" for rs
    using assms(2) by (auto intro: filter_cong)
  with assms(1) show ?thesis by (metis same_outside_def)
qed

lemma same_outside_ball:
  assumes "same_outside key J rows rows'" and "k \<notin> J"
  shows "(\<forall>r \<in> set rows'. key r = k \<longrightarrow> Q r) \<longleftrightarrow> (\<forall>r \<in> set rows. key r = k \<longrightarrow> Q r)"
  using assms same_outside_mem [of key J rows rows'] by metis

lemma evolves_refl: "(\<And>r. R r r) \<Longrightarrow> evolves select R rows rows"
  by (auto simp: evolves_def)

lemma evolves_trans:
  "(\<And>x y z. R x y \<Longrightarrow> R y z \<Longrightarrow> R x z) \<Longrightarrow> evolves select R xs ys \<Longrightarrow> evolves select R ys zs \<Longrightarrow>
   evolves select R xs zs"
  unfolding evolves_def by blast

lemma evolvesD:
  "evolves select R rows rows' \<Longrightarrow> select k rows = Some r \<Longrightarrow> \<exists>r'. select k rows' = Some r' \<and> R r r'"
  by (auto simp: evolves_def)

lemma image_key_update_where [table_simps]:
  "(\<And>r. k (f r) = k r) \<Longrightarrow> k ` set (update_where P f rows) = k ` set rows"
  by (induction rows) auto

text \<open>
  The contract of a lookup by primary key. Every table of the store interprets it with its own
  key column and lookup function; the clients use only these laws.
\<close>

locale keyed_table =
  fixes key :: "'r \<Rightarrow> 'k"
    and select :: "'k \<Rightarrow> 'r list \<Rightarrow> 'r option"
  assumes select_Nil: "select k [] = None"
    and select_Cons: "select k (r # rows) = (if key r = k then Some r else select k rows)"
begin

lemma select_SomeD: "select k rows = Some r \<Longrightarrow> r \<in> set rows \<and> key r = k"
  by (induction rows) (auto simp: select_Nil select_Cons split: if_splits)

lemma select_None_iff: "select k rows = None \<longleftrightarrow> k \<notin> key ` set rows"
  by (induction rows) (auto simp: select_Nil select_Cons)

lemma select_unique:
  "distinct (map key rows) \<Longrightarrow> r \<in> set rows \<Longrightarrow> select (key r) rows = Some r"
  by (induction rows) (auto simp: select_Nil select_Cons image_iff)

lemma select_iff:
  "distinct (map key rows) \<Longrightarrow> select k rows = Some r \<longleftrightarrow> r \<in> set rows \<and> key r = k"
  using select_unique select_SomeD by blast

lemma select_update:
  "(\<And>r. key (f r) = key r) \<Longrightarrow>
   select k (update_where P f rows) =
   map_option (\<lambda>r. if P r then f r else r) (select k rows)"
  by (induction rows) (auto simp: select_Nil select_Cons)

lemma select_append:
  "select k (rows @ rows') =
   (case select k rows of None \<Rightarrow> select k rows' | Some r \<Rightarrow> Some r)"
  by (induction rows) (auto simp: select_Nil select_Cons)

lemma count_key_zero: "k \<notin> key ` set rows \<Longrightarrow> count_where (\<lambda>r. key r = k \<and> Q r) rows = 0"
  by (auto simp: count_where_def filter_empty_conv)

lemma count_select:
  "distinct (map key rows) \<Longrightarrow> select k rows = Some r \<Longrightarrow>
   count_where (\<lambda>r. key r = k \<and> Q r) rows = (if Q r then 1 else 0)"
proof (induction rows)
  case Nil
  then show ?case by (simp add: select_Nil)
next
  case (Cons x rows)
  then show ?case
    using count_key_zero [of k rows Q]
    by (auto simp: select_Cons count_where_def split: if_splits)
qed

lemma distinct_update:
  "(\<And>r. key (f r) = key r) \<Longrightarrow>
   distinct (map key (update_where P f rows)) = distinct (map key rows)"
  by (simp add: map_key_update_where)

lemma evolves_update:
  "(\<And>r. key (f r) = key r) \<Longrightarrow> (\<And>r. R r r) \<Longrightarrow>
   (\<And>r. r \<in> set rows \<Longrightarrow> P r \<Longrightarrow> R r (f r)) \<Longrightarrow>
   evolves select R rows (update_where P f rows)"
  by (auto simp: evolves_def select_update dest: select_SomeD)

lemma evolves_append: "(\<And>r. R r r) \<Longrightarrow> evolves select R rows (rows @ rows')"
  by (auto simp: evolves_def select_append)

lemma select_other:
  "(\<And>r. r \<in> set rows \<Longrightarrow> P r \<Longrightarrow> key r \<noteq> k) \<Longrightarrow> (\<And>r. key (f r) = key r) \<Longrightarrow>
   select k (update_where P f rows) = select k rows"
  by (induction rows) (auto simp: select_Nil select_Cons)

end

end
