(* ===== verification/Yolo_Json.thy ===== *)
theory Yolo_Json
  imports Yolo_Prelude
begin

text \<open>
  JSON values and their compact text: \<open>json_dumps\<close> of \<open>src/omarchy_yolo/util.py\<close> (keys sorted,
  no white space, non-ASCII kept) and \<open>canonical_json\<close> of \<open>src/omarchy_yolo/provenance.py\<close> (the
  same with non-ASCII escaped). Text is a list of code points, since escaping depends on them.
  A float is carried as the text \<open>repr\<close> gives it.
\<close>

type_synonym code_points = "nat list"

definition cps :: "string \<Rightarrow> code_points" where
  "cps s = map of_char s"

datatype json =
    JNull
  | JBool bool
  | JInt int
  | JFloat code_points
  | JStr code_points
  | JArr "json list"
  | JObj "(code_points \<times> json) list"

fun nat_digits :: "nat \<Rightarrow> code_points" where
  "nat_digits n = (if n < 10 then [48 + n] else nat_digits (n div 10) @ [48 + n mod 10])"

declare nat_digits.simps [simp del]

definition int_text :: "int \<Rightarrow> code_points" where
  "int_text i = (if i < 0 then 45 # nat_digits (nat (- i)) else nat_digits (nat i))"

definition hex_digit :: "nat \<Rightarrow> nat" where
  "hex_digit d = (if d < 10 then 48 + d else 87 + d)"

text \<open>\<open>\uXXXX\<close>: a backslash, the letter u and four hexadecimal digits.\<close>

definition json_u_escape :: "nat \<Rightarrow> code_points" where
  "json_u_escape n =
     [92, 117, hex_digit (n div 4096 mod 16), hex_digit (n div 256 mod 16),
      hex_digit (n div 16 mod 16), hex_digit (n mod 16)]"

definition json_escape_char :: "bool \<Rightarrow> nat \<Rightarrow> code_points" where
  "json_escape_char ensure_ascii c =
     (if c = 34 then [92, 34]
      else if c = 92 then [92, 92]
      else if c = 10 then [92, 110]
      else if c = 13 then [92, 114]
      else if c = 9 then [92, 116]
      else if c = 8 then [92, 98]
      else if c = 12 then [92, 102]
      else if c < 32 then json_u_escape c
      else if \<not> ensure_ascii \<or> c < 127 then [c]
      else if c < 65536 then json_u_escape c
      else json_u_escape (55296 + (c - 65536) div 1024) @
           json_u_escape (56320 + (c - 65536) mod 1024))"

definition json_quote :: "bool \<Rightarrow> code_points \<Rightarrow> code_points" where
  "json_quote ensure_ascii s = [34] @ concat (map (json_escape_char ensure_ascii) s) @ [34]"

fun json_text :: "bool \<Rightarrow> json \<Rightarrow> code_points" where
  "json_text ea JNull = cps ''null''"
| "json_text ea (JBool b) = (if b then cps ''true'' else cps ''false'')"
| "json_text ea (JInt i) = int_text i"
| "json_text ea (JFloat r) = r"
| "json_text ea (JStr s) = json_quote ea s"
| "json_text ea (JArr vs) = cps ''['' @ join_with (cps '','') (map (json_text ea) vs) @ cps '']''"
| "json_text ea (JObj kvs) =
     cps ''{'' @
     join_with (cps '','')
       (map (\<lambda>(k, t). json_quote ea k @ cps '':'' @ t)
         (sort_key fst (map (\<lambda>(k, v). (k, json_text ea v)) kvs)))
     @ cps ''}''"

definition json_dumps :: "json \<Rightarrow> code_points" where
  "json_dumps v = json_text False v"

definition canonical_json :: "json \<Rightarrow> code_points" where
  "canonical_json v = json_text True v"

text \<open>Values made of the strings of the program.\<close>

definition jstr :: "string \<Rightarrow> json" where
  "jstr s = JStr (cps s)"

definition jobj :: "(string \<times> json) list \<Rightarrow> json" where
  "jobj kvs = JObj (map (\<lambda>(k, v). (cps k, v)) kvs)"

section \<open>Escaped text\<close>

lemma json_escape_char_nonempty [simp]: "json_escape_char ea c \<noteq> []"
  by (simp add: json_escape_char_def json_u_escape_def)

lemma hex_digit_range: "d < 16 \<Longrightarrow> 48 \<le> hex_digit d \<and> hex_digit d < 103"
  by (auto simp: hex_digit_def)

lemma hex_digit_mod_range: "48 \<le> hex_digit (n mod 16) \<and> hex_digit (n mod 16) < 103"
  by (rule hex_digit_range) simp

lemma json_u_escape_printable:
  assumes "x \<in> set (json_u_escape n)"
  shows "32 \<le> x \<and> x < 127"
proof -
  from assms consider "x = 92" | "x = 117" | m where "x = hex_digit (m mod 16)"
    unfolding json_u_escape_def by (simp only: list.set insert_iff empty_iff) blast
  then show ?thesis
  proof cases
    case 3
    with hex_digit_mod_range [of m] show ?thesis by linarith
  qed simp_all
qed

lemma json_escape_char_printable: "x \<in> set (json_escape_char True c) \<Longrightarrow> 32 \<le> x \<and> x < 127"
  by (auto simp: json_escape_char_def dest: json_u_escape_printable split: if_splits)

text \<open>An ASCII-escaped JSON string has printable ASCII only, in particular no line break.\<close>

lemma json_quote_printable: "x \<in> set (json_quote True s) \<Longrightarrow> 32 \<le> x \<and> x < 127"
  by (auto simp: json_quote_def dest: json_escape_char_printable)

end
