(* ===== verification/Yolo_Utf8.thy ===== *)
theory Yolo_Utf8
  imports Yolo_Json "HOL-Library.Code_Target_Nat"
begin

text \<open>
  Text as UTF-8: the encoding of a list of code points, the decoder that ignores malformed input
  (\<open>bytes.decode("utf-8", errors="ignore")\<close>), and \<open>truncate_utf8\<close> of
  \<open>src/omarchy_yolo/util.py\<close>, which bounds a text by its encoded size. Bytes and code points are
  natural numbers. The texts the program encodes come from decoded output, so they hold scalar
  values only (\<open>scalar\<close>: no surrogates, at most \<open>0x10FFFF\<close>).
\<close>

section \<open>Encoding\<close>

definition scalar :: "nat \<Rightarrow> bool" where
  "scalar c \<longleftrightarrow> c < 0x110000 \<and> \<not> (0xD800 \<le> c \<and> c \<le> 0xDFFF)"

definition utf8_char :: "nat \<Rightarrow> nat list" where
  "utf8_char c =
     (if c < 0x80 then [c]
      else if c < 0x800 then [0xC0 + c div 64, 0x80 + c mod 64]
      else if c < 0x10000 then [0xE0 + c div 4096, 0x80 + c div 64 mod 64, 0x80 + c mod 64]
      else [0xF0 + c div 262144, 0x80 + c div 4096 mod 64, 0x80 + c div 64 mod 64, 0x80 + c mod 64])"

definition utf8_encode :: "code_points \<Rightarrow> nat list" where
  "utf8_encode s = concat (map utf8_char s)"

definition utf8_length :: "code_points \<Rightarrow> nat" where
  "utf8_length s = length (utf8_encode s)"

lemma utf8_char_length: "1 \<le> length (utf8_char c) \<and> length (utf8_char c) \<le> 4"
  by (simp add: utf8_char_def)

lemma utf8_char_ne [simp]: "utf8_char c \<noteq> []"
  by (simp add: utf8_char_def)

lemma utf8_encode_simps [simp]:
  "utf8_encode [] = []"
  "utf8_encode (c # s) = utf8_char c @ utf8_encode s"
  "utf8_encode (s @ t) = utf8_encode s @ utf8_encode t"
  by (simp_all add: utf8_encode_def)

lemma utf8_length_simps [simp]:
  "utf8_length [] = 0"
  "utf8_length (c # s) = length (utf8_char c) + utf8_length s"
  "utf8_length (s @ t) = utf8_length s + utf8_length t"
  by (simp_all add: utf8_length_def)

lemma utf8_length_concat: "utf8_length (concat ss) = sum_list (map utf8_length ss)"
  by (induction ss) auto

lemma length_le_utf8_length: "length s \<le> utf8_length s"
proof (induction s)
  case (Cons c s)
  then show ?case using utf8_char_length [of c] by simp
qed simp

lemma utf8_length_ascii: "list_all (\<lambda>c. c < 0x80) s \<Longrightarrow> utf8_length s = length s"
  by (induction s) (simp_all add: utf8_char_def)

section \<open>Decoding\<close>

definition continuation :: "nat \<Rightarrow> bool" where
  "continuation b \<longleftrightarrow> 0x80 \<le> b \<and> b < 0xC0"

text \<open>
  The code point of a well-formed sequence at the head, with the number of bytes it takes, or
  \<^term>\<open>None\<close>: overlong forms, surrogates and values above \<open>0x10FFFF\<close> are malformed.
\<close>

definition utf8_head :: "nat list \<Rightarrow> (nat \<times> nat) option" where
  "utf8_head bs =
     (case bs of
        [] \<Rightarrow> None
      | b # bs \<Rightarrow>
          if b < 0x80 then Some (b, 1)
          else if 0xC2 \<le> b \<and> b < 0xE0 then
            (case bs of
               c1 # _ \<Rightarrow> if continuation c1 then Some ((b - 0xC0) * 64 + (c1 - 0x80), 2) else None
             | _ \<Rightarrow> None)
          else if 0xE0 \<le> b \<and> b < 0xF0 then
            (case bs of
               c1 # c2 # _ \<Rightarrow>
                 let c = (b - 0xE0) * 4096 + (c1 - 0x80) * 64 + (c2 - 0x80)
                 in if continuation c1 \<and> continuation c2 \<and> 0x800 \<le> c \<and> scalar c
                    then Some (c, 3) else None
             | _ \<Rightarrow> None)
          else if 0xF0 \<le> b \<and> b < 0xF5 then
            (case bs of
               c1 # c2 # c3 # _ \<Rightarrow>
                 let c = (b - 0xF0) * 262144 + (c1 - 0x80) * 4096 + (c2 - 0x80) * 64 + (c3 - 0x80)
                 in if continuation c1 \<and> continuation c2 \<and> continuation c3 \<and> 0x10000 \<le> c \<and> scalar c
                    then Some (c, 4) else None
             | _ \<Rightarrow> None)
          else None)"

text \<open>
  Decoding with an error handler: at a malformed position the handler gives the text to emit and
  how many bytes behind the first one belong to the malformed part.
\<close>

type_synonym utf8_handler = "nat list \<Rightarrow> code_points \<times> nat"

function utf8_decode :: "utf8_handler \<Rightarrow> nat list \<Rightarrow> code_points" where
  "utf8_decode bad [] = []"
| "utf8_decode bad (b # bs) =
     (case utf8_head (b # bs) of
        Some (c, n) \<Rightarrow> c # utf8_decode bad (drop (n - 1) bs)
      | None \<Rightarrow> (case bad (b # bs) of (out, k) \<Rightarrow> out @ utf8_decode bad (drop k bs)))"
  by pat_completeness auto
termination by (relation "measure (length \<circ> snd)") auto

text \<open>
  The handlers \<open>ignore\<close>, \<open>replace\<close> (one replacement character for a maximal well-formed start of a
  sequence) and \<open>surrogateescape\<close> (each byte as a low surrogate).
\<close>

definition second_byte_ok :: "nat \<Rightarrow> nat \<Rightarrow> bool" where
  "second_byte_ok b c1 \<longleftrightarrow> continuation c1 \<and>
     (b = 0xE0 \<longrightarrow> 0xA0 \<le> c1) \<and> (b = 0xED \<longrightarrow> c1 < 0xA0) \<and>
     (b = 0xF0 \<longrightarrow> 0x90 \<le> c1) \<and> (b = 0xF4 \<longrightarrow> c1 < 0x90)"

definition malformed_tail :: "nat list \<Rightarrow> nat" where
  "malformed_tail bs =
     (case bs of
        b # c1 # rest \<Rightarrow>
          if 0xE0 \<le> b \<and> b < 0xF5 \<and> second_byte_ok b c1
          then (case rest of
                  c2 # _ \<Rightarrow> if 0xF0 \<le> b \<and> continuation c2 then 2 else 1
                | _ \<Rightarrow> 1)
          else 0
      | _ \<Rightarrow> 0)"

definition utf8_decode_ignore :: "nat list \<Rightarrow> code_points" where
  "utf8_decode_ignore = utf8_decode (\<lambda>_. ([], 0))"

definition utf8_decode_replace :: "nat list \<Rightarrow> code_points" where
  "utf8_decode_replace = utf8_decode (\<lambda>bs. ([0xFFFD], malformed_tail bs))"

definition fs_decode :: "nat list \<Rightarrow> code_points" where
  "fs_decode = utf8_decode (\<lambda>bs. ([0xDC00 + hd bs], 0))"

lemma div_digits:
  "c div 4096 = c div 64 div 64" "c div 262144 = c div 64 div 64 div 64"
  for c :: nat
  by (simp_all flip: div_mult2_eq)

lemma digits_64:
  "c div 4096 * 4096 + c div 64 mod 64 * 64 + c mod 64 = c"
  "c div 262144 * 262144 + c div 4096 mod 64 * 4096 + c div 64 mod 64 * 64 + c mod 64 = c"
  for c :: nat
proof -
  let ?d = "c div 64"
  have c: "?d * 64 + c mod 64 = c" by (rule div_mult_mod_eq)
  have d: "?d div 64 * 64 + ?d mod 64 = ?d" by (rule div_mult_mod_eq)
  have e: "?d div 64 div 64 * 64 + ?d div 64 mod 64 = ?d div 64" by (rule div_mult_mod_eq)
  show "c div 4096 * 4096 + c div 64 mod 64 * 64 + c mod 64 = c"
    unfolding div_digits using c d by linarith
  show "c div 262144 * 262144 + c div 4096 mod 64 * 4096 + c div 64 mod 64 * 64 + c mod 64 = c"
    unfolding div_digits using c d e by linarith
qed

lemma utf8_head_char: "scalar c \<Longrightarrow> utf8_head (utf8_char c @ bs) = Some (c, length (utf8_char c))"
proof -
  assume sc: "scalar c"
  consider "c < 0x80" | "0x80 \<le> c" "c < 0x800" | "0x800 \<le> c" "c < 0x10000" | "0x10000 \<le> c" "c < 0x110000"
    using sc by (fastforce simp: scalar_def)
  then show ?thesis
  proof cases
    case 1
    then show ?thesis by (simp add: utf8_char_def utf8_head_def)
  next
    case 2
    then have "2 \<le> c div 64" "c div 64 < 32" by auto
    then show ?thesis using 2 by (simp add: utf8_char_def utf8_head_def continuation_def)
  next
    case 3
    have "c div 4096 < 16" using 3 by auto
    moreover have "c div 4096 * 4096 + c div 64 mod 64 * 64 + c mod 64 = c" by (rule digits_64)
    ultimately show ?thesis
      using 3 sc by (simp add: utf8_char_def utf8_head_def continuation_def Let_def)
  next
    case 4
    have "c div 262144 < 5" using 4 by auto
    moreover have "c div 262144 * 262144 + c div 4096 mod 64 * 4096 + c div 64 mod 64 * 64 + c mod 64 = c"
      by (rule digits_64)
    ultimately show ?thesis
      using 4 sc by (simp add: utf8_char_def utf8_head_def continuation_def Let_def)
  qed
qed

lemma utf8_decode_char:
  "scalar c \<Longrightarrow> utf8_decode bad (utf8_char c @ bs) = c # utf8_decode bad bs"
proof -
  assume "scalar c"
  note head = utf8_head_char [OF this, of bs]
  obtain b rest where b: "utf8_char c = b # rest" by (cases "utf8_char c") auto
  from head show ?thesis by (simp add: b)
qed

lemma utf8_decode_encode: "list_all scalar s \<Longrightarrow> utf8_decode bad (utf8_encode s) = s"
  by (induction s) (simp_all add: utf8_decode_char)

text \<open>A character cut short decodes to nothing.\<close>

lemma utf8_char_shape:
  assumes "utf8_char c = b # bs"
  shows "list_all continuation bs"
  using assms by (auto simp: utf8_char_def continuation_def split: if_splits)

lemma utf8_head_cut:
  assumes sc: "scalar c" and shape: "utf8_char c = b # bs" and m: "m < length bs"
  shows "utf8_head (b # take m bs) = None"
proof -
  obtain t where t: "take m bs = t" and len: "length t < length bs" using m by simp
  consider "0x80 \<le> c" "c < 0x800" | "0x800 \<le> c" "c < 0x10000" | "0x10000 \<le> c" "c < 0x110000"
    using assms by (fastforce simp: scalar_def utf8_char_def)
  then show ?thesis
  proof cases
    case 1
    with m shape have "m = 0" "0xC2 \<le> b" "b < 0xE0" by (auto simp: utf8_char_def)
    then show ?thesis by (simp add: utf8_head_def)
  next
    case 2
    with shape have "length bs = 2" "0xE0 \<le> b" "b < 0xF0" by (auto simp: utf8_char_def)
    with len show ?thesis by (auto simp: t utf8_head_def split: list.splits)
  next
    case 3
    with shape have "length bs = 3" "0xF0 \<le> b" "b < 0xF5" by (auto simp: utf8_char_def)
    with len show ?thesis by (auto simp: t utf8_head_def split: list.splits)
  qed
qed

lemma utf8_decode_continuations: "list_all continuation bs \<Longrightarrow> utf8_decode_ignore bs = []"
proof (induction bs)
  case (Cons b bs)
  then have "utf8_head (b # bs) = None" by (simp add: utf8_head_def continuation_def)
  with Cons show ?case by (simp add: utf8_decode_ignore_def)
qed (simp add: utf8_decode_ignore_def)

lemma utf8_decode_partial:
  assumes "scalar c" and "n < length (utf8_char c)"
  shows "utf8_decode_ignore (take n (utf8_char c)) = []"
proof (cases n)
  case (Suc m)
  obtain b bs where shape: "utf8_char c = b # bs" by (cases "utf8_char c") auto
  with Suc assms(2) have "m < length bs" by simp
  note cut = utf8_head_cut [OF assms(1) shape this]
  have "list_all continuation (take m bs)"
    using utf8_char_shape [OF shape] by (auto simp: list_all_iff dest: in_set_takeD)
  with Suc shape cut show ?thesis
    using utf8_decode_continuations [of "take m bs"] by (simp add: utf8_decode_ignore_def)
qed (simp add: utf8_decode_ignore_def)

lemma utf8_decode_take:
  assumes "list_all scalar s"
  shows "\<exists>k. utf8_decode_ignore (take n (utf8_encode s)) = take k s \<and> utf8_length (take k s) \<le> n"
  using assms
proof (induction s arbitrary: n)
  case Nil
  then show ?case by (simp add: utf8_decode_ignore_def)
next
  case (Cons c s)
  show ?case
  proof (cases "n < length (utf8_char c)")
    case True
    with Cons.prems utf8_decode_partial [of c n] show ?thesis by (intro exI [of _ 0]) simp
  next
    case False
    let ?m = "n - length (utf8_char c)"
    from Cons obtain k where k: "utf8_decode_ignore (take ?m (utf8_encode s)) = take k s"
      "utf8_length (take k s) \<le> ?m" by auto
    from False have "take n (utf8_encode (c # s)) = utf8_char c @ take ?m (utf8_encode s)" by simp
    with k Cons.prems False show ?thesis
      by (intro exI [of _ "Suc k"]) (simp add: utf8_decode_char utf8_decode_ignore_def)
  qed
qed

section \<open>Bounding a text by its encoded size\<close>

definition truncation_marker :: code_points where
  "truncation_marker = 10 # cps ''...[truncated]...'' @ [10]"

definition truncate_utf8 :: "code_points \<Rightarrow> nat \<Rightarrow> code_points \<Rightarrow> code_points" where
  "truncate_utf8 value max_bytes marker =
     (let encoded = utf8_encode value
      in if length encoded \<le> max_bytes then value
         else let budget = max_bytes - length (utf8_encode marker)
              in utf8_decode_ignore (take budget encoded) @ marker)"

text \<open>
  A truncated text never exceeds the byte limit (or the size of the marker, where that is
  larger), it is the text itself when that fits, and otherwise a prefix of it followed by the
  marker, cut between two characters.
\<close>

theorem truncate_utf8_bound:
  assumes "list_all scalar value"
  shows "utf8_length (truncate_utf8 value max_bytes marker) \<le> max max_bytes (utf8_length marker) \<and>
    truncate_utf8 value max_bytes marker =
      (if utf8_length value \<le> max_bytes then value
       else take (length (truncate_utf8 value max_bytes marker) - length marker) value @ marker)"
proof (cases "utf8_length value \<le> max_bytes")
  case True
  then show ?thesis by (simp add: truncate_utf8_def utf8_length_def Let_def)
next
  case False
  let ?n = "max_bytes - utf8_length marker"
  obtain k where k: "utf8_decode_ignore (take ?n (utf8_encode value)) = take k value"
    "utf8_length (take k value) \<le> ?n"
    using utf8_decode_take [OF assms, of ?n] by blast
  have cut: "truncate_utf8 value max_bytes marker = take k value @ marker"
    using False k(1) by (simp add: truncate_utf8_def utf8_length_def Let_def)
  have "take (length (take k value)) value = take k value"
    by (simp add: take_all_iff min_def)
  with cut False k(2) show ?thesis by auto
qed

lemma truncate_utf8_bound_witness:
  "utf8_length (truncate_utf8 (replicate 30 8364) 40 truncation_marker) \<le> 40"
proof -
  have s: "list_all scalar (replicate 30 8364)" by (simp add: list_all_iff scalar_def)
  have m: "utf8_length truncation_marker = 19"
    by code_simp
  from truncate_utf8_bound [OF s, of 40 truncation_marker] m show ?thesis by simp
qed

end
