(* ===== verification/Yolo_Util.thy ===== *)
theory Yolo_Util
  imports Yolo_Json
begin

text \<open>
  The text helpers of \<open>src/omarchy_yolo/util.py\<close>: payloads decoded from the output of an agent
  and the search for the last JSON object of it, slugs, job identifiers, and the filter that
  makes untrusted text safe to print. The JSON decoder of the interpreter is an argument
  (\<open>decode w i\<close> is \<open>raw_decode(w, i)\<close>, with \<^term>\<open>None\<close> for \<open>JSONDecodeError\<close>), so the facts hold
  for every decoder.
\<close>

text \<open>\<open>str(i)\<close> of an integer.\<close>

definition int_str :: "int \<Rightarrow> string" where
  "int_str i = map char_of (int_text i)"

text \<open>A name in single quotes, and \<open>repr\<close> of a text and of a list of texts.\<close>

definition quoted :: "string \<Rightarrow> string" where
  "quoted s = CHR 0x27 # s @ [CHR 0x27]"

definition hex_byte :: "char \<Rightarrow> string" where
  "hex_byte c = (let n = (of_char c :: nat) in [char_of (hex_digit (n div 16)), char_of (hex_digit (n mod 16))])"

definition repr_char :: "char \<Rightarrow> char \<Rightarrow> string" where
  "repr_char q c =
     (let n = (of_char c :: nat)
      in if c = q \<or> c = CHR 0x5C then [CHR 0x5C, c]
         else if c = CHR 0x0A then [CHR 0x5C, CHR ''n'']
         else if c = CHR 0x0D then [CHR 0x5C, CHR ''r'']
         else if c = CHR 0x09 then [CHR 0x5C, CHR ''t'']
         else if n < 32 \<or> (127 \<le> n \<and> n \<le> 160) \<or> n = 173 then CHR 0x5C # CHR ''x'' # hex_byte c
         else [c])"

definition py_repr :: "string \<Rightarrow> string" where
  "py_repr s =
     (let q = (if CHR 0x27 \<in> set s \<and> CHR 0x22 \<notin> set s then CHR 0x22 else CHR 0x27)
      in q # concat (map (repr_char q) s) @ [q])"

definition repr_list :: "string list \<Rightarrow> string" where
  "repr_list ss = ''['' @ join_with '', '' (map py_repr ss) @ '']''"

section \<open>Decoded payloads\<close>

datatype payload =
    PNull
  | PBool bool
  | PInt int
  | PFloat string
  | PStr string
  | PList "payload list"
  | PDict "(string \<times> payload) list"

type_synonym payload_dict = "(string \<times> payload) list"

text \<open>\<open>d.get(key)\<close> and \<open>d.get(key, default)\<close>.\<close>

definition dict_get :: "payload_dict \<Rightarrow> string \<Rightarrow> payload option" where
  "dict_get d key = map_of d key"

definition dict_get_or :: "payload_dict \<Rightarrow> string \<Rightarrow> payload \<Rightarrow> payload" where
  "dict_get_or d key dflt = (case map_of d key of None \<Rightarrow> dflt | Some v \<Rightarrow> v)"

fun as_str :: "payload \<Rightarrow> string option" where
  "as_str (PStr s) = Some s"
| "as_str _ = None"

fun as_dict :: "payload \<Rightarrow> payload_dict option" where
  "as_dict (PDict d) = Some d"
| "as_dict _ = None"

fun as_list :: "payload \<Rightarrow> payload list option" where
  "as_list (PList vs) = Some vs"
| "as_list _ = None"

lemma as_str_Some [simp]: "as_str v = Some s \<longleftrightarrow> v = PStr s"
  by (cases v) auto

lemma as_dict_Some [simp]: "as_dict v = Some d \<longleftrightarrow> v = PDict d"
  by (cases v) auto

lemma as_list_Some [simp]: "as_list v = Some vs \<longleftrightarrow> v = PList vs"
  by (cases v) auto

section \<open>The last JSON object of an output\<close>

definition MAX_STRUCTURED_OUTPUT_CHARS :: nat where
  "MAX_STRUCTURED_OUTPUT_CHARS = 262144"

definition MAX_JSON_DECODE_ATTEMPTS :: nat where
  "MAX_JSON_DECODE_ATTEMPTS = 512"

type_synonym decoder = "string \<Rightarrow> nat \<Rightarrow> payload option"

definition no_object_error :: py_error where
  "no_object_error = YoloError ''agent output did not contain a valid JSON object''"

text \<open>The loop at \<open>index\<close>, going down; the argument is the number of positions left.\<close>

fun scan_json :: "decoder \<Rightarrow> string \<Rightarrow> nat \<Rightarrow> nat \<Rightarrow> py_error + payload_dict" where
  "scan_json decode window attempts 0 = Inl no_object_error"
| "scan_json decode window attempts (Suc index) =
     (if window ! index \<noteq> CHR ''{'' then scan_json decode window attempts index
      else if attempts + 1 > MAX_JSON_DECODE_ATTEMPTS then Inl no_object_error
      else case Option.bind (decode window index) as_dict of
             Some d \<Rightarrow> Inr d
           | None \<Rightarrow> scan_json decode window (attempts + 1) index)"

definition extract_json_object :: "decoder \<Rightarrow> string \<Rightarrow> py_error + payload_dict" where
  "extract_json_object decode text =
     (let window = py_last MAX_STRUCTURED_OUTPUT_CHARS text
      in scan_json decode window 0 (length window))"

text \<open>
  The position \<open>i\<close> of \<open>w\<close> opens an object, and the reference reading of the search: the object
  opened last, with at most 512 braces from it to the end.
\<close>

definition opens_object :: "decoder \<Rightarrow> string \<Rightarrow> nat \<Rightarrow> payload_dict \<Rightarrow> bool" where
  "opens_object decode w i d \<longleftrightarrow> w ! i = CHR ''{'' \<and> decode w i = Some (PDict d)"

definition braces_between :: "string \<Rightarrow> nat \<Rightarrow> nat \<Rightarrow> nat" where
  "braces_between w i n = length (filter (\<lambda>k. w ! k = CHR ''{'') [i..<n])"

lemma braces_between_Suc:
  "i \<le> n \<Longrightarrow> braces_between w i (Suc n) =
     braces_between w i n + (if w ! n = CHR ''{'' then 1 else 0)"
  by (simp add: braces_between_def)

lemma scan_json_exact:
  "scan_json decode w a n = Inr d \<longleftrightarrow>
   (\<exists>i < n. opens_object decode w i d \<and> a + braces_between w i n \<le> MAX_JSON_DECODE_ATTEMPTS \<and>
      (\<forall>k d'. i < k \<longrightarrow> k < n \<longrightarrow> \<not> opens_object decode w k d'))"
proof (induction n arbitrary: a)
  case 0
  then show ?case by simp
next
  case (Suc n)
  have split: "(\<exists>i < Suc n. P i) \<longleftrightarrow> P n \<or> (\<exists>i < n. P i)" for P
    by (auto simp: less_Suc_eq)
  show ?case
  proof (cases "\<exists>d'. opens_object decode w n d'")
    case True
    then obtain d' where d': "opens_object decode w n d'" by blast
    then have none: "\<not> (\<exists>i < n. opens_object decode w i d \<and> Q i \<and>
        (\<forall>k d'. i < k \<longrightarrow> k < Suc n \<longrightarrow> \<not> opens_object decode w k d'))" for Q
      by (meson lessI)
    from d' show ?thesis
      unfolding split using none [of "\<lambda>i. a + braces_between w i (Suc n) \<le> MAX_JSON_DECODE_ATTEMPTS"]
      by (simp add: opens_object_def braces_between_def) (use Suc_leI in auto)
  next
    case False
    then have step: "scan_json decode w a (Suc n) =
      (if w ! n \<noteq> CHR ''{'' then scan_json decode w a n
       else if a + 1 > MAX_JSON_DECODE_ATTEMPTS then Inl no_object_error
       else scan_json decode w (a + 1) n)"
      by (auto simp: opens_object_def bind_eq_Some_conv split: option.splits)
    have ext: "(\<forall>k d'. i < k \<longrightarrow> k < Suc n \<longrightarrow> \<not> opens_object decode w k d') \<longleftrightarrow>
      (\<forall>k d'. i < k \<longrightarrow> k < n \<longrightarrow> \<not> opens_object decode w k d')" for i
      using False less_Suc_eq by auto
    have cnt: "i < n \<Longrightarrow> braces_between w i (Suc n) =
      braces_between w i n + (if w ! n = CHR ''{'' then 1 else 0)" for i
      by (simp add: braces_between_Suc)
    show ?thesis
      unfolding split ext step
      using False Suc.IH [of a] Suc.IH [of "a + 1"] cnt
      by (auto simp: algebra_simps)
  qed
qed

section \<open>Slugs and identifiers\<close>

definition is_ascii_digit :: "char \<Rightarrow> bool" where
  "is_ascii_digit c = (let n = (of_char c :: nat) in 48 \<le> n \<and> n \<le> 57)"

definition is_ascii_lower :: "char \<Rightarrow> bool" where
  "is_ascii_lower c = (let n = (of_char c :: nat) in 97 \<le> n \<and> n \<le> 122)"

definition is_ascii_upper :: "char \<Rightarrow> bool" where
  "is_ascii_upper c = (let n = (of_char c :: nat) in 65 \<le> n \<and> n \<le> 90)"

definition is_ascii_alpha :: "char \<Rightarrow> bool" where
  "is_ascii_alpha c = (is_ascii_lower c \<or> is_ascii_upper c)"

definition is_mark :: "char \<Rightarrow> bool" where
  "is_mark c = (c \<in> {CHR ''_'', CHR ''.'', CHR ''-''})"

text \<open>The class \<open>[a-z0-9._-]\<close>.\<close>

definition slug_char :: "char \<Rightarrow> bool" where
  "slug_char c = (is_ascii_lower c \<or> is_ascii_digit c \<or> is_mark c)"

text \<open>\<open>re.sub(r"[^a-z0-9._-]+", "-", s)\<close>: a maximal run of other characters becomes one dash.\<close>

fun dash_runs :: "bool \<Rightarrow> string \<Rightarrow> string" where
  "dash_runs in_run [] = []"
| "dash_runs in_run (c # s) =
     (if slug_char c then c # dash_runs False s
      else if in_run then dash_runs True s
      else CHR ''-'' # dash_runs True s)"

definition rstrip_marks :: "string \<Rightarrow> string" where
  "rstrip_marks s = rev (dropWhile is_mark (rev s))"

definition strip_marks :: "string \<Rightarrow> string" where
  "strip_marks s = rstrip_marks (dropWhile is_mark s)"

definition or_task :: "string \<Rightarrow> string" where
  "or_task s = (if s = [] then ''task'' else s)"

definition slug :: "nat \<Rightarrow> string \<Rightarrow> string" where
  "slug max_len value =
     or_task (rstrip_marks
       (py_first max_len (or_task (strip_marks (dash_runs False (py_lower (py_strip value)))))))"

lemma dash_runs_chars: "c \<in> set (dash_runs b s) \<Longrightarrow> slug_char c"
  by (induction b s rule: dash_runs.induct)
    (auto simp: slug_char_def is_mark_def split: if_splits)

lemma rstrip_marks_sub: "set (rstrip_marks s) \<subseteq> set s"
  by (auto simp: rstrip_marks_def dest: set_dropWhileD)

lemma strip_marks_sub: "set (strip_marks s) \<subseteq> set s"
  unfolding strip_marks_def using rstrip_marks_sub [of "dropWhile is_mark s"] set_dropWhileD
  by fast

lemma rstrip_marks_last: "rstrip_marks s \<noteq> [] \<Longrightarrow> \<not> is_mark (last (rstrip_marks s))"
  unfolding rstrip_marks_def by (simp add: last_rev hd_dropWhile)

lemma length_rstrip_marks: "length (rstrip_marks s) \<le> length s"
  by (simp add: rstrip_marks_def) (metis length_dropWhile_le length_rev)

lemma strip_marks_hd: "strip_marks s \<noteq> [] \<Longrightarrow> \<not> is_mark (hd (strip_marks s))"
proof -
  assume ne: "strip_marks s \<noteq> []"
  let ?d = "dropWhile is_mark s"
  from ne have d: "?d \<noteq> []" by (metis strip_marks_def rstrip_marks_def dropWhile.simps(1) rev.simps(1))
  obtain pre where "?d = strip_marks s @ pre"
    unfolding strip_marks_def rstrip_marks_def
    by (metis rev_append rev_rev_ident takeWhile_dropWhile_id)
  with ne have "hd (strip_marks s) = hd ?d" by (metis hd_append2)
  with d show ?thesis by (simp add: hd_dropWhile)
qed

lemma rstrip_marks_prefix: "\<exists>rest. s = rstrip_marks s @ rest"
  unfolding rstrip_marks_def by (metis rev_append rev_rev_ident takeWhile_dropWhile_id)

text \<open>\<open>_JOB_ID_RE.fullmatch\<close> and \<open>validate_job_id\<close>.\<close>

definition is_hex_lower :: "char \<Rightarrow> bool" where
  "is_hex_lower c = (is_ascii_digit c \<or> (let n = (of_char c :: nat) in 97 \<le> n \<and> n \<le> 102))"

definition job_id_matches :: "string \<Rightarrow> bool" where
  "job_id_matches s = (length s = 16 \<and> take 4 s = ''job_'' \<and> list_all is_hex_lower (drop 4 s))"

definition validate_job_id :: "string \<Rightarrow> py_error + string" where
  "validate_job_id s =
     (if job_id_matches s then Inr s else Inl (YoloError ''invalid job id''))"

text \<open>\<open>new_id\<close>: the first twelve hexadecimal digits of a random identifier.\<close>

definition new_id :: "string \<Rightarrow> string \<Rightarrow> string" where
  "new_id uuid_hex prefix = prefix @ ''_'' @ py_first 12 uuid_hex"

lemma new_job_id_valid:
  assumes "length h = 32" and "list_all is_hex_lower h"
  shows "validate_job_id (new_id h ''job'') = Inr (new_id h ''job'')"
proof -
  have "list_all is_hex_lower (take 12 h)"
    using assms(2) by (auto simp: list_all_iff dest: in_set_takeD)
  with assms(1) show ?thesis
    by (simp add: validate_job_id_def job_id_matches_def new_id_def py_first_def)
qed

definition redact_env_key :: "string \<Rightarrow> bool" where
  "redact_env_key key =
     (let upper = map (\<lambda>c. if is_ascii_lower c then char_of ((of_char c :: nat) - 32) else c) key
      in list_ex (\<lambda>token. contains token upper)
           [''TOKEN'', ''SECRET'', ''PASSWORD'', ''API_KEY'', ''AUTH''])"

section \<open>Text that is safe to print\<close>

definition in_range :: "nat \<Rightarrow> nat \<Rightarrow> char \<Rightarrow> bool" where
  "in_range lo hi c = (lo \<le> of_char c \<and> of_char c \<le> hi)"

text \<open>
  One match of \<open>_ANSI_RE\<close> at the head of the text: the rest behind it, or \<^term>\<open>None\<close>. The classes of
  the first alternative are disjoint and the class of the second excludes its terminators, so
  the greedy match is the only one.
\<close>

definition match_csi :: "string \<Rightarrow> string option" where
  "match_csi s =
     (case dropWhile (in_range 32 47) (dropWhile (in_range 48 63) s) of
        [] \<Rightarrow> None
      | c # rest \<Rightarrow> if in_range 64 126 c then Some rest else None)"

definition match_osc :: "string \<Rightarrow> string option" where
  "match_osc s =
     (case dropWhile (\<lambda>c. c \<noteq> CHR 0x07 \<and> c \<noteq> CHR 0x1B) s of
        [] \<Rightarrow> None
      | c # rest \<Rightarrow>
          if c = CHR 0x07 then Some rest
          else case rest of
                 [] \<Rightarrow> None
               | d # rest' \<Rightarrow> if d = CHR 0x5C then Some rest' else None)"

fun match_ansi :: "string \<Rightarrow> string option" where
  "match_ansi (e # b # s) =
     (if e \<noteq> CHR 0x1B then None
      else if b = CHR ''['' then match_csi s
      else if b = CHR '']'' then match_osc s
      else None)"
| "match_ansi _ = None"

lemma match_csi_shorter: "match_csi s = Some rest \<Longrightarrow> length rest < length s"
proof -
  assume "match_csi s = Some rest"
  then have "length rest < length (dropWhile (in_range 32 47) (dropWhile (in_range 48 63) s))"
    by (auto simp: match_csi_def split: list.splits if_splits)
  also have "\<dots> \<le> length s" by (metis length_dropWhile_le order_trans)
  finally show ?thesis .
qed

lemma match_osc_shorter: "match_osc s = Some rest \<Longrightarrow> length rest < length s"
proof -
  assume "match_osc s = Some rest"
  then have "length rest < length (dropWhile (\<lambda>c. c \<noteq> CHR 0x07 \<and> c \<noteq> CHR 0x1B) s)"
    by (auto simp: match_osc_def split: list.splits if_splits)
  also have "\<dots> \<le> length s" by (rule length_dropWhile_le)
  finally show ?thesis .
qed

lemma match_ansi_shorter: "match_ansi s = Some rest \<Longrightarrow> length rest < length s"
proof (induction s rule: match_ansi.induct)
  case (1 e b s)
  then show ?case
    using match_csi_shorter [of s rest] match_osc_shorter [of s rest] by (auto split: if_splits)
qed simp_all

function ansi_sub :: "string \<Rightarrow> string" where
  "ansi_sub [] = []"
| "ansi_sub (c # s) =
     (case match_ansi (c # s) of
        Some rest \<Rightarrow> ansi_sub rest
      | None \<Rightarrow> c # ansi_sub s)"
  by pat_completeness auto
termination
  by (relation "measure length") (use match_ansi_shorter in force)+

text \<open>The loop over the characters: the text one character leaves behind.\<close>

definition clean_char :: "bool \<Rightarrow> char \<Rightarrow> string" where
  "clean_char single_line c =
     (let code = (of_char c :: nat)
      in if code = 10 \<and> \<not> single_line then [c]
         else if code = 9 \<and> \<not> single_line then [c]
         else if 32 \<le> code \<and> code \<noteq> 127 then [c]
         else if single_line \<and> code \<in> {10, 13, 9} then '' ''
         else [])"

text \<open>
  \<open>str.splitlines\<close> on code points below 256; the pair carriage return, line feed is one break
  and a final break opens no further line.
\<close>

definition is_line_break :: "char \<Rightarrow> bool" where
  "is_line_break c = (let n = (of_char c :: nat) in n \<in> {10, 11, 12, 13, 28, 29, 30, 133})"

definition skip_line_feed :: "char \<Rightarrow> string \<Rightarrow> string" where
  "skip_line_feed c s =
     (case s of
        [] \<Rightarrow> []
      | d # s' \<Rightarrow> if c = CHR 0x0D \<and> d = CHR 0x0A then s' else s)"

lemma skip_line_feed_set: "set (skip_line_feed c s) \<subseteq> set s"
  by (auto simp: skip_line_feed_def split: list.splits if_splits)

lemma skip_line_feed_length: "length (skip_line_feed c s) \<le> length s"
  by (simp add: skip_line_feed_def split: list.splits)

function split_lines :: "string \<Rightarrow> string \<Rightarrow> string list" where
  "split_lines acc [] = (if acc = [] then [] else [rev acc])"
| "split_lines acc (c # s) =
     (if is_line_break c then rev acc # split_lines [] (skip_line_feed c s)
      else split_lines (c # acc) s)"
  by pat_completeness auto
termination
  by (relation "measure (length \<circ> snd)") (auto simp: skip_line_feed_length le_imp_less_Suc)

definition py_splitlines :: "string \<Rightarrow> string list" where
  "py_splitlines s = split_lines [] s"

definition terminal_safe :: "bool \<Rightarrow> nat \<Rightarrow> string \<Rightarrow> string" where
  "terminal_safe single_line max_chars text =
     (let cleaned = concat (map (clean_char single_line) (ansi_sub text));
          result = if single_line then join_with '' '' (py_splitlines cleaned) else cleaned
      in py_first max_chars result)"

lemma join_with_set: "set (join_with sep parts) \<subseteq> set sep \<union> \<Union> (set ` set parts)"
  by (induction sep parts rule: join_with.induct) auto

lemma split_lines_set:
  "\<lbrakk>line \<in> set (split_lines acc s); c \<in> set line; list_all (Not \<circ> is_line_break) acc\<rbrakk> \<Longrightarrow>
   (c \<in> set acc \<or> c \<in> set s) \<and> \<not> is_line_break c"
proof (induction acc s rule: split_lines.induct)
  case (1 acc)
  then show ?case by (auto simp: list_all_iff split: if_splits)
next
  case (2 acc d s)
  show ?case
  proof (cases "is_line_break d")
    case True
    let ?rest = "skip_line_feed d s"
    note sub = skip_line_feed_set [of d s]
    from 2(3) True consider "line = rev acc" | "line \<in> set (split_lines [] ?rest)" by auto
    then show ?thesis
    proof cases
      case 1
      with 2(4,5) show ?thesis by (auto simp: list_all_iff)
    next
      case 2
      from "2.IH"(1) [OF True this] \<open>c \<in> set line\<close> have
        "c \<in> set ?rest \<and> \<not> is_line_break c" by simp
      with sub show ?thesis by auto
    qed
  next
    case False
    with 2(3) have "line \<in> set (split_lines (d # acc) s)" by simp
    from "2.IH"(2) [OF False this 2(4)] 2(5) False show ?thesis by auto
  qed
qed

lemma clean_char_set: "x \<in> set (clean_char single c) \<Longrightarrow>
   (32 \<le> (of_char x :: nat) \<and> (of_char x :: nat) \<noteq> 127) \<or>
   (\<not> single \<and> (of_char x :: nat) \<in> {9, 10})"
  by (auto simp: clean_char_def Let_def split: if_splits)

section \<open>What the helpers guarantee\<close>

text \<open>A slug: not empty, only class characters, no mark at either end, bounded length.\<close>

definition is_slug :: "nat \<Rightarrow> string \<Rightarrow> bool" where
  "is_slug n s \<longleftrightarrow> s \<noteq> [] \<and> list_all slug_char s \<and> \<not> is_mark (hd s) \<and> \<not> is_mark (last s) \<and>
     length s \<le> max n 4"

lemma task_is_slug: "is_slug n ''task''"
  by (simp add: is_slug_def slug_char_def is_ascii_lower_def is_mark_def)

lemma hd_py_first: "py_first n s \<noteq> [] \<Longrightarrow> hd (py_first n s) = hd s"
  by (cases n; cases s) (simp_all add: py_first_def)

lemma slug_is_slug: "is_slug n (slug n value)"
proof -
  let ?a = "or_task (strip_marks (dash_runs False (py_lower (py_strip value))))"
  let ?b = "rstrip_marks (py_first n ?a)"
  have a_chars: "slug_char c" if "c \<in> set ?a" for c
  proof (cases "strip_marks (dash_runs False (py_lower (py_strip value))) = []")
    case True
    with that task_is_slug [of 0] show ?thesis by (auto simp: or_task_def is_slug_def list_all_iff)
  next
    case False
    with that have "c \<in> set (dash_runs False (py_lower (py_strip value)))"
      using strip_marks_sub by (auto simp: or_task_def)
    then show ?thesis by (rule dash_runs_chars)
  qed
  have a_hd: "\<not> is_mark (hd ?a)"
    using strip_marks_hd task_is_slug [of 0] by (simp add: or_task_def is_slug_def)
  show ?thesis
  proof (cases "?b = []")
    case True
    then show ?thesis by (simp add: slug_def or_task_def task_is_slug)
  next
    case False
    obtain rest where rest: "py_first n ?a = ?b @ rest" using rstrip_marks_prefix by blast
    with False have "hd ?b = hd ?a" by (metis append_is_Nil_conv hd_append2 hd_py_first)
    moreover have "length ?b \<le> n"
      using length_rstrip_marks length_py_first order_trans by blast
    moreover have "set ?b \<subseteq> set ?a"
      using rstrip_marks_sub set_take_subset unfolding py_first_def by fast
    ultimately show ?thesis
      using False a_chars a_hd rstrip_marks_last [OF False]
      by (auto simp: slug_def or_task_def [of ?b] is_slug_def list_all_iff)
  qed
qed

text \<open>
  Text for the terminal: no character below the space and no delete except, in the multi-line
  form, line feeds and tabs, and a bounded length.
\<close>

definition printable_char :: "bool \<Rightarrow> char \<Rightarrow> bool" where
  "printable_char single_line c \<longleftrightarrow>
     (32 \<le> (of_char c :: nat) \<and> (of_char c :: nat) \<noteq> 127) \<or>
     (\<not> single_line \<and> (of_char c :: nat) \<in> {9, 10})"

lemma terminal_safe_printable:
  "length (terminal_safe single n text) \<le> n \<and>
   list_all (printable_char single) (terminal_safe single n text)"
proof -
  let ?cleaned = "concat (map (clean_char single) (ansi_sub text))"
  have clean: "printable_char single c" if "c \<in> set ?cleaned" for c
    using that clean_char_set [of c single] by (auto simp: printable_char_def)
  have lines: "printable_char True c" if "c \<in> set (join_with '' '' (py_splitlines ?cleaned))" and single
    for c
  proof -
    from that(1) consider "c = CHR '' ''" | line where "line \<in> set (py_splitlines ?cleaned)" "c \<in> set line"
      using join_with_set [of "'' ''" "py_splitlines ?cleaned"] by auto
    then show ?thesis
    proof cases
      case 1
      then show ?thesis by (simp add: printable_char_def)
    next
      case 2
      then have "c \<in> set ?cleaned"
        using split_lines_set [of line "[]" ?cleaned c] by (simp add: py_splitlines_def)
      with clean [OF this] \<open>single\<close> show ?thesis by simp
    qed
  qed
  have "c \<in> set (terminal_safe single n text) \<Longrightarrow> printable_char single c" for c
    using clean lines by (auto simp: terminal_safe_def py_first_def Let_def dest!: in_set_takeD split: if_splits)
  then show ?thesis by (auto simp: list_all_iff terminal_safe_def Let_def length_py_first)
qed

end
