(* ===== verification/Yolo_Review_Source.thy ===== *)
theory Yolo_Review_Source
  imports Yolo_Utf8 Yolo_Util
begin

text \<open>
  The raw material of the final review, \<open>src/omarchy_yolo/review_source.py\<close>: the list of changed
  files, the diff or metadata of each, and its division into byte-bounded shards that belong to
  one file each. Git is a subprocess and an argument of the model: \<open>git args\<close> is the outcome of
  the bounded query (after \<open>assert_worktree\<close>, whose refusal is an error value). Texts are lists of
  code points, since every bound is a number of UTF-8 bytes.
\<close>

section \<open>Bounded Git queries\<close>

record git_output =
  go_returncode :: int
  go_stdout :: "nat list"
  go_timed_out :: bool
  go_output_truncated :: bool
  go_timeout_seconds :: int

type_synonym git_query = "code_points list \<Rightarrow> nat \<Rightarrow> py_error + git_output"

definition MAX_CHANGED_FILE_LIST_BYTES :: nat where "MAX_CHANGED_FILE_LIST_BYTES = 2000000"
definition MAX_SINGLE_FILE_DIFF_BYTES :: nat where "MAX_SINGLE_FILE_DIFF_BYTES = 4000000"
definition MAX_TOTAL_REVIEW_DIFF_BYTES :: nat where "MAX_TOTAL_REVIEW_DIFF_BYTES = 32000000"
definition MAX_BINARY_METADATA_BYTES :: nat where "MAX_BINARY_METADATA_BYTES = 32000"

record review_chunk =
  rc_index :: nat
  rc_files :: "code_points list"
  rc_text :: code_points

text \<open>
  Texts of errors are strings of bytes: what is shown in them (the arguments of a query, a displayed
  path) is ASCII.
\<close>

definition shown :: "code_points \<Rightarrow> string" where
  "shown cs = map char_of cs"

definition git_bytes :: "git_query \<Rightarrow> code_points list \<Rightarrow> nat \<Rightarrow> py_error + nat list" where
  "git_bytes git args max_bytes =
     rbind (git args max_bytes) (\<lambda>out.
       if go_timed_out out then Inl (YoloError (''Git review query timed out after '' @
              int_str (go_timeout_seconds out) @ '' seconds''))
       else if go_output_truncated out
       then Inl (YoloError (''candidate review data exceeds the safety ceiling ('' @
              int_str (int max_bytes) @ '' bytes); split the change into smaller tasks''))
       else if go_returncode out \<noteq> 0 then Inl (YoloError (''Git review query failed with exit '' @
              int_str (go_returncode out) @ '': '' @ join_with '' '' (map shown (take 4 args))))
       else Inr (go_stdout out))"

definition git_text :: "git_query \<Rightarrow> code_points list \<Rightarrow> nat \<Rightarrow> py_error + code_points" where
  "git_text git args max_bytes =
     rbind (git_bytes git args max_bytes) (\<lambda>raw. Inr (utf8_decode_replace raw))"

section \<open>Paths in prompts\<close>

text \<open>
  The classes of \<open>_PLAIN_PROMPT_PATH_RE\<close>: a plain path consists of the characters of the first
  class and inner spaces.
\<close>

definition path_char :: "nat \<Rightarrow> bool" where
  "path_char c \<longleftrightarrow> (65 \<le> c \<and> c \<le> 90) \<or> (97 \<le> c \<and> c \<le> 122) \<or> (48 \<le> c \<and> c \<le> 57) \<or>
     c \<in> {46, 95, 47, 64, 43, 45}"

definition plain_path :: "code_points \<Rightarrow> bool" where
  "plain_path p \<longleftrightarrow> p \<noteq> [] \<and> path_char (hd p) \<and> path_char (last p) \<and>
     list_all (\<lambda>c. path_char c \<or> c = 32) p"

definition encoded_path_prefix :: code_points where
  "encoded_path_prefix = cps ''json:''"

definition display_path :: "code_points \<Rightarrow> code_points" where
  "display_path path =
     (if plain_path path \<and> \<not> starts_with encoded_path_prefix path then path
      else encoded_path_prefix @ json_quote True path)"

section \<open>Changed files and their content\<close>

fun split_at :: "nat \<Rightarrow> nat list \<Rightarrow> nat list list" where
  "split_at sep [] = [[]]"
| "split_at sep (b # bs) =
     (if b = sep then [] # split_at sep bs
      else case split_at sep bs of
             [] \<Rightarrow> [[b]]
           | part # parts \<Rightarrow> (b # part) # parts)"

definition too_many_files :: "nat \<Rightarrow> nat \<Rightarrow> py_error" where
  "too_many_files n max_files = YoloError (''candidate changes '' @ int_str (int n) @
     '' files; configured final-review maximum is '' @ int_str (int max_files))"

definition range_arg :: "code_points \<Rightarrow> code_points" where
  "range_arg base = base @ cps ''..HEAD''"

definition changed_files :: "git_query \<Rightarrow> code_points \<Rightarrow> nat \<Rightarrow> py_error + code_points list" where
  "changed_files git base max_files =
     rbind (git_bytes git [cps ''diff'', cps ''--name-only'', cps ''-z'', range_arg base]
              MAX_CHANGED_FILE_LIST_BYTES) (\<lambda>raw.
       let files = map fs_decode (filter (\<lambda>item. item \<noteq> []) (split_at 0 raw))
       in if length files > max_files then Inl (too_many_files (length files) max_files) else Inr files)"

text \<open>The first record of \<open>--numstat -z\<close> starts with a dash in both counters.\<close>

definition is_binary_change :: "git_query \<Rightarrow> code_points \<Rightarrow> code_points \<Rightarrow> py_error + bool" where
  "is_binary_change git base path =
     rbind (git_bytes git
              [cps ''diff'', cps ''--numstat'', cps ''-z'', range_arg base, cps ''--'', path]
              MAX_BINARY_METADATA_BYTES) (\<lambda>raw.
       let first_record = hd (split_at 0 raw);
           parts = split_at 9 first_record
       in Inr (length parts \<ge> 2 \<and> parts ! 0 = cps ''-'' \<and> parts ! 1 = cps ''-''))"

definition binary_notice :: code_points where
  "binary_notice = cps ''[Binary content review explicitly allowed; content is not interpreted. Review object hashes/modes/provenance metadata only.]''"

definition binary_metadata :: "git_query \<Rightarrow> code_points \<Rightarrow> code_points \<Rightarrow> py_error + code_points" where
  "binary_metadata git base path =
     rbind (git_text git
              [cps ''diff'', cps ''--raw'', cps ''--full-index'', range_arg base, cps ''--'', path]
              MAX_BINARY_METADATA_BYTES) (\<lambda>raw.
     rbind (git_text git
              [cps ''diff'', cps ''--summary'', range_arg base, cps ''--'', path]
              MAX_BINARY_METADATA_BYTES) (\<lambda>summary.
       Inr (binary_notice @ [10] @ cps ''RAW:'' @ [10] @ raw @ [10] @ cps ''SUMMARY:'' @ [10] @ summary)))"

definition file_diff :: "git_query \<Rightarrow> code_points \<Rightarrow> code_points \<Rightarrow> py_error + code_points" where
  "file_diff git base path =
     git_text git
       [cps ''diff'', cps ''--no-ext-diff'', cps ''--no-textconv'', cps ''--find-renames'',
        cps ''--find-copies'', range_arg base, cps ''--'', path]
       MAX_SINGLE_FILE_DIFF_BYTES"

section \<open>Splitting a text\<close>

definition line_break :: "nat \<Rightarrow> bool" where
  "line_break c \<longleftrightarrow> c \<in> {10, 11, 12, 13, 28, 29, 30, 0x85, 0x2028, 0x2029}"

text \<open>\<open>str.splitlines(keepends=True)\<close>.\<close>

fun keep_lines :: "code_points \<Rightarrow> code_points list" where
  "keep_lines [] = []"
| "keep_lines (c # s) =
     (if line_break c \<and> \<not> (c = 13 \<and> s \<noteq> [] \<and> hd s = 10) then [c] # keep_lines s
      else case keep_lines s of
             [] \<Rightarrow> [[c]]
           | line # rest \<Rightarrow> (c # line) # rest)"

text \<open>
  \<open>_split_text\<close>: \<open>pieces\<close>, the open piece \<open>current\<close> and its size are the state of the loop. A line
  above the limit is cut between characters by the inner loop.
\<close>

type_synonym split_state = "code_points list \<times> code_points \<times> nat"

definition flush :: "split_state \<Rightarrow> split_state" where
  "flush st = (case st of (pieces, current, width) \<Rightarrow>
     if current \<noteq> [] then (pieces @ [current], [], 0) else (pieces, current, width))"

definition fragment_step :: "nat \<Rightarrow> nat \<Rightarrow> split_state \<Rightarrow> split_state" where
  "fragment_step max_bytes char st = (case st of (pieces, fragment, fragment_bytes) \<Rightarrow>
     let width = length (utf8_char char);
         (pieces, fragment, fragment_bytes) =
           (if fragment \<noteq> [] \<and> fragment_bytes + width > max_bytes
            then (pieces @ [fragment], [], 0) else (pieces, fragment, fragment_bytes))
     in (pieces, fragment @ [char], fragment_bytes + width))"

definition line_step :: "nat \<Rightarrow> code_points \<Rightarrow> split_state \<Rightarrow> split_state" where
  "line_step max_bytes line st = (case st of (pieces, current, current_bytes) \<Rightarrow>
     let width = utf8_length line
     in if width \<le> max_bytes then
          let (pieces, current, current_bytes) =
                (if current \<noteq> [] \<and> current_bytes + width > max_bytes
                 then flush (pieces, current, current_bytes)
                 else (pieces, current, current_bytes))
          in (pieces, current @ line, current_bytes + width)
        else
          let (pieces, current, current_bytes) = flush (pieces, current, current_bytes);
              (pieces, fragment, fragment_bytes) = fold (fragment_step max_bytes) line (pieces, [], 0)
          in (if fragment \<noteq> [] then pieces @ [fragment] else pieces, current, current_bytes))"

definition split_text :: "code_points \<Rightarrow> nat \<Rightarrow> py_error + code_points list" where
  "split_text text max_bytes =
     (if max_bytes < 1 then Inl (ValueError ''max_bytes must be positive'')
      else
        let (pieces, _, _) = flush (fold (line_step max_bytes) (keep_lines text) ([], [], 0))
        in Inr (if pieces = [] then [[]] else pieces))"

section \<open>The shards\<close>

definition part_header :: "code_points \<Rightarrow> nat \<Rightarrow> nat \<Rightarrow> code_points" where
  "part_header display part count =
     10 # cps ''===== FILE '' @ display @ cps '' PART '' @ nat_digits part @ cps ''/'' @
     nat_digits count @ cps '' ====='' @ [10]"

definition no_textual_diff :: "code_points \<Rightarrow> code_points" where
  "no_textual_diff display = cps ''[No textual diff for '' @ display @ cps '']'' @ [10]"

text \<open>The loop over the pieces of one file, with the number of the part and the chunks so far.\<close>

fun add_parts ::
  "nat \<Rightarrow> code_points \<Rightarrow> nat \<Rightarrow> nat \<Rightarrow> code_points list \<Rightarrow> review_chunk list \<Rightarrow>
   py_error + review_chunk list" where
  "add_parts chunk_bytes display count part [] chunks = Inr chunks"
| "add_parts chunk_bytes display count part (piece # pieces) chunks =
     (let payload = part_header display part count @ piece
      in if utf8_length payload > chunk_bytes
         then Inl (YoloError (''review chunk construction exceeded byte limit for '' @ shown display))
         else add_parts chunk_bytes display count (Suc part) pieces
                (chunks @ [\<lparr>rc_index = length chunks + 1, rc_files = [display], rc_text = payload\<rparr>]))"

text \<open>What is read of one file, and the text that is divided.\<close>

definition file_content ::
  "git_query \<Rightarrow> code_points \<Rightarrow> bool \<Rightarrow> code_points \<Rightarrow> py_error + code_points" where
  "file_content git base allow_binary path =
     rbind (is_binary_change git base path) (\<lambda>binary.
       if binary \<and> \<not> allow_binary
       then Inl (YoloError (''binary change cannot be semantically reviewed: '' @ shown (display_path path) @
             ''; set engine.final_review_allow_binary=true only when metadata-only review is acceptable''))
       else if binary then binary_metadata git base path
       else file_diff git base path)"

definition review_body :: "code_points \<Rightarrow> code_points \<Rightarrow> code_points" where
  "review_body display diff = (if diff = [] then no_textual_diff display else diff)"

fun add_files ::
  "git_query \<Rightarrow> code_points \<Rightarrow> nat \<Rightarrow> bool \<Rightarrow> code_points list \<Rightarrow> review_chunk list \<Rightarrow> nat \<Rightarrow>
   py_error + review_chunk list" where
  "add_files git base chunk_bytes allow_binary [] chunks total_bytes = Inr chunks"
| "add_files git base chunk_bytes allow_binary (path # paths) chunks total_bytes =
     (let display = display_path path
      in rbind (file_content git base allow_binary path) (\<lambda>diff.
         let total = total_bytes + utf8_length diff
         in if total > MAX_TOTAL_REVIEW_DIFF_BYTES
            then Inl (YoloError ''candidate diff exceeds the 32 MB hierarchical-review safety ceiling; split the release into smaller changes'')
            else
              let probe = utf8_length (part_header display 999999 999999)
              in if chunk_bytes < probe + 1024
                 then Inl (YoloError (''review chunk budget is too small for file path '' @ py_repr (shown display)))
                 else
                   rbind (split_text (review_body display diff) (chunk_bytes - probe)) (\<lambda>pieces.
                   rbind (add_parts chunk_bytes display (length pieces) 1 pieces chunks) (\<lambda>chunks.
                     add_files git base chunk_bytes allow_binary paths chunks total))))"

definition build_review_chunks ::
  "git_query \<Rightarrow> code_points \<Rightarrow> nat \<Rightarrow> nat \<Rightarrow> bool \<Rightarrow>
   py_error + code_points list \<times> review_chunk list" where
  "build_review_chunks git base max_files chunk_bytes allow_binary =
     rbind (changed_files git base max_files) (\<lambda>actual_files.
       if actual_files = []
       then Inr ([], [\<lparr>rc_index = 1, rc_files = [], rc_text = cps ''No changed files.''\<rparr>])
       else rbind (add_files git base chunk_bytes allow_binary actual_files [] 0) (\<lambda>chunks.
              Inr (map display_path actual_files, chunks)))"

section \<open>Splitting loses nothing\<close>

lemma concat_keep_lines: "concat (keep_lines s) = s"
  by (induction s rule: keep_lines.induct) (auto split: list.splits)

text \<open>A finished piece: not empty, and within the limit unless it is a single character.\<close>

definition piece_ok :: "nat \<Rightarrow> code_points \<Rightarrow> bool" where
  "piece_ok n p \<longleftrightarrow> p \<noteq> [] \<and> (utf8_length p \<le> n \<or> length p = 1)"

text \<open>
  The loop invariant: \<open>done\<close> is the text consumed so far, the size is that of the open piece,
  and \<open>limited\<close> says what the open piece may be.
\<close>

definition split_inv :: "nat \<Rightarrow> (code_points \<Rightarrow> bool) \<Rightarrow> code_points \<Rightarrow> split_state \<Rightarrow> bool" where
  "split_inv n limited consumed st \<longleftrightarrow> (case st of (pieces, current, width) \<Rightarrow>
     concat pieces @ current = consumed \<and> width = utf8_length current \<and>
     list_all (piece_ok n) pieces \<and> limited current)"

abbreviation line_limit :: "nat \<Rightarrow> code_points \<Rightarrow> bool" where
  "line_limit n current \<equiv> utf8_length current \<le> n"

abbreviation fragment_limit :: "nat \<Rightarrow> code_points \<Rightarrow> bool" where
  "fragment_limit n current \<equiv> current = [] \<or> piece_ok n current"

lemma flush_inv:
  "split_inv n (line_limit n) consumed st \<Longrightarrow> split_inv n (\<lambda>cur. cur = []) consumed (flush st)"
  by (auto simp: split_inv_def flush_def piece_ok_def split: prod.splits if_splits)

lemma fragment_step_inv:
  "split_inv n (fragment_limit n) consumed st \<Longrightarrow>
   split_inv n (fragment_limit n) (consumed @ [c]) (fragment_step n c st)"
  by (auto simp: split_inv_def fragment_step_def piece_ok_def Let_def split: prod.splits)

lemma fold_fragment_inv:
  "split_inv n (fragment_limit n) consumed st \<Longrightarrow>
   split_inv n (fragment_limit n) (consumed @ line) (fold (fragment_step n) line st)"
proof (induction line arbitrary: consumed st)
  case Nil
  then show ?case by simp
next
  case (Cons c line)
  from Cons.IH [OF fragment_step_inv [OF Cons.prems, of c]] show ?case by simp
qed

lemma line_step_inv:
  assumes "split_inv n (line_limit n) consumed st"
  shows "split_inv n (line_limit n) (consumed @ line) (line_step n line st)"
proof -
  obtain pieces cur w where st: "st = (pieces, cur, w)" by (cases st) auto
  show ?thesis
  proof (cases "utf8_length line \<le> n")
    case True
    show ?thesis
    proof (cases "cur \<noteq> [] \<and> w + utf8_length line > n")
      case full: True
      then have "line_step n line st = (pieces @ [cur], line, utf8_length line)"
        using True by (simp add: st line_step_def flush_def Let_def)
      with full True assms show ?thesis by (auto simp: st split_inv_def piece_ok_def)
    next
      case False
      then have "line_step n line st = (pieces, cur @ line, w + utf8_length line)"
        using True by (auto simp: st line_step_def Let_def)
      with False True assms show ?thesis by (auto simp: st split_inv_def)
    qed
  next
    case False
    obtain ps cur' w' where fl: "flush st = (ps, cur', w')" by (cases "flush st") auto
    with flush_inv [OF assms] have fl_inv: "split_inv n (\<lambda>cur. cur = []) consumed (ps, cur', w')" by simp
    then have empty: "cur' = []" "w' = 0" by (auto simp: split_inv_def)
    from fl_inv have start: "split_inv n (fragment_limit n) consumed (ps, [], 0)"
      by (auto simp: split_inv_def)
    obtain qs frag k where fr: "fold (fragment_step n) line (ps, [], 0) = (qs, frag, k)"
      by (cases "fold (fragment_step n) line (ps, [], 0)") auto
    from fold_fragment_inv [OF start, of line]
    have "split_inv n (fragment_limit n) (consumed @ line) (qs, frag, k)" by (simp add: fr)
    moreover have "line_step n line st = (if frag \<noteq> [] then qs @ [frag] else qs, [], 0)"
      using False fl fr empty by (simp add: st line_step_def Let_def)
    ultimately show ?thesis by (auto simp: split_inv_def)
  qed
qed

lemma fold_line_inv:
  "split_inv n (line_limit n) consumed st \<Longrightarrow>
   split_inv n (line_limit n) (consumed @ concat ls) (fold (line_step n) ls st)"
proof (induction ls arbitrary: consumed st)
  case Nil
  then show ?case by simp
next
  case (Cons l ls)
  from Cons.IH [OF line_step_inv [OF Cons.prems, of l]] show ?case by simp
qed

lemma split_text_Inr:
  assumes "split_text text n = Inr pieces"
  shows "concat pieces = text \<and>
    (text \<noteq> [] \<longrightarrow> list_all (piece_ok n) pieces) \<and> (text = [] \<longrightarrow> pieces = [[]])"
proof -
  let ?st = "flush (fold (line_step n) (keep_lines text) ([], [], 0))"
  obtain ps cur w where st: "?st = (ps, cur, w)" by (cases ?st) auto
  have "split_inv n (line_limit n) [] ([], [], 0)" by (simp add: split_inv_def)
  from flush_inv [OF fold_line_inv [OF this, of "keep_lines text"]]
  have inv: "concat ps = text" "list_all (piece_ok n) ps"
    by (auto simp: st split_inv_def concat_keep_lines)
  have "text = [] \<Longrightarrow> ps = []" using inv by (cases ps) (auto simp: piece_ok_def)
  with assms inv st show ?thesis
    by (auto simp: split_text_def Let_def split: if_splits)
qed

lemma split_text_ok: "0 < n \<Longrightarrow> \<exists>pieces. split_text text n = Inr pieces"
  by (simp add: split_text_def Let_def split: prod.splits)

lemma piece_bytes: "piece_ok n p \<Longrightarrow> 4 \<le> n \<Longrightarrow> utf8_length p \<le> n"
proof -
  assume ok: "piece_ok n p" and n: "4 \<le> n"
  show "utf8_length p \<le> n"
  proof (cases "length p = 1")
    case True
    then obtain c where "p = [c]" by (auto simp: length_Suc_conv)
    with n utf8_char_length [of c] show ?thesis by simp
  qed (use ok in \<open>simp add: piece_ok_def\<close>)
qed

section \<open>The shards cover the change\<close>

definition number_parts :: "code_points \<Rightarrow> code_points list \<Rightarrow> code_points list" where
  "number_parts display pieces =
     map (\<lambda>(i, piece). part_header display i (length pieces) @ piece) (enumerate 1 pieces)"

definition shards_ok :: "nat \<Rightarrow> review_chunk list \<Rightarrow> bool" where
  "shards_ok chunk_bytes chunks \<longleftrightarrow>
     map rc_index chunks = [1..<length chunks + 1] \<and>
     list_all (\<lambda>c. length (rc_files c) = 1 \<and> utf8_length (rc_text c) \<le> chunk_bytes) chunks"

lemma add_parts_Inr:
  "add_parts n display count part pieces chunks = Inr chunks' \<Longrightarrow> shards_ok n chunks \<Longrightarrow>
   shards_ok n chunks' \<and>
   map (\<lambda>c. (rc_files c, rc_text c)) chunks' = map (\<lambda>c. (rc_files c, rc_text c)) chunks @
     map (\<lambda>(i, piece). ([display], part_header display i count @ piece)) (enumerate part pieces)"
proof (induction n display count part pieces chunks rule: add_parts.induct)
  case (1 n display count part chunks)
  then show ?case by simp
next
  case (2 n display count part piece pieces chunks)
  let ?p = "part_header display part count @ piece"
  let ?c = "\<lparr>rc_index = length chunks + 1, rc_files = [display], rc_text = ?p\<rparr>"
  from 2(2) have fits: "\<not> utf8_length ?p > n"
    and rec: "add_parts n display count (Suc part) pieces (chunks @ [?c]) = Inr chunks'"
    by (simp_all add: Let_def split: if_splits)
  from 2(3) fits have "shards_ok n (chunks @ [?c])" by (simp add: shards_ok_def)
  from "2.IH" [OF refl fits rec this] show ?case by simp
qed

text \<open>
  The shards of one file: its content, divided into pieces whose concatenation is the content,
  each under a header that numbers it.
\<close>

definition file_shards ::
  "git_query \<Rightarrow> code_points \<Rightarrow> bool \<Rightarrow> code_points \<Rightarrow> (code_points list \<times> code_points) list \<Rightarrow> bool" where
  "file_shards git base allow_binary path shards \<longleftrightarrow>
     (\<exists>diff pieces. file_content git base allow_binary path = Inr diff \<and>
        concat pieces = review_body (display_path path) diff \<and>
        shards = map (\<lambda>text. ([display_path path], text)) (number_parts (display_path path) pieces))"

lemma add_files_Inr:
  "add_files git base n allow paths chunks bytes = Inr chunks' \<Longrightarrow> shards_ok n chunks \<Longrightarrow>
   shards_ok n chunks' \<and>
   (\<exists>shardss. list_all2 (file_shards git base allow) paths shardss \<and>
      map (\<lambda>c. (rc_files c, rc_text c)) chunks' =
        map (\<lambda>c. (rc_files c, rc_text c)) chunks @ concat shardss)"
proof (induction paths arbitrary: chunks bytes)
  case Nil
  then show ?case by simp
next
  case (Cons path paths)
  let ?d = "display_path path"
  let ?probe = "utf8_length (part_header ?d 999999 999999)"
  from Cons.prems(1) obtain diff pieces chunks1 where
    diff: "file_content git base allow path = Inr diff"
    and pieces: "split_text (review_body ?d diff) (n - ?probe) = Inr pieces"
    and parts: "add_parts n ?d (length pieces) 1 pieces chunks = Inr chunks1"
    and rest: "add_files git base n allow paths chunks1 (bytes + utf8_length diff) = Inr chunks'"
    by (auto simp: Let_def rbind_Inr_iff split: if_splits)
  from add_parts_Inr [OF parts Cons.prems(2)] have ok1: "shards_ok n chunks1"
    and map1: "map (\<lambda>c. (rc_files c, rc_text c)) chunks1 = map (\<lambda>c. (rc_files c, rc_text c)) chunks @
      map (\<lambda>text. ([?d], text)) (number_parts ?d pieces)"
    by (auto simp: number_parts_def comp_def case_prod_beta)
  from Cons.IH [OF rest ok1] obtain shardss where ok: "shards_ok n chunks'"
    and sh: "list_all2 (file_shards git base allow) paths shardss"
      "map (\<lambda>c. (rc_files c, rc_text c)) chunks' =
        map (\<lambda>c. (rc_files c, rc_text c)) chunks1 @ concat shardss" by blast
  have "file_shards git base allow path (map (\<lambda>text. ([?d], text)) (number_parts ?d pieces))"
    unfolding file_shards_def using diff split_text_Inr [OF pieces] by blast
  with ok sh map1 show ?case
    by (intro conjI exI [of _ "map (\<lambda>text. ([?d], text)) (number_parts ?d pieces) # shardss"]) simp_all
qed

section \<open>Displayed paths are distinct\<close>

text \<open>
  A path comes from \<open>os.fsdecode\<close>, so it holds scalar values and low surrogates (the escaped
  bytes). On such text the JSON escape can be read back: \<open>unescape_head\<close> gives the code point
  that the escape at the head stands for.
\<close>

definition path_code_point :: "nat \<Rightarrow> bool" where
  "path_code_point c \<longleftrightarrow> c < 0x110000 \<and> \<not> (0xD800 \<le> c \<and> c < 0xDC00)"

definition hex_value :: "nat \<Rightarrow> nat" where
  "hex_value d = (if d < 58 then d - 48 else d - 87)"

definition hex4 :: "code_points \<Rightarrow> nat" where
  "hex4 ds = hex_value (ds ! 0) * 4096 + hex_value (ds ! 1) * 256 + hex_value (ds ! 2) * 16 +
     hex_value (ds ! 3)"

definition unescape_head :: "code_points \<Rightarrow> nat" where
  "unescape_head t =
     (if t ! 0 \<noteq> 92 then t ! 0
      else if t ! 1 = 117 then
        let h = hex4 (drop 2 t)
        in if 0xD800 \<le> h \<and> h < 0xDC00
           then 0x10000 + (h - 0xD800) * 1024 + (hex4 (drop 8 t) - 0xDC00) else h
      else if t ! 1 = 110 then 10
      else if t ! 1 = 114 then 13
      else if t ! 1 = 116 then 9
      else if t ! 1 = 98 then 8
      else if t ! 1 = 102 then 12
      else t ! 1)"

lemma hex_value_digit: "d < 16 \<Longrightarrow> hex_value (hex_digit d) = d"
  by (auto simp: hex_value_def hex_digit_def)

lemma digits_16:
  "n < 65536 \<Longrightarrow> n div 4096 mod 16 * 4096 + n div 256 mod 16 * 256 + n div 16 mod 16 * 16 + n mod 16 = n"
  for n :: nat
proof -
  assume n: "n < 65536"
  let ?a = "n div 16"
  let ?b = "?a div 16"
  let ?c = "?b div 16"
  have d: "n div 256 = ?b" "n div 4096 = ?c" by (simp_all flip: div_mult2_eq)
  have "?c < 16" using n by (simp flip: div_mult2_eq)
  then have "?c mod 16 = ?c" by simp
  moreover have "?a * 16 + n mod 16 = n" "?b * 16 + ?a mod 16 = ?a" "?c * 16 + ?b mod 16 = ?b"
    by (rule div_mult_mod_eq)+
  ultimately show ?thesis unfolding d by linarith
qed

lemma hex4_u_escape: "n < 65536 \<Longrightarrow> hex4 (drop 2 (json_u_escape n @ t)) = n"
  using digits_16 [of n] by (simp add: hex4_def json_u_escape_def hex_value_digit)

lemma u_escape_head:
  "(json_u_escape n @ t) ! 0 = 92" "(json_u_escape n @ t) ! Suc 0 = 117"
  "drop 8 (json_u_escape n @ t) = drop 2 t"
  by (simp_all add: json_u_escape_def)

lemma unescape_u: "n < 65536 \<Longrightarrow> \<not> (0xD800 \<le> n \<and> n < 0xDC00) \<Longrightarrow>
  unescape_head (json_u_escape n @ t) = n"
  using hex4_u_escape [of n t]
  by (auto simp: unescape_head_def Let_def u_escape_head simp del: drop_append)

lemma unescape_pair:
  assumes "0x10000 \<le> c" and "c < 0x110000"
  shows "unescape_head (json_u_escape (0xD800 + (c - 0x10000) div 1024) @
           json_u_escape (0xDC00 + (c - 0x10000) mod 1024) @ t) = c"
proof -
  let ?h = "0xD800 + (c - 0x10000) div 1024"
  let ?l = "0xDC00 + (c - 0x10000) mod 1024"
  have h: "0xD800 \<le> ?h" "?h < 0xDC00" using assms by auto
  have l: "?l < 65536" using mod_less_divisor [of 1024 "c - 0x10000"] by linarith
  have first: "hex4 (drop 2 (json_u_escape ?h @ json_u_escape ?l @ t)) = ?h"
    using h by (intro hex4_u_escape) simp
  have second: "hex4 (drop 8 (json_u_escape ?h @ json_u_escape ?l @ t)) = ?l"
    unfolding u_escape_head by (rule hex4_u_escape [OF l])
  have "(c - 0x10000) div 1024 * 1024 + (c - 0x10000) mod 1024 = c - 0x10000"
    by (rule div_mult_mod_eq)
  with first second h assms show ?thesis
    by (simp add: unescape_head_def Let_def u_escape_head(1,2) del: drop_append)
qed

lemma unescape_escape:
  assumes "path_code_point c"
  shows "unescape_head (json_escape_char True c @ t) = c"
proof -
  consider "c \<in> {34, 92, 10, 13, 9, 8, 12}" | "c \<notin> {34, 92, 10, 13, 9, 8, 12}" "c < 32"
    | "c \<notin> {34, 92, 10, 13, 9, 8, 12}" "32 \<le> c" "c < 127"
    | "127 \<le> c" "c < 65536" | "65536 \<le> c" "c < 0x110000"
    using assms by (fastforce simp: path_code_point_def)
  then show ?thesis
  proof cases
    case 1
    then show ?thesis
      by (elim insertE emptyE) (simp_all add: json_escape_char_def unescape_head_def)
  next
    case 2
    then have "json_escape_char True c = json_u_escape c" by (simp add: json_escape_char_def)
    with 2 show ?thesis by (simp add: unescape_u)
  next
    case 3
    then show ?thesis by (simp add: json_escape_char_def unescape_head_def)
  next
    case 4
    then have "json_escape_char True c = json_u_escape c" by (simp add: json_escape_char_def)
    with 4 assms show ?thesis by (auto simp: path_code_point_def intro!: unescape_u)
  next
    case 5
    then have "json_escape_char True c = json_u_escape (0xD800 + (c - 0x10000) div 1024) @
      json_u_escape (0xDC00 + (c - 0x10000) mod 1024)" by (simp add: json_escape_char_def)
    with unescape_pair [OF 5, of t] show ?thesis by simp
  qed
qed

lemma escape_inj:
  assumes "list_all path_code_point s" and "list_all path_code_point t"
    and "concat (map (json_escape_char True) s) @ [34] = concat (map (json_escape_char True) t) @ [34]"
  shows "s = t"
  using assms
proof (induction s arbitrary: t)
  case Nil
  then show ?case
  proof (cases t)
    case (Cons c t')
    with Nil have "json_escape_char True c @ concat (map (json_escape_char True) t') = []" by simp
    then show ?thesis by simp
  qed simp
next
  case (Cons a s)
  show ?case
  proof (cases t)
    case Nil
    with Cons.prems(3) show ?thesis by simp
  next
    case t: (Cons b t')
    let ?e = "json_escape_char True" and ?r = "\<lambda>s. concat (map (json_escape_char True) s) @ [34]"
    from Cons.prems(3) have eq: "?e a @ ?r s = ?e b @ ?r t'"
      unfolding t list.map concat.simps append_assoc .
    have "a = unescape_head (?e a @ ?r s)"
      using Cons.prems(1) by (simp add: unescape_escape)
    also have "\<dots> = unescape_head (?e b @ ?r t')" by (simp only: eq)
    also have "\<dots> = b" using Cons.prems(2) by (simp add: t unescape_escape)
    finally have ab: "a = b" .
    with eq Cons.IH [of t'] Cons.prems(1,2) show ?thesis by (simp add: t)
  qed
qed

lemma json_quote_inj:
  "list_all path_code_point s \<Longrightarrow> list_all path_code_point t \<Longrightarrow>
   json_quote True s = json_quote True t \<Longrightarrow> s = t"
  unfolding json_quote_def by (rule escape_inj) simp_all

lemma display_path_inj:
  assumes "list_all path_code_point p" and "list_all path_code_point q"
    and "display_path p = display_path q"
  shows "p = q"
proof -
  let ?enc = "\<lambda>p. encoded_path_prefix @ json_quote True p"
  let ?plain = "\<lambda>p. plain_path p \<and> \<not> starts_with encoded_path_prefix p"
  have form: "display_path r = (if ?plain r then r else ?enc r)" for r
    by (simp add: display_path_def)
  have mixed: "r \<noteq> ?enc r'" if "?plain r" for r r'
    using that by (auto simp: starts_with_def)
  show ?thesis
  proof (cases "?plain p = ?plain q")
    case True
    with assms(3) have "p = q \<or> ?enc p = ?enc q" unfolding form by (simp split: if_splits)
    with json_quote_inj [OF assms(1,2)] show ?thesis by auto
  next
    case False
    then have "\<not> (if ?plain p then p else ?enc p) = (if ?plain q then q else ?enc q)"
      using mixed [of p q] mixed [of q p] by (cases "?plain p") auto
    with assms(3) show ?thesis unfolding form by simp
  qed
qed

section \<open>Properties\<close>

text \<open>
  C21: Splitting a text for review loses nothing and respects the limit: for every positive limit
  the code returns pieces whose concatenation is the text, and no piece is longer than the limit
  in UTF-8 bytes unless it is a single character.
\<close>

theorem split_text_exact:
  assumes "0 < max_bytes"
  shows "\<exists>pieces. split_text text max_bytes = Inr pieces \<and> concat pieces = text \<and>
    (\<forall>p. p \<in> set pieces \<and> text \<noteq> [] \<longrightarrow> p \<noteq> [] \<and> (utf8_length p \<le> max_bytes \<or> length p = 1))"
  using split_text_ok [OF assms, of "text"] split_text_Inr [of "text" max_bytes]
  by (auto simp: list_all_iff piece_ok_def)

lemma split_text_exact_witness:
  "\<exists>pieces. split_text [97, 10, 8364, 8364, 8364] 4 = Inr pieces \<and>
     concat pieces = [97, 10, 8364, 8364, 8364]"
  using split_text_exact [of 4 "[97, 10, 8364, 8364, 8364]"] by auto

text \<open>
  The path shown to a reviewer identifies the file: two paths of the file system are shown
  alike only when they are equal, and what is shown is printable ASCII, so it cannot break the
  line of a prompt.
\<close>

theorem display_path_injective:
  assumes "list_all path_code_point p" and "list_all path_code_point q"
    and "display_path p = display_path q"
  shows "p = q \<and> list_all (\<lambda>c. 32 \<le> c \<and> c < 127) (display_path p)"
proof -
  have "32 \<le> c \<and> c < 127" if "c \<in> set (display_path p)" for c
  proof -
    have "c \<in> set p \<and> plain_path p \<or> c \<in> set encoded_path_prefix \<or> c \<in> set (json_quote True p)"
      using that by (auto simp: display_path_def split: if_splits)
    then show ?thesis
      using json_quote_printable [of c p]
      by (auto simp: plain_path_def list_all_iff path_char_def encoded_path_prefix_def cps_def)
  qed
  with display_path_inj [OF assms] show ?thesis by (simp add: list_all_iff)
qed

lemma display_path_injective_witness:
  "[97, 10, 0x1F600] = [97, 10, (0x1F600 :: nat)]"
  using display_path_injective [of "[97, 10, 0x1F600]" "[97, 10, 0x1F600]"]
  by (simp add: path_code_point_def)

text \<open>
  C22: The shards of a final review cover the candidate: whenever they are built, the manifest
  lists every changed file, the shards are numbered from one without a gap, each stays within the
  configured number of bytes and belongs to one file, and in order they hold, file after file,
  the whole diff (or the admitted metadata of a binary file) cut into numbered parts.
\<close>

theorem review_chunks_cover:
  assumes "build_review_chunks git base max_files chunk_bytes allow_binary = Inr (manifest, chunks)"
    and "manifest \<noteq> []"
  shows "\<exists>paths shardss. changed_files git base max_files = Inr paths \<and>
    manifest = map display_path paths \<and>
    shards_ok chunk_bytes chunks \<and>
    list_all2 (file_shards git base allow_binary) paths shardss \<and>
    map (\<lambda>c. (rc_files c, rc_text c)) chunks = concat shardss"
proof -
  from assms obtain paths where paths: "changed_files git base max_files = Inr paths"
    "manifest = map display_path paths"
    and add: "add_files git base chunk_bytes allow_binary paths [] 0 = Inr chunks"
    unfolding build_review_chunks_def by (auto simp: rbind_Inr_iff split: if_splits)
  have "shards_ok chunk_bytes []" by (simp add: shards_ok_def)
  from add_files_Inr [OF add this] paths show ?thesis by auto
qed

text \<open>A repository with one changed text file.\<close>

definition demo_git :: git_query where
  "demo_git args max_bytes =
     (let out = (if cps ''--name-only'' \<in> set args then utf8_encode (cps ''a.py'') @ [0]
                 else if cps ''--numstat'' \<in> set args then utf8_encode (cps ''1'') @ [9] @ utf8_encode (cps ''0'') @ [9, 97, 0]
                 else utf8_encode (cps ''+pass'') @ [10])
      in Inr \<lparr>go_returncode = 0, go_stdout = out, go_timed_out = False, go_output_truncated = False,
        go_timeout_seconds = 120\<rparr>)"

lemma review_chunks_cover_witness:
  "\<exists>chunks. build_review_chunks demo_git (cps ''main'') 8 4096 False = Inr ([cps ''a.py''], chunks) \<and>
     shards_ok 4096 chunks"
proof -
  have run: "build_review_chunks demo_git (cps ''main'') 8 4096 False =
    Inr ([cps ''a.py''],
      [\<lparr>rc_index = 1, rc_files = [cps ''a.py''],
        rc_text = part_header (cps ''a.py'') 1 1 @ cps ''+pass'' @ [10]\<rparr>])"
    by code_simp
  from review_chunks_cover [OF run] run show ?thesis by auto
qed

end
