(* ===== verification/Yolo_Model.thy ===== *)
theory Yolo_Model
  imports Yolo_Prelude
begin

text \<open>
  The data model of \<open>src/omarchy_yolo/model.py\<close>: the life-cycle enumerations with the text each
  has in the database, the planned task, review and gate results, and the durable rows. The
  text columns that SQLite restricts with a CHECK constraint (acceptance phase, source-apply
  intent and outcome) are datatypes with exactly the admitted values.
\<close>

section \<open>Life-cycle enumerations\<close>

datatype job_state =
  JobQueued | JobPlanning | JobRunning | JobStopping | JobStopped | JobCompleted | JobFailed

datatype task_state =
    TaskPending | TaskRunning | TaskReviewing | TaskIntegrating
  | TaskCompleted | TaskFailed | TaskBlocked | TaskStopped

datatype attempt_state = AttemptRunning | AttemptPassed | AttemptFailed | AttemptCancelled

datatype agent_role = RoleWorker | RolePlanner | RoleReviewer | RoleIntegrator

datatype acceptance_phase = PhaseNone | PhaseAccepted | PhaseApplying | PhasePublished

datatype apply_intent = IntentRequested | IntentNotRequested

datatype apply_outcome = OutcomeUnset | OutcomeApplied | OutcomeSkipped | OutcomeNotRequested

fun job_state_value :: "job_state \<Rightarrow> string" where
  "job_state_value JobQueued = ''queued''"
| "job_state_value JobPlanning = ''planning''"
| "job_state_value JobRunning = ''running''"
| "job_state_value JobStopping = ''stopping''"
| "job_state_value JobStopped = ''stopped''"
| "job_state_value JobCompleted = ''completed''"
| "job_state_value JobFailed = ''failed''"

fun task_state_value :: "task_state \<Rightarrow> string" where
  "task_state_value TaskPending = ''pending''"
| "task_state_value TaskRunning = ''running''"
| "task_state_value TaskReviewing = ''reviewing''"
| "task_state_value TaskIntegrating = ''integrating''"
| "task_state_value TaskCompleted = ''completed''"
| "task_state_value TaskFailed = ''failed''"
| "task_state_value TaskBlocked = ''blocked''"
| "task_state_value TaskStopped = ''stopped''"

fun attempt_state_value :: "attempt_state \<Rightarrow> string" where
  "attempt_state_value AttemptRunning = ''running''"
| "attempt_state_value AttemptPassed = ''passed''"
| "attempt_state_value AttemptFailed = ''failed''"
| "attempt_state_value AttemptCancelled = ''cancelled''"

fun agent_role_value :: "agent_role \<Rightarrow> string" where
  "agent_role_value RoleWorker = ''worker''"
| "agent_role_value RolePlanner = ''planner''"
| "agent_role_value RoleReviewer = ''reviewer''"
| "agent_role_value RoleIntegrator = ''integrator''"

fun phase_value :: "acceptance_phase \<Rightarrow> string" where
  "phase_value PhaseNone = ''none''"
| "phase_value PhaseAccepted = ''accepted''"
| "phase_value PhaseApplying = ''applying''"
| "phase_value PhasePublished = ''published''"

fun apply_intent_value :: "apply_intent \<Rightarrow> string" where
  "apply_intent_value IntentRequested = ''requested''"
| "apply_intent_value IntentNotRequested = ''not-requested''"

fun apply_outcome_value :: "apply_outcome \<Rightarrow> string" where
  "apply_outcome_value OutcomeUnset = ''''"
| "apply_outcome_value OutcomeApplied = ''applied''"
| "apply_outcome_value OutcomeSkipped = ''skipped''"
| "apply_outcome_value OutcomeNotRequested = ''not-requested''"

text \<open>All values in declaration order, as iterating the enumeration gives them.\<close>

definition all_job_states :: "job_state list" where
  "all_job_states =
     [JobQueued, JobPlanning, JobRunning, JobStopping, JobStopped, JobCompleted, JobFailed]"

definition all_task_states :: "task_state list" where
  "all_task_states =
     [TaskPending, TaskRunning, TaskReviewing, TaskIntegrating,
      TaskCompleted, TaskFailed, TaskBlocked, TaskStopped]"

definition all_attempt_states :: "attempt_state list" where
  "all_attempt_states = [AttemptRunning, AttemptPassed, AttemptFailed, AttemptCancelled]"

definition all_agent_roles :: "agent_role list" where
  "all_agent_roles = [RoleWorker, RolePlanner, RoleReviewer, RoleIntegrator]"

text \<open>Calling the enumeration on text: the member with that value, or \<open>ValueError\<close>.\<close>

definition enum_of_string :: "('s \<Rightarrow> string) \<Rightarrow> 's list \<Rightarrow> string \<Rightarrow> py_error + 's" where
  "enum_of_string value members text =
     (case List.find (\<lambda>s. value s = text) members of
        None \<Rightarrow> Inl (ValueError text)
      | Some s \<Rightarrow> Inr s)"

definition attempt_state_of_string :: "string \<Rightarrow> py_error + attempt_state" where
  "attempt_state_of_string = enum_of_string attempt_state_value all_attempt_states"

definition job_state_of_string :: "string \<Rightarrow> py_error + job_state" where
  "job_state_of_string = enum_of_string job_state_value all_job_states"

definition task_state_of_string :: "string \<Rightarrow> py_error + task_state" where
  "task_state_of_string = enum_of_string task_state_value all_task_states"

definition agent_role_of_string :: "string \<Rightarrow> py_error + agent_role" where
  "agent_role_of_string = enum_of_string agent_role_value all_agent_roles"

lemma job_state_roundtrip: "job_state_of_string (job_state_value s) = Inr s"
  by (cases s) (simp_all add: job_state_of_string_def enum_of_string_def all_job_states_def)

lemma task_state_roundtrip: "task_state_of_string (task_state_value s) = Inr s"
  by (cases s) (simp_all add: task_state_of_string_def enum_of_string_def all_task_states_def)

lemma attempt_state_roundtrip: "attempt_state_of_string (attempt_state_value s) = Inr s"
  by (cases s) (simp_all add: attempt_state_of_string_def enum_of_string_def all_attempt_states_def)

lemma agent_role_roundtrip: "agent_role_of_string (agent_role_value s) = Inr s"
  by (cases s) (simp_all add: agent_role_of_string_def enum_of_string_def all_agent_roles_def)

text \<open>
  The acceptance journal only moves forward, so its phases carry the library's order: a
  statement "the phase never goes back" is then an inequality.
\<close>

instantiation acceptance_phase :: linorder
begin

fun phase_rank :: "acceptance_phase \<Rightarrow> nat" where
  "phase_rank PhaseNone = 0"
| "phase_rank PhaseAccepted = 1"
| "phase_rank PhaseApplying = 2"
| "phase_rank PhasePublished = 3"

definition less_eq_acceptance_phase :: "acceptance_phase \<Rightarrow> acceptance_phase \<Rightarrow> bool" where
  "less_eq_acceptance_phase p q = (phase_rank p \<le> phase_rank q)"

definition less_acceptance_phase :: "acceptance_phase \<Rightarrow> acceptance_phase \<Rightarrow> bool" where
  "less_acceptance_phase p q = (phase_rank p < phase_rank q)"

instance proof
  fix p q r :: acceptance_phase
  show "(p < q) = (p \<le> q \<and> \<not> q \<le> p)"
    by (auto simp: less_eq_acceptance_phase_def less_acceptance_phase_def)
  show "p \<le> p" by (simp add: less_eq_acceptance_phase_def)
  show "p \<le> q \<Longrightarrow> q \<le> r \<Longrightarrow> p \<le> r" by (simp add: less_eq_acceptance_phase_def)
  show "p \<le> q \<Longrightarrow> q \<le> p \<Longrightarrow> p = q"
    by (cases p; cases q) (simp_all add: less_eq_acceptance_phase_def)
  show "p \<le> q \<or> q \<le> p" by (auto simp: less_eq_acceptance_phase_def)
qed

end

lemma phase_none_le [simp]: "PhaseNone \<le> p"
  by (cases p) (simp_all add: less_eq_acceptance_phase_def)

lemma phase_le_simps [simp]:
  "PhaseAccepted \<le> PhaseApplying" "PhaseAccepted \<le> PhasePublished"
  "PhaseApplying \<le> PhasePublished"
  "\<not> PhaseAccepted \<le> PhaseNone" "\<not> PhaseApplying \<le> PhaseAccepted" "\<not> PhaseApplying \<le> PhaseNone"
  "\<not> PhasePublished \<le> PhaseApplying" "\<not> PhasePublished \<le> PhaseAccepted" "\<not> PhasePublished \<le> PhaseNone"
  by (simp_all add: less_eq_acceptance_phase_def)

section \<open>Plan, review and gate values\<close>

record planned_task =
  pt_logical_id :: string
  pt_title :: string
  pt_description :: string
  pt_depends_on :: "string list"
  pt_acceptance :: "string list"
  pt_preferred_agent :: "string option"
  pt_risk :: string

record review_result =
  rv_verdict :: string
  rv_summary :: string
  rv_findings :: "string list"

definition review_passed :: "review_result \<Rightarrow> bool" where
  "review_passed r = (rv_verdict r = ''pass'')"

record agent_result =
  ar_returncode :: int
  ar_stdout :: string
  ar_stderr :: string

definition agent_ok :: "agent_result \<Rightarrow> bool" where
  "agent_ok r = (ar_returncode r = 0)"

record gate_result =
  gr_command :: string
  gr_returncode :: int
  gr_stdout :: string
  gr_stderr :: string
  gr_duration_seconds :: timestamp
  gr_timed_out :: bool

definition gate_ok :: "gate_result \<Rightarrow> bool" where
  "gate_ok r = (gr_returncode r = 0 \<and> \<not> gr_timed_out r)"

section \<open>Durable rows\<close>

record job_row =
  j_id :: string
  j_repo :: string
  j_goal :: string
  j_state :: job_state
  j_base_branch :: string
  j_base_commit :: string
  j_integration_branch :: string
  j_integration_path :: string
  j_auto_apply :: bool
  j_stop_requested :: bool
  j_created_at :: timestamp
  j_updated_at :: timestamp
  j_final_summary :: string
  j_error :: string
  j_accepted_commit :: string
  j_acceptance_phase :: acceptance_phase
  j_source_apply_intent :: apply_intent
  j_source_apply_outcome :: apply_outcome
  j_source_apply_reason :: string

record task_row =
  t_id :: string
  t_job_id :: string
  t_seq :: int
  t_logical_id :: string
  t_title :: string
  t_description :: string
  t_state :: task_state
  t_dependencies :: "string list"
  t_acceptance :: "string list"
  t_preferred_agent :: "string option"
  t_attempts :: int
  t_branch :: string
  t_worktree :: string
  t_base_commit :: string
  t_last_error :: string
  t_result_summary :: string
  t_created_at :: timestamp
  t_updated_at :: timestamp

record attempt_row =
  a_id :: string
  a_job_id :: string
  a_task_id :: string
  a_number :: int
  a_agent :: string
  a_state :: attempt_state
  a_worktree :: string
  a_branch :: string
  a_log_path :: string
  a_started_at :: timestamp
  a_finished_at :: "timestamp option"
  a_returncode :: "int option"
  a_summary :: string

end
