(* ===== verification/Yolo_State_Machine.thy ===== *)
theory Yolo_State_Machine
  imports Yolo_Model
begin

text \<open>
  The reference model of \<open>src/omarchy_yolo/state_machine.py\<close>: the transition tables of jobs,
  tasks and attempts, the three transition validators, and the snapshot validator that every
  store mutation runs before it commits.
\<close>

section \<open>Transition tables\<close>

fun job_transitions :: "job_state \<Rightarrow> job_state set" where
  "job_transitions JobQueued = {JobQueued, JobPlanning, JobRunning, JobStopping, JobFailed}"
| "job_transitions JobPlanning = {JobPlanning, JobRunning, JobQueued, JobStopping, JobFailed}"
| "job_transitions JobRunning = {JobRunning, JobQueued, JobStopping, JobCompleted, JobFailed}"
| "job_transitions JobStopping =
     {JobStopping, JobStopped, JobQueued, JobCompleted, JobFailed}"
| "job_transitions JobStopped = {JobStopped, JobQueued}"
| "job_transitions JobFailed = {JobFailed, JobQueued}"
| "job_transitions JobCompleted = {JobCompleted}"

fun task_transitions :: "task_state \<Rightarrow> task_state set" where
  "task_transitions TaskPending = {TaskPending, TaskRunning, TaskBlocked, TaskStopped, TaskFailed}"
| "task_transitions TaskRunning = {TaskRunning, TaskReviewing, TaskPending, TaskFailed, TaskStopped}"
| "task_transitions TaskReviewing =
     {TaskReviewing, TaskIntegrating, TaskPending, TaskFailed, TaskStopped}"
| "task_transitions TaskIntegrating =
     {TaskIntegrating, TaskPending, TaskCompleted, TaskFailed, TaskStopped}"
| "task_transitions TaskCompleted = {TaskCompleted}"
| "task_transitions TaskFailed = {TaskFailed, TaskPending}"
| "task_transitions TaskBlocked = {TaskBlocked, TaskPending, TaskFailed, TaskStopped}"
| "task_transitions TaskStopped = {TaskStopped, TaskPending}"

fun attempt_transitions :: "attempt_state \<Rightarrow> attempt_state set" where
  "attempt_transitions AttemptRunning =
     {AttemptRunning, AttemptPassed, AttemptFailed, AttemptCancelled}"
| "attempt_transitions AttemptPassed = {AttemptPassed}"
| "attempt_transitions AttemptFailed = {AttemptFailed}"
| "attempt_transitions AttemptCancelled = {AttemptCancelled}"

definition inflight_task_states :: "task_state set" where
  "inflight_task_states = {TaskRunning, TaskReviewing, TaskIntegrating}"

definition terminal_job_states :: "job_state set" where
  "terminal_job_states = {JobStopped, JobCompleted, JobFailed}"

definition acceptance_phases :: "string set" where
  "acceptance_phases = {''none'', ''accepted'', ''applying'', ''published''}"

definition validate_job_transition :: "job_state \<Rightarrow> job_state \<Rightarrow> py_error + unit" where
  "validate_job_transition source destination =
     require (destination \<in> job_transitions source)
       (StateTransitionError (''illegal job state transition: '' @ job_state_value source @
          '' -> '' @ job_state_value destination))"

definition validate_task_transition :: "task_state \<Rightarrow> task_state \<Rightarrow> py_error + unit" where
  "validate_task_transition source destination =
     require (destination \<in> task_transitions source)
       (StateTransitionError (''illegal task state transition: '' @ task_state_value source @
          '' -> '' @ task_state_value destination))"

definition validate_attempt_transition :: "attempt_state \<Rightarrow> attempt_state \<Rightarrow> py_error + unit" where
  "validate_attempt_transition source destination =
     require (destination \<in> attempt_transitions source)
       (StateTransitionError (''illegal attempt state transition: '' @ attempt_state_value source @
          '' -> '' @ attempt_state_value destination))"

section \<open>The contract of a life cycle\<close>

text \<open>
  What the store relies on for each of the three tables: staying put is always allowed, and the
  validator accepts exactly the pairs of the table. A state whose row allows only itself is
  never left by a validated run.
\<close>

locale lifecycle =
  fixes allowed :: "'s \<Rightarrow> 's set"
    and validate :: "'s \<Rightarrow> 's \<Rightarrow> py_error + unit"
  assumes stay: "s \<in> allowed s"
    and validate_iff: "validate s t = Inr u \<longleftrightarrow> t \<in> allowed s"
begin

lemma validate_stay: "validate s s = Inr ()"
  by (simp add: validate_iff stay)

lemma validate_error: "t \<notin> allowed s \<Longrightarrow> \<exists>e. validate s t = Inl e"
  using validate_iff [of s t "()"] by (cases "validate s t") auto

lemma final_step: "allowed s = {s} \<Longrightarrow> validate s t = Inr u \<Longrightarrow> t = s"
  by (simp add: validate_iff)

lemma final_run:
  assumes "(\<lambda>s t. validate s t = Inr ())\<^sup>*\<^sup>* s t" and "allowed s = {s}"
  shows "t = s"
  using assms by (induction rule: rtranclp_induct) (auto dest: final_step)

end

interpretation job_lc: lifecycle job_transitions validate_job_transition
proof
  show "s \<in> job_transitions s" for s by (cases s) simp_all
  show "validate_job_transition s t = Inr u \<longleftrightarrow> t \<in> job_transitions s" for s t u
    by (simp add: validate_job_transition_def)
qed

interpretation task_lc: lifecycle task_transitions validate_task_transition
proof
  show "s \<in> task_transitions s" for s by (cases s) simp_all
  show "validate_task_transition s t = Inr u \<longleftrightarrow> t \<in> task_transitions s" for s t u
    by (simp add: validate_task_transition_def)
qed

interpretation attempt_lc: lifecycle attempt_transitions validate_attempt_transition
proof
  show "s \<in> attempt_transitions s" for s by (cases s) simp_all
  show "validate_attempt_transition s t = Inr u \<longleftrightarrow> t \<in> attempt_transitions s" for s t u
    by (simp add: validate_attempt_transition_def)
qed

section \<open>The snapshot validator\<close>

definition validate_job_snapshot ::
  "job_state \<Rightarrow> task_state list \<Rightarrow> bool \<Rightarrow> task_state list \<Rightarrow> string option \<Rightarrow> py_error + unit" where
  "validate_job_snapshot state tasks stop_requested running_owners acceptance_phase =
     (let inflight = list_ex (\<lambda>t. t \<in> inflight_task_states) tasks in
      rbind (require (\<not> (state = JobCompleted \<and> list_ex (\<lambda>t. t \<noteq> TaskCompleted) tasks))
        (StateTransitionError ''completed job contains a non-completed task'')) (\<lambda>_.
      rbind (require (\<not> (state \<in> {JobQueued, JobStopped, JobFailed} \<and> inflight))
        (StateTransitionError (job_state_value state @ '' job contains an in-flight task''))) (\<lambda>_.
      rbind (require (\<not> (state = JobStopped \<and> \<not> stop_requested))
        (StateTransitionError ''stopped job must preserve stop_requested'')) (\<lambda>_.
      rbind (require (\<not> (state = JobCompleted \<and> stop_requested))
        (StateTransitionError ''completed job cannot retain stop_requested'')) (\<lambda>_.
      rbind (require (\<not> (running_owners \<noteq> [] \<and> state \<notin> {JobRunning, JobStopping}))
        (StateTransitionError (job_state_value state @ '' job cannot retain a running attempt''))) (\<lambda>_.
      rbind (require (\<not> (running_owners \<noteq> [] \<and>
                         list_ex (\<lambda>t. t \<notin> inflight_task_states) running_owners))
        (StateTransitionError ''running attempt belongs to a task that is not in flight'')) (\<lambda>_.
      (case acceptance_phase of
         None \<Rightarrow> Inr ()
       | Some phase \<Rightarrow>
      rbind (require (phase \<in> acceptance_phases)
        (StateTransitionError (''unknown acceptance phase: '' @ phase))) (\<lambda>_.
      rbind (require (\<not> (phase \<in> {''accepted'', ''applying'', ''published''} \<and>
                         list_ex (\<lambda>t. t \<noteq> TaskCompleted) tasks))
        (StateTransitionError (''acceptance phase '' @ phase @ '' contains a non-completed task''))) (\<lambda>_.
      rbind (require (\<not> (phase \<in> {''accepted'', ''applying'', ''published''} \<and> running_owners \<noteq> []))
        (StateTransitionError (''acceptance phase '' @ phase @ '' cannot retain a running attempt''))) (\<lambda>_.
      rbind (require (\<not> (phase \<in> {''accepted'', ''applying''} \<and> state \<notin> {JobRunning, JobStopping}))
        (StateTransitionError (''acceptance phase '' @ phase @
           '' requires running or stopping job state''))) (\<lambda>_.
      rbind (require (\<not> (phase = ''published'' \<and> state \<noteq> JobCompleted))
        (StateTransitionError ''published acceptance requires completed job state'')) (\<lambda>_.
      require (\<not> (state = JobCompleted \<and> phase \<noteq> ''published''))
        (StateTransitionError ''completed job requires published acceptance phase''))))))))))))))"

text \<open>
  What a validated durable snapshot says, as one predicate: the abstract specification the
  sequence of checks implements (for a phase the database can hold).
\<close>

definition snapshot_ok ::
  "job_state \<Rightarrow> task_state set \<Rightarrow> bool \<Rightarrow> task_state set \<Rightarrow> acceptance_phase \<Rightarrow> bool" where
  "snapshot_ok state tasks stop running phase \<longleftrightarrow>
     (state = JobCompleted \<longleftrightarrow> phase = PhasePublished) \<and>
     (phase \<in> {PhaseAccepted, PhaseApplying} \<longrightarrow> state \<in> {JobRunning, JobStopping}) \<and>
     (phase \<noteq> PhaseNone \<longrightarrow> tasks \<subseteq> {TaskCompleted} \<and> running = {}) \<and>
     (state \<in> {JobQueued, JobStopped, JobFailed} \<longrightarrow> tasks \<inter> inflight_task_states = {}) \<and>
     (state = JobStopped \<longrightarrow> stop) \<and> (state = JobCompleted \<longrightarrow> \<not> stop) \<and>
     (running \<noteq> {} \<longrightarrow> state \<in> {JobRunning, JobStopping} \<and> running \<subseteq> inflight_task_states)"

lemma validate_job_snapshot_iff:
  "validate_job_snapshot state tasks stop owners (Some (phase_value p)) = Inr u \<longleftrightarrow>
   snapshot_ok state (set tasks) stop (set owners) p"
  unfolding validate_job_snapshot_def snapshot_ok_def Let_def
  by (cases p; cases state)
    (auto simp: rbind_Inr_iff list_ex_iff acceptance_phases_def)

text \<open>C7: The sequence of checks of \<open>validate_job_snapshot\<close> refines the one predicate that says
  when a durable snapshot is coherent: it passes exactly on the coherent ones, so no check is
  missing, redundant in effect, or in conflict with another.\<close>

theorem snapshot_validator_exact:
  "validate_job_snapshot state tasks stop owners (Some (phase_value p)) = Inr () \<longleftrightarrow>
   snapshot_ok state (set tasks) stop (set owners) p"
  by (rule validate_job_snapshot_iff)

end
