(* ===== verification/Yolo_DB_Core.thy ===== *)
theory Yolo_DB_Core
  imports Yolo_State_Machine Yolo_Json
begin

text \<open>
  The SQLite store of \<open>src/omarchy_yolo/db_core.py\<close>: the five tables with their keys, UNIQUE and
  foreign-key constraints as INSERT enforces them, and the snapshot every mutation validates.

  A mutation is a function \<open>db \<Rightarrow> py_error + db\<close>. It models one \<open>BEGIN IMMEDIATE\<close> transaction:
  \<open>Inr db'\<close> is the COMMIT with the new store, and \<open>Inl e\<close> is the ROLLBACK that leaves the
  caller's store as it was and raises \<open>e\<close>.
\<close>

section \<open>Tables\<close>

record event_row =
  e_id :: int
  e_job_id :: string
  e_task_id :: "string option"
  e_kind :: string
  e_payload :: json
  e_created_at :: timestamp

record dossier_row =
  d_job_id :: string
  d_schema_version :: int
  d_sha256 :: string
  d_content :: string
  d_published :: bool
  d_created_at :: timestamp

record db =
  db_jobs :: "job_row list"
  db_tasks :: "task_row list"
  db_attempts :: "attempt_row list"
  db_events :: "event_row list"
  db_dossiers :: "dossier_row list"
  db_last_event_id :: int

definition empty_db :: db where
  "empty_db = \<lparr>db_jobs = [], db_tasks = [], db_attempts = [], db_events = [],
     db_dossiers = [], db_last_event_id = 0\<rparr>"

section \<open>Lookups by primary key\<close>

definition find_job :: "string \<Rightarrow> job_row list \<Rightarrow> job_row option" where
  "find_job jid rows = List.find (\<lambda>r. j_id r = jid) rows"

definition find_task :: "string \<Rightarrow> task_row list \<Rightarrow> task_row option" where
  "find_task tid rows = List.find (\<lambda>r. t_id r = tid) rows"

definition find_attempt :: "string \<Rightarrow> attempt_row list \<Rightarrow> attempt_row option" where
  "find_attempt aid rows = List.find (\<lambda>r. a_id r = aid) rows"

definition find_dossier :: "string \<Rightarrow> dossier_row list \<Rightarrow> dossier_row option" where
  "find_dossier jid rows = List.find (\<lambda>r. d_job_id r = jid) rows"

interpretation job_tab: keyed_table j_id find_job
  by unfold_locales (simp_all add: find_job_def)

interpretation task_tab: keyed_table t_id find_task
  by unfold_locales (simp_all add: find_task_def)

interpretation attempt_tab: keyed_table a_id find_attempt
  by unfold_locales (simp_all add: find_attempt_def)

interpretation dossier_tab: keyed_table d_job_id find_dossier
  by unfold_locales (simp_all add: find_dossier_def)

text \<open>\<open>SELECT .. fetchone()\<close> followed by the \<open>KeyError\<close> for a missing row.\<close>

definition row_or :: "py_error \<Rightarrow> 'r option \<Rightarrow> py_error + 'r" where
  "row_or e r = (case r of None \<Rightarrow> Inl e | Some x \<Rightarrow> Inr x)"

lemma row_or_Inr_iff [simp]: "row_or e r = Inr x \<longleftrightarrow> r = Some x"
  by (cases r) (auto simp: row_or_def)

lemma row_or_Inl_iff [simp]: "row_or e r = Inl e' \<longleftrightarrow> r = None \<and> e' = e"
  by (cases r) (auto simp: row_or_def)

definition lookup_job :: "string \<Rightarrow> db \<Rightarrow> py_error + job_row" where
  "lookup_job jid db = row_or (KeyError jid) (find_job jid (db_jobs db))"

section \<open>INSERT with its constraints\<close>

definition insert_job :: "job_row \<Rightarrow> db \<Rightarrow> py_error + db" where
  "insert_job r db =
     rbind (require (j_id r \<notin> j_id ` set (db_jobs db))
       (IntegrityError ''UNIQUE constraint failed: jobs.id'')) (\<lambda>_.
     Inr (db\<lparr>db_jobs := db_jobs db @ [r]\<rparr>))"

definition insert_task :: "task_row \<Rightarrow> db \<Rightarrow> py_error + db" where
  "insert_task r db =
     rbind (require (t_id r \<notin> t_id ` set (db_tasks db))
       (IntegrityError ''UNIQUE constraint failed: tasks.id'')) (\<lambda>_.
     rbind (require ((t_job_id r, t_logical_id r) \<notin>
         (\<lambda>t. (t_job_id t, t_logical_id t)) ` set (db_tasks db))
       (IntegrityError ''UNIQUE constraint failed: tasks.job_id, tasks.logical_id'')) (\<lambda>_.
     rbind (require (t_job_id r \<in> j_id ` set (db_jobs db))
       (IntegrityError ''FOREIGN KEY constraint failed'')) (\<lambda>_.
     Inr (db\<lparr>db_tasks := db_tasks db @ [r]\<rparr>))))"

fun insert_tasks :: "task_row list \<Rightarrow> db \<Rightarrow> py_error + db" where
  "insert_tasks [] db = Inr db"
| "insert_tasks (r # rs) db = rbind (insert_task r db) (insert_tasks rs)"

definition insert_attempt :: "attempt_row \<Rightarrow> db \<Rightarrow> py_error + db" where
  "insert_attempt r db =
     rbind (require (a_id r \<notin> a_id ` set (db_attempts db))
       (IntegrityError ''UNIQUE constraint failed: attempts.id'')) (\<lambda>_.
     rbind (require ((a_task_id r, a_number r) \<notin>
         (\<lambda>a. (a_task_id a, a_number a)) ` set (db_attempts db))
       (IntegrityError ''UNIQUE constraint failed: attempts.task_id, attempts.number'')) (\<lambda>_.
     rbind (require (a_job_id r \<in> j_id ` set (db_jobs db) \<and>
         (a_job_id r, a_task_id r) \<in> (\<lambda>t. (t_job_id t, t_id t)) ` set (db_tasks db))
       (IntegrityError ''FOREIGN KEY constraint failed'')) (\<lambda>_.
     Inr (db\<lparr>db_attempts := db_attempts db @ [r]\<rparr>))))"

text \<open>\<open>events.id\<close> is AUTOINCREMENT: one more than any id ever given out.\<close>

definition insert_event ::
  "string \<Rightarrow> string option \<Rightarrow> string \<Rightarrow> json \<Rightarrow> timestamp \<Rightarrow> db \<Rightarrow> py_error + db" where
  "insert_event jid tid kind payload now db =
     rbind (require (jid \<in> j_id ` set (db_jobs db))
       (IntegrityError ''FOREIGN KEY constraint failed'')) (\<lambda>_.
     let n = db_last_event_id db + 1 in
     Inr (db\<lparr>db_events := db_events db @
               [\<lparr>e_id = n, e_job_id = jid, e_task_id = tid, e_kind = kind,
                 e_payload = payload, e_created_at = now\<rparr>],
             db_last_event_id := n\<rparr>))"

text \<open>\<open>INSERT INTO dossiers .. ON CONFLICT(job_id) DO UPDATE\<close>.\<close>

definition upsert_dossier :: "dossier_row \<Rightarrow> db \<Rightarrow> py_error + db" where
  "upsert_dossier r db =
     rbind (require (d_job_id r \<in> j_id ` set (db_jobs db))
       (IntegrityError ''FOREIGN KEY constraint failed'')) (\<lambda>_.
     Inr (db\<lparr>db_dossiers :=
        (if d_job_id r \<in> d_job_id ` set (db_dossiers db)
         then update_where (\<lambda>d. d_job_id d = d_job_id r) (\<lambda>_. r) (db_dossiers db)
         else db_dossiers db @ [r])\<rparr>))"

section \<open>The durable snapshot\<close>

definition job_task_states :: "string \<Rightarrow> db \<Rightarrow> task_state list" where
  "job_task_states jid db =
     map t_state (sort_key t_seq (filter (\<lambda>t. t_job_id t = jid) (db_tasks db)))"

definition running_owner_states :: "string \<Rightarrow> db \<Rightarrow> task_state list" where
  "running_owner_states jid db =
     map (\<lambda>(a, t). t_state t)
       (sort_key (\<lambda>(a, t). (a_started_at a, a_id a))
         (concat (map (\<lambda>a. map (Pair a)
             (filter (\<lambda>t. t_job_id t = a_job_id a \<and> t_id t = a_task_id a) (db_tasks db)))
           (filter (\<lambda>a. a_job_id a = jid \<and> a_state a = AttemptRunning) (db_attempts db)))))"

definition snapshot_locked ::
  "string \<Rightarrow> db \<Rightarrow> py_error + job_state \<times> task_state list \<times> task_state list \<times> bool \<times> acceptance_phase"
  where
  "snapshot_locked jid db =
     rbind (lookup_job jid db) (\<lambda>j.
     Inr (j_state j, job_task_states jid db, running_owner_states jid db,
          j_stop_requested j, j_acceptance_phase j))"

definition validate_snapshot_locked :: "string \<Rightarrow> db \<Rightarrow> py_error + unit" where
  "validate_snapshot_locked jid db =
     rbind (snapshot_locked jid db) (\<lambda>(state, tasks, running_owners, stop, phase).
     validate_job_snapshot state tasks stop running_owners (Some (phase_value phase)))"

section \<open>What a validated snapshot means\<close>

definition task_states_of :: "string \<Rightarrow> db \<Rightarrow> task_state set" where
  "task_states_of jid db = {t_state t |t. t \<in> set (db_tasks db) \<and> t_job_id t = jid}"

definition running_owners_of :: "string \<Rightarrow> db \<Rightarrow> task_state set" where
  "running_owners_of jid db =
     {t_state t |a t. a \<in> set (db_attempts db) \<and> a_job_id a = jid \<and> a_state a = AttemptRunning \<and>
        t \<in> set (db_tasks db) \<and> t_job_id t = a_job_id a \<and> t_id t = a_task_id a}"

definition job_consistent :: "db \<Rightarrow> job_row \<Rightarrow> bool" where
  "job_consistent db j \<longleftrightarrow>
     snapshot_ok (j_state j) (task_states_of (j_id j) db) (j_stop_requested j)
       (running_owners_of (j_id j) db) (j_acceptance_phase j)"

lemma set_job_task_states: "set (job_task_states jid db) = task_states_of jid db"
  by (auto simp: job_task_states_def task_states_of_def)

lemma set_running_owner_states: "set (running_owner_states jid db) = running_owners_of jid db"
  by (force simp: running_owner_states_def running_owners_of_def)

lemma validate_snapshot_locked_iff:
  "validate_snapshot_locked jid db = Inr u \<longleftrightarrow>
   (\<exists>j. find_job jid (db_jobs db) = Some j \<and> job_consistent db j)"
  by (auto simp: validate_snapshot_locked_def snapshot_locked_def lookup_job_def rbind_Inr_iff
      validate_job_snapshot_iff job_consistent_def set_job_task_states set_running_owner_states
      dest: job_tab.select_SomeD)

end
