(* ===== verification/Yolo_DB_Records.thy ===== *)
theory Yolo_DB_Records
  imports Yolo_DB_Core
begin

text \<open>
  \<open>src/omarchy_yolo/db_records.py\<close>: creating jobs and tasks, the event ledger and the bounded
  queries. Fresh identifiers (\<open>new_id\<close>) and the clock (\<open>utc_ts\<close>) are arguments.
\<close>

section \<open>Bounds\<close>

definition MAX_JOB_LIST_LIMIT :: int where "MAX_JOB_LIST_LIMIT = 200"
definition MAX_EVENT_LIST_LIMIT :: int where "MAX_EVENT_LIST_LIMIT = 100"
definition MAX_EVENT_PAYLOAD_CHARS :: nat where "MAX_EVENT_PAYLOAD_CHARS = 8000"

section \<open>Jobs\<close>

definition create_job ::
  "timestamp \<Rightarrow> string \<Rightarrow> string \<Rightarrow> string \<Rightarrow> string \<Rightarrow> string \<Rightarrow> string \<Rightarrow> bool \<Rightarrow> db
   \<Rightarrow> py_error + job_row \<times> db" where
  "create_job now new_job_id repo goal base_branch base_commit integration_branch auto_apply db =
     rbind (insert_job
       \<lparr>j_id = new_job_id, j_repo = repo, j_goal = goal, j_state = JobQueued,
        j_base_branch = base_branch, j_base_commit = base_commit,
        j_integration_branch = integration_branch, j_integration_path = '''',
        j_auto_apply = auto_apply, j_stop_requested = False,
        j_created_at = now, j_updated_at = now, j_final_summary = '''', j_error = '''',
        j_accepted_commit = '''', j_acceptance_phase = PhaseNone,
        j_source_apply_intent = IntentNotRequested, j_source_apply_outcome = OutcomeUnset,
        j_source_apply_reason = ''''\<rparr> db) (\<lambda>db1.
     rbind (insert_event new_job_id None ''job.created''
       (JObj [(cps ''goal'', JStr (cps goal)), (cps ''repo'', JStr (cps repo))]) now db1) (\<lambda>db2.
     rbind (validate_snapshot_locked new_job_id db2) (\<lambda>_.
     rbind (lookup_job new_job_id db2) (\<lambda>job.
     Inr (job, db2)))))"

definition get_job :: "string \<Rightarrow> db \<Rightarrow> py_error + job_row" where
  "get_job job_id db = lookup_job job_id db"

definition list_jobs :: "int \<Rightarrow> db \<Rightarrow> job_row list" where
  "list_jobs limit db =
     (let bounded = min MAX_JOB_LIST_LIMIT (max 1 limit)
      in take (nat bounded) (sort_key (\<lambda>r. - j_created_at r) (db_jobs db)))"

definition latest_job :: "db \<Rightarrow> job_row option" where
  "latest_job db =
     (case sort_key (\<lambda>r. - j_created_at r) (db_jobs db) of [] \<Rightarrow> None | r # _ \<Rightarrow> Some r)"

section \<open>Tasks\<close>

text \<open>\<open>SELECT COALESCE(MAX(seq), 0)\<close>.\<close>

definition max_seq :: "string \<Rightarrow> db \<Rightarrow> int" where
  "max_seq job_id db =
     (case map t_seq (filter (\<lambda>t. t_job_id t = job_id) (db_tasks db)) of
        [] \<Rightarrow> 0
      | n # ns \<Rightarrow> fold max ns n)"

definition new_task_row ::
  "timestamp \<Rightarrow> string \<Rightarrow> int \<Rightarrow> string \<Rightarrow> planned_task \<Rightarrow> task_row" where
  "new_task_row now job_id seq new_task_id task =
     \<lparr>t_id = new_task_id, t_job_id = job_id, t_seq = seq,
      t_logical_id = pt_logical_id task, t_title = pt_title task,
      t_description = pt_description task, t_state = TaskPending,
      t_dependencies = pt_depends_on task, t_acceptance = pt_acceptance task,
      t_preferred_agent = pt_preferred_agent task, t_attempts = 0, t_branch = '''',
      t_worktree = '''', t_base_commit = '''', t_last_error = '''', t_result_summary = '''',
      t_created_at = now, t_updated_at = now\<rparr>"

text \<open>
  \<open>enumerate(planned, start=1)\<close>: the rows get the sequence numbers after the largest one the
  job has. Every planned task comes with the identifier drawn for it.
\<close>

fun new_task_rows ::
  "timestamp \<Rightarrow> string \<Rightarrow> int \<Rightarrow> (string \<times> planned_task) list \<Rightarrow> task_row list" where
  "new_task_rows now job_id seq [] = []"
| "new_task_rows now job_id seq ((new_task_id, p) # ps) =
     new_task_row now job_id (seq + 1) new_task_id p # new_task_rows now job_id (seq + 1) ps"

text \<open>
  The stored text NULL or empty reads back as no preferred agent (\<open>_task_from_row\<close>).
\<close>

definition task_from_row :: "task_row \<Rightarrow> task_row" where
  "task_from_row r =
     r\<lparr>t_preferred_agent := (case t_preferred_agent r of
          None \<Rightarrow> None | Some a \<Rightarrow> if a = '''' then None else Some a)\<rparr>"

definition list_tasks :: "string \<Rightarrow> db \<Rightarrow> task_row list" where
  "list_tasks job_id db =
     map task_from_row (sort_key t_seq (filter (\<lambda>t. t_job_id t = job_id) (db_tasks db)))"

definition add_tasks ::
  "timestamp \<Rightarrow> string \<Rightarrow> (string \<times> planned_task) list \<Rightarrow> db \<Rightarrow> py_error + task_row list \<times> db" where
  "add_tasks now job_id planned db =
     rbind (lookup_job job_id db) (\<lambda>job.
     rbind (require (j_state job \<in> {JobQueued, JobPlanning})
       (StateTransitionError (''tasks can only be added while job is queued/planning, got '' @
          job_state_value (j_state job)))) (\<lambda>_.
     rbind (require (j_acceptance_phase job = PhaseNone)
       (StateTransitionError (''tasks cannot be added after acceptance begins ('' @
          phase_value (j_acceptance_phase job) @ '')''))) (\<lambda>_.
     rbind (insert_tasks (new_task_rows now job_id (max_seq job_id db) planned) db) (\<lambda>db1.
     rbind (validate_snapshot_locked job_id db1) (\<lambda>_.
     Inr (list_tasks job_id db1, db1))))))"

definition get_task :: "string \<Rightarrow> db \<Rightarrow> py_error + task_row" where
  "get_task task_id db =
     rbind (row_or (KeyError task_id) (find_task task_id (db_tasks db))) (\<lambda>r. Inr (task_from_row r))"

definition get_task_by_logical_id :: "string \<Rightarrow> string \<Rightarrow> db \<Rightarrow> py_error + task_row" where
  "get_task_by_logical_id job_id logical_id db =
     rbind (row_or (KeyError logical_id)
       (List.find (\<lambda>t. t_job_id t = job_id \<and> t_logical_id t = logical_id) (db_tasks db)))
       (\<lambda>r. Inr (task_from_row r))"

section \<open>The event ledger\<close>

definition bounded_payload :: "json \<Rightarrow> json" where
  "bounded_payload payload =
     (let encoded_payload = json_dumps payload in
      if length encoded_payload > MAX_EVENT_PAYLOAD_CHARS
      then JObj [(cps ''truncated'', JBool True),
                 (cps ''preview'', JStr (take (MAX_EVENT_PAYLOAD_CHARS - 100) encoded_payload))]
      else payload)"

definition event ::
  "timestamp \<Rightarrow> string \<Rightarrow> string \<Rightarrow> json option \<Rightarrow> string option \<Rightarrow> db \<Rightarrow> py_error + int \<times> db" where
  "event now job_id kind payload task_id db =
     rbind (insert_event job_id task_id (take 128 kind)
       (bounded_payload (case payload of None \<Rightarrow> JObj [] | Some p \<Rightarrow> p)) now db) (\<lambda>db1.
     Inr (db_last_event_id db1, db1))"

definition events :: "string \<Rightarrow> int \<Rightarrow> int \<Rightarrow> db \<Rightarrow> event_row list" where
  "events job_id after_id limit db =
     (let bounded = min MAX_EVENT_LIST_LIMIT (max 1 limit)
      in take (nat bounded)
           (sort_key e_id
             (filter (\<lambda>e. e_job_id e = job_id \<and> e_id e > max 0 after_id) (db_events db))))"

definition recent_events :: "string \<Rightarrow> int \<Rightarrow> db \<Rightarrow> event_row list" where
  "recent_events job_id limit db =
     (let bounded = min MAX_EVENT_LIST_LIMIT (max 1 limit)
      in rev (take (nat bounded)
           (sort_key (\<lambda>e. - e_id e) (filter (\<lambda>e. e_job_id e = job_id) (db_events db)))))"

definition last_event_id :: "string \<Rightarrow> db \<Rightarrow> int" where
  "last_event_id job_id db =
     (case map e_id (filter (\<lambda>e. e_job_id e = job_id) (db_events db)) of
        [] \<Rightarrow> 0
      | n # ns \<Rightarrow> fold max ns n)"

section \<open>Attempt telemetry\<close>

text \<open>\<open>round(x, 3)\<close>: to the nearest thousandth, a tie to the even one.\<close>

definition round3 :: "rat \<Rightarrow> rat" where
  "round3 x =
     (let y = 1000 * x; f = \<lfloor>y\<rfloor>; d = y - of_int f
      in of_int (if d < 1/2 \<or> d = 1/2 \<and> even f then f else f + 1) / 1000)"

definition attempt_elapsed :: "timestamp \<Rightarrow> attempt_row \<Rightarrow> rat" where
  "attempt_elapsed now a =
     max 0 ((case a_finished_at a of None \<Rightarrow> now | Some f \<Rightarrow> f) - a_started_at a)"

definition attempt_completed :: "attempt_row \<Rightarrow> rat" where
  "attempt_completed a =
     (case a_finished_at a of None \<Rightarrow> 0 | Some f \<Rightarrow> max 0 (f - a_started_at a))"

record agent_metrics =
  am_attempts :: nat
  am_by_state :: "(attempt_state \<times> nat) list"
  am_elapsed_seconds :: rat

record attempt_metrics =
  ax_attempts_total :: nat
  ax_states :: "(attempt_state \<times> nat) list"
  ax_elapsed_seconds_total :: rat
  ax_completed_seconds_total :: rat
  ax_by_agent :: "(string \<times> agent_metrics) list"

text \<open>
  The query groups by agent and state and the loop adds the groups up again; here the sums
  are taken over the rows directly, per state, per agent and in total.
\<close>

definition count_states :: "attempt_row list \<Rightarrow> (attempt_state \<times> nat) list" where
  "count_states rows = map (\<lambda>s. (s, count_where (\<lambda>a. a_state a = s) rows)) all_attempt_states"

definition attempt_metrics :: "timestamp \<Rightarrow> string \<Rightarrow> db \<Rightarrow> attempt_metrics" where
  "attempt_metrics now job_id db =
     (let rows = filter (\<lambda>a. a_job_id a = job_id) (db_attempts db) in
      \<lparr>ax_attempts_total = length rows,
       ax_states = count_states rows,
       ax_elapsed_seconds_total = round3 (sum_list (map (attempt_elapsed now) rows)),
       ax_completed_seconds_total = round3 (sum_list (map attempt_completed rows)),
       ax_by_agent =
         map (\<lambda>agent. let mine = filter (\<lambda>a. a_agent a = agent) rows in
               (agent, \<lparr>am_attempts = length mine, am_by_state = count_states mine,
                        am_elapsed_seconds = round3 (sum_list (map (attempt_elapsed now) mine))\<rparr>))
           (sort (remdups (map a_agent rows)))\<rparr>)"

text \<open>The row of the largest attempt number of every task of the job, with its elapsed time.\<close>

definition latest_attempts :: "timestamp \<Rightarrow> string \<Rightarrow> db \<Rightarrow> (string \<times> attempt_row \<times> rat) list" where
  "latest_attempts now job_id db =
     (let rows = filter (\<lambda>a. a_job_id a = job_id) (db_attempts db) in
      map (\<lambda>a. (a_task_id a, a, round3 (attempt_elapsed now a)))
        (filter (\<lambda>a. list_all (\<lambda>b. a_task_id b = a_task_id a \<longrightarrow> a_number b \<le> a_number a) rows) rows))"

end
