(* ===== verification/Yolo_DB.thy ===== *)
theory Yolo_DB
  imports Yolo_DB_Records
begin

text \<open>
  The public mutations of \<open>src/omarchy_yolo/db.py\<close>. The keyword arguments of an update are a
  record with one optional entry per admitted field and the list of names outside the admitted
  set.
\<close>

section \<open>Field updates\<close>

record job_update =
  ju_state :: "job_state option"
  ju_integration_path :: "string option"
  ju_stop_requested :: "bool option"
  ju_final_summary :: "string option"
  ju_error :: "string option"
  ju_auto_apply :: "bool option"
  ju_unknown :: "string list"

record task_update =
  tu_state :: "task_state option"
  tu_attempts :: "int option"
  tu_branch :: "string option"
  tu_worktree :: "string option"
  tu_base_commit :: "string option"
  tu_last_error :: "string option"
  tu_result_summary :: "string option"
  tu_preferred_agent :: "string option option"
  tu_unknown :: "string list"

definition no_job_update :: job_update where
  "no_job_update = \<lparr>ju_state = None, ju_integration_path = None, ju_stop_requested = None,
     ju_final_summary = None, ju_error = None, ju_auto_apply = None, ju_unknown = []\<rparr>"

definition no_task_update :: task_update where
  "no_task_update = \<lparr>tu_state = None, tu_attempts = None, tu_branch = None, tu_worktree = None,
     tu_base_commit = None, tu_last_error = None, tu_result_summary = None,
     tu_preferred_agent = None, tu_unknown = []\<rparr>"

definition override :: "'a option \<Rightarrow> 'a \<Rightarrow> 'a" where
  "override new old = (case new of None \<Rightarrow> old | Some x \<Rightarrow> x)"

lemma override_simps [simp]: "override None x = x" "override (Some y) x = y"
  by (simp_all add: override_def)

text \<open>
  The fields other than the two that stay mutable after acceptance, sorted, and the text of a
  list of names in an error message.
\<close>

definition frozen_fields :: "job_update \<Rightarrow> string list" where
  "frozen_fields u =
     (if ju_auto_apply u \<noteq> None then [''auto_apply''] else []) @
     (if ju_error u \<noteq> None then [''error''] else []) @
     (if ju_final_summary u \<noteq> None then [''final_summary''] else []) @
     (if ju_integration_path u \<noteq> None then [''integration_path''] else [])"

definition touches_frozen :: "job_update \<Rightarrow> bool" where
  "touches_frozen u \<longleftrightarrow> frozen_fields u \<noteq> []"

lemma touches_frozen_iff:
  "touches_frozen u \<longleftrightarrow>
     ju_integration_path u \<noteq> None \<or> ju_final_summary u \<noteq> None \<or> ju_error u \<noteq> None \<or>
     ju_auto_apply u \<noteq> None"
  by (auto simp: touches_frozen_def frozen_fields_def)

definition repr_names :: "string list \<Rightarrow> string" where
  "repr_names names =
     ''['' @ join_with '', '' (map (\<lambda>s. [CHR 0x27] @ s @ [CHR 0x27]) names) @ '']''"

definition apply_job_update :: "timestamp \<Rightarrow> job_update \<Rightarrow> job_state \<Rightarrow> job_row \<Rightarrow> job_row" where
  "apply_job_update now u target r =
     r\<lparr>j_state := target,
       j_integration_path := override (ju_integration_path u) (j_integration_path r),
       j_stop_requested := override (ju_stop_requested u) (j_stop_requested r),
       j_final_summary := override (ju_final_summary u) (j_final_summary r),
       j_error := override (ju_error u) (j_error r),
       j_auto_apply := override (ju_auto_apply u) (j_auto_apply r),
       j_updated_at := now\<rparr>"

definition apply_task_update :: "timestamp \<Rightarrow> task_update \<Rightarrow> task_state \<Rightarrow> task_row \<Rightarrow> task_row" where
  "apply_task_update now u target r =
     r\<lparr>t_state := target,
       t_attempts := override (tu_attempts u) (t_attempts r),
       t_branch := override (tu_branch u) (t_branch r),
       t_worktree := override (tu_worktree u) (t_worktree r),
       t_base_commit := override (tu_base_commit u) (t_base_commit r),
       t_last_error := override (tu_last_error u) (t_last_error r),
       t_result_summary := override (tu_result_summary u) (t_result_summary r),
       t_preferred_agent := override (tu_preferred_agent u) (t_preferred_agent r),
       t_updated_at := now\<rparr>"

section \<open>\<open>update_job\<close>\<close>

definition update_job :: "timestamp \<Rightarrow> string \<Rightarrow> job_update \<Rightarrow> db \<Rightarrow> py_error + db" where
  "update_job now job_id upd db =
     (if ju_unknown upd \<noteq> [] then Inl (ValueError (''unsupported job fields: '' @ repr_names (sort (ju_unknown upd))))
      else if upd = no_job_update then Inr db
      else
     rbind (lookup_job job_id db) (\<lambda>row.
     let current = j_state row; target = override (ju_state upd) current in
     rbind (require (j_acceptance_phase row = PhaseNone \<or> \<not> touches_frozen upd)
       (StateTransitionError (''accepted job metadata is immutable; refusing fields: '' @
          repr_names (frozen_fields upd)))) (\<lambda>_.
     rbind (validate_job_transition current target) (\<lambda>_.
     rbind (require (\<not> (target = JobCompleted \<and> current \<noteq> JobCompleted))
       (StateTransitionError ''completed jobs must be published through publish_completed_job'')) (\<lambda>_.
     let hit = (\<lambda>r. j_id r = job_id \<and> j_state r = current);
         db1 = db\<lparr>db_jobs := update_where hit (apply_job_update now upd target) (db_jobs db)\<rparr> in
     rbind (require (count_where hit (db_jobs db) = 1)
       (StateTransitionError (''stale job state while updating '' @ job_id @ '': expected '' @
          job_state_value current))) (\<lambda>_.
     rbind (validate_snapshot_locked job_id db1) (\<lambda>_.
     Inr db1)))))))"

section \<open>\<open>update_task\<close>\<close>

text \<open>A task that enters an in-flight state moves its queued or planning job to running.\<close>

definition activate_job ::
  "timestamp \<Rightarrow> string \<Rightarrow> task_state \<Rightarrow> string \<Rightarrow> job_state \<Rightarrow> db \<Rightarrow> py_error + db" where
  "activate_job now task_id target job_id job_state db =
     (if target \<in> inflight_task_states \<and> job_state \<in> {JobQueued, JobPlanning}
      then rbind (validate_job_transition job_state JobRunning) (\<lambda>_.
           let hit = (\<lambda>r. j_id r = job_id \<and> j_state r = job_state) in
           rbind (require (count_where hit (db_jobs db) = 1)
             (StateTransitionError (''stale job state while activating task '' @ task_id))) (\<lambda>_.
           Inr (db\<lparr>db_jobs := update_where hit
                  (\<lambda>r. r\<lparr>j_state := JobRunning, j_updated_at := now\<rparr>) (db_jobs db)\<rparr>)))
      else Inr db)"

definition update_task :: "timestamp \<Rightarrow> string \<Rightarrow> task_update \<Rightarrow> db \<Rightarrow> py_error + db" where
  "update_task now task_id upd db =
     (if tu_unknown upd \<noteq> [] then Inl (ValueError (''unsupported task fields: '' @ repr_names (sort (tu_unknown upd))))
      else if upd = no_task_update then Inr db
      else
     rbind (row_or (KeyError task_id) (find_task task_id (db_tasks db))) (\<lambda>row.
     let job_id = t_job_id row; current = t_state row;
         target = override (tu_state upd) current in
     rbind (validate_task_transition current target) (\<lambda>_.
     rbind (lookup_job job_id db) (\<lambda>job_row.
     let job_state = j_state job_row in
     rbind (require (j_acceptance_phase job_row = PhaseNone)
       (StateTransitionError (''task graph is immutable after acceptance begins ('' @
          phase_value (j_acceptance_phase job_row) @ '')''))) (\<lambda>_.
     rbind (activate_job now task_id target job_id job_state db) (\<lambda>db1.
     rbind (require (\<not> (target = TaskCompleted \<and> current \<noteq> TaskCompleted \<and>
              list_ex (\<lambda>a. a_task_id a = task_id \<and> a_state a = AttemptRunning) (db_attempts db1)))
       (StateTransitionError ''task cannot complete while an owning attempt is still running'')) (\<lambda>_.
     let hit = (\<lambda>t. t_id t = task_id \<and> t_state t = current);
         db2 = db1\<lparr>db_tasks := update_where hit (apply_task_update now upd target) (db_tasks db1)\<rparr> in
     rbind (require (count_where hit (db_tasks db1) = 1)
       (StateTransitionError (''stale task state while updating '' @ task_id @ '': expected '' @
          task_state_value current))) (\<lambda>_.
     rbind (validate_snapshot_locked job_id db2) (\<lambda>_.
     Inr db2)))))))))"

section \<open>Attempts\<close>

definition start_attempt ::
  "timestamp \<Rightarrow> string \<Rightarrow> string \<Rightarrow> string \<Rightarrow> int \<Rightarrow> string \<Rightarrow> string \<Rightarrow> string \<Rightarrow> string \<Rightarrow> db
   \<Rightarrow> py_error + db" where
  "start_attempt now attempt_id job_id task_id number agent worktree branch log_path db =
     rbind (row_or (KeyError task_id) (find_task task_id (db_tasks db))) (\<lambda>task.
     rbind (row_or (KeyError task_id) (find_job (t_job_id task) (db_jobs db))) (\<lambda>job.
     rbind (require (t_job_id task = job_id)
       (YoloError (''attempt ownership mismatch: task '' @ task_id @ '' belongs to '' @
          t_job_id task @ '', not '' @ job_id))) (\<lambda>_.
     rbind (require (j_state job = JobRunning)
       (StateTransitionError (''attempt start requires running job, got '' @
          job_state_value (j_state job)))) (\<lambda>_.
     rbind (require (t_state task = TaskRunning)
       (StateTransitionError (''attempt start requires running task, got '' @
          task_state_value (t_state task)))) (\<lambda>_.
     rbind (require (j_acceptance_phase job = PhaseNone)
       (StateTransitionError (''attempt cannot start after acceptance begins ('' @
          phase_value (j_acceptance_phase job) @ '')''))) (\<lambda>_.
     rbind (require (\<not> list_ex (\<lambda>a. a_task_id a = task_id \<and> a_state a = AttemptRunning)
                       (db_attempts db))
       (StateTransitionError (''task '' @ task_id @ '' already has running attempt '' @
          (case List.find (\<lambda>a. a_task_id a = task_id \<and> a_state a = AttemptRunning) (db_attempts db) of
             None \<Rightarrow> [] | Some a \<Rightarrow> a_id a)))) (\<lambda>_.
     rbind (insert_attempt
       \<lparr>a_id = attempt_id, a_job_id = job_id, a_task_id = task_id, a_number = number,
        a_agent = agent, a_state = AttemptRunning, a_worktree = worktree, a_branch = branch,
        a_log_path = log_path, a_started_at = now, a_finished_at = None, a_returncode = None,
        a_summary = ''''\<rparr> db) (\<lambda>db1.
     rbind (validate_snapshot_locked job_id db1) (\<lambda>_.
     Inr db1)))))))))"

definition finish_attempt ::
  "timestamp \<Rightarrow> string \<Rightarrow> string \<Rightarrow> int option \<Rightarrow> string \<Rightarrow> db \<Rightarrow> py_error + db" where
  "finish_attempt now attempt_id state returncode summary db =
     rbind (row_or (KeyError attempt_id) (find_attempt attempt_id (db_attempts db))) (\<lambda>row.
     let job_id = a_job_id row; current = a_state row in
     rbind (attempt_state_of_string state) (\<lambda>target.
     rbind (require (current = AttemptRunning)
       (StateTransitionError (''attempt '' @ attempt_id @ '' is already finished ('' @
          attempt_state_value current @ '')''))) (\<lambda>_.
     rbind (require (target \<noteq> AttemptRunning)
       (StateTransitionError ''finish_attempt requires a terminal attempt state'')) (\<lambda>_.
     rbind (validate_attempt_transition current target) (\<lambda>_.
     let hit = (\<lambda>a. a_id a = attempt_id \<and> a_state a = current);
         db1 = db\<lparr>db_attempts := update_where hit
                 (\<lambda>a. a\<lparr>a_state := target, a_returncode := returncode, a_summary := summary,
                        a_finished_at := Some now\<rparr>) (db_attempts db)\<rparr> in
     rbind (require (count_where hit (db_attempts db) = 1)
       (StateTransitionError (''stale attempt state while updating '' @ attempt_id @
          '': expected '' @ attempt_state_value current))) (\<lambda>_.
     rbind (validate_snapshot_locked job_id db1) (\<lambda>_.
     Inr db1)))))))"

section \<open>Stop requests\<close>

text \<open>
  \<open>request_stop\<close> and \<open>clear_stop\<close> of \<open>db_records.py\<close> are two transactions: the update, then the
  event. A failing event leaves the committed update in place, so the result pairs the outcome
  with the store that is durable afterwards.
\<close>

definition update_then_event ::
  "timestamp \<Rightarrow> string \<Rightarrow> job_update \<Rightarrow> string \<Rightarrow> db \<Rightarrow> (py_error + unit) \<times> db" where
  "update_then_event now job_id upd kind db =
     (case update_job now job_id upd db of
        Inl e \<Rightarrow> (Inl e, db)
      | Inr db1 \<Rightarrow>
          (case event now job_id kind None None db1 of
             Inl e \<Rightarrow> (Inl e, db1)
           | Inr (_, db2) \<Rightarrow> (Inr (), db2)))"

definition request_stop :: "timestamp \<Rightarrow> string \<Rightarrow> db \<Rightarrow> (py_error + unit) \<times> db" where
  "request_stop now job_id =
     update_then_event now job_id
       (no_job_update\<lparr>ju_stop_requested := Some True, ju_state := Some JobStopping\<rparr>)
       ''job.stop_requested''"

definition clear_stop :: "timestamp \<Rightarrow> string \<Rightarrow> db \<Rightarrow> (py_error + unit) \<times> db" where
  "clear_stop now job_id =
     update_then_event now job_id
       (no_job_update\<lparr>ju_stop_requested := Some False, ju_state := Some JobQueued,
          ju_error := Some ''''\<rparr>)
       ''job.resumed''"

end
