(* ===== verification/Yolo_DB_Recovery.thy ===== *)
theory Yolo_DB_Recovery
  imports Yolo_DB
begin

text \<open>
  \<open>src/omarchy_yolo/db_recovery.py\<close>: retry, settling in-flight work, resume and the recovery of
  interrupted jobs at daemon start. An operation that commits and then writes events returns
  its outcome paired with the store that is durable afterwards.
\<close>

definition mark_tasks_pending :: "timestamp \<Rightarrow> task_row \<Rightarrow> task_row" where
  "mark_tasks_pending now t = t\<lparr>t_state := TaskPending, t_updated_at := now\<rparr>"

text \<open>\<open>state = ?, finished_at = ?, summary = CASE WHEN summary = '' THEN ? ELSE summary END\<close>.\<close>

definition close_attempt ::
  "timestamp \<Rightarrow> attempt_state \<Rightarrow> string \<Rightarrow> attempt_row \<Rightarrow> attempt_row" where
  "close_attempt now st summary a =
     a\<lparr>a_state := st, a_finished_at := Some now,
       a_summary := (if a_summary a = '''' then summary else a_summary a)\<rparr>"

section \<open>Retry\<close>

definition retry_failed_tasks :: "timestamp \<Rightarrow> string \<Rightarrow> db \<Rightarrow> py_error + db" where
  "retry_failed_tasks now job_id db =
     rbind (get_job job_id db) (\<lambda>job.
     rbind (require (j_acceptance_phase job = PhaseNone)
       (StateTransitionError (''cannot retry tasks after acceptance begins ('' @
          phase_value (j_acceptance_phase job) @ '')''))) (\<lambda>_.
     rbind (require (j_state job \<in> {JobFailed, JobStopped, JobQueued})
       (StateTransitionError (''cannot retry tasks while job is '' @
          job_state_value (j_state job)))) (\<lambda>_.
     let db1 = db\<lparr>db_tasks := update_where
                 (\<lambda>t. t_job_id t = job_id \<and> t_state t \<noteq> TaskCompleted)
                 (mark_tasks_pending now) (db_tasks db)\<rparr> in
     rbind (validate_snapshot_locked job_id db1) (\<lambda>_.
     Inr db1))))"

section \<open>Settling in-flight work\<close>

definition settle_inflight ::
  "timestamp \<Rightarrow> string \<Rightarrow> task_state \<Rightarrow> string \<Rightarrow> string \<Rightarrow> db \<Rightarrow> py_error + db" where
  "settle_inflight now job_id task_state attempt_state summary db =
     rbind (require (task_state \<in> {TaskPending, TaskFailed, TaskStopped})
       (ValueError (''invalid settled task state: '' @ task_state_value task_state))) (\<lambda>_.
     rbind (require (attempt_state \<in> {''cancelled'', ''failed''})
       (ValueError (''invalid settled attempt state: '' @ attempt_state))) (\<lambda>_.
     let bounded_summary = py_last 8000 summary in
     rbind (lookup_job job_id db) (\<lambda>job.
     rbind (require (j_acceptance_phase job = PhaseNone)
       (StateTransitionError (''accepted job cannot be settled as ordinary in-flight work ('' @
          phase_value (j_acceptance_phase job) @ '')''))) (\<lambda>_.
     rbind (attempt_state_of_string attempt_state) (\<lambda>settled.
     let db1 = db\<lparr>db_attempts := update_where
                 (\<lambda>a. a_job_id a = job_id \<and> a_state a = AttemptRunning)
                 (close_attempt now settled bounded_summary) (db_attempts db)\<rparr>;
         db2 = db1\<lparr>db_tasks := update_where
                 (\<lambda>t. t_job_id t = job_id \<and> t_state t \<in> inflight_task_states)
                 (\<lambda>t. t\<lparr>t_state := task_state,
                        t_last_error := (if bounded_summary = '''' then t_last_error t
                                         else bounded_summary),
                        t_updated_at := now\<rparr>) (db_tasks db1)\<rparr> in
     rbind (validate_snapshot_locked job_id db2) (\<lambda>_.
     Inr db2))))))"

section \<open>Explicit resume\<close>

definition prepare_resume_tx :: "timestamp \<Rightarrow> string \<Rightarrow> db \<Rightarrow> py_error + db" where
  "prepare_resume_tx now job_id db =
     rbind (lookup_job job_id db) (\<lambda>row.
     let current = j_state row; phase = j_acceptance_phase row in
     rbind (require (phase = PhaseNone)
       (StateTransitionError (''cannot resume ordinary work after acceptance begins ('' @
          phase_value phase @ '')''))) (\<lambda>_.
     rbind (require (current \<in> {JobStopped, JobFailed})
       (StateTransitionError (''resume requires stopped or failed job, got '' @
          job_state_value current))) (\<lambda>_.
     rbind (validate_job_transition current JobQueued) (\<lambda>_.
     let db1 = db\<lparr>db_attempts := update_where
                 (\<lambda>a. a_job_id a = job_id \<and> a_state a = AttemptRunning)
                 (close_attempt now AttemptCancelled ''cancelled before explicit resume'')
                 (db_attempts db)\<rparr>;
         db2 = db1\<lparr>db_tasks := update_where
                 (\<lambda>t. t_job_id t = job_id \<and> t_state t \<noteq> TaskCompleted)
                 (mark_tasks_pending now) (db_tasks db1)\<rparr>;
         hit = (\<lambda>r. j_id r = job_id \<and> j_state r = current \<and> j_acceptance_phase r = PhaseNone);
         db3 = db2\<lparr>db_jobs := update_where hit
                 (\<lambda>r. r\<lparr>j_state := JobQueued, j_stop_requested := False, j_error := '''',
                        j_updated_at := now\<rparr>) (db_jobs db2)\<rparr> in
     rbind (require (count_where hit (db_jobs db2) = 1)
       (StateTransitionError (''stale job state while resuming '' @ job_id))) (\<lambda>_.
     rbind (validate_snapshot_locked job_id db3) (\<lambda>_.
     Inr db3))))))"

definition prepare_resume :: "timestamp \<Rightarrow> string \<Rightarrow> db \<Rightarrow> (py_error + unit) \<times> db" where
  "prepare_resume now job_id db =
     (case prepare_resume_tx now job_id db of
        Inl e \<Rightarrow> (Inl e, db)
      | Inr db1 \<Rightarrow>
          (case event now job_id ''job.resumed'' None None db1 of
             Inl e \<Rightarrow> (Inl e, db1)
           | Inr (_, db2) \<Rightarrow> (Inr (), db2)))"

section \<open>Recovery at daemon start\<close>

text \<open>The rows of non-terminal jobs, split as the daemon splits them.\<close>

definition incomplete_rows :: "db \<Rightarrow> job_row list" where
  "incomplete_rows db =
     filter (\<lambda>r. j_state r \<notin> {JobCompleted, JobFailed, JobStopped}) (db_jobs db)"

definition accepted_row :: "job_row \<Rightarrow> bool" where
  "accepted_row r = (j_acceptance_phase r \<in> {PhaseAccepted, PhaseApplying})"

definition active_row :: "job_row \<Rightarrow> bool" where
  "active_row r = (\<not> accepted_row r \<and> \<not> j_stop_requested r \<and> j_state r \<noteq> JobStopping)"

definition stopped_row :: "job_row \<Rightarrow> bool" where
  "stopped_row r = (\<not> accepted_row r \<and> \<not> active_row r)"

definition recover_checks :: "job_row list \<Rightarrow> py_error + unit" where
  "recover_checks rows =
     rbind (each (\<lambda>r. require (j_state r \<in> {JobRunning, JobStopping})
         (StateTransitionError (''accepted recovery found invalid job state '' @
            job_state_value (j_state r)))) (filter accepted_row rows)) (\<lambda>_.
     rbind (each (\<lambda>r. validate_job_transition (j_state r) JobQueued) (filter active_row rows)) (\<lambda>_.
     each (\<lambda>r. rbind (if j_state r \<noteq> JobStopping then validate_job_transition (j_state r) JobStopping
                      else Inr ())
                 (\<lambda>_. validate_job_transition JobStopping JobStopped)) (filter stopped_row rows)))"

text \<open>Settling the tasks and attempts of a set of jobs, and the update of the job rows.\<close>

definition interrupt_jobs ::
  "timestamp \<Rightarrow> string list \<Rightarrow> task_state \<Rightarrow> string \<Rightarrow> job_state \<Rightarrow> bool \<Rightarrow> db \<Rightarrow> db" where
  "interrupt_jobs now ids task_state summary job_state stop db =
     db\<lparr>db_tasks := update_where
           (\<lambda>t. t_job_id t \<in> set ids \<and> t_state t \<in> inflight_task_states)
           (\<lambda>t. t\<lparr>t_state := task_state, t_updated_at := now\<rparr>) (db_tasks db),
        db_attempts := update_where
           (\<lambda>a. a_job_id a \<in> set ids \<and> a_state a = AttemptRunning)
           (close_attempt now AttemptCancelled summary) (db_attempts db),
        db_jobs := update_where (\<lambda>r. j_id r \<in> set ids)
           (\<lambda>r. r\<lparr>j_state := job_state, j_stop_requested := stop, j_updated_at := now\<rparr>) (db_jobs db)\<rparr>"

definition recover_tx ::
  "timestamp \<Rightarrow> string list \<Rightarrow> string list \<Rightarrow> string list \<Rightarrow> db \<Rightarrow> py_error + db" where
  "recover_tx now accepted_ids active_ids stopped_ids db =
     (let db1 = db\<lparr>db_jobs := update_where (\<lambda>r. j_id r \<in> set accepted_ids)
                  (\<lambda>r. r\<lparr>j_stop_requested := False, j_error := '''', j_updated_at := now\<rparr>)
                  (db_jobs db)\<rparr>;
          db2 = interrupt_jobs now active_ids TaskPending ''interrupted by daemon restart''
                  JobQueued False db1;
          db3 = interrupt_jobs now stopped_ids TaskStopped ''interrupted while stop was requested''
                  JobStopped True db2 in
      rbind (each (\<lambda>jid. validate_snapshot_locked jid db3)
               (accepted_ids @ active_ids @ stopped_ids)) (\<lambda>_.
      Inr db3))"

fun emit_events :: "timestamp \<Rightarrow> string \<Rightarrow> string list \<Rightarrow> db \<Rightarrow> (py_error + unit) \<times> db" where
  "emit_events now kind [] db = (Inr (), db)"
| "emit_events now kind (jid # jids) db =
     (case event now jid kind None None db of
        Inl e \<Rightarrow> (Inl e, db)
      | Inr (_, db1) \<Rightarrow> emit_events now kind jids db1)"

definition then_emit ::
  "timestamp \<Rightarrow> string \<Rightarrow> string list \<Rightarrow> (py_error + unit) \<times> db \<Rightarrow> (py_error + unit) \<times> db" where
  "then_emit now kind ids r =
     (case r of (Inl e, db) \<Rightarrow> (Inl e, db) | (Inr _, db) \<Rightarrow> emit_events now kind ids db)"

definition accepted_ids :: "db \<Rightarrow> string list" where
  "accepted_ids db = map j_id (filter accepted_row (incomplete_rows db))"

definition active_ids :: "db \<Rightarrow> string list" where
  "active_ids db = map j_id (filter active_row (incomplete_rows db))"

definition stopped_ids :: "db \<Rightarrow> string list" where
  "stopped_ids db = map j_id (filter stopped_row (incomplete_rows db))"

text \<open>The one transaction of the recovery: the checks, then the updates.\<close>

definition recover_durable :: "timestamp \<Rightarrow> db \<Rightarrow> py_error + db" where
  "recover_durable now db =
     rbind (recover_checks (incomplete_rows db)) (\<lambda>_.
     recover_tx now (accepted_ids db) (active_ids db) (stopped_ids db) db)"

definition recover_incomplete :: "timestamp \<Rightarrow> db \<Rightarrow> (py_error + string list) \<times> db" where
  "recover_incomplete now db =
     (if incomplete_rows db = [] then (Inr [], db)
      else
        (case recover_durable now db of
           Inl e \<Rightarrow> (Inl e, db)
         | Inr db1 \<Rightarrow>
             (case then_emit now ''job.recovered_stopped'' (stopped_ids db)
                     (then_emit now ''job.recovered'' (active_ids db)
                       (emit_events now ''job.recovered_acceptance'' (accepted_ids db) db1)) of
                (Inl e, db2) \<Rightarrow> (Inl e, db2)
              | (Inr _, db2) \<Rightarrow> (Inr (accepted_ids db @ active_ids db), db2))))"

end
