(* ===== verification/Yolo_DB_Provenance.thy ===== *)
theory Yolo_DB_Provenance
  imports Yolo_DB_Recovery
begin

text \<open>
  \<open>src/omarchy_yolo/db_provenance.py\<close>: staging the execution dossier, journaling acceptance
  before any source-branch side effect, and publishing completion. The SHA-256 hex digest is a
  parameter \<open>sha\<close> of every operation that computes one.
\<close>

definition digest_matches :: "(string \<Rightarrow> string) \<Rightarrow> string \<Rightarrow> string \<Rightarrow> bool" where
  "digest_matches sha content expected = (length expected = 64 \<and> sha content = expected)"

section \<open>Staging\<close>

definition stage_dossier_locked ::
  "timestamp \<Rightarrow> string \<Rightarrow> int \<Rightarrow> string \<Rightarrow> string \<Rightarrow> db \<Rightarrow> py_error + db" where
  "stage_dossier_locked now job_id schema_version sha256 content db =
     upsert_dossier \<lparr>d_job_id = job_id, d_schema_version = schema_version, d_sha256 = sha256,
       d_content = content, d_published = False, d_created_at = now\<rparr> db"

definition stage_dossier ::
  "(string \<Rightarrow> string) \<Rightarrow> timestamp \<Rightarrow> string \<Rightarrow> int \<Rightarrow> string \<Rightarrow> string \<Rightarrow> db \<Rightarrow> py_error + db" where
  "stage_dossier sha now job_id schema_version sha256 content db =
     rbind (require (\<not> schema_version < 1)
       (ValueError ''dossier schema_version must be positive'')) (\<lambda>_.
     rbind (require (digest_matches sha content sha256)
       (StateTransitionError ''refusing dossier whose SHA-256 does not match its content'')) (\<lambda>_.
     rbind (lookup_job job_id db) (\<lambda>job.
     rbind (require (\<not> (j_state job = JobCompleted \<or> j_acceptance_phase job \<noteq> PhaseNone))
       (StateTransitionError (''cannot replace dossier after acceptance begins ('' @
          phase_value (j_acceptance_phase job) @ '')''))) (\<lambda>_.
     stage_dossier_locked now job_id schema_version sha256 content db))))"

section \<open>Journaling acceptance\<close>

definition apply_intent_of_string :: "string \<Rightarrow> py_error + apply_intent" where
  "apply_intent_of_string s =
     (if s = ''requested'' then Inr IntentRequested
      else if s = ''not-requested'' then Inr IntentNotRequested
      else Inl (ValueError (''invalid source apply intent: '' @ s)))"

definition prepare_accepted_job ::
  "(string \<Rightarrow> string) \<Rightarrow> timestamp \<Rightarrow> string \<Rightarrow> string \<Rightarrow> string \<Rightarrow> string \<Rightarrow> int \<Rightarrow> string \<Rightarrow> string
   \<Rightarrow> db \<Rightarrow> py_error + db" where
  "prepare_accepted_job sha now job_id accepted_commit final_summary source_apply_intent
     dossier_schema_version dossier_sha256 dossier_content db =
     rbind (apply_intent_of_string source_apply_intent) (\<lambda>intent.
     rbind (require (accepted_commit \<noteq> '''' \<and> length accepted_commit \<le> 128)
       (ValueError ''accepted_commit must be a non-empty bounded Git object id'')) (\<lambda>_.
     rbind (require (\<not> dossier_schema_version < 1)
       (ValueError ''dossier schema_version must be positive'')) (\<lambda>_.
     rbind (require (digest_matches sha dossier_content dossier_sha256)
       (StateTransitionError ''refusing accepted dossier with invalid SHA-256'')) (\<lambda>_.
     rbind (lookup_job job_id db) (\<lambda>job.
     let current = j_state job; phase = j_acceptance_phase job in
     if phase \<in> {PhaseAccepted, PhaseApplying} then
       (let same =
          (j_accepted_commit job = accepted_commit \<and> j_source_apply_intent job = intent \<and>
           j_final_summary job = final_summary \<and>
           (case find_dossier job_id (db_dossiers db) of
              None \<Rightarrow> False
            | Some d \<Rightarrow> d_schema_version d = dossier_schema_version \<and>
                        d_sha256 d = dossier_sha256 \<and> d_content d = dossier_content))
        in if same then Inr db
           else Inl (StateTransitionError
             ''accepted job metadata changed across idempotent preparation''))
     else
     rbind (require (phase = PhaseNone)
       (StateTransitionError (''cannot prepare acceptance from phase '' @ phase_value phase))) (\<lambda>_.
     rbind (require (current \<in> {JobRunning, JobStopping})
       (StateTransitionError (''acceptance requires running/stopping job, got '' @
          job_state_value current))) (\<lambda>_.
     rbind (validate_job_transition current JobCompleted) (\<lambda>_.
     rbind (snapshot_locked job_id db) (\<lambda>(_, task_states, running_owners, _, _).
     rbind (validate_job_snapshot current task_states False running_owners (Some ''accepted'')) (\<lambda>_.
     rbind (stage_dossier_locked now job_id dossier_schema_version dossier_sha256 dossier_content db) (\<lambda>db1.
     let hit = (\<lambda>r. j_id r = job_id \<and> j_acceptance_phase r = PhaseNone \<and> j_state r = current);
         db2 = db1\<lparr>db_jobs := update_where hit
                 (\<lambda>r. r\<lparr>j_accepted_commit := accepted_commit, j_acceptance_phase := PhaseAccepted,
                        j_source_apply_intent := intent, j_source_apply_outcome := OutcomeUnset,
                        j_source_apply_reason := '''', j_final_summary := final_summary,
                        j_error := '''', j_stop_requested := False, j_updated_at := now\<rparr>)
                 (db_jobs db1)\<rparr> in
     rbind (require (count_where hit (db_jobs db1) = 1)
       (StateTransitionError (''stale job state while journaling acceptance for '' @ job_id))) (\<lambda>_.
     rbind (insert_event job_id None ''job.accepted''
       (JObj [(cps ''accepted_commit'', JStr (cps accepted_commit)),
              (cps ''source_apply_intent'', JStr (cps source_apply_intent)),
              (cps ''dossier_sha256'', JStr (cps dossier_sha256))]) now db2) (\<lambda>db3.
     rbind (validate_snapshot_locked job_id db3) (\<lambda>_.
     Inr db3))))))))))))))"

section \<open>The start of source application\<close>

definition mark_apply_started :: "timestamp \<Rightarrow> string \<Rightarrow> string \<Rightarrow> db \<Rightarrow> py_error + db" where
  "mark_apply_started now job_id accepted_commit db =
     rbind (lookup_job job_id db) (\<lambda>row.
     rbind (require (j_accepted_commit row = accepted_commit)
       (StateTransitionError ''accepted commit changed before source application'')) (\<lambda>_.
     rbind (require (j_source_apply_intent row = IntentRequested)
       (StateTransitionError ''source application was not requested'')) (\<lambda>_.
     if j_acceptance_phase row = PhaseApplying then Inr db
     else
     rbind (require (j_acceptance_phase row = PhaseAccepted)
       (StateTransitionError (''source application requires accepted phase, got '' @
          phase_value (j_acceptance_phase row)))) (\<lambda>_.
     let hit = (\<lambda>r. j_id r = job_id \<and> j_acceptance_phase r = PhaseAccepted);
         db1 = db\<lparr>db_jobs := update_where hit
                 (\<lambda>r. r\<lparr>j_acceptance_phase := PhaseApplying, j_updated_at := now\<rparr>) (db_jobs db)\<rparr> in
     rbind (require (count_where hit (db_jobs db) = 1)
       (StateTransitionError (''stale acceptance phase while starting source apply for '' @ job_id))) (\<lambda>_.
     rbind (insert_event job_id None ''job.apply_started''
       (JObj [(cps ''accepted_commit'', JStr (cps accepted_commit))]) now db1) (\<lambda>db2.
     rbind (validate_snapshot_locked job_id db2) (\<lambda>_.
     Inr db2)))))))"

section \<open>Reading dossiers\<close>

definition get_staged_dossier :: "string \<Rightarrow> db \<Rightarrow> dossier_row option" where
  "get_staged_dossier job_id db = find_dossier job_id (db_dossiers db)"

definition get_dossier :: "string \<Rightarrow> db \<Rightarrow> dossier_row option" where
  "get_dossier job_id db = List.find (\<lambda>d. d_job_id d = job_id \<and> d_published d) (db_dossiers db)"

record provenance =
  pv_tasks :: "task_row list"
  pv_attempts :: "attempt_row list"
  pv_events :: "event_row list"

definition provenance_snapshot :: "string \<Rightarrow> db \<Rightarrow> provenance" where
  "provenance_snapshot job_id db =
     \<lparr>pv_tasks = sort_key t_seq (filter (\<lambda>t. t_job_id t = job_id) (db_tasks db)),
      pv_attempts = sort_key (\<lambda>a. (a_task_id a, a_number a))
        (filter (\<lambda>a. a_job_id a = job_id) (db_attempts db)),
      pv_events = sort_key e_id (filter (\<lambda>e. e_job_id e = job_id) (db_events db))\<rparr>"

section \<open>Publication\<close>

definition apply_outcome_of_string :: "string \<Rightarrow> py_error + apply_outcome" where
  "apply_outcome_of_string s =
     (if s = ''applied'' then Inr OutcomeApplied
      else if s = ''skipped'' then Inr OutcomeSkipped
      else if s = ''not-requested'' then Inr OutcomeNotRequested
      else Inl (ValueError (''invalid source apply outcome: '' @ s)))"

text \<open>The intent and the phase from which each outcome may be published.\<close>

definition publish_intent_check ::
  "apply_intent \<Rightarrow> acceptance_phase \<Rightarrow> apply_outcome \<Rightarrow> py_error + unit" where
  "publish_intent_check intent phase outcome =
     (case intent of
        IntentNotRequested \<Rightarrow>
          require (\<not> (phase \<noteq> PhaseAccepted \<or> outcome \<noteq> OutcomeNotRequested))
            (StateTransitionError
              ''non-applied acceptance must publish from accepted/not-requested state'')
      | IntentRequested \<Rightarrow>
          require (\<not> (phase \<noteq> PhaseApplying \<or> outcome \<notin> {OutcomeApplied, OutcomeSkipped}))
            (StateTransitionError
              ''requested source application must publish from applying with applied/skipped outcome''))"

definition publish_events ::
  "timestamp \<Rightarrow> job_row \<Rightarrow> int \<Rightarrow> string \<Rightarrow> string \<Rightarrow> apply_outcome \<Rightarrow> string \<Rightarrow> db \<Rightarrow> py_error + db" where
  "publish_events now job schema_version sha256 final_summary outcome reason db =
     rbind (insert_event (j_id job) None ''job.dossier_created''
       (JObj [(cps ''sha256'', JStr (cps sha256)),
              (cps ''schema_version'', JInt schema_version),
              (cps ''accepted_commit'', JStr (cps (j_accepted_commit job)))]) now db) (\<lambda>db1.
     rbind (if outcome = OutcomeApplied then
              insert_event (j_id job) None ''job.applied''
                (JObj [(cps ''branch'', JStr (cps (j_base_branch job))),
                       (cps ''accepted_commit'', JStr (cps (j_accepted_commit job)))]) now db1
            else if outcome = OutcomeSkipped then
              insert_event (j_id job) None ''job.apply_skipped''
                (JObj [(cps ''reason'', JStr (cps (py_last 4000 reason)))]) now db1
            else Inr db1) (\<lambda>db2.
     insert_event (j_id job) None ''job.completed''
       (JObj [(cps ''summary'', JStr (cps final_summary)),
              (cps ''branch'', JStr (cps (j_integration_branch job))),
              (cps ''dossier_sha256'', JStr (cps sha256)),
              (cps ''accepted_commit'', JStr (cps (j_accepted_commit job))),
              (cps ''source_apply_outcome'', JStr (cps (apply_outcome_value outcome)))]) now db2))"

definition publish_completed_job ::
  "(string \<Rightarrow> string) \<Rightarrow> timestamp \<Rightarrow> string \<Rightarrow> int \<Rightarrow> string \<Rightarrow> string \<Rightarrow> string \<Rightarrow> string
   \<Rightarrow> db \<Rightarrow> py_error + db" where
  "publish_completed_job sha now job_id dossier_schema_version dossier_sha256 final_summary
     source_apply_outcome source_apply_reason db =
     rbind (apply_outcome_of_string source_apply_outcome) (\<lambda>outcome.
     rbind (lookup_job job_id db) (\<lambda>job.
     let current = j_state job; phase = j_acceptance_phase job in
     rbind (row_or (StateTransitionError ''cannot publish completion without a staged dossier'')
       (find_dossier job_id (db_dossiers db))) (\<lambda>dossier.
     rbind (require (d_schema_version dossier = dossier_schema_version)
       (StateTransitionError ''staged dossier schema version changed before publication'')) (\<lambda>_.
     rbind (require (d_sha256 dossier = dossier_sha256)
       (StateTransitionError ''staged dossier digest changed before publication'')) (\<lambda>_.
     rbind (require (digest_matches sha (d_content dossier) dossier_sha256)
       (StateTransitionError ''staged dossier content failed SHA-256 verification'')) (\<lambda>_.
     if current = JobCompleted then
       (if d_published dossier \<and> phase = PhasePublished then
          rbind (require (j_source_apply_outcome job = outcome)
            (StateTransitionError
              ''completed job source-apply outcome changed across idempotent publication'')) (\<lambda>_.
          Inr db)
        else Inl (StateTransitionError ''completed job contains an unpublished acceptance''))
     else
     rbind (publish_intent_check (j_source_apply_intent job) phase outcome) (\<lambda>_.
     rbind (require (j_accepted_commit job \<noteq> '''')
       (StateTransitionError ''accepted job is missing accepted_commit'')) (\<lambda>_.
     rbind (validate_job_transition current JobCompleted) (\<lambda>_.
     rbind (snapshot_locked job_id db) (\<lambda>(_, task_states, running_owners, _, _).
     rbind (validate_job_snapshot JobCompleted task_states False running_owners (Some ''published'')) (\<lambda>_.
     let hit = (\<lambda>r. j_id r = job_id \<and> j_state r = current \<and> j_acceptance_phase r = phase);
         db1 = db\<lparr>db_jobs := update_where hit
                 (\<lambda>r. r\<lparr>j_state := JobCompleted, j_stop_requested := False,
                        j_final_summary := final_summary, j_error := '''',
                        j_acceptance_phase := PhasePublished, j_source_apply_outcome := outcome,
                        j_source_apply_reason := py_last 4000 source_apply_reason,
                        j_updated_at := now\<rparr>) (db_jobs db)\<rparr> in
     rbind (require (count_where hit (db_jobs db) = 1)
       (StateTransitionError (''stale job state while publishing completion for '' @ job_id))) (\<lambda>_.
     let dhit = (\<lambda>d. d_job_id d = job_id \<and> \<not> d_published d \<and> d_sha256 d = dossier_sha256);
         db2 = db1\<lparr>db_dossiers := update_where dhit (\<lambda>d. d\<lparr>d_published := True\<rparr>) (db_dossiers db1)\<rparr> in
     rbind (require (count_where dhit (db_dossiers db1) = 1)
       (StateTransitionError ''staged dossier could not be published atomically'')) (\<lambda>_.
     rbind (publish_events now job dossier_schema_version dossier_sha256 final_summary outcome
              source_apply_reason db2) (\<lambda>db3.
     rbind (validate_snapshot_locked job_id db3) (\<lambda>_.
     Inr db3)))))))))))))))"

end
