(* ===== verification/Yolo_DB_Effects.thy ===== *)
theory Yolo_DB_Effects
  imports Yolo_DB_Provenance
begin

text \<open>
  What every mutation of the store does when it succeeds: one lemma per operation, with the
  guards that held and the new store as an explicit update of the old one. The preservation
  proofs of \<open>Yolo_DB_Invariant\<close> and \<open>Yolo_DB_Steps\<close> start from these.
\<close>

section \<open>Effects of the operations\<close>

definition snapshot_valid :: "string \<Rightarrow> db \<Rightarrow> bool" where
  "snapshot_valid jid db \<longleftrightarrow> (\<exists>j. find_job jid (db_jobs db) = Some j \<and> job_consistent db j)"

lemma validate_snapshot_locked_valid:
  "validate_snapshot_locked jid db = Inr u \<longleftrightarrow> snapshot_valid jid db"
  by (simp add: validate_snapshot_locked_iff snapshot_valid_def)

lemmas op_simps = rbind_Inr_iff Let_def lookup_job_def validate_snapshot_locked_valid
  job_lc.validate_iff task_lc.validate_iff attempt_lc.validate_iff

lemma insert_event_effect:
  "insert_event jid tid kind payload now db = Inr db' \<longleftrightarrow>
   jid \<in> j_id ` set (db_jobs db) \<and>
   db' = db\<lparr>db_events := db_events db @
              [\<lparr>e_id = db_last_event_id db + 1, e_job_id = jid, e_task_id = tid, e_kind = kind,
                e_payload = payload, e_created_at = now\<rparr>],
            db_last_event_id := db_last_event_id db + 1\<rparr>"
  by (auto simp: insert_event_def rbind_Inr_iff Let_def)

lemma create_job_effect:
  assumes "create_job now i repo goal bb bc ib aa db = Inr (j, db')"
  shows "i \<notin> j_id ` set (db_jobs db) \<and>
    (\<exists>p. db' = db\<lparr>db_jobs := db_jobs db @ [j],
            db_events := db_events db @
              [\<lparr>e_id = db_last_event_id db + 1, e_job_id = i, e_task_id = None,
                e_kind = ''job.created'', e_payload = p, e_created_at = now\<rparr>],
            db_last_event_id := db_last_event_id db + 1\<rparr>) \<and>
    j_id j = i \<and> j_state j = JobQueued \<and> j_acceptance_phase j = PhaseNone \<and>
    j_accepted_commit j = '''' \<and> j_source_apply_outcome j = OutcomeUnset \<and>
    \<not> j_stop_requested j \<and> snapshot_valid i db'"
  using assms
  by (auto simp: create_job_def op_simps insert_job_def insert_event_effect
      job_tab.select_append find_job_def[of i "[_]"] dest: job_tab.select_SomeD split: option.splits)

lemma update_job_effect:
  assumes "update_job now jid u db = Inr db'" and "u \<noteq> no_job_update"
  shows "\<exists>row. find_job jid (db_jobs db) = Some row \<and>
    (j_acceptance_phase row = PhaseNone \<or> \<not> touches_frozen u) \<and>
    override (ju_state u) (j_state row) \<in> job_transitions (j_state row) \<and>
    (override (ju_state u) (j_state row) = JobCompleted \<longrightarrow> j_state row = JobCompleted) \<and>
    db' = db\<lparr>db_jobs := update_where (\<lambda>r. j_id r = jid \<and> j_state r = j_state row)
              (apply_job_update now u (override (ju_state u) (j_state row))) (db_jobs db)\<rparr> \<and>
    snapshot_valid jid db'"
  using assms
  by (auto simp: update_job_def op_simps split: if_splits)

lemma insert_tasks_effect:
  "insert_tasks rs db = Inr db' \<Longrightarrow>
   db' = db\<lparr>db_tasks := db_tasks db @ rs\<rparr> \<and> distinct (map t_id rs) \<and>
   t_id ` set rs \<inter> t_id ` set (db_tasks db) = {} \<and>
   distinct (map (\<lambda>t. (t_job_id t, t_logical_id t)) rs) \<and>
   (\<lambda>t. (t_job_id t, t_logical_id t)) ` set rs \<inter>
     (\<lambda>t. (t_job_id t, t_logical_id t)) ` set (db_tasks db) = {} \<and>
   t_job_id ` set rs \<subseteq> j_id ` set (db_jobs db)"
proof (induction rs arbitrary: db)
  case Nil
  then show ?case by simp
next
  case (Cons r rs)
  from Cons.prems obtain db1 where one: "insert_task r db = Inr db1"
    and rest: "insert_tasks rs db1 = Inr db'"
    by (auto simp: rbind_Inr_iff)
  note ih = Cons.IH [OF rest]
  from one have "db1 = db\<lparr>db_tasks := db_tasks db @ [r]\<rparr> \<and> t_id r \<notin> t_id ` set (db_tasks db) \<and>
      (t_job_id r, t_logical_id r) \<notin> (\<lambda>t. (t_job_id t, t_logical_id t)) ` set (db_tasks db) \<and>
      t_job_id r \<in> j_id ` set (db_jobs db)"
    by (auto simp: insert_task_def rbind_Inr_iff)
  with ih show ?case by auto
qed

lemma new_task_rows_job: "t \<in> set (new_task_rows now jid n ps) \<Longrightarrow> t_job_id t = jid \<and> t_state t = TaskPending"
  by (induction now jid n ps rule: new_task_rows.induct) (auto simp: new_task_row_def)

lemma add_tasks_effect:
  assumes "add_tasks now jid ps db = Inr (ts, db')"
  shows "\<exists>job rs. find_job jid (db_jobs db) = Some job \<and> j_acceptance_phase job = PhaseNone \<and>
    j_state job \<in> {JobQueued, JobPlanning} \<and> insert_tasks rs db = Inr db' \<and>
    rs = new_task_rows now jid (max_seq jid db) ps \<and> snapshot_valid jid db'"
  using assms by (auto simp: add_tasks_def op_simps)

lemma activate_job_effect:
  assumes "activate_job now tid target jid st db = Inr db'"
  shows "\<exists>P. (\<forall>r. P r \<longrightarrow> j_id r = jid \<and> j_state r = st) \<and>
    db' = db\<lparr>db_jobs := update_where P (\<lambda>r. r\<lparr>j_state := JobRunning, j_updated_at := now\<rparr>) (db_jobs db)\<rparr>"
proof (cases "db' = db")
  case True
  then show ?thesis by (intro exI [of _ "\<lambda>_. False"]) (simp add: update_where_none)
next
  case False
  with assms show ?thesis
    by (intro exI [of _ "\<lambda>r. j_id r = jid \<and> j_state r = st"])
      (auto simp: activate_job_def op_simps split: if_splits)
qed

lemma update_task_effect:
  assumes "update_task now tid u db = Inr db'" and "u \<noteq> no_task_update"
  shows "\<exists>row job P. find_task tid (db_tasks db) = Some row \<and>
    find_job (t_job_id row) (db_jobs db) = Some job \<and> j_acceptance_phase job = PhaseNone \<and>
    override (tu_state u) (t_state row) \<in> task_transitions (t_state row) \<and>
    (\<forall>r. P r \<longrightarrow> j_id r = t_job_id row \<and> j_state r = j_state job) \<and>
    db' = db\<lparr>db_jobs := update_where P (\<lambda>r. r\<lparr>j_state := JobRunning, j_updated_at := now\<rparr>) (db_jobs db),
      db_tasks := update_where (\<lambda>t. t_id t = tid \<and> t_state t = t_state row)
        (apply_task_update now u (override (tu_state u) (t_state row))) (db_tasks db)\<rparr> \<and>
    snapshot_valid (t_job_id row) db'"
  using assms by (auto simp: update_task_def op_simps dest!: activate_job_effect split: if_splits) blast+

lemma start_attempt_effect:
  assumes "start_attempt now aid jid tid n agent wt br lp db = Inr db'"
  shows "\<exists>task job r. find_task tid (db_tasks db) = Some task \<and> t_job_id task = jid \<and>
    find_job jid (db_jobs db) = Some job \<and> j_acceptance_phase job = PhaseNone \<and>
    j_state job = JobRunning \<and> t_state task = TaskRunning \<and>
    (\<forall>a \<in> set (db_attempts db). \<not> (a_task_id a = tid \<and> a_state a = AttemptRunning)) \<and>
    a_id r = aid \<and> a_job_id r = jid \<and> a_task_id r = tid \<and> a_number r = n \<and>
    a_state r = AttemptRunning \<and> a_finished_at r = None \<and>
    aid \<notin> a_id ` set (db_attempts db) \<and>
    (tid, n) \<notin> (\<lambda>a. (a_task_id a, a_number a)) ` set (db_attempts db) \<and>
    (jid, tid) \<in> (\<lambda>t. (t_job_id t, t_id t)) ` set (db_tasks db) \<and>
    jid \<in> j_id ` set (db_jobs db) \<and>
    db' = db\<lparr>db_attempts := db_attempts db @ [r]\<rparr> \<and> snapshot_valid jid db'"
proof -
  let ?r = "\<lparr>a_id = aid, a_job_id = jid, a_task_id = tid, a_number = n, a_agent = agent,
     a_state = AttemptRunning, a_worktree = wt, a_branch = br, a_log_path = lp,
     a_started_at = now, a_finished_at = None, a_returncode = None, a_summary = ''''\<rparr>"
  from assms obtain task job where
    "find_task tid (db_tasks db) = Some task" "t_job_id task = jid"
    "find_job jid (db_jobs db) = Some job" "j_acceptance_phase job = PhaseNone"
    "j_state job = JobRunning" "t_state task = TaskRunning"
    "\<not> list_ex (\<lambda>a. a_task_id a = tid \<and> a_state a = AttemptRunning) (db_attempts db)"
    "insert_attempt ?r db = Inr db'" "snapshot_valid jid db'"
    by (auto simp: start_attempt_def op_simps)
  then show ?thesis
    by (intro exI [of _ task] exI [of _ job] exI [of _ ?r])
      (auto simp: insert_attempt_def rbind_Inr_iff list_ex_iff)
qed

lemma finish_attempt_effect:
  assumes "finish_attempt now aid st rc summary db = Inr db'"
  shows "\<exists>row target. find_attempt aid (db_attempts db) = Some row \<and> a_state row = AttemptRunning \<and>
    attempt_state_of_string st = Inr target \<and> target \<noteq> AttemptRunning \<and>
    db' = db\<lparr>db_attempts := update_where (\<lambda>a. a_id a = aid \<and> a_state a = AttemptRunning)
      (\<lambda>a. a\<lparr>a_state := target, a_returncode := rc, a_summary := summary, a_finished_at := Some now\<rparr>)
      (db_attempts db)\<rparr> \<and>
    snapshot_valid (a_job_id row) db'"
  using assms by (auto simp: finish_attempt_def op_simps)

lemma retry_failed_tasks_effect:
  assumes "retry_failed_tasks now jid db = Inr db'"
  shows "\<exists>job. find_job jid (db_jobs db) = Some job \<and> j_acceptance_phase job = PhaseNone \<and>
    j_state job \<in> {JobFailed, JobStopped, JobQueued} \<and>
    db' = db\<lparr>db_tasks := update_where (\<lambda>t. t_job_id t = jid \<and> t_state t \<noteq> TaskCompleted)
      (mark_tasks_pending now) (db_tasks db)\<rparr> \<and>
    snapshot_valid jid db'"
  using assms by (auto simp: retry_failed_tasks_def get_job_def op_simps)

lemma attempt_state_of_string_settled:
  "s \<in> {''cancelled'', ''failed''} \<Longrightarrow> attempt_state_of_string s = Inr st \<Longrightarrow> st \<noteq> AttemptRunning"
  by (auto simp: attempt_state_of_string_def enum_of_string_def all_attempt_states_def)

lemma settle_inflight_effect:
  assumes "settle_inflight now jid ts st summary db = Inr db'"
  shows "\<exists>job settled msg. find_job jid (db_jobs db) = Some job \<and> j_acceptance_phase job = PhaseNone \<and>
    settled \<noteq> AttemptRunning \<and> ts \<in> {TaskPending, TaskFailed, TaskStopped} \<and>
    db' = db\<lparr>db_attempts := update_where (\<lambda>a. a_job_id a = jid \<and> a_state a = AttemptRunning)
                 (close_attempt now settled msg) (db_attempts db),
             db_tasks := update_where (\<lambda>t. t_job_id t = jid \<and> t_state t \<in> inflight_task_states)
                 (\<lambda>t. t\<lparr>t_state := ts, t_last_error := (if msg = '''' then t_last_error t else msg),
                        t_updated_at := now\<rparr>) (db_tasks db)\<rparr> \<and>
    snapshot_valid jid db'"
proof -
  let ?upd = "\<lambda>settled msg. db\<lparr>db_attempts := update_where (\<lambda>a. a_job_id a = jid \<and> a_state a = AttemptRunning)
                 (close_attempt now settled msg) (db_attempts db),
             db_tasks := update_where (\<lambda>t. t_job_id t = jid \<and> t_state t \<in> inflight_task_states)
                 (\<lambda>t. t\<lparr>t_state := ts, t_last_error := (if msg = '''' then t_last_error t else msg),
                        t_updated_at := now\<rparr>) (db_tasks db)\<rparr>"
  from assms obtain job settled where
    facts: "find_job jid (db_jobs db) = Some job" "j_acceptance_phase job = PhaseNone"
      "ts \<in> {TaskPending, TaskFailed, TaskStopped}" "db' = ?upd settled (py_last 8000 summary)"
      "snapshot_valid jid db'"
    and st: "st \<in> {''cancelled'', ''failed''}" "attempt_state_of_string st = Inr settled"
    unfolding settle_inflight_def
    by (clarsimp simp: op_simps simp del: insert_iff)
  from attempt_state_of_string_settled [OF st] have "settled \<noteq> AttemptRunning" .
  with facts show ?thesis
    by (intro exI [of _ job] exI [of _ settled] exI [of _ "py_last 8000 summary"]) simp
qed

lemma prepare_resume_tx_effect:
  assumes "prepare_resume_tx now jid db = Inr db'"
  shows "\<exists>job. find_job jid (db_jobs db) = Some job \<and> j_acceptance_phase job = PhaseNone \<and>
    j_state job \<in> {JobStopped, JobFailed} \<and>
    db' = db\<lparr>db_attempts := update_where (\<lambda>a. a_job_id a = jid \<and> a_state a = AttemptRunning)
                 (close_attempt now AttemptCancelled ''cancelled before explicit resume'') (db_attempts db),
             db_tasks := update_where (\<lambda>t. t_job_id t = jid \<and> t_state t \<noteq> TaskCompleted)
                 (mark_tasks_pending now) (db_tasks db),
             db_jobs := update_where (\<lambda>r. j_id r = jid \<and> j_state r = j_state job \<and> j_acceptance_phase r = PhaseNone)
                 (\<lambda>r. r\<lparr>j_state := JobQueued, j_stop_requested := False, j_error := '''',
                        j_updated_at := now\<rparr>) (db_jobs db)\<rparr> \<and>
    snapshot_valid jid db'"
  using assms by (auto simp: prepare_resume_tx_def op_simps)

lemma digest_upsert_effect:
  "upsert_dossier r db = Inr db' \<longleftrightarrow>
   d_job_id r \<in> j_id ` set (db_jobs db) \<and>
   db' = db\<lparr>db_dossiers := (if d_job_id r \<in> d_job_id ` set (db_dossiers db)
         then update_where (\<lambda>d. d_job_id d = d_job_id r) (\<lambda>_. r) (db_dossiers db)
         else db_dossiers db @ [r])\<rparr>"
  by (auto simp: upsert_dossier_def rbind_Inr_iff)

text \<open>The row a staging writes.\<close>

definition staged_row :: "timestamp \<Rightarrow> string \<Rightarrow> int \<Rightarrow> string \<Rightarrow> string \<Rightarrow> dossier_row" where
  "staged_row now jid v digest content = \<lparr>d_job_id = jid, d_schema_version = v, d_sha256 = digest,
     d_content = content, d_published = False, d_created_at = now\<rparr>"

definition staged :: "dossier_row \<Rightarrow> dossier_row list \<Rightarrow> dossier_row list" where
  "staged r ds = (if d_job_id r \<in> d_job_id ` set ds
     then update_where (\<lambda>d. d_job_id d = d_job_id r) (\<lambda>_. r) ds else ds @ [r])"

lemma stage_dossier_effect:
  assumes "stage_dossier sha now jid v digest content db = Inr db'"
  shows "\<exists>job. find_job jid (db_jobs db) = Some job \<and> j_acceptance_phase job = PhaseNone \<and>
    1 \<le> v \<and> digest_matches sha content digest \<and>
    db' = db\<lparr>db_dossiers := staged (staged_row now jid v digest content) (db_dossiers db)\<rparr>"
  using assms
  by (auto simp: stage_dossier_def stage_dossier_locked_def op_simps digest_upsert_effect
      staged_def staged_row_def)

lemma prepare_accepted_job_effect:
  assumes "prepare_accepted_job sha now jid commit summary intent v digest content db = Inr db'"
    and "db' \<noteq> db"
  shows "\<exists>job i p. find_job jid (db_jobs db) = Some job \<and> j_acceptance_phase job = PhaseNone \<and>
    commit \<noteq> '''' \<and> 1 \<le> v \<and> digest_matches sha content digest \<and>
    apply_intent_of_string intent = Inr i \<and>
    db' = db\<lparr>db_dossiers := staged (staged_row now jid v digest content) (db_dossiers db),
       db_jobs := update_where (\<lambda>r. j_id r = jid \<and> j_acceptance_phase r = PhaseNone \<and> j_state r = j_state job)
         (\<lambda>r. r\<lparr>j_accepted_commit := commit, j_acceptance_phase := PhaseAccepted,
                j_source_apply_intent := i, j_source_apply_outcome := OutcomeUnset,
                j_source_apply_reason := '''', j_final_summary := summary,
                j_error := '''', j_stop_requested := False, j_updated_at := now\<rparr>) (db_jobs db),
       db_events := db_events db @ [\<lparr>e_id = db_last_event_id db + 1, e_job_id = jid, e_task_id = None,
          e_kind = ''job.accepted'', e_payload = p, e_created_at = now\<rparr>],
       db_last_event_id := db_last_event_id db + 1\<rparr> \<and>
    snapshot_valid jid db'"
  using assms
  by (auto simp: prepare_accepted_job_def stage_dossier_locked_def op_simps digest_upsert_effect
      insert_event_effect staged_def staged_row_def split: if_splits)

lemma mark_apply_started_effect:
  assumes "mark_apply_started now jid commit db = Inr db'" and "db' \<noteq> db"
  shows "\<exists>job p. find_job jid (db_jobs db) = Some job \<and> j_acceptance_phase job = PhaseAccepted \<and>
    j_source_apply_intent job = IntentRequested \<and>
    db' = db\<lparr>db_jobs := update_where (\<lambda>r. j_id r = jid \<and> j_acceptance_phase r = PhaseAccepted)
         (\<lambda>r. r\<lparr>j_acceptance_phase := PhaseApplying, j_updated_at := now\<rparr>) (db_jobs db),
       db_events := db_events db @ [\<lparr>e_id = db_last_event_id db + 1, e_job_id = jid, e_task_id = None,
          e_kind = ''job.apply_started'', e_payload = p, e_created_at = now\<rparr>],
       db_last_event_id := db_last_event_id db + 1\<rparr> \<and>
    snapshot_valid jid db'"
  using assms
  by (auto simp: mark_apply_started_def op_simps insert_event_effect split: if_splits)

text \<open>A change of the ledger only: events of one job with the next identifiers.\<close>

definition logged :: "string \<Rightarrow> event_row list \<Rightarrow> int \<Rightarrow> db \<Rightarrow> bool" where
  "logged jid es n db \<longleftrightarrow>
     db_last_event_id db \<le> n \<and> (\<forall>e \<in> set es. e_job_id e = jid) \<and> sorted_wrt (<) (map e_id es) \<and>
     (\<forall>e \<in> set es. db_last_event_id db < e_id e \<and> e_id e \<le> n)"

lemma insert_event_logged:
  assumes "insert_event jid tid kind p now db = Inr db'"
  shows "\<exists>es n. db' = db\<lparr>db_events := db_events db @ es, db_last_event_id := n\<rparr> \<and> logged jid es n db"
  using assms
  by (intro exI [of _ "[\<lparr>e_id = db_last_event_id db + 1, e_job_id = jid, e_task_id = tid,
        e_kind = kind, e_payload = p, e_created_at = now\<rparr>]"] exI [of _ "db_last_event_id db + 1"])
    (simp add: insert_event_effect logged_def)

lemma logged_Nil: "logged jid [] (db_last_event_id db) db"
  by (simp add: logged_def)

lemma logged_one [simp]:
  "logged jid [\<lparr>e_id = db_last_event_id db + 1, e_job_id = jid, e_task_id = tid, e_kind = kind,
     e_payload = p, e_created_at = now\<rparr>] (db_last_event_id db + 1) db"
  by (simp add: logged_def)

lemma logged_append:
  "logged jid es n db \<Longrightarrow> logged jid fs m (db\<lparr>db_events := xs, db_last_event_id := n\<rparr>) \<Longrightarrow>
   logged jid (es @ fs) m db"
  by (fastforce simp: logged_def sorted_wrt_append)

lemma publish_events_logged:
  assumes "publish_events now job v digest summary outcome reason db = Inr db'"
  shows "\<exists>es n. db' = db\<lparr>db_events := db_events db @ es, db_last_event_id := n\<rparr> \<and>
    logged (j_id job) es n db"
proof -
  from assms obtain k1 p1 k3 p3 db1 db2 where
    one: "insert_event (j_id job) None k1 p1 now db = Inr db1"
    and two: "(\<exists>k p. insert_event (j_id job) None k p now db1 = Inr db2) \<or> db2 = db1"
    and three: "insert_event (j_id job) None k3 p3 now db2 = Inr db'"
    unfolding publish_events_def by (auto simp: op_simps split: if_splits) blast+
  from insert_event_logged [OF one] obtain es n where
    1: "db1 = db\<lparr>db_events := db_events db @ es, db_last_event_id := n\<rparr>" "logged (j_id job) es n db"
    by blast
  have "\<exists>fs l. db2 = db1\<lparr>db_events := db_events db1 @ fs, db_last_event_id := l\<rparr> \<and> logged (j_id job) fs l db1"
    using two logged_Nil [of "j_id job" db1] insert_event_logged
    by (elim disjE exE) (blast, intro exI [of _ "[]"] exI [of _ "db_last_event_id db1"], simp)
  then obtain fs l where
    2: "db2 = db1\<lparr>db_events := db_events db1 @ fs, db_last_event_id := l\<rparr>" "logged (j_id job) fs l db1"
    by blast
  from insert_event_logged [OF three] obtain gs m where
    3: "db' = db2\<lparr>db_events := db_events db2 @ gs, db_last_event_id := m\<rparr>" "logged (j_id job) gs m db2"
    by blast
  have "logged (j_id job) ((es @ fs) @ gs) m db"
    using 1 2 3 by (intro logged_append) auto
  with 1 2 3 show ?thesis by auto
qed

lemma publish_completed_job_effect:
  assumes "publish_completed_job sha now jid v digest summary out reason db = Inr db'"
    and "db' \<noteq> db"
  shows "\<exists>job outcome d es n. find_job jid (db_jobs db) = Some job \<and>
    find_dossier jid (db_dossiers db) = Some d \<and> d_sha256 d = digest \<and>
    digest_matches sha (d_content d) digest \<and> j_accepted_commit job \<noteq> '''' \<and>
    j_state job \<noteq> JobCompleted \<and>
    publish_intent_check (j_source_apply_intent job) (j_acceptance_phase job) outcome = Inr () \<and>
    apply_outcome_of_string out = Inr outcome \<and>
    db' = db\<lparr>db_jobs := update_where (\<lambda>r. j_id r = jid \<and> j_state r = j_state job \<and>
                j_acceptance_phase r = j_acceptance_phase job)
              (\<lambda>r. r\<lparr>j_state := JobCompleted, j_stop_requested := False,
                        j_final_summary := summary, j_error := '''',
                        j_acceptance_phase := PhasePublished, j_source_apply_outcome := outcome,
                        j_source_apply_reason := py_last 4000 reason,
                        j_updated_at := now\<rparr>) (db_jobs db),
             db_dossiers := update_where (\<lambda>d. d_job_id d = jid \<and> \<not> d_published d \<and> d_sha256 d = digest)
               (\<lambda>d. d\<lparr>d_published := True\<rparr>) (db_dossiers db),
             db_events := db_events db @ es, db_last_event_id := n\<rparr> \<and>
    count_where (\<lambda>d. d_job_id d = jid \<and> \<not> d_published d \<and> d_sha256 d = digest) (db_dossiers db) = 1 \<and>
    logged jid es n db \<and> snapshot_valid jid db'"
proof -
  let ?mid = "\<lambda>job outcome. db\<lparr>db_jobs := update_where (\<lambda>r. j_id r = jid \<and> j_state r = j_state job \<and>
                j_acceptance_phase r = j_acceptance_phase job)
              (\<lambda>r. r\<lparr>j_state := JobCompleted, j_stop_requested := False,
                        j_final_summary := summary, j_error := '''',
                        j_acceptance_phase := PhasePublished, j_source_apply_outcome := outcome,
                        j_source_apply_reason := py_last 4000 reason,
                        j_updated_at := now\<rparr>) (db_jobs db),
             db_dossiers := update_where (\<lambda>d. d_job_id d = jid \<and> \<not> d_published d \<and> d_sha256 d = digest)
               (\<lambda>d. d\<lparr>d_published := True\<rparr>) (db_dossiers db)\<rparr>"
  from assms obtain job outcome d where
    main: "find_job jid (db_jobs db) = Some job" "find_dossier jid (db_dossiers db) = Some d"
      "d_sha256 d = digest" "digest_matches sha (d_content d) digest" "j_accepted_commit job \<noteq> ''''"
      "j_state job \<noteq> JobCompleted" "apply_outcome_of_string out = Inr outcome"
      "publish_intent_check (j_source_apply_intent job) (j_acceptance_phase job) outcome = Inr ()"
      "count_where (\<lambda>d. d_job_id d = jid \<and> \<not> d_published d \<and> d_sha256 d = digest) (db_dossiers db) = 1"
      "snapshot_valid jid db'"
    and pub: "publish_events now job v digest summary outcome reason (?mid job outcome) = Inr db'"
    unfolding publish_completed_job_def
    by (clarsimp simp: op_simps split: if_splits)
  have "j_id job = jid" using main(1) by (auto dest: job_tab.select_SomeD)
  with publish_events_logged [OF pub] obtain es n where
    "db' = (?mid job outcome)\<lparr>db_events := db_events db @ es, db_last_event_id := n\<rparr>"
    "logged jid es n db"
    by (auto simp: logged_def)
  with main show ?thesis
    by (intro exI [of _ job] exI [of _ outcome] exI [of _ d] exI [of _ es] exI [of _ n]) simp
qed

lemma recover_durable_effect:
  assumes "recover_durable now db = Inr db'"
  shows "(\<exists>db1. db1 = db\<lparr>db_jobs := update_where (\<lambda>r. j_id r \<in> set (accepted_ids db))
             (\<lambda>r. r\<lparr>j_stop_requested := False, j_error := '''', j_updated_at := now\<rparr>) (db_jobs db)\<rparr> \<and>
     db' = interrupt_jobs now (stopped_ids db) TaskStopped ''interrupted while stop was requested''
                  JobStopped True
            (interrupt_jobs now (active_ids db) TaskPending ''interrupted by daemon restart''
                  JobQueued False db1)) \<and>
    (\<forall>jid \<in> set (accepted_ids db) \<union> set (active_ids db) \<union> set (stopped_ids db). snapshot_valid jid db')"
  using assms
  by (auto simp: recover_durable_def recover_tx_def op_simps each_Inr_iff)

end
