(* ===== verification/Yolo_DB_Invariant.thy ===== *)
theory Yolo_DB_Invariant
  imports Yolo_DB_Effects
begin

text \<open>
  The invariant of the durable store, in parts: keys and references, the validated snapshot of
  every job, one running attempt per task, the acceptance journal, the dossiers and the ledger.
  Every change an operation makes is local to a set of jobs, so each part has a lemma for each
  kind of change and the operations compose them.
\<close>

section \<open>The parts of the invariant\<close>

definition keys_ok :: "db \<Rightarrow> bool" where
  "keys_ok db \<longleftrightarrow>
     distinct (map j_id (db_jobs db)) \<and> distinct (map t_id (db_tasks db)) \<and>
     distinct (map (\<lambda>t. (t_job_id t, t_logical_id t)) (db_tasks db)) \<and>
     distinct (map a_id (db_attempts db)) \<and>
     distinct (map (\<lambda>a. (a_task_id a, a_number a)) (db_attempts db)) \<and>
     distinct (map d_job_id (db_dossiers db))"

definition refs_ok :: "db \<Rightarrow> bool" where
  "refs_ok db \<longleftrightarrow>
     t_job_id ` set (db_tasks db) \<subseteq> j_id ` set (db_jobs db) \<and>
     (\<lambda>a. (a_job_id a, a_task_id a)) ` set (db_attempts db) \<subseteq>
       (\<lambda>t. (t_job_id t, t_id t)) ` set (db_tasks db) \<and>
     d_job_id ` set (db_dossiers db) \<subseteq> j_id ` set (db_jobs db) \<and>
     e_job_id ` set (db_events db) \<subseteq> j_id ` set (db_jobs db)"

definition snapshots_ok :: "db \<Rightarrow> bool" where
  "snapshots_ok db \<longleftrightarrow> (\<forall>j \<in> set (db_jobs db). job_consistent db j)"

text \<open>An attempt runs exactly while it has no finish time; a task has one running attempt.\<close>

definition attempts_ok :: "attempt_row list \<Rightarrow> bool" where
  "attempts_ok as \<longleftrightarrow>
     (\<forall>a \<in> set as. a_state a = AttemptRunning \<longleftrightarrow> a_finished_at a = None) \<and>
     (\<forall>a \<in> set as. \<forall>b \<in> set as. a_state a = AttemptRunning \<longrightarrow> b \<in> set as \<longrightarrow>
        a_state b = AttemptRunning \<longrightarrow> a_task_id a = a_task_id b \<longrightarrow> a = b)"

text \<open>What the journal columns of a job say in each phase, and which dossier goes with it.\<close>

definition journal_row :: "dossier_row list \<Rightarrow> job_row \<Rightarrow> bool" where
  "journal_row ds j \<longleftrightarrow>
     (j_acceptance_phase j = PhaseNone \<longleftrightarrow> j_accepted_commit j = '''') \<and>
     (j_acceptance_phase j \<noteq> PhaseNone \<longrightarrow> j_id j \<in> d_job_id ` set ds) \<and>
     (j_acceptance_phase j = PhaseApplying \<longrightarrow> j_source_apply_intent j = IntentRequested) \<and>
     (j_acceptance_phase j \<noteq> PhasePublished \<longleftrightarrow> j_source_apply_outcome j = OutcomeUnset) \<and>
     (j_acceptance_phase j = PhasePublished \<longrightarrow>
        (j_source_apply_outcome j = OutcomeNotRequested \<longleftrightarrow>
         j_source_apply_intent j = IntentNotRequested)) \<and>
     (\<forall>d \<in> set ds. d_job_id d = j_id j \<longrightarrow>
        (d_published d \<longleftrightarrow> j_acceptance_phase j = PhasePublished))"

definition journal_ok :: "db \<Rightarrow> bool" where
  "journal_ok db \<longleftrightarrow> (\<forall>j \<in> set (db_jobs db). journal_row (db_dossiers db) j)"

definition dossiers_ok :: "(string \<Rightarrow> string) \<Rightarrow> dossier_row list \<Rightarrow> bool" where
  "dossiers_ok sha ds \<longleftrightarrow>
     (\<forall>d \<in> set ds. digest_matches sha (d_content d) (d_sha256 d) \<and> 1 \<le> d_schema_version d)"

definition ledger_ok :: "db \<Rightarrow> bool" where
  "ledger_ok db \<longleftrightarrow>
     0 \<le> db_last_event_id db \<and> sorted_wrt (<) (map e_id (db_events db)) \<and>
     (\<forall>e \<in> set (db_events db). 0 < e_id e \<and> e_id e \<le> db_last_event_id db)"

definition db_inv :: "(string \<Rightarrow> string) \<Rightarrow> db \<Rightarrow> bool" where
  "db_inv sha db \<longleftrightarrow>
     keys_ok db \<and> refs_ok db \<and> snapshots_ok db \<and> attempts_ok (db_attempts db) \<and>
     journal_ok db \<and> dossiers_ok sha (db_dossiers db) \<and> ledger_ok db"

lemma db_inv_empty: "db_inv sha empty_db"
  by (simp add: db_inv_def empty_db_def keys_ok_def refs_ok_def snapshots_ok_def attempts_ok_def
      journal_ok_def dossiers_ok_def ledger_ok_def)

section \<open>Changes that keep a part\<close>

text \<open>A change that stays within the jobs \<open>J\<close>, whose snapshots are valid afterwards.\<close>

definition local_to :: "string set \<Rightarrow> db \<Rightarrow> db \<Rightarrow> bool" where
  "local_to J db db' \<longleftrightarrow>
     same_outside j_id J (db_jobs db) (db_jobs db') \<and>
     same_outside t_job_id J (db_tasks db) (db_tasks db') \<and>
     same_outside a_job_id J (db_attempts db) (db_attempts db')"

lemma task_states_local:
  "local_to J db db' \<Longrightarrow> jid \<notin> J \<Longrightarrow> task_states_of jid db' = task_states_of jid db"
  unfolding local_to_def task_states_of_def
  using same_outside_mem [of t_job_id J "db_tasks db" "db_tasks db'"] by blast

lemma running_owners_local:
  assumes "local_to J db db'" "jid \<notin> J"
  shows "running_owners_of jid db' = running_owners_of jid db"
proof -
  have "t_job_id t = jid \<Longrightarrow> t \<in> set (db_tasks db') \<longleftrightarrow> t \<in> set (db_tasks db)" for t
    using assms same_outside_mem [of t_job_id J "db_tasks db" "db_tasks db'"]
    by (auto simp: local_to_def)
  moreover have "a_job_id a = jid \<Longrightarrow> a \<in> set (db_attempts db') \<longleftrightarrow> a \<in> set (db_attempts db)" for a
    using assms same_outside_mem [of a_job_id J "db_attempts db" "db_attempts db'"]
    by (auto simp: local_to_def)
  ultimately show ?thesis
    unfolding running_owners_of_def by (intro Collect_cong) metis
qed

lemma snapshots_local:
  assumes inv: "snapshots_ok db" and loc: "local_to J db db'"
    and valid: "\<forall>jid \<in> J. snapshot_valid jid db'" and keys: "distinct (map j_id (db_jobs db'))"
  shows "snapshots_ok db'"
  unfolding snapshots_ok_def
proof
  fix j assume j: "j \<in> set (db_jobs db')"
  show "job_consistent db' j"
  proof (cases "j_id j \<in> J")
    case True
    with valid obtain k where "find_job (j_id j) (db_jobs db') = Some k" "job_consistent db' k"
      by (auto simp: snapshot_valid_def)
    with job_tab.select_unique [OF keys j] show ?thesis by simp
  next
    case False
    with loc j have "j \<in> set (db_jobs db)"
      using same_outside_mem [of j_id J "db_jobs db" "db_jobs db'"] by (auto simp: local_to_def)
    with inv show ?thesis
      by (simp add: snapshots_ok_def job_consistent_def task_states_local [OF loc False]
          running_owners_local [OF loc False])
  qed
qed

lemma snapshot_valid_cong:
  "db_jobs db' = db_jobs db \<Longrightarrow> db_tasks db' = db_tasks db \<Longrightarrow> db_attempts db' = db_attempts db \<Longrightarrow>
   snapshot_valid jid db' = snapshot_valid jid db"
  by (simp add: snapshot_valid_def job_consistent_def task_states_of_def running_owners_of_def)

lemma snapshots_cong:
  "db_jobs db' = db_jobs db \<Longrightarrow> db_tasks db' = db_tasks db \<Longrightarrow> db_attempts db' = db_attempts db \<Longrightarrow>
   snapshots_ok db' = snapshots_ok db"
  by (simp add: snapshots_ok_def job_consistent_def task_states_of_def running_owners_of_def)

lemma ledger_logged:
  "ledger_ok db \<Longrightarrow> logged jid es n db \<Longrightarrow> db_events db' = db_events db @ es \<Longrightarrow>
   db_last_event_id db' = n \<Longrightarrow> ledger_ok db'"
  by (fastforce simp: ledger_ok_def logged_def sorted_wrt_append)

lemma ledger_cong:
  "ledger_ok db \<Longrightarrow> db_events db' = db_events db \<Longrightarrow> db_last_event_id db' = db_last_event_id db \<Longrightarrow>
   ledger_ok db'"
  by (simp add: ledger_ok_def)

lemma attempts_ok_close:
  assumes "attempts_ok as"
    and "\<And>a. a_task_id (f a) = a_task_id a"
    and "\<And>a. a_state (f a) \<noteq> AttemptRunning" and "\<And>a. a_finished_at (f a) = Some t"
  shows "attempts_ok (update_where P f as)"
  using assms unfolding attempts_ok_def by (auto simp: set_update_where)

lemma attempts_ok_start:
  assumes "attempts_ok as" "a_state r = AttemptRunning" "a_finished_at r = None"
    and "\<forall>a \<in> set as. \<not> (a_task_id a = a_task_id r \<and> a_state a = AttemptRunning)"
  shows "attempts_ok (as @ [r])"
  using assms unfolding attempts_ok_def by auto

section \<open>Row changes\<close>

text \<open>
  Updates of rows in place: within the jobs \<open>J\<close>, with the keys, the references and the journal
  columns as they were. They compose, and with valid snapshots they keep the invariant.
\<close>

definition journal_cols ::
  "job_row \<Rightarrow> string \<times> acceptance_phase \<times> string \<times> apply_intent \<times> apply_outcome" where
  "journal_cols j = (j_id j, j_acceptance_phase j, j_accepted_commit j,
     j_source_apply_intent j, j_source_apply_outcome j)"

definition task_cols :: "task_row \<Rightarrow> string \<times> string \<times> string" where
  "task_cols t = (t_id t, t_job_id t, t_logical_id t)"

definition attempt_cols :: "attempt_row \<Rightarrow> string \<times> string \<times> string \<times> int" where
  "attempt_cols a = (a_id a, a_job_id a, a_task_id a, a_number a)"

definition row_change :: "string set \<Rightarrow> db \<Rightarrow> db \<Rightarrow> bool" where
  "row_change J db db' \<longleftrightarrow>
     local_to J db db' \<and>
     map journal_cols (db_jobs db') = map journal_cols (db_jobs db) \<and>
     map task_cols (db_tasks db') = map task_cols (db_tasks db) \<and>
     map attempt_cols (db_attempts db') = map attempt_cols (db_attempts db) \<and>
     db_dossiers db' = db_dossiers db \<and> db_events db' = db_events db \<and>
     db_last_event_id db' = db_last_event_id db \<and>
     (attempts_ok (db_attempts db) \<longrightarrow> attempts_ok (db_attempts db'))"

lemma row_change_trans:
  "row_change J db db1 \<Longrightarrow> row_change J db1 db2 \<Longrightarrow> row_change J db db2"
  unfolding row_change_def local_to_def by (auto intro: same_outside_trans)

lemma row_change_jobs:
  assumes "\<And>r. journal_cols (f r) = journal_cols r" and "\<And>r. P r \<Longrightarrow> j_id r \<in> J"
  shows "row_change J db (db\<lparr>db_jobs := update_where P f (db_jobs db)\<rparr>)"
  using assms
  by (auto simp: row_change_def local_to_def map_key_update_where journal_cols_def
      intro!: same_outside_update)

lemma row_change_tasks:
  assumes "\<And>r. task_cols (f r) = task_cols r"
    and "\<And>r. r \<in> set (db_tasks db) \<Longrightarrow> P r \<Longrightarrow> t_job_id r \<in> J"
  shows "row_change J db (db\<lparr>db_tasks := update_where P f (db_tasks db)\<rparr>)"
  using assms
  by (auto simp: row_change_def local_to_def map_key_update_where task_cols_def
      intro!: same_outside_update)

lemma row_change_attempts:
  assumes "\<And>r. attempt_cols (f r) = attempt_cols r"
    and "\<And>r. r \<in> set (db_attempts db) \<Longrightarrow> P r \<Longrightarrow> a_job_id r \<in> J"
    and "\<And>a. a_state (f a) \<noteq> AttemptRunning" and "\<And>a. a_finished_at (f a) = Some t"
  shows "row_change J db (db\<lparr>db_attempts := update_where P f (db_attempts db)\<rparr>)"
proof -
  have "attempts_ok (db_attempts db) \<Longrightarrow> attempts_ok (update_where P f (db_attempts db))"
    using assms by (intro attempts_ok_close) (auto simp: attempt_cols_def)
  then show ?thesis
    using assms(1,2)
    by (auto simp: row_change_def local_to_def map_key_update_where attempt_cols_def
        intro!: same_outside_update)
qed

lemma map_cong_comp: "map k xs = map k ys \<Longrightarrow> map (\<lambda>x. h (k x)) xs = map (\<lambda>x. h (k x)) ys"
  using map_map [of h k xs] map_map [of h k ys] by (simp add: comp_def)

lemma journal_row_cols: "journal_cols j = journal_cols k \<Longrightarrow> journal_row ds j = journal_row ds k"
  by (simp add: journal_cols_def journal_row_def)

lemma journal_ok_cols:
  assumes "journal_ok db" "map journal_cols (db_jobs db') = map journal_cols (db_jobs db)"
    and "db_dossiers db' = db_dossiers db"
  shows "journal_ok db'"
  unfolding journal_ok_def
proof
  fix j assume "j \<in> set (db_jobs db')"
  then have "journal_cols j \<in> journal_cols ` set (db_jobs db)"
    by (metis assms(2) image_eqI set_map)
  then obtain k where k: "k \<in> set (db_jobs db)" "journal_cols j = journal_cols k" by auto
  with assms(1,3) show "journal_row (db_dossiers db') j"
    by (simp add: journal_ok_def journal_row_cols [OF k(2)])
qed

lemma row_change_keys:
  assumes "row_change J db db'"
  shows "map j_id (db_jobs db') = map j_id (db_jobs db)"
    and "map t_id (db_tasks db') = map t_id (db_tasks db)"
    and "map (\<lambda>t. (t_job_id t, t_logical_id t)) (db_tasks db') =
         map (\<lambda>t. (t_job_id t, t_logical_id t)) (db_tasks db)"
    and "map (\<lambda>t. (t_job_id t, t_id t)) (db_tasks db') =
         map (\<lambda>t. (t_job_id t, t_id t)) (db_tasks db)"
    and "map t_job_id (db_tasks db') = map t_job_id (db_tasks db)"
    and "map a_id (db_attempts db') = map a_id (db_attempts db)"
    and "map (\<lambda>a. (a_task_id a, a_number a)) (db_attempts db') =
         map (\<lambda>a. (a_task_id a, a_number a)) (db_attempts db)"
    and "map (\<lambda>a. (a_job_id a, a_task_id a)) (db_attempts db') =
         map (\<lambda>a. (a_job_id a, a_task_id a)) (db_attempts db)"
proof -
  from assms have
    j: "map journal_cols (db_jobs db') = map journal_cols (db_jobs db)" and
    t: "map task_cols (db_tasks db') = map task_cols (db_tasks db)" and
    a: "map attempt_cols (db_attempts db') = map attempt_cols (db_attempts db)"
    by (simp_all add: row_change_def)
  show "map j_id (db_jobs db') = map j_id (db_jobs db)"
    using map_cong_comp [OF j, of fst] by (simp add: journal_cols_def)
  show "map t_id (db_tasks db') = map t_id (db_tasks db)"
    using map_cong_comp [OF t, of fst] by (simp add: task_cols_def)
  show "map (\<lambda>t. (t_job_id t, t_logical_id t)) (db_tasks db') =
         map (\<lambda>t. (t_job_id t, t_logical_id t)) (db_tasks db)"
    using map_cong_comp [OF t, of snd] by (simp add: task_cols_def)
  show "map (\<lambda>t. (t_job_id t, t_id t)) (db_tasks db') =
         map (\<lambda>t. (t_job_id t, t_id t)) (db_tasks db)"
    using map_cong_comp [OF t, of "\<lambda>(x, y, z). (y, x)"] by (simp add: task_cols_def)
  show "map t_job_id (db_tasks db') = map t_job_id (db_tasks db)"
    using map_cong_comp [OF t, of "\<lambda>(x, y, z). y"] by (simp add: task_cols_def)
  show "map a_id (db_attempts db') = map a_id (db_attempts db)"
    using map_cong_comp [OF a, of fst] by (simp add: attempt_cols_def)
  show "map (\<lambda>a. (a_task_id a, a_number a)) (db_attempts db') =
         map (\<lambda>a. (a_task_id a, a_number a)) (db_attempts db)"
    using map_cong_comp [OF a, of "\<lambda>(w, x, y, z). (y, z)"] by (simp add: attempt_cols_def)
  show "map (\<lambda>a. (a_job_id a, a_task_id a)) (db_attempts db') =
         map (\<lambda>a. (a_job_id a, a_task_id a)) (db_attempts db)"
    using map_cong_comp [OF a, of "\<lambda>(w, x, y, z). (x, y)"] by (simp add: attempt_cols_def)
qed

text \<open>The same maps as images, for the references.\<close>

lemma image_of_map: "map k xs = map k ys \<Longrightarrow> k ` set xs = k ` set ys"
  by (metis set_map)

lemma row_change_inv:
  assumes inv: "db_inv sha db" and ch: "row_change J db db'"
    and valid: "\<forall>jid \<in> J. snapshot_valid jid db'"
  shows "db_inv sha db'"
proof -
  note k = row_change_keys [OF ch]
  note im = k(1) [THEN image_of_map] k(4) [THEN image_of_map] k(5) [THEN image_of_map]
    k(8) [THEN image_of_map]
  have same: "db_dossiers db' = db_dossiers db" "db_events db' = db_events db"
    "db_last_event_id db' = db_last_event_id db" "local_to J db db'"
    using ch by (simp_all add: row_change_def)
  have keys: "keys_ok db'"
    using inv by (simp add: db_inv_def keys_ok_def k same)
  have refs: "refs_ok db'"
    using inv by (simp add: db_inv_def refs_ok_def im same)
  have snaps: "snapshots_ok db'"
    using inv keys by - (rule snapshots_local [OF _ same(4) valid], auto simp: db_inv_def keys_ok_def)
  have "journal_ok db'"
    using inv ch by - (rule journal_ok_cols [of db], auto simp: db_inv_def row_change_def)
  moreover have "ledger_ok db'"
    using inv same by (simp add: db_inv_def ledger_ok_def)
  moreover have "attempts_ok (db_attempts db')"
    using inv ch by (simp add: db_inv_def row_change_def)
  ultimately show ?thesis
    using inv keys refs snaps same by (simp add: db_inv_def)
qed

lemma journal_cong:
  "journal_ok db \<Longrightarrow> db_jobs db' = db_jobs db \<Longrightarrow> db_dossiers db' = db_dossiers db \<Longrightarrow> journal_ok db'"
  by (simp add: journal_ok_def)

section \<open>Staging\<close>

lemma set_staged: "set (staged r ds) = insert r {d \<in> set ds. d_job_id d \<noteq> d_job_id r}"
proof (cases "d_job_id r \<in> d_job_id ` set ds")
  case True
  then obtain d where "d \<in> set ds" "d_job_id d = d_job_id r" by force
  with True show ?thesis by (auto simp: staged_def set_update_where split: if_splits)
next
  case False
  then show ?thesis by (auto simp: staged_def image_iff)
qed

lemma keys_staged: "distinct (map d_job_id (staged r ds)) = distinct (map d_job_id ds)"
proof (cases "d_job_id r \<in> d_job_id ` set ds")
  case True
  have "map d_job_id (update_where (\<lambda>d. d_job_id d = d_job_id r) (\<lambda>_. r) ds) = map d_job_id ds"
    by (simp add: update_where_def)
  with True show ?thesis by (simp add: staged_def)
next
  case False
  then show ?thesis by (auto simp: staged_def)
qed

lemma image_staged: "d_job_id ` set (staged r ds) = insert (d_job_id r) (d_job_id ` set ds)"
  by (auto simp: set_staged)

end
