(* ===== verification/Yolo_DB_Steps.thy ===== *)
theory Yolo_DB_Steps
  imports Yolo_DB_Invariant
begin

text \<open>
  The proof that every transaction of the store keeps the invariant, one lemma per transaction.
\<close>

section \<open>Every transaction keeps the invariant\<close>

lemma append_events_inv:
  assumes inv: "db_inv sha db" and log: "logged jid es n db" and job: "jid \<in> j_id ` set (db_jobs db)"
  shows "db_inv sha (db\<lparr>db_events := db_events db @ es, db_last_event_id := n\<rparr>)" (is "db_inv sha ?db")
proof -
  have "ledger_ok ?db"
    using inv log by - (rule ledger_logged [of db jid], auto simp: db_inv_def)
  moreover have "e_job_id ` set es \<subseteq> j_id ` set (db_jobs db)"
    using log job by (auto simp: logged_def)
  ultimately show ?thesis
    using inv by (simp add: db_inv_def keys_ok_def refs_ok_def image_Un journal_ok_def
        snapshots_cong [of ?db db])
qed

lemma create_job_inv:
  assumes inv: "db_inv sha db"
    and op: "create_job now i repo goal bb bc ib aa db = Inr (j, db')"
  shows "db_inv sha db'"
proof -
  let ?db = "db\<lparr>db_jobs := db_jobs db @ [j]\<rparr>"
  from create_job_effect [OF op] obtain p where
    fresh: "i \<notin> j_id ` set (db_jobs db)" and
    db': "db' = ?db\<lparr>db_events := db_events ?db @
              [\<lparr>e_id = db_last_event_id ?db + 1, e_job_id = i, e_task_id = None,
                e_kind = ''job.created'', e_payload = p, e_created_at = now\<rparr>],
            db_last_event_id := db_last_event_id ?db + 1\<rparr>" and
    j: "j_id j = i" "j_acceptance_phase j = PhaseNone" "j_accepted_commit j = ''''"
      "j_source_apply_outcome j = OutcomeUnset" and valid: "snapshot_valid i db'"
    by auto
  have keys: "keys_ok ?db"
    using inv fresh by (simp add: db_inv_def keys_ok_def j)
  have refs: "refs_ok ?db"
    using inv by (auto simp: db_inv_def refs_ok_def)
  have "d_job_id ` set (db_dossiers db) \<subseteq> j_id ` set (db_jobs db)"
    using inv by (simp add: db_inv_def refs_ok_def)
  with fresh have "\<forall>d \<in> set (db_dossiers db). d_job_id d \<noteq> i"
    by auto
  then have "journal_row (db_dossiers db) j"
    by (simp add: journal_row_def j)
  then have journal: "journal_ok ?db"
    using inv by (auto simp: db_inv_def journal_ok_def)
  have loc: "local_to {i} db ?db"
    by (auto simp: local_to_def j intro: same_outside_append)
  have "snapshot_valid i db' = snapshot_valid i ?db"
    by (rule snapshot_valid_cong) (simp_all add: db')
  with inv keys valid have "snapshots_ok ?db"
    by - (rule snapshots_local [OF _ loc], auto simp: db_inv_def keys_ok_def)
  with keys refs journal inv have "db_inv sha ?db"
    by (simp add: db_inv_def ledger_ok_def)
  then show ?thesis
    unfolding db' by (rule append_events_inv [OF _ logged_one]) (simp add: j)
qed

lemma update_job_inv:
  assumes inv: "db_inv sha db" and op: "update_job now jid u db = Inr db'"
  shows "db_inv sha db'"
proof (cases "u = no_job_update")
  case True
  with op inv show ?thesis by (auto simp: update_job_def split: if_splits)
next
  case False
  show ?thesis
    using update_job_effect [OF op False]
  proof (elim exE conjE, goal_cases)
    case (1 row)
    have "row_change {jid} db db'"
      unfolding 1(5) by (rule row_change_jobs) (auto simp: journal_cols_def apply_job_update_def)
    then show ?case by (rule row_change_inv [OF inv]) (simp add: 1(6))
  qed
qed

lemma insert_tasks_inv:
  assumes inv: "db_inv sha db" and op: "insert_tasks rs db = Inr db'"
    and own: "\<And>t. t \<in> set rs \<Longrightarrow> t_job_id t = jid" and valid: "snapshot_valid jid db'"
  shows "db_inv sha db'"
proof -
  from insert_tasks_effect [OF op] have
    db': "db' = db\<lparr>db_tasks := db_tasks db @ rs\<rparr>" and fresh: "distinct (map t_id rs)"
      "t_id ` set rs \<inter> t_id ` set (db_tasks db) = {}"
      "distinct (map (\<lambda>t. (t_job_id t, t_logical_id t)) rs)"
      "(\<lambda>t. (t_job_id t, t_logical_id t)) ` set rs \<inter>
        (\<lambda>t. (t_job_id t, t_logical_id t)) ` set (db_tasks db) = {}"
    and job: "t_job_id ` set rs \<subseteq> j_id ` set (db_jobs db)"
    by blast+
  have keys: "keys_ok db'"
    using inv fresh by (auto simp: db_inv_def keys_ok_def db')
  have refs: "refs_ok db'"
    using inv job by (auto simp: db_inv_def refs_ok_def db')
  have loc: "local_to {jid} db db'"
    using own by (auto simp: local_to_def db' intro: same_outside_append)
  have "snapshots_ok db'"
    using inv keys valid by - (rule snapshots_local [OF _ loc], auto simp: db_inv_def keys_ok_def)
  with keys refs inv show ?thesis
    by (simp add: db_inv_def db' ledger_ok_def journal_ok_def)
qed

lemma add_tasks_inv:
  assumes inv: "db_inv sha db" and op: "add_tasks now jid ps db = Inr (ts, db')"
  shows "db_inv sha db'"
  using add_tasks_effect [OF op]
proof (elim exE conjE, goal_cases)
  case (1 job rs)
  then show ?case by (intro insert_tasks_inv [OF inv 1(4)]) (auto dest: new_task_rows_job)
qed

lemma update_task_inv:
  assumes inv: "db_inv sha db" and op: "update_task now tid u db = Inr db'"
  shows "db_inv sha db'"
proof (cases "u = no_task_update")
  case True
  with op inv show ?thesis by (auto simp: update_task_def split: if_splits)
next
  case False
  show ?thesis
    using update_task_effect [OF op False]
  proof (elim exE conjE, goal_cases)
    case (1 row job P)
    let ?db = "db\<lparr>db_jobs := update_where P (\<lambda>r. r\<lparr>j_state := JobRunning, j_updated_at := now\<rparr>) (db_jobs db)\<rparr>"
    have "row \<in> set (db_tasks db)" "t_id row = tid" using 1(1) by (auto dest: task_tab.select_SomeD)
    then have own: "t \<in> set (db_tasks db) \<Longrightarrow> t_id t = tid \<Longrightarrow> t = row" for t
      using inv by (auto simp: db_inv_def keys_ok_def distinct_map inj_on_def)
    have "row_change {t_job_id row} db ?db"
      using 1(5) by (intro row_change_jobs) (auto simp: journal_cols_def)
    moreover have "row_change {t_job_id row} ?db db'"
      unfolding 1(6)
      using row_change_tasks [of "apply_task_update now u (override (tu_state u) (t_state row))" ?db
          "\<lambda>t. t_id t = tid \<and> t_state t = t_state row" "{t_job_id row}"] own
      by (auto simp: task_cols_def apply_task_update_def)
    ultimately have "row_change {t_job_id row} db db'" by (rule row_change_trans)
    then show ?case by (rule row_change_inv [OF inv]) (simp add: 1(7))
  qed
qed

lemma start_attempt_inv:
  assumes inv: "db_inv sha db"
    and op: "start_attempt now aid jid tid n agent wt br lp db = Inr db'"
  shows "db_inv sha db'"
  using start_attempt_effect [OF op]
proof (elim exE conjE, goal_cases)
  case (1 task job r)
  note db' = 1(18) and r = 1(8-13) and fresh = 1(14,15) and refs = 1(16,17)
  have keys: "keys_ok db'"
    using inv fresh by (simp add: db_inv_def keys_ok_def db' r)
  have refs': "refs_ok db'"
    using inv refs by (simp add: db_inv_def refs_ok_def db' r)
  have atts: "attempts_ok (db_attempts db')"
    using inv 1(7) by (auto simp: db_inv_def db' r intro!: attempts_ok_start)
  have loc: "local_to {jid} db db'"
    by (auto simp: local_to_def db' r intro: same_outside_append)
  have "snapshots_ok db'"
    using inv keys 1(19) by - (rule snapshots_local [OF _ loc], auto simp: db_inv_def keys_ok_def)
  with keys refs' atts inv show ?case
    by (simp add: db_inv_def db' ledger_ok_def journal_ok_def)
qed

lemma finish_attempt_inv:
  assumes inv: "db_inv sha db" and op: "finish_attempt now aid st rc summary db = Inr db'"
  shows "db_inv sha db'"
  using finish_attempt_effect [OF op]
proof (elim exE conjE, goal_cases)
  case (1 row target)
  have "row \<in> set (db_attempts db)" "a_id row = aid" using 1(1) by (auto dest: attempt_tab.select_SomeD)
  then have own: "a \<in> set (db_attempts db) \<Longrightarrow> a_id a = aid \<Longrightarrow> a = row" for a
    using inv by (auto simp: db_inv_def keys_ok_def distinct_map inj_on_def)
  have "row_change {a_job_id row} db db'"
    unfolding 1(5) by (rule row_change_attempts) (use own 1(4) in \<open>auto simp: attempt_cols_def\<close>)
  then show ?case by (rule row_change_inv [OF inv]) (simp add: 1(6))
qed

lemma mark_tasks_pending_cols [simp]: "task_cols (mark_tasks_pending now t) = task_cols t"
  by (simp add: mark_tasks_pending_def task_cols_def)

lemma close_attempt_cols [simp]:
  "attempt_cols (close_attempt now st msg a) = attempt_cols a"
  "a_state (close_attempt now st msg a) = st" "a_finished_at (close_attempt now st msg a) = Some now"
  by (simp_all add: close_attempt_def attempt_cols_def)

lemma retry_failed_tasks_inv:
  assumes inv: "db_inv sha db" and op: "retry_failed_tasks now jid db = Inr db'"
  shows "db_inv sha db'"
  using retry_failed_tasks_effect [OF op]
proof (elim exE conjE, goal_cases)
  case (1 job)
  have "row_change {jid} db db'"
    unfolding 1(4) by (rule row_change_tasks) auto
  then show ?case by (rule row_change_inv [OF inv]) (simp add: 1(5))
qed

lemma settle_inflight_inv:
  assumes inv: "db_inv sha db" and op: "settle_inflight now jid ts st summary db = Inr db'"
  shows "db_inv sha db'"
  using settle_inflight_effect [OF op]
proof (elim exE conjE, goal_cases)
  case (1 job settled msg)
  let ?db = "db\<lparr>db_attempts := update_where (\<lambda>a. a_job_id a = jid \<and> a_state a = AttemptRunning)
     (close_attempt now settled msg) (db_attempts db)\<rparr>"
  let ?f = "\<lambda>t. t\<lparr>t_state := ts, t_last_error := (if msg = '''' then t_last_error t else msg),
     t_updated_at := now\<rparr>"
  have "row_change {jid} db ?db"
    by (rule row_change_attempts) (use 1(3) in auto)
  moreover have "row_change {jid} ?db db'"
    unfolding 1(5)
    using row_change_tasks [of ?f ?db "\<lambda>t. t_job_id t = jid \<and> t_state t \<in> inflight_task_states" "{jid}"]
    by (auto simp: task_cols_def)
  ultimately have "row_change {jid} db db'" by (rule row_change_trans)
  then show ?case by (rule row_change_inv [OF inv]) (simp add: 1(6))
qed

lemma prepare_resume_tx_inv:
  assumes inv: "db_inv sha db" and op: "prepare_resume_tx now jid db = Inr db'"
  shows "db_inv sha db'"
  using prepare_resume_tx_effect [OF op]
proof (elim exE conjE, goal_cases)
  case (1 job)
  let ?a = "db\<lparr>db_attempts := update_where (\<lambda>a. a_job_id a = jid \<and> a_state a = AttemptRunning)
     (close_attempt now AttemptCancelled ''cancelled before explicit resume'') (db_attempts db)\<rparr>"
  let ?b = "?a\<lparr>db_tasks := update_where (\<lambda>t. t_job_id t = jid \<and> t_state t \<noteq> TaskCompleted)
     (mark_tasks_pending now) (db_tasks ?a)\<rparr>"
  have "row_change {jid} db ?a" by (rule row_change_attempts) auto
  moreover have "row_change {jid} ?a ?b" by (rule row_change_tasks) auto
  moreover have "row_change {jid} ?b db'"
    unfolding 1(4)
    using row_change_jobs [of "\<lambda>r. r\<lparr>j_state := JobQueued, j_stop_requested := False, j_error := '''',
        j_updated_at := now\<rparr>" "\<lambda>r. j_id r = jid \<and> j_state r = j_state job \<and> j_acceptance_phase r = PhaseNone"
        "{jid}" ?b]
    by (auto simp: journal_cols_def)
  ultimately have "row_change {jid} db db'" using row_change_trans by blast
  then show ?case by (rule row_change_inv [OF inv]) (simp add: 1(5))
qed

lemma interrupt_jobs_change:
  assumes "set ids \<subseteq> J"
  shows "row_change J db (interrupt_jobs now ids ts msg st stop db)"
proof -
  let ?a = "db\<lparr>db_tasks := update_where (\<lambda>t. t_job_id t \<in> set ids \<and> t_state t \<in> inflight_task_states)
     (\<lambda>t. t\<lparr>t_state := ts, t_updated_at := now\<rparr>) (db_tasks db)\<rparr>"
  let ?b = "?a\<lparr>db_attempts := update_where (\<lambda>a. a_job_id a \<in> set ids \<and> a_state a = AttemptRunning)
     (close_attempt now AttemptCancelled msg) (db_attempts ?a)\<rparr>"
  have "row_change J db ?a"
    by (rule row_change_tasks) (use assms in \<open>auto simp: task_cols_def\<close>)
  moreover have "row_change J ?a ?b" by (rule row_change_attempts) (use assms in auto)
  moreover have "row_change J ?b (interrupt_jobs now ids ts msg st stop db)"
    using row_change_jobs [of "\<lambda>r. r\<lparr>j_state := st, j_stop_requested := stop, j_updated_at := now\<rparr>"
        "\<lambda>r. j_id r \<in> set ids" J ?b] assms
    by (auto simp: journal_cols_def interrupt_jobs_def)
  ultimately show ?thesis using row_change_trans by blast
qed

lemma recover_durable_inv:
  assumes inv: "db_inv sha db" and op: "recover_durable now db = Inr db'"
  shows "db_inv sha db'"
  using recover_durable_effect [OF op]
proof (elim exE conjE, goal_cases)
  case (1 db1)
  let ?J = "set (accepted_ids db) \<union> set (active_ids db) \<union> set (stopped_ids db)"
  have "row_change ?J db db1"
    unfolding 1(2) by (rule row_change_jobs) (auto simp: journal_cols_def)
  moreover have "row_change ?J db1 db'"
    unfolding 1(3) by (rule row_change_trans [OF interrupt_jobs_change interrupt_jobs_change]) auto
  ultimately have "row_change ?J db db'" by (rule row_change_trans)
  then show ?case by (rule row_change_inv [OF inv _ 1(1)])
qed

lemma insert_event_inv:
  assumes inv: "db_inv sha db" and ins: "insert_event jid tid kind p now db = Inr db'"
  shows "db_inv sha db'"
  using ins append_events_inv [OF inv logged_one] by (simp add: insert_event_effect)

lemma event_inv:
  assumes inv: "db_inv sha db" and op: "event now jid kind p tid db = Inr (n, db')"
  shows "db_inv sha db'"
proof -
  from op obtain k q where "insert_event jid tid k q now db = Inr db'"
    by (auto simp: event_def rbind_Inr_iff)
  then show ?thesis by (rule insert_event_inv [OF inv])
qed

text \<open>Staging a dossier for a job that has no acceptance yet.\<close>

lemma staged_dossiers_ok:
  "dossiers_ok sha ds \<Longrightarrow> 1 \<le> v \<Longrightarrow> digest_matches sha content digest \<Longrightarrow>
   dossiers_ok sha (staged (staged_row now jid v digest content) ds)"
  by (auto simp: dossiers_ok_def set_staged staged_row_def)

lemma staged_journal_other:
  "d_job_id r \<noteq> j_id j \<Longrightarrow> journal_row (staged r ds) j = journal_row ds j"
  by (auto simp: journal_row_def set_staged)

lemma staged_journal_same:
  "j_acceptance_phase j = PhaseNone \<Longrightarrow> journal_row ds j \<Longrightarrow> \<not> d_published r \<Longrightarrow>
   journal_row (staged r ds) j"
  by (auto simp: journal_row_def set_staged)

lemma stage_inv:
  assumes inv: "db_inv sha db" and job: "find_job jid (db_jobs db) = Some job"
    and phase: "j_acceptance_phase job = PhaseNone"
    and v: "1 \<le> v" and dig: "digest_matches sha content digest"
  shows "db_inv sha (db\<lparr>db_dossiers := staged (staged_row now jid v digest content) (db_dossiers db)\<rparr>)"
    (is "db_inv sha ?db")
proof -
  let ?r = "staged_row now jid v digest content"
  have r: "d_job_id ?r = jid" "\<not> d_published ?r" by (simp_all add: staged_row_def)
  have j: "job \<in> set (db_jobs db)" "j_id job = jid" using job by (auto dest: job_tab.select_SomeD)
  have keys: "keys_ok ?db"
    using inv by (simp add: db_inv_def keys_ok_def keys_staged)
  have "refs_ok ?db"
    using inv j r by (auto simp: db_inv_def refs_ok_def image_staged)
  moreover have "journal_ok ?db"
    unfolding journal_ok_def
  proof
    fix k assume k: "k \<in> set (db_jobs ?db)"
    show "journal_row (db_dossiers ?db) k"
    proof (cases "j_id k = jid")
      case True
      with k j inv have "k = job"
        by (auto simp: db_inv_def keys_ok_def distinct_map inj_on_def)
      with inv k phase r show ?thesis
        by (auto simp: db_inv_def journal_ok_def intro: staged_journal_same)
    next
      case False
      with inv k r show ?thesis
        by (simp add: db_inv_def journal_ok_def staged_journal_other)
    qed
  qed
  moreover have "dossiers_ok sha (db_dossiers ?db)"
    using inv v dig by (simp add: db_inv_def staged_dossiers_ok)
  ultimately show ?thesis
    using inv keys by (simp add: db_inv_def snapshots_cong [of ?db db] ledger_ok_def)
qed

lemma stage_dossier_inv:
  assumes inv: "db_inv sha db" and op: "stage_dossier sha now jid v digest content db = Inr db'"
  shows "db_inv sha db'"
  using stage_dossier_effect [OF op]
  by (elim exE conjE) (simp add: stage_inv [OF inv])

text \<open>
  A move of one job along its journal: the row found under \<open>jid\<close> is updated, its new journal
  columns fit the new dossiers, and the dossiers of other jobs stay.
\<close>

lemma job_move_inv:
  assumes inv: "db_inv sha db" and job: "find_job jid (db_jobs db) = Some job"
    and jobs: "jobs' = update_where P f (db_jobs db)"
    and P: "\<And>r. P r \<Longrightarrow> j_id r = jid" and Pjob: "P job" and f: "\<And>r. j_id (f r) = j_id r"
    and ds: "map d_job_id ds' = map d_job_id (db_dossiers db)" "dossiers_ok sha ds'"
    and mine: "journal_row ds' (f job)"
    and other: "\<And>k. j_id k \<noteq> jid \<Longrightarrow> journal_row ds' k = journal_row (db_dossiers db) k"
    and valid: "snapshot_valid jid (db\<lparr>db_jobs := jobs', db_dossiers := ds'\<rparr>)"
  shows "db_inv sha (db\<lparr>db_jobs := jobs', db_dossiers := ds'\<rparr>)" (is "db_inv sha ?db")
proof -
  have j: "job \<in> set (db_jobs db)" "j_id job = jid" using job by (auto dest: job_tab.select_SomeD)
  have ids: "map j_id jobs' = map j_id (db_jobs db)" by (simp add: jobs map_key_update_where f)
  have keys: "keys_ok ?db" using inv by (simp add: db_inv_def keys_ok_def ids ds)
  have "refs_ok ?db"
    using inv image_of_map [OF ids] image_of_map [OF ds(1)] by (simp add: db_inv_def refs_ok_def)
  moreover have "journal_ok ?db"
    unfolding journal_ok_def
  proof
    fix k assume "k \<in> set (db_jobs ?db)"
    then obtain r where r: "r \<in> set (db_jobs db)" "k = (if P r then f r else r)"
      by (auto simp: jobs set_update_where)
    show "journal_row (db_dossiers ?db) k"
    proof (cases "j_id r = jid")
      case True
      with r j inv have "r = job" by (auto simp: db_inv_def keys_ok_def distinct_map inj_on_def)
      with r Pjob mine show ?thesis by simp
    next
      case False
      with P have "\<not> P r" by blast
      with False r other inv show ?thesis by (auto simp: db_inv_def journal_ok_def)
    qed
  qed
  moreover have "snapshots_ok ?db"
  proof (rule snapshots_local [of db "{jid}"])
    show "local_to {jid} db ?db"
      using P f by (auto simp: local_to_def jobs intro!: same_outside_update)
    show "snapshots_ok db" using inv by (simp add: db_inv_def)
    show "distinct (map j_id (db_jobs ?db))" using keys by (simp add: keys_ok_def)
  qed (simp add: valid)
  ultimately show ?thesis
    using inv keys ds by (simp add: db_inv_def ledger_ok_def)
qed

lemma prepare_accepted_job_inv:
  assumes inv: "db_inv sha db"
    and op: "prepare_accepted_job sha now jid commit summary intent v digest content db = Inr db'"
  shows "db_inv sha db'"
proof (cases "db' = db")
  case False
  show ?thesis
    using prepare_accepted_job_effect [OF op False]
  proof (elim exE conjE, goal_cases)
    case (1 job i p)
    let ?r = "staged_row now jid v digest content"
    let ?s = "db\<lparr>db_dossiers := staged ?r (db_dossiers db)\<rparr>"
    let ?P = "\<lambda>r. j_id r = jid \<and> j_acceptance_phase r = PhaseNone \<and> j_state r = j_state job"
    let ?f = "\<lambda>r. r\<lparr>j_accepted_commit := commit, j_acceptance_phase := PhaseAccepted,
                j_source_apply_intent := i, j_source_apply_outcome := OutcomeUnset,
                j_source_apply_reason := '''', j_final_summary := summary,
                j_error := '''', j_stop_requested := False, j_updated_at := now\<rparr>"
    let ?m = "?s\<lparr>db_jobs := update_where ?P ?f (db_jobs ?s), db_dossiers := db_dossiers ?s\<rparr>"
    have j: "job \<in> set (db_jobs db)" "j_id job = jid" using 1(1) by (auto dest: job_tab.select_SomeD)
    have s: "db_inv sha ?s" by (rule stage_inv [OF inv 1(1,2,4,5)])
    have "journal_row (db_dossiers ?s) job" using s j by (simp add: db_inv_def journal_ok_def)
    then have mine: "journal_row (db_dossiers ?s) (?f job)"
      using 1(2,3) j by (auto simp: journal_row_def image_staged staged_row_def)
    have "snapshot_valid jid db' = snapshot_valid jid ?m"
      by (rule snapshot_valid_cong) (simp_all add: 1(7))
    with 1(8) have valid: "snapshot_valid jid ?m" by simp
    have "db_inv sha ?m"
      by (rule job_move_inv [OF s _ refl _ _ _ refl _ mine _ valid])
        (use s 1(1,2) j in \<open>auto simp: db_inv_def\<close>)
    then have "db_inv sha (?m\<lparr>db_events := db_events ?m @
          [\<lparr>e_id = db_last_event_id ?m + 1, e_job_id = jid, e_task_id = None,
            e_kind = ''job.accepted'', e_payload = p, e_created_at = now\<rparr>],
        db_last_event_id := db_last_event_id ?m + 1\<rparr>)"
      using j by - (rule append_events_inv [OF _ logged_one], auto simp: image_key_update_where)
    moreover have "db' = ?m\<lparr>db_events := db_events ?m @
          [\<lparr>e_id = db_last_event_id ?m + 1, e_job_id = jid, e_task_id = None,
            e_kind = ''job.accepted'', e_payload = p, e_created_at = now\<rparr>],
        db_last_event_id := db_last_event_id ?m + 1\<rparr>"
      unfolding 1(7) by simp
    ultimately show ?case by (simp only:)
  qed
qed (simp add: inv)

lemma mark_apply_started_inv:
  assumes inv: "db_inv sha db" and op: "mark_apply_started now jid commit db = Inr db'"
  shows "db_inv sha db'"
proof (cases "db' = db")
  case False
  show ?thesis
    using mark_apply_started_effect [OF op False]
  proof (elim exE conjE, goal_cases)
    case (1 job p)
    let ?P = "\<lambda>r. j_id r = jid \<and> j_acceptance_phase r = PhaseAccepted"
    let ?f = "\<lambda>r. r\<lparr>j_acceptance_phase := PhaseApplying, j_updated_at := now\<rparr>"
    let ?m = "db\<lparr>db_jobs := update_where ?P ?f (db_jobs db), db_dossiers := db_dossiers db\<rparr>"
    have j: "job \<in> set (db_jobs db)" "j_id job = jid" using 1(1) by (auto dest: job_tab.select_SomeD)
    have "journal_row (db_dossiers db) job" using inv j by (simp add: db_inv_def journal_ok_def)
    then have mine: "journal_row (db_dossiers db) (?f job)"
      using 1(2,3) by (auto simp: journal_row_def)
    have "snapshot_valid jid db' = snapshot_valid jid ?m"
      by (rule snapshot_valid_cong) (simp_all add: 1(4))
    with 1(5) have valid: "snapshot_valid jid ?m" by simp
    have "db_inv sha ?m"
      by (rule job_move_inv [OF inv _ refl _ _ _ refl _ mine _ valid])
        (use inv 1(1,2) j in \<open>auto simp: db_inv_def\<close>)
    from append_events_inv [OF this logged_one, of jid] j show ?case
      by (auto simp: 1(4) image_key_update_where)
  qed
qed (simp add: inv)

lemma publish_intent_phase:
  "publish_intent_check i ph out = Inr () \<Longrightarrow> apply_outcome_of_string s = Inr out \<Longrightarrow>
   ph \<in> {PhaseAccepted, PhaseApplying} \<and> out \<noteq> OutcomeUnset \<and>
   (out = OutcomeNotRequested \<longleftrightarrow> i = IntentNotRequested)"
  by (auto simp: publish_intent_check_def apply_outcome_of_string_def split: apply_intent.splits if_splits)

lemma publish_completed_job_inv:
  assumes inv: "db_inv sha db"
    and op: "publish_completed_job sha now jid v digest summary out reason db = Inr db'"
  shows "db_inv sha db'"
proof (cases "db' = db")
  case False
  show ?thesis
    using publish_completed_job_effect [OF op False]
  proof (elim exE conjE, goal_cases)
    case (1 job outcome d es n)
    let ?P = "\<lambda>r. j_id r = jid \<and> j_state r = j_state job \<and> j_acceptance_phase r = j_acceptance_phase job"
    let ?f = "\<lambda>r. r\<lparr>j_state := JobCompleted, j_stop_requested := False,
                        j_final_summary := summary, j_error := '''',
                        j_acceptance_phase := PhasePublished, j_source_apply_outcome := outcome,
                        j_source_apply_reason := py_last 4000 reason, j_updated_at := now\<rparr>"
    let ?ds = "update_where (\<lambda>d. d_job_id d = jid \<and> \<not> d_published d \<and> d_sha256 d = digest)
               (\<lambda>d. d\<lparr>d_published := True\<rparr>) (db_dossiers db)"
    let ?m = "db\<lparr>db_jobs := update_where ?P ?f (db_jobs db), db_dossiers := ?ds\<rparr>"
    have j: "job \<in> set (db_jobs db)" "j_id job = jid" using 1(1) by (auto dest: job_tab.select_SomeD)
    have d: "d \<in> set (db_dossiers db)" "d_job_id d = jid" using 1(2) by (auto dest: dossier_tab.select_SomeD)
    have only: "e = d" if "e \<in> set (db_dossiers db)" "d_job_id e = jid" for e
      using inv that d by (auto simp: db_inv_def keys_ok_def distinct_map inj_on_def)
    note ph = publish_intent_phase [OF 1(7,8)]
    have row: "journal_row (db_dossiers db) job" using inv j by (simp add: db_inv_def journal_ok_def)
    have ids: "map d_job_id ?ds = map d_job_id (db_dossiers db)" by (simp add: map_key_update_where)
    have unpub: "\<not> d_published d" using row ph d j by (auto simp: journal_row_def)
    have "\<forall>e \<in> set ?ds. d_job_id e = jid \<longrightarrow> d_published e"
    proof (intro ballI impI)
      fix e assume e: "e \<in> set ?ds" "d_job_id e = jid"
      then obtain r where r: "r \<in> set (db_dossiers db)"
        "e = (if d_job_id r = jid \<and> \<not> d_published r \<and> d_sha256 r = digest
              then r\<lparr>d_published := True\<rparr> else r)"
        unfolding set_update_where by blast
      have "r = d" using e(2) only [OF r(1)] unfolding r(2) by (simp split: if_splits)
      then show "d_published e" using unpub d 1(3) by (simp add: r(2))
    qed
    moreover have "jid \<in> d_job_id ` set ?ds"
      using d by (auto simp: image_of_map [OF ids])
    ultimately have mine: "journal_row ?ds (?f job)"
      using row ph j 1(5) by (simp add: journal_row_def)
    have out: "same_outside d_job_id {jid} (db_dossiers db) ?ds"
      by (rule same_outside_update) simp
    have other: "journal_row ?ds k = journal_row (db_dossiers db) k" if "j_id k \<noteq> jid" for k
    proof -
      have "j_id k \<notin> {jid}" using that by simp
      from same_outside_ball [OF out this] show ?thesis
        by (simp only: journal_row_def image_of_map [OF ids])
    qed
    have "snapshot_valid jid db' = snapshot_valid jid ?m"
      by (rule snapshot_valid_cong) (simp_all add: 1(9))
    with 1(12) have valid: "snapshot_valid jid ?m" by simp
    have dok: "dossiers_ok sha ?ds"
      using inv by (auto simp: db_inv_def dossiers_ok_def set_update_where)
    have "db_inv sha ?m"
      by (rule job_move_inv [OF inv 1(1) refl _ _ _ ids dok mine other valid]) (use j in auto)
    from append_events_inv [OF this, of jid es n] 1(11) j show ?case
      by (auto simp: 1(9) image_key_update_where logged_def)
  qed
qed (simp add: inv)

end
