(* ===== verification/Yolo_DB_History.thy ===== *)
theory Yolo_DB_History
  imports Yolo_DB_Steps
begin

text \<open>
  What no transaction of the store ever undoes: the identity of every row, the acceptance
  journal, finished attempts, completed tasks, the graph and the dossier of an accepted job, and
  the ledger; and the proof that every transaction keeps this history.
\<close>

section \<open>Rows that only move forward\<close>

definition job_kept :: "job_row \<Rightarrow> job_row \<Rightarrow> bool" where
  "job_kept j j' \<longleftrightarrow>
     j_id j' = j_id j \<and> j_repo j' = j_repo j \<and> j_goal j' = j_goal j \<and>
     j_base_branch j' = j_base_branch j \<and> j_base_commit j' = j_base_commit j \<and>
     j_integration_branch j' = j_integration_branch j \<and> j_created_at j' = j_created_at j \<and>
     j_acceptance_phase j \<le> j_acceptance_phase j' \<and>
     (j_acceptance_phase j \<noteq> PhaseNone \<longrightarrow>
        j_accepted_commit j' = j_accepted_commit j \<and>
        j_source_apply_intent j' = j_source_apply_intent j \<and>
        j_auto_apply j' = j_auto_apply j \<and> j_integration_path j' = j_integration_path j) \<and>
     (j_state j = JobCompleted \<longrightarrow> j' = j\<lparr>j_updated_at := j_updated_at j'\<rparr>)"

definition task_kept :: "task_row \<Rightarrow> task_row \<Rightarrow> bool" where
  "task_kept t t' \<longleftrightarrow>
     task_cols t' = task_cols t \<and> t_seq t' = t_seq t \<and> t_title t' = t_title t \<and>
     t_description t' = t_description t \<and> t_dependencies t' = t_dependencies t \<and>
     t_acceptance t' = t_acceptance t \<and> t_created_at t' = t_created_at t \<and>
     (t_state t = TaskCompleted \<longrightarrow> t_state t' = TaskCompleted)"

definition attempt_kept :: "attempt_row \<Rightarrow> attempt_row \<Rightarrow> bool" where
  "attempt_kept a a' \<longleftrightarrow>
     attempt_cols a' = attempt_cols a \<and> a_agent a' = a_agent a \<and>
     a_worktree a' = a_worktree a \<and> a_branch a' = a_branch a \<and> a_log_path a' = a_log_path a \<and>
     a_started_at a' = a_started_at a \<and>
     (a_state a \<noteq> AttemptRunning \<longrightarrow> a' = a)"

definition dossier_kept :: "dossier_row \<Rightarrow> dossier_row \<Rightarrow> bool" where
  "dossier_kept d d' \<longleftrightarrow>
     d_job_id d' = d_job_id d \<and> d_schema_version d' = d_schema_version d \<and>
     d_sha256 d' = d_sha256 d \<and> d_content d' = d_content d \<and> d_created_at d' = d_created_at d \<and>
     (d_published d \<longrightarrow> d_published d')"

lemma dossier_kept_refl [simp]: "dossier_kept d d"
  by (simp add: dossier_kept_def)

text \<open>Once a job is past the first phase its tasks, attempts and dossier content stand still.\<close>

definition graph_kept :: "db \<Rightarrow> db \<Rightarrow> bool" where
  "graph_kept db db' \<longleftrightarrow>
     (\<forall>j \<in> set (db_jobs db). j_acceptance_phase j \<noteq> PhaseNone \<longrightarrow>
        filter (\<lambda>t. t_job_id t = j_id j) (db_tasks db') =
          filter (\<lambda>t. t_job_id t = j_id j) (db_tasks db) \<and>
        filter (\<lambda>a. a_job_id a = j_id j) (db_attempts db') =
          filter (\<lambda>a. a_job_id a = j_id j) (db_attempts db) \<and>
        (\<forall>d. find_dossier (j_id j) (db_dossiers db) = Some d \<longrightarrow>
           (\<exists>d'. find_dossier (j_id j) (db_dossiers db') = Some d' \<and> dossier_kept d d')))"

definition kept :: "db \<Rightarrow> db \<Rightarrow> bool" where
  "kept db db' \<longleftrightarrow>
     evolves find_job job_kept (db_jobs db) (db_jobs db') \<and>
     evolves find_task task_kept (db_tasks db) (db_tasks db') \<and>
     evolves find_attempt attempt_kept (db_attempts db) (db_attempts db') \<and>
     graph_kept db db' \<and> (\<exists>es. db_events db' = db_events db @ es)"

lemma job_kept_refl: "job_kept j j" by (simp add: job_kept_def)
lemma task_kept_refl: "task_kept t t" by (simp add: task_kept_def)
lemma attempt_kept_refl: "attempt_kept a a" by (simp add: attempt_kept_def)

lemma kept_refl: "kept db db"
  by (auto simp: kept_def graph_kept_def intro: evolves_refl job_kept_refl task_kept_refl attempt_kept_refl)

lemma phase_le_None: "p \<le> PhaseNone \<longleftrightarrow> p = PhaseNone"
  by (cases p) simp_all

lemma job_kept_trans:
  assumes "job_kept j k" "job_kept k l" shows "job_kept j l"
proof -
  have "j_acceptance_phase j \<noteq> PhaseNone \<Longrightarrow> j_acceptance_phase k \<noteq> PhaseNone"
    using assms(1) by (auto simp: job_kept_def phase_le_None)
  moreover have "l = j\<lparr>j_updated_at := j_updated_at l\<rparr>" if "j_state j = JobCompleted"
  proof -
    from that assms(1) have k: "k = j\<lparr>j_updated_at := j_updated_at k\<rparr>" by (simp add: job_kept_def)
    then have "j_state k = JobCompleted" using that by (metis job_row.select_convs(4) job_row.surjective job_row.update_convs(12))
    with assms(2) have "l = k\<lparr>j_updated_at := j_updated_at l\<rparr>" by (simp add: job_kept_def)
    with k show ?thesis by (metis job_row.surjective job_row.update_convs(12))
  qed
  ultimately show ?thesis
    using assms unfolding job_kept_def by (intro conjI impI) (auto intro: order_trans)
qed

lemma task_kept_trans: "task_kept t u \<Longrightarrow> task_kept u v \<Longrightarrow> task_kept t v"
  by (auto simp: task_kept_def)

lemma attempt_kept_trans: "attempt_kept a b \<Longrightarrow> attempt_kept b c \<Longrightarrow> attempt_kept a c"
  by (auto simp: attempt_kept_def)

lemma dossier_kept_trans:
  "dossier_kept d d' \<Longrightarrow> dossier_kept d' d'' \<Longrightarrow> dossier_kept d d''"
  by (simp add: dossier_kept_def)

lemma dossier_kept_published: "dossier_kept d d' \<Longrightarrow> d_published d \<Longrightarrow> d' = d"
  by (simp add: dossier_kept_def)

lemma graph_kept_trans:
  assumes jobs: "evolves find_job job_kept (db_jobs db) (db_jobs db1)"
    and keys: "distinct (map j_id (db_jobs db))"
    and one: "graph_kept db db1" and two: "graph_kept db1 db2"
  shows "graph_kept db db2"
  unfolding graph_kept_def
proof (intro ballI impI)
  fix j assume j: "j \<in> set (db_jobs db)" "j_acceptance_phase j \<noteq> PhaseNone"
  from evolvesD [OF jobs job_tab.select_unique [OF keys j(1)]] obtain k where
    k: "find_job (j_id j) (db_jobs db1) = Some k" "job_kept j k"
    by blast
  then have k': "k \<in> set (db_jobs db1)" "j_id k = j_id j" "j_acceptance_phase k \<noteq> PhaseNone"
    using j by (auto simp: job_kept_def phase_le_None dest: job_tab.select_SomeD)
  note a = one [unfolded graph_kept_def, rule_format, OF j]
  note b = two [unfolded graph_kept_def, rule_format, OF k'(1,3), unfolded k'(2)]
  have "\<exists>d'. find_dossier (j_id j) (db_dossiers db2) = Some d' \<and> dossier_kept d d'"
    if d: "find_dossier (j_id j) (db_dossiers db) = Some d" for d
    using a b d dossier_kept_trans by metis
  with a b show "filter (\<lambda>t. t_job_id t = j_id j) (db_tasks db2) =
          filter (\<lambda>t. t_job_id t = j_id j) (db_tasks db) \<and>
        filter (\<lambda>a. a_job_id a = j_id j) (db_attempts db2) =
          filter (\<lambda>a. a_job_id a = j_id j) (db_attempts db) \<and>
        (\<forall>d. find_dossier (j_id j) (db_dossiers db) = Some d \<longrightarrow>
           (\<exists>d'. find_dossier (j_id j) (db_dossiers db2) = Some d' \<and> dossier_kept d d'))"
    by metis
qed

lemma kept_trans:
  assumes keys: "distinct (map j_id (db_jobs db))" and one: "kept db db1" and two: "kept db1 db2"
  shows "kept db db2"
proof -
  have "evolves find_job job_kept (db_jobs db) (db_jobs db2)"
    using one two unfolding kept_def
    by (elim conjE) (rule evolves_trans [where R = job_kept, OF job_kept_trans])
  moreover have "evolves find_task task_kept (db_tasks db) (db_tasks db2)"
    using one two unfolding kept_def
    by (elim conjE) (rule evolves_trans [where R = task_kept, OF task_kept_trans])
  moreover have "evolves find_attempt attempt_kept (db_attempts db) (db_attempts db2)"
    using one two unfolding kept_def
    by (elim conjE) (rule evolves_trans [where R = attempt_kept, OF attempt_kept_trans])
  moreover have "graph_kept db db2"
    using one two graph_kept_trans [OF _ keys] by (auto simp: kept_def)
  ultimately show ?thesis using one two by (auto simp: kept_def)
qed

section \<open>Every transaction keeps the history\<close>

lemma inv_job_eq:
  assumes "db_inv sha db" "find_job jid (db_jobs db) = Some job"
    and "r \<in> set (db_jobs db)" "j_id r = jid"
  shows "r = job"
  using assms job_tab.select_unique [of "db_jobs db" r] by (auto simp: db_inv_def keys_ok_def)

lemma inv_consistent:
  "db_inv sha db \<Longrightarrow> j \<in> set (db_jobs db) \<Longrightarrow> job_consistent db j"
  by (simp add: db_inv_def snapshots_ok_def)

lemma inv_completed:
  assumes "db_inv sha db" "j \<in> set (db_jobs db)"
  shows "j_state j = JobCompleted \<longleftrightarrow> j_acceptance_phase j = PhasePublished"
    and "j_state j = JobCompleted \<Longrightarrow> \<not> j_stop_requested j"
  using inv_consistent [OF assms] by (simp_all add: job_consistent_def snapshot_ok_def)

lemma graph_kept_local:
  assumes t: "same_outside t_job_id J (db_tasks db) (db_tasks db')"
    and a: "same_outside a_job_id J (db_attempts db) (db_attempts db')"
    and d: "\<And>jid. jid \<notin> J \<Longrightarrow> find_dossier jid (db_dossiers db') = find_dossier jid (db_dossiers db)"
    and none: "\<And>j. j \<in> set (db_jobs db) \<Longrightarrow> j_id j \<in> J \<Longrightarrow> j_acceptance_phase j = PhaseNone"
  shows "graph_kept db db'"
  unfolding graph_kept_def
proof (intro ballI impI)
  fix j assume j: "j \<in> set (db_jobs db)" "j_acceptance_phase j \<noteq> PhaseNone"
  with none have out: "j_id j \<notin> J" by blast
  show "filter (\<lambda>t. t_job_id t = j_id j) (db_tasks db') =
          filter (\<lambda>t. t_job_id t = j_id j) (db_tasks db) \<and>
        filter (\<lambda>a. a_job_id a = j_id j) (db_attempts db') =
          filter (\<lambda>a. a_job_id a = j_id j) (db_attempts db) \<and>
        (\<forall>d. find_dossier (j_id j) (db_dossiers db) = Some d \<longrightarrow>
           (\<exists>d'. find_dossier (j_id j) (db_dossiers db') = Some d' \<and> dossier_kept d d'))"
    using same_outside_filter [OF t out] same_outside_filter [OF a out] d [OF out] by simp
qed

text \<open>Changes of the job rows, the ledger and nothing else.\<close>

lemma kept_jobs_only:
  assumes "evolves find_job job_kept (db_jobs db) (db_jobs db')"
    and "db_tasks db' = db_tasks db" "db_attempts db' = db_attempts db"
    and "db_dossiers db' = db_dossiers db" "\<exists>es. db_events db' = db_events db @ es"
  shows "kept db db'"
  using assms
  by (auto simp: kept_def intro!: graph_kept_local [of "{}"] evolves_refl task_kept_refl attempt_kept_refl)

lemma create_job_kept:
  assumes "create_job now i repo goal bb bc ib aa db = Inr (j, db')"
  shows "kept db db'"
  using create_job_effect [OF assms]
  by (intro kept_jobs_only) (auto intro!: job_tab.evolves_append job_kept_refl)

lemma insert_event_kept: "insert_event jid tid kind p now db = Inr db' \<Longrightarrow> kept db db'"
  by (intro kept_jobs_only) (auto simp: insert_event_effect intro!: evolves_refl job_kept_refl)

lemma event_kept:
  assumes "event now jid kind p tid db = Inr (n, db')"
  shows "kept db db'"
proof -
  from assms obtain k q where "insert_event jid tid k q now db = Inr db'"
    by (auto simp: event_def rbind_Inr_iff)
  then show ?thesis by (rule insert_event_kept)
qed

lemma update_job_row_kept:
  assumes inv: "db_inv sha db" and row: "row \<in> set (db_jobs db)"
    and frozen: "j_acceptance_phase row = PhaseNone \<or> \<not> touches_frozen u"
    and target: "override (ju_state u) (j_state row) \<in> job_transitions (j_state row)"
    and stop: "j_state row = JobCompleted \<Longrightarrow> \<not> override (ju_stop_requested u) (j_stop_requested row)"
  shows "job_kept row (apply_job_update now u (override (ju_state u) (j_state row)) row)"
  using frozen target stop inv_completed [OF inv row]
  by (cases "j_state row = JobCompleted")
    (auto simp: job_kept_def apply_job_update_def touches_frozen_iff)

lemma update_job_kept:
  assumes inv: "db_inv sha db" and op: "update_job now jid u db = Inr db'"
  shows "kept db db'"
proof (cases "u = no_job_update")
  case True
  with op show ?thesis by (auto simp: update_job_def kept_refl split: if_splits)
next
  case False
  show ?thesis
    using update_job_effect [OF op False]
  proof (elim exE conjE, goal_cases)
    case (1 row)
    let ?f = "apply_job_update now u (override (ju_state u) (j_state row))"
    let ?P = "\<lambda>r. j_id r = jid \<and> j_state r = j_state row"
    have row: "row \<in> set (db_jobs db)" "j_id row = jid" using 1(1) by (auto dest: job_tab.select_SomeD)
    have key: "j_id (?f r) = j_id r" for r by (simp add: apply_job_update_def)
    have "find_job jid (db_jobs db') = Some (?f row)"
      using 1(1) row by (simp add: 1(5) job_tab.select_update key)
    moreover have "db_inv sha db'" by (rule update_job_inv [OF inv op])
    ultimately have "j_state row = JobCompleted \<Longrightarrow> \<not> override (ju_stop_requested u) (j_stop_requested row)"
      using inv_completed(2) [of sha db' "?f row"] 1(3)
      by (auto simp: apply_job_update_def dest!: job_tab.select_SomeD)
    note step = update_job_row_kept [OF inv row(1) 1(2,3) this, of now]
    have "evolves find_job job_kept (db_jobs db) (update_where ?P ?f (db_jobs db))"
    proof (rule job_tab.evolves_update [OF key job_kept_refl])
      fix r assume "r \<in> set (db_jobs db)" "?P r"
      with inv_job_eq [OF inv 1(1)] step show "job_kept r (?f r)" by blast
    qed
    then show ?case by (intro kept_jobs_only) (simp_all add: 1(5))
  qed
qed

text \<open>Row updates within jobs that have no acceptance yet.\<close>

lemma kept_rows:
  assumes ch: "row_change J db db'"
    and jobs: "evolves find_job job_kept (db_jobs db) (db_jobs db')"
    and tasks: "evolves find_task task_kept (db_tasks db) (db_tasks db')"
    and attempts: "evolves find_attempt attempt_kept (db_attempts db) (db_attempts db')"
    and none: "\<And>j. j \<in> set (db_jobs db) \<Longrightarrow> j_id j \<in> J \<Longrightarrow> j_acceptance_phase j = PhaseNone"
  shows "kept db db'"
proof -
  have "graph_kept db db'"
    using ch none by (intro graph_kept_local [of J]) (auto simp: row_change_def local_to_def)
  then show ?thesis using ch jobs tasks attempts by (simp add: kept_def row_change_def)
qed

lemma inv_single_none:
  assumes "db_inv sha db" "find_job jid (db_jobs db) = Some job" "j_acceptance_phase job = PhaseNone"
    and "j \<in> set (db_jobs db)" "j_id j \<in> {jid}"
  shows "j_acceptance_phase j = PhaseNone"
  using inv_job_eq [OF assms(1,2,4)] assms(3,5) by auto

lemma inv_none_open:
  assumes "db_inv sha db" "find_job jid (db_jobs db) = Some job" "j_acceptance_phase job = PhaseNone"
  shows "j_state job \<noteq> JobCompleted"
  using inv_completed(1) [of sha db job] assms by (auto dest: job_tab.select_SomeD)

text \<open>Updates of the mutable columns keep a row that is not final.\<close>

lemma job_kept_open:
  assumes "\<And>r. job_kept r (f r) \<longleftrightarrow> j_state r = JobCompleted \<longrightarrow> f r = r\<lparr>j_updated_at := j_updated_at (f r)\<rparr>"
    and "\<And>r. j_id (f r) = j_id r"
    and "\<And>r. r \<in> set rows \<Longrightarrow> P r \<Longrightarrow> j_state r \<noteq> JobCompleted"
  shows "evolves find_job job_kept rows (update_where P f rows)"
  using assms by (intro job_tab.evolves_update job_kept_refl) auto

lemma tasks_evolve:
  assumes "\<And>r. task_cols (f r) = task_cols r" and "\<And>r. r \<in> set rows \<Longrightarrow> P r \<Longrightarrow> task_kept r (f r)"
  shows "evolves find_task task_kept rows (update_where P f rows)"
  using assms by (intro task_tab.evolves_update task_kept_refl) (auto simp: task_cols_def)

lemma attempts_evolve:
  assumes "\<And>r. attempt_cols (f r) = attempt_cols r"
    and "\<And>r. r \<in> set rows \<Longrightarrow> P r \<Longrightarrow> attempt_kept r (f r)"
  shows "evolves find_attempt attempt_kept rows (update_where P f rows)"
  using assms by (intro attempt_tab.evolves_update attempt_kept_refl) (auto simp: attempt_cols_def)

lemma close_attempt_kept: "a_state a = AttemptRunning \<Longrightarrow> attempt_kept a (close_attempt now st msg a)"
  by (simp add: attempt_kept_def close_attempt_def attempt_cols_def)

lemma mark_pending_kept: "t_state t \<noteq> TaskCompleted \<Longrightarrow> task_kept t (mark_tasks_pending now t)"
  by (simp add: task_kept_def mark_tasks_pending_def task_cols_def)

lemma add_tasks_kept:
  assumes inv: "db_inv sha db" and op: "add_tasks now jid ps db = Inr (ts, db')"
  shows "kept db db'"
  using add_tasks_effect [OF op]
proof (elim exE conjE, goal_cases)
  case (1 job rs)
  from insert_tasks_effect [OF 1(4)] have db': "db' = db\<lparr>db_tasks := db_tasks db @ rs\<rparr>" by blast
  have "same_outside t_job_id {jid} (db_tasks db) (db_tasks db')"
    using 1(5) by (auto simp: db' intro!: same_outside_append dest: new_task_rows_job)
  then have "graph_kept db db'"
    using inv_single_none [OF inv 1(1,2)]
    by (intro graph_kept_local [of "{jid}"]) (auto simp: db')
  moreover have "evolves find_task task_kept (db_tasks db) (db_tasks db @ rs)"
    by (rule task_tab.evolves_append [OF task_kept_refl])
  ultimately show ?case
    by (auto simp: kept_def db' intro!: evolves_refl job_kept_refl attempt_kept_refl)
qed

lemma update_task_kept:
  assumes inv: "db_inv sha db" and op: "update_task now tid u db = Inr db'"
  shows "kept db db'"
proof (cases "u = no_task_update")
  case True
  with op show ?thesis by (auto simp: update_task_def kept_refl split: if_splits)
next
  case False
  show ?thesis
    using update_task_effect [OF op False]
  proof (elim exE conjE, goal_cases)
    case (1 row job P)
    let ?f = "apply_task_update now u (override (tu_state u) (t_state row))"
    have "row \<in> set (db_tasks db)" "t_id row = tid" using 1(1) by (auto dest: task_tab.select_SomeD)
    then have own: "t \<in> set (db_tasks db) \<Longrightarrow> t_id t = tid \<Longrightarrow> t_job_id t = t_job_id row" for t
      using inv by (auto simp: db_inv_def keys_ok_def distinct_map inj_on_def)
    have jobs: "evolves find_job job_kept (db_jobs db) (db_jobs db')"
      unfolding 1(6)
      using 1(5) inv_none_open [OF inv 1(2,3)]
      by (auto intro!: job_kept_open simp: job_kept_def)
    have tasks: "evolves find_task task_kept (db_tasks db) (db_tasks db')"
      unfolding 1(6) using 1(4)
      by (auto intro!: tasks_evolve simp: task_kept_def task_cols_def apply_task_update_def)
    have "same_outside t_job_id {t_job_id row} (db_tasks db) (db_tasks db')"
      unfolding 1(6) using own
      by (auto intro!: same_outside_update simp: apply_task_update_def)
    then have "graph_kept db db'"
      using inv_single_none [OF inv 1(2,3)]
      by (intro graph_kept_local [of "{t_job_id row}"]) (auto simp: 1(6))
    then show ?case using jobs tasks
      by (auto simp: kept_def 1(6) intro!: evolves_refl attempt_kept_refl)
  qed
qed

lemma start_attempt_kept:
  assumes inv: "db_inv sha db"
    and op: "start_attempt now aid jid tid n agent wt br lp db = Inr db'"
  shows "kept db db'"
  using start_attempt_effect [OF op]
proof (elim exE conjE, goal_cases)
  case (1 task job r)
  have "graph_kept db db'"
    using inv_single_none [OF inv 1(3,4)] 1(9)
    by (intro graph_kept_local [of "{jid}"]) (auto simp: 1(18) intro!: same_outside_append)
  moreover have "evolves find_attempt attempt_kept (db_attempts db) (db_attempts db @ [r])"
    by (rule attempt_tab.evolves_append [OF attempt_kept_refl])
  ultimately show ?case
    by (auto simp: kept_def 1(18) intro!: evolves_refl job_kept_refl task_kept_refl)
qed

text \<open>A running attempt belongs to an in-flight task of a running job without acceptance.\<close>

lemma inv_attempt_owner:
  assumes inv: "db_inv sha db" and a: "a \<in> set (db_attempts db)"
  obtains t j where "t \<in> set (db_tasks db)" "t_job_id t = a_job_id a" "t_id t = a_task_id a"
    "find_job (a_job_id a) (db_jobs db) = Some j" "j \<in> set (db_jobs db)" "j_id j = a_job_id a"
proof -
  have "(a_job_id a, a_task_id a) \<in> (\<lambda>t. (t_job_id t, t_id t)) ` set (db_tasks db)"
    using inv a unfolding db_inv_def refs_ok_def by blast
  then obtain t where t: "t \<in> set (db_tasks db)" "t_job_id t = a_job_id a" "t_id t = a_task_id a"
    by auto
  then have "a_job_id a \<in> j_id ` set (db_jobs db)"
    using inv unfolding db_inv_def refs_ok_def by (metis image_subset_iff)
  then obtain j where j: "j \<in> set (db_jobs db)" "j_id j = a_job_id a" by auto
  with inv have "find_job (a_job_id a) (db_jobs db) = Some j"
    using job_tab.select_unique [of "db_jobs db" j] by (simp add: db_inv_def keys_ok_def)
  with t j that show thesis by blast
qed

lemma inv_running_attempt:
  assumes inv: "db_inv sha db" and a: "a \<in> set (db_attempts db)" "a_state a = AttemptRunning"
    and j: "j \<in> set (db_jobs db)" "j_id j = a_job_id a"
  shows "j_state j \<in> {JobRunning, JobStopping} \<and> j_acceptance_phase j = PhaseNone"
proof -
  obtain t where "t \<in> set (db_tasks db)" "t_job_id t = a_job_id a" "t_id t = a_task_id a"
    using inv_attempt_owner [OF inv a(1)] by metis
  with a j have "running_owners_of (j_id j) db \<noteq> {}"
    by (auto simp: running_owners_of_def)
  with inv_consistent [OF inv j(1)] show ?thesis
    by (auto simp: job_consistent_def snapshot_ok_def)
qed

lemma finish_attempt_kept:
  assumes inv: "db_inv sha db" and op: "finish_attempt now aid st rc summary db = Inr db'"
  shows "kept db db'"
  using finish_attempt_effect [OF op]
proof (elim exE conjE, goal_cases)
  case (1 row target)
  have row: "row \<in> set (db_attempts db)" "a_id row = aid" using 1(1) by (auto dest: attempt_tab.select_SomeD)
  then have own: "a \<in> set (db_attempts db) \<Longrightarrow> a_id a = aid \<Longrightarrow> a_job_id a = a_job_id row" for a
    using inv by (auto simp: db_inv_def keys_ok_def distinct_map inj_on_def)
  have out: "same_outside a_job_id {a_job_id row} (db_attempts db) (db_attempts db')"
    unfolding 1(5) using own by (auto intro!: same_outside_update)
  have "graph_kept db db'"
    using inv_running_attempt [OF inv row(1) 1(2)] out
    by (intro graph_kept_local [of "{a_job_id row}"]) (auto simp: 1(5))
  moreover have "evolves find_attempt attempt_kept (db_attempts db) (db_attempts db')"
    unfolding 1(5) by (auto intro!: attempts_evolve simp: attempt_kept_def attempt_cols_def)
  ultimately show ?case
    by (auto simp: kept_def 1(5) intro!: evolves_refl job_kept_refl task_kept_refl)
qed

lemma retry_failed_tasks_kept:
  assumes inv: "db_inv sha db" and op: "retry_failed_tasks now jid db = Inr db'"
  shows "kept db db'"
  using retry_failed_tasks_effect [OF op]
proof (elim exE conjE, goal_cases)
  case (1 job)
  have "same_outside t_job_id {jid} (db_tasks db) (db_tasks db')"
    by (auto simp: 1(4) mark_tasks_pending_def intro!: same_outside_update)
  then have "graph_kept db db'"
    using inv_single_none [OF inv 1(1,2)] by (intro graph_kept_local [of "{jid}"]) (auto simp: 1(4))
  moreover have "evolves find_task task_kept (db_tasks db) (db_tasks db')"
    unfolding 1(4) by (auto intro!: tasks_evolve mark_pending_kept)
  ultimately show ?case
    by (auto simp: kept_def 1(4) intro!: evolves_refl job_kept_refl attempt_kept_refl)
qed

lemma settle_inflight_kept:
  assumes inv: "db_inv sha db" and op: "settle_inflight now jid ts st summary db = Inr db'"
  shows "kept db db'"
  using settle_inflight_effect [OF op]
proof (elim exE conjE, goal_cases)
  case (1 job settled msg)
  have out: "same_outside t_job_id {jid} (db_tasks db) (db_tasks db')"
    "same_outside a_job_id {jid} (db_attempts db) (db_attempts db')"
    by (auto simp: 1(5) close_attempt_def intro!: same_outside_update)
  then have "graph_kept db db'"
    using inv_single_none [OF inv 1(1,2)] by (intro graph_kept_local [of "{jid}"]) (auto simp: 1(5))
  moreover have "evolves find_task task_kept (db_tasks db) (db_tasks db')"
    unfolding 1(5)
    by (auto intro!: tasks_evolve simp: task_kept_def task_cols_def inflight_task_states_def)
  moreover have "evolves find_attempt attempt_kept (db_attempts db) (db_attempts db')"
    unfolding 1(5) by (auto intro!: attempts_evolve close_attempt_kept)
  ultimately show ?case
    by (auto simp: kept_def 1(5) intro!: evolves_refl job_kept_refl)
qed

lemma prepare_resume_tx_kept:
  assumes inv: "db_inv sha db" and op: "prepare_resume_tx now jid db = Inr db'"
  shows "kept db db'"
  using prepare_resume_tx_effect [OF op]
proof (elim exE conjE, goal_cases)
  case (1 job)
  have out: "same_outside t_job_id {jid} (db_tasks db) (db_tasks db')"
    "same_outside a_job_id {jid} (db_attempts db) (db_attempts db')"
    by (auto simp: 1(4) close_attempt_def mark_tasks_pending_def intro!: same_outside_update)
  then have "graph_kept db db'"
    using inv_single_none [OF inv 1(1,2)] by (intro graph_kept_local [of "{jid}"]) (auto simp: 1(4))
  moreover have "evolves find_task task_kept (db_tasks db) (db_tasks db')"
    unfolding 1(4) by (auto intro!: tasks_evolve mark_pending_kept)
  moreover have "evolves find_attempt attempt_kept (db_attempts db) (db_attempts db')"
    unfolding 1(4) by (auto intro!: attempts_evolve close_attempt_kept)
  moreover have "evolves find_job job_kept (db_jobs db) (db_jobs db')"
    unfolding 1(4) using inv_none_open [OF inv 1(1,2)]
    by (auto intro!: job_tab.evolves_update job_kept_refl simp: job_kept_def)
  ultimately show ?case by (auto simp: kept_def 1(4))
qed

definition open_row :: "job_row \<Rightarrow> bool" where
  "open_row r = (j_acceptance_phase r = PhaseNone \<and> j_state r \<noteq> JobCompleted)"

lemma interrupt_jobs_kept:
  assumes "\<And>j. j \<in> set (db_jobs db) \<Longrightarrow> j_id j \<in> set ids \<Longrightarrow> open_row j"
    and "ts \<noteq> TaskCompleted"
  shows "kept db (interrupt_jobs now ids ts msg st stop db)" (is "kept db ?db")
proof (rule kept_rows [OF interrupt_jobs_change [OF order_refl]])
  show "evolves find_job job_kept (db_jobs db) (db_jobs ?db)"
    using assms(1)
    by (auto simp: interrupt_jobs_def job_kept_def open_row_def
        intro!: job_tab.evolves_update job_kept_refl)
  show "evolves find_task task_kept (db_tasks db) (db_tasks ?db)"
    by (auto simp: interrupt_jobs_def task_kept_def task_cols_def inflight_task_states_def
        intro!: tasks_evolve)
  show "evolves find_attempt attempt_kept (db_attempts db) (db_attempts ?db)"
    by (auto simp: interrupt_jobs_def intro!: attempts_evolve close_attempt_kept)
qed (use assms(1) in \<open>auto simp: open_row_def\<close>)

lemma incomplete_open:
  assumes inv: "db_inv sha db" and ids: "jid \<in> set (active_ids db) \<union> set (stopped_ids db)"
    and j: "j \<in> set (db_jobs db)" "j_id j = jid"
  shows "open_row j"
proof -
  from ids obtain r where r: "r \<in> set (incomplete_rows db)" "j_id r = jid" "\<not> accepted_row r"
    by (auto simp: active_ids_def stopped_ids_def active_row_def stopped_row_def)
  then have mem: "r \<in> set (db_jobs db)" by (simp add: incomplete_rows_def)
  with inv have "find_job jid (db_jobs db) = Some r"
    using job_tab.select_unique [of "db_jobs db" r] r(2) by (simp add: db_inv_def keys_ok_def)
  then have "j = r" using inv_job_eq [OF inv _ j] by blast
  with r inv_completed(1) [OF inv mem] show ?thesis
    by (cases "j_acceptance_phase r") (auto simp: incomplete_rows_def accepted_row_def open_row_def)
qed

lemma recover_durable_kept:
  assumes inv: "db_inv sha db" and op: "recover_durable now db = Inr db'"
  shows "kept db db'"
  using recover_durable_effect [OF op]
proof (elim exE conjE, goal_cases)
  case (1 db1)
  let ?db2 = "interrupt_jobs now (active_ids db) TaskPending ''interrupted by daemon restart'' JobQueued False db1"
  have keys: "distinct (map j_id (db_jobs db))" using inv by (simp add: db_inv_def keys_ok_def)
  have ids1: "map j_id (db_jobs db1) = map j_id (db_jobs db)"
    by (simp add: 1(2) map_key_update_where)
  have op: "j_acceptance_phase j = PhaseNone \<and> j_state j \<noteq> JobCompleted"
    if "j \<in> set (db_jobs db)" "j_id j \<in> set (active_ids db) \<or> j_id j \<in> set (stopped_ids db)" for j
    using incomplete_open [OF inv, of "j_id j" j] that by (simp add: open_row_def)
  have "evolves find_job job_kept (db_jobs db) (db_jobs db1)"
    unfolding 1(2)
  proof (simp, rule job_tab.evolves_update [OF _ job_kept_refl], simp)
    fix r assume "r \<in> set (db_jobs db)" "j_id r \<in> set (accepted_ids db)"
    moreover from this obtain k where k: "k \<in> set (incomplete_rows db)" "j_id k = j_id r"
      by (auto simp: accepted_ids_def)
    then have "find_job (j_id r) (db_jobs db) = Some k"
      using keys job_tab.select_unique [of "db_jobs db" k] by (simp add: incomplete_rows_def)
    ultimately have "r = k" using inv_job_eq [OF inv] by blast
    with k show "job_kept r (r\<lparr>j_stop_requested := False, j_error := '''', j_updated_at := now\<rparr>)"
      by (auto simp: job_kept_def incomplete_rows_def)
  qed
  then have one: "kept db db1" by (intro kept_jobs_only) (simp_all add: 1(2))
  have two: "kept db1 ?db2"
  proof (rule interrupt_jobs_kept)
    fix j assume "j \<in> set (db_jobs db1)" "j_id j \<in> set (active_ids db)"
    then show "open_row j"
      by (auto simp: 1(2) set_update_where open_row_def op split: if_splits)
  qed simp
  have three: "kept ?db2 db'"
    unfolding 1(3)
  proof (rule interrupt_jobs_kept)
    fix j assume "j \<in> set (db_jobs ?db2)" "j_id j \<in> set (stopped_ids db)"
    then show "open_row j"
      by (auto simp: 1(2) interrupt_jobs_def set_update_where open_row_def op split: if_splits)
  qed simp
  have "kept db ?db2" by (rule kept_trans [OF keys one two])
  then show ?case by (rule kept_trans [OF keys _ three])
qed

text \<open>Staging and the moves along the journal.\<close>

lemma find_replaced_other:
  "d_job_id r \<noteq> jid \<Longrightarrow>
   find_dossier jid (update_where (\<lambda>d. d_job_id d = d_job_id r) (\<lambda>_. r) ds) = find_dossier jid ds"
  by (induction ds) (auto simp: find_dossier_def)

lemma find_staged_other:
  "d_job_id r \<noteq> jid \<Longrightarrow> find_dossier jid (staged r ds) = find_dossier jid ds"
  by (auto simp: staged_def find_replaced_other dossier_tab.select_append find_dossier_def [of _ "[r]"]
      split: option.splits)

lemma stage_kept:
  assumes inv: "db_inv sha db" and job: "find_job jid (db_jobs db) = Some job"
    and none: "j_acceptance_phase job = PhaseNone"
  shows "kept db (db\<lparr>db_dossiers := staged (staged_row now jid v digest content) (db_dossiers db)\<rparr>)"
    (is "kept db ?db")
proof -
  have "graph_kept db ?db"
    using inv_single_none [OF inv job none]
    by (intro graph_kept_local [of "{jid}"]) (auto simp: find_staged_other staged_row_def)
  then show ?thesis
    by (auto simp: kept_def intro!: evolves_refl job_kept_refl task_kept_refl attempt_kept_refl)
qed

lemma stage_dossier_kept:
  assumes inv: "db_inv sha db" and op: "stage_dossier sha now jid v digest content db = Inr db'"
  shows "kept db db'"
  using stage_dossier_effect [OF op]
  by (elim exE conjE) (simp add: stage_kept [OF inv])

lemma prepare_accepted_job_kept:
  assumes inv: "db_inv sha db"
    and op: "prepare_accepted_job sha now jid commit summary intent v digest content db = Inr db'"
  shows "kept db db'"
proof (cases "db' = db")
  case False
  show ?thesis
    using prepare_accepted_job_effect [OF op False]
  proof (elim exE conjE, goal_cases)
    case (1 job i p)
    let ?s = "db\<lparr>db_dossiers := staged (staged_row now jid v digest content) (db_dossiers db)\<rparr>"
    have keys: "distinct (map j_id (db_jobs db))" using inv by (simp add: db_inv_def keys_ok_def)
    have "evolves find_job job_kept (db_jobs ?s) (db_jobs db')"
      using inv_none_open [OF inv 1(1,2)]
      by (auto simp: 1(7) job_kept_def intro!: job_tab.evolves_update job_kept_refl)
    then have "kept ?s db'" by (intro kept_jobs_only) (auto simp: 1(7))
    with stage_kept [OF inv 1(1,2)] show ?case by (rule kept_trans [OF keys])
  qed
qed (simp add: kept_refl)

lemma mark_apply_started_kept:
  assumes inv: "db_inv sha db" and op: "mark_apply_started now jid commit db = Inr db'"
  shows "kept db db'"
proof (cases "db' = db")
  case False
  show ?thesis
    using mark_apply_started_effect [OF op False]
  proof (elim exE conjE, goal_cases)
    case (1 job p)
    have "j_state r \<noteq> JobCompleted" if "r \<in> set (db_jobs db)" "j_acceptance_phase r = PhaseAccepted" for r
      using inv_completed(1) [OF inv that(1)] that(2) by simp
    then have "evolves find_job job_kept (db_jobs db) (db_jobs db')"
      by (auto simp: 1(4) job_kept_def intro!: job_tab.evolves_update job_kept_refl)
    then show ?case by (intro kept_jobs_only) (auto simp: 1(4))
  qed
qed (simp add: kept_refl)

lemma publish_completed_job_kept:
  assumes inv: "db_inv sha db"
    and op: "publish_completed_job sha now jid v digest summary out reason db = Inr db'"
  shows "kept db db'"
proof (cases "db' = db")
  case False
  show ?thesis
    using publish_completed_job_effect [OF op False]
  proof (elim exE conjE, goal_cases)
    case (1 job outcome d es n)
    let ?ds = "update_where (\<lambda>d. d_job_id d = jid \<and> \<not> d_published d \<and> d_sha256 d = digest)
               (\<lambda>d. d\<lparr>d_published := True\<rparr>) (db_dossiers db)"
    have "j_acceptance_phase job \<in> {PhaseAccepted, PhaseApplying}"
      using publish_intent_phase [OF 1(7,8)] by blast
    then have "evolves find_job job_kept (db_jobs db) (db_jobs db')"
      using 1(6) by (auto simp: 1(9) job_kept_def intro!: job_tab.evolves_update job_kept_refl)
    moreover have "graph_kept db db'"
      by (auto simp: graph_kept_def 1(9) dossier_tab.select_update dossier_kept_def)
    ultimately show ?case
      by (auto simp: kept_def 1(9) intro!: evolves_refl task_kept_refl attempt_kept_refl)
  qed
qed (simp add: kept_refl)

end
