(* ===== verification/Yolo_DB_Reachable.thy ===== *)
theory Yolo_DB_Reachable
  imports Yolo_DB_History
begin

text \<open>
  The store as a transition system: one step is one committed transaction, with any clock,
  identifiers and arguments. The interface of a durable system (an invariant every step keeps and
  a history no step undoes) is a locale; the store is its interpretation, and the properties of
  the store rest on it.
\<close>

section \<open>Durable systems\<close>

locale durable_system =
  fixes step :: "'s \<Rightarrow> 's \<Rightarrow> bool"
    and start :: 's
    and inv :: "'s \<Rightarrow> bool"
    and hist :: "'s \<Rightarrow> 's \<Rightarrow> bool"
  assumes start_inv: "inv start"
    and step_inv: "inv s \<Longrightarrow> step s t \<Longrightarrow> inv t"
    and step_hist: "inv s \<Longrightarrow> step s t \<Longrightarrow> hist s t"
    and hist_refl: "hist s s"
    and hist_trans: "inv s \<Longrightarrow> hist s t \<Longrightarrow> hist t u \<Longrightarrow> hist s u"
begin

lemma run_inv: "step\<^sup>*\<^sup>* s t \<Longrightarrow> inv s \<Longrightarrow> inv t"
  by (induction rule: rtranclp_induct) (auto intro: step_inv)

lemma reach_inv: "step\<^sup>*\<^sup>* start t \<Longrightarrow> inv t"
  by (rule run_inv [OF _ start_inv])

lemma run_hist:
  assumes "step\<^sup>*\<^sup>* s t" and "inv s"
  shows "hist s t"
  using assms(1)
proof (induction rule: rtranclp_induct)
  case base
  show ?case by (rule hist_refl)
next
  case (step t u)
  have "inv t" by (rule run_inv [OF step.hyps(1) assms(2)])
  with step show ?case by (blast intro: hist_trans [OF assms(2)] step_hist)
qed

lemma reach_hist: "step\<^sup>*\<^sup>* start s \<Longrightarrow> step\<^sup>*\<^sup>* s t \<Longrightarrow> hist s t"
  using run_hist reach_inv by blast

end

section \<open>The transactions\<close>

inductive db_step :: "(string \<Rightarrow> string) \<Rightarrow> db \<Rightarrow> db \<Rightarrow> bool" for sha where
  step_create_job: "create_job now i repo goal bb bc ib aa db = Inr (j, db') \<Longrightarrow> db_step sha db db'"
| step_add_tasks: "add_tasks now jid ps db = Inr (ts, db') \<Longrightarrow> db_step sha db db'"
| step_update_job: "update_job now jid u db = Inr db' \<Longrightarrow> db_step sha db db'"
| step_update_task: "update_task now tid tu db = Inr db' \<Longrightarrow> db_step sha db db'"
| step_start_attempt:
    "start_attempt now aid jid tid n agent wt br lp db = Inr db' \<Longrightarrow> db_step sha db db'"
| step_finish_attempt: "finish_attempt now aid st rc summary db = Inr db' \<Longrightarrow> db_step sha db db'"
| step_retry: "retry_failed_tasks now jid db = Inr db' \<Longrightarrow> db_step sha db db'"
| step_settle: "settle_inflight now jid tst st summary db = Inr db' \<Longrightarrow> db_step sha db db'"
| step_resume: "prepare_resume_tx now jid db = Inr db' \<Longrightarrow> db_step sha db db'"
| step_recover: "recover_durable now db = Inr db' \<Longrightarrow> db_step sha db db'"
| step_stage: "stage_dossier sha now jid v digest content db = Inr db' \<Longrightarrow> db_step sha db db'"
| step_prepare:
    "prepare_accepted_job sha now jid commit summary intent v digest content db = Inr db' \<Longrightarrow>
     db_step sha db db'"
| step_mark: "mark_apply_started now jid commit db = Inr db' \<Longrightarrow> db_step sha db db'"
| step_publish:
    "publish_completed_job sha now jid v digest summary out reason db = Inr db' \<Longrightarrow>
     db_step sha db db'"
| step_event: "event now jid kind p tido db = Inr (n, db') \<Longrightarrow> db_step sha db db'"

lemmas transaction_inv = create_job_inv add_tasks_inv update_job_inv update_task_inv
  start_attempt_inv finish_attempt_inv retry_failed_tasks_inv settle_inflight_inv
  prepare_resume_tx_inv recover_durable_inv stage_dossier_inv prepare_accepted_job_inv
  mark_apply_started_inv publish_completed_job_inv event_inv

lemmas transaction_kept = create_job_kept add_tasks_kept update_job_kept update_task_kept
  start_attempt_kept finish_attempt_kept retry_failed_tasks_kept settle_inflight_kept
  prepare_resume_tx_kept recover_durable_kept stage_dossier_kept prepare_accepted_job_kept
  mark_apply_started_kept publish_completed_job_kept event_kept

lemma db_step_inv: "db_step sha db db' \<Longrightarrow> db_inv sha db \<Longrightarrow> db_inv sha db'"
  by (induction rule: db_step.induct) (blast dest: transaction_inv)+

lemma db_step_kept: "db_step sha db db' \<Longrightarrow> db_inv sha db \<Longrightarrow> kept db db'"
  by (induction rule: db_step.induct) (blast dest: transaction_kept)+

interpretation store: durable_system "db_step sha" empty_db "db_inv sha" kept for sha
proof
  show "db_inv sha empty_db" by (rule db_inv_empty)
  show "db_inv sha s \<Longrightarrow> db_step sha s t \<Longrightarrow> db_inv sha t" for s t by (rule db_step_inv)
  show "db_inv sha s \<Longrightarrow> db_step sha s t \<Longrightarrow> kept s t" for s t by (rule db_step_kept)
  show "kept s s" for s by (rule kept_refl)
  show "db_inv sha s \<Longrightarrow> kept s t \<Longrightarrow> kept t u \<Longrightarrow> kept s u" for s t u
    by (rule kept_trans) (simp_all add: db_inv_def keys_ok_def)
qed

section \<open>Operations of several transactions\<close>

lemma update_then_event_run: "(db_step sha)\<^sup>*\<^sup>* db (snd (update_then_event now jid u kind db))"
  by (auto simp: update_then_event_def split: sum.splits prod.splits
      intro: step_update_job step_event converse_rtranclp_into_rtranclp)

lemma prepare_resume_run: "(db_step sha)\<^sup>*\<^sup>* db (snd (prepare_resume now jid db))"
  by (auto simp: prepare_resume_def split: sum.splits prod.splits
      intro: step_resume step_event converse_rtranclp_into_rtranclp)

lemma emit_events_run: "(db_step sha)\<^sup>*\<^sup>* db (snd (emit_events now kind ids db))"
  by (induction now kind ids db rule: emit_events.induct)
    (auto split: sum.splits prod.splits intro: step_event converse_rtranclp_into_rtranclp)

lemma then_emit_run:
  "(db_step sha)\<^sup>*\<^sup>* db (snd r) \<Longrightarrow> (db_step sha)\<^sup>*\<^sup>* db (snd (then_emit now kind ids r))"
  by (cases r; cases "fst r") (auto simp: then_emit_def intro: rtranclp_trans emit_events_run)

lemma recover_incomplete_run: "(db_step sha)\<^sup>*\<^sup>* db (snd (recover_incomplete now db))"
proof (cases "incomplete_rows db = [] \<or> (\<exists>e. recover_durable now db = Inl e)")
  case True
  then show ?thesis by (auto simp: recover_incomplete_def)
next
  case False
  then obtain db1 where db1: "recover_durable now db = Inr db1"
    by (cases "recover_durable now db") auto
  have first: "(db_step sha)\<^sup>*\<^sup>* db db1" using db1 by (auto intro: step_recover)
  have "(db_step sha)\<^sup>*\<^sup>* db1 (snd (then_emit now ''job.recovered_stopped'' (stopped_ids db)
      (then_emit now ''job.recovered'' (active_ids db)
        (emit_events now ''job.recovered_acceptance'' (accepted_ids db) db1))))"
    by (intro then_emit_run emit_events_run)
  with first have "(db_step sha)\<^sup>*\<^sup>* db (snd (then_emit now ''job.recovered_stopped'' (stopped_ids db)
      (then_emit now ''job.recovered'' (active_ids db)
        (emit_events now ''job.recovered_acceptance'' (accepted_ids db) db1))))"
    by (rule rtranclp_trans)
  with False db1 show ?thesis
    by (auto simp: recover_incomplete_def split: prod.splits sum.splits)
qed

end
