(* ===== verification/Yolo_DB_Properties.thy ===== *)
theory Yolo_DB_Properties
  imports Yolo_DB_Reachable
begin

text \<open>
  The properties of the durable store, each instantiated on the run of one job from its creation
  to its publication.
\<close>

section \<open>A concrete run\<close>

text \<open>A transaction as a step of a run, and the store after a list of transactions.\<close>

fun after_all :: "(db \<Rightarrow> py_error + db) list \<Rightarrow> db \<Rightarrow> py_error + db" where
  "after_all [] db = Inr db"
| "after_all (f # fs) db = rbind (f db) (after_all fs)"

definition the_db :: "py_error + db \<Rightarrow> db" where
  "the_db r = (case r of Inl e \<Rightarrow> empty_db | Inr d \<Rightarrow> d)"

definition drop_value :: "py_error + 'a \<times> db \<Rightarrow> py_error + db" where
  "drop_value r = rbind r (\<lambda>(x, d). Inr d)"

lemma after_all_run:
  assumes "\<not> isl (after_all fs db)"
    and "\<And>f d d'. f \<in> set fs \<Longrightarrow> f d = Inr d' \<Longrightarrow> db_step sha d d'"
  shows "(db_step sha)\<^sup>*\<^sup>* db (the_db (after_all fs db))"
  using assms
proof (induction fs arbitrary: db)
  case Nil
  then show ?case by (simp add: the_db_def)
next
  case (Cons f fs)
  from Cons.prems(1) obtain d where d: "f db = Inr d" by (cases "f db") auto
  with Cons.prems(2) [of f db d] have "db_step sha db d" by simp
  moreover have "(db_step sha)\<^sup>*\<^sup>* d (the_db (after_all fs d))"
    by (rule Cons.IH) (use Cons.prems d in auto)
  ultimately show ?case using d by (simp add: converse_rtranclp_into_rtranclp)
qed

definition demo_sha :: "string \<Rightarrow> string" where
  "demo_sha content = replicate 64 CHR ''a''"

definition demo_task :: planned_task where
  "demo_task = \<lparr>pt_logical_id = ''build'', pt_title = ''Build'', pt_description = ''Build it'',
     pt_depends_on = [], pt_acceptance = [''it builds''], pt_preferred_agent = None,
     pt_risk = ''low''\<rparr>"

definition demo_start :: "(db \<Rightarrow> py_error + db) list" where
  "demo_start =
    [\<lambda>d. drop_value (create_job 1 ''job-1'' ''/repo'' ''goal'' ''main'' ''c0'' ''yolo/job-1'' True d),
     \<lambda>d. drop_value (add_tasks 1 ''job-1'' [(''task-1'', demo_task)] d),
     update_task 1 ''task-1'' (no_task_update\<lparr>tu_state := Some TaskRunning\<rparr>),
     start_attempt 1 ''att-1'' ''job-1'' ''task-1'' 1 ''agent'' ''wt'' ''br'' ''log'']"

definition demo_finish :: "(db \<Rightarrow> py_error + db) list" where
  "demo_finish =
    [update_task 1 ''task-1'' (no_task_update\<lparr>tu_state := Some TaskReviewing\<rparr>),
     update_task 1 ''task-1'' (no_task_update\<lparr>tu_state := Some TaskIntegrating\<rparr>),
     finish_attempt 1 ''att-1'' ''passed'' (Some 0) ''ok'',
     update_task 1 ''task-1'' (no_task_update\<lparr>tu_state := Some TaskCompleted\<rparr>)]"

definition demo_accept :: "(db \<Rightarrow> py_error + db) list" where
  "demo_accept =
    [prepare_accepted_job demo_sha 1 ''job-1'' ''c1'' ''done'' ''requested'' 1
       (demo_sha ''{}'') ''{}'',
     mark_apply_started 1 ''job-1'' ''c1'']"

definition demo_publish :: "(db \<Rightarrow> py_error + db) list" where
  "demo_publish =
    [publish_completed_job demo_sha 1 ''job-1'' 1 (demo_sha ''{}'') ''done'' ''applied'' '''']"

lemmas demo_defs = demo_start_def demo_finish_def demo_accept_def demo_publish_def

lemma demo_steps:
  "f \<in> set (demo_start @ demo_finish @ demo_accept @ demo_publish) \<Longrightarrow> f d = Inr d' \<Longrightarrow>
   db_step demo_sha d d'"
  by (auto simp: demo_defs drop_value_def rbind_Inr_iff
      intro: step_create_job step_add_tasks step_update_task step_start_attempt
        step_finish_attempt step_prepare step_mark step_publish)

definition demo_db :: "nat \<Rightarrow> db" where
  "demo_db n = the_db (after_all (take n (demo_start @ demo_finish @ demo_accept @ demo_publish)) empty_db)"

lemma demo_runs:
  "\<not> isl (after_all (demo_start @ demo_finish @ demo_accept @ demo_publish) empty_db)"
  by code_simp

lemma after_all_append:
  "after_all (fs @ gs) db = rbind (after_all fs db) (after_all gs)"
  by (induction fs arbitrary: db) (auto simp: rbind_def split: sum.splits)

lemma demo_split:
  "\<exists>d. after_all (take n (demo_start @ demo_finish @ demo_accept @ demo_publish)) empty_db = Inr d \<and>
     \<not> isl (after_all (drop n (demo_start @ demo_finish @ demo_accept @ demo_publish)) d)"
proof -
  let ?fs = "demo_start @ demo_finish @ demo_accept @ demo_publish"
  have "\<not> isl (rbind (after_all (take n ?fs) empty_db) (after_all (drop n ?fs)))"
    using demo_runs unfolding after_all_append [symmetric] append_take_drop_id .
  then show ?thesis by (cases "after_all (take n ?fs) empty_db") auto
qed

lemma demo_reachable: "(db_step demo_sha)\<^sup>*\<^sup>* empty_db (demo_db n)"
  unfolding demo_db_def
  by (rule after_all_run) (use demo_split [of n] demo_steps in \<open>auto dest: in_set_takeD\<close>)

lemma demo_reaches: "m \<le> n \<Longrightarrow> (db_step demo_sha)\<^sup>*\<^sup>* (demo_db m) (demo_db n)"
proof -
  let ?fs = "demo_start @ demo_finish @ demo_accept @ demo_publish"
  assume "m \<le> n"
  then have "take n ?fs = take m ?fs @ take (n - m) (drop m ?fs)"
    by (metis le_add_diff_inverse take_add)
  moreover obtain d where d: "after_all (take m ?fs) empty_db = Inr d" using demo_split by blast
  ultimately have eq: "after_all (take n ?fs) empty_db = after_all (take (n - m) (drop m ?fs)) d"
    by (simp only: after_all_append rbind_simps)
  obtain e where "after_all (take n ?fs) empty_db = Inr e" using demo_split by blast
  then have "(db_step demo_sha)\<^sup>*\<^sup>* d (the_db (after_all (take (n - m) (drop m ?fs)) d))"
    unfolding eq by (intro after_all_run) (auto intro: demo_steps dest!: in_set_takeD in_set_dropD)
  then show ?thesis using d eq by (simp add: demo_db_def the_db_def)
qed

text \<open>The job of the run after acceptance and after publication.\<close>

lemma demo_accepted_job:
  "find_job ''job-1'' (db_jobs (demo_db 9)) = Some (hd (db_jobs (demo_db 9)))"
  "j_acceptance_phase (hd (db_jobs (demo_db 9))) = PhaseAccepted"
  by code_simp+

lemma demo_completed_job:
  "find_job ''job-1'' (db_jobs (demo_db 11)) = Some (hd (db_jobs (demo_db 11)))"
  "j_state (hd (db_jobs (demo_db 11))) = JobCompleted"
  by code_simp+

section \<open>Published dossiers\<close>

lemma get_dossier_eq:
  assumes "db_inv sha db"
  shows "get_dossier jid db = (case find_dossier jid (db_dossiers db) of
     None \<Rightarrow> None | Some d \<Rightarrow> if d_published d then Some d else None)"
proof -
  have "distinct (map d_job_id ds) \<Longrightarrow> List.find (\<lambda>d. d_job_id d = jid \<and> d_published d) ds =
     (case find_dossier jid ds of None \<Rightarrow> None | Some d \<Rightarrow> if d_published d then Some d else None)" for ds
  proof (induction ds)
    case (Cons a ds)
    have "d_job_id a = jid \<Longrightarrow> List.find (\<lambda>d. d_job_id d = jid \<and> d_published d) ds = None"
    proof -
      assume a: "d_job_id a = jid"
      with Cons.prems have "\<forall>d \<in> set ds. d_job_id d \<noteq> jid" by (auto simp: image_iff)
      then show ?thesis by (auto simp: find_None_iff)
    qed
    with Cons show ?case by (auto simp: dossier_tab.select_Cons)
  qed (simp add: find_dossier_def)
  with assms show ?thesis by (simp add: get_dossier_def db_inv_def keys_ok_def)
qed

lemma journaled_dossier:
  assumes inv: "db_inv sha db" and j: "j \<in> set (db_jobs db)" "j_acceptance_phase j \<noteq> PhaseNone"
  shows "\<exists>d. find_dossier (j_id j) (db_dossiers db) = Some d"
proof -
  have "j_id j \<in> d_job_id ` set (db_dossiers db)"
    using inv j by (simp add: db_inv_def journal_ok_def journal_row_def)
  then show ?thesis using dossier_tab.select_None_iff by fastforce
qed

lemma published_dossier:
  assumes inv: "db_inv sha db" and j: "j \<in> set (db_jobs db)" "j_state j = JobCompleted"
  shows "\<exists>d. find_dossier (j_id j) (db_dossiers db) = Some d \<and> d_published d"
proof -
  have phase: "j_acceptance_phase j = PhasePublished" using inv_completed(1) [OF inv j(1)] j(2) by simp
  then obtain d where d: "find_dossier (j_id j) (db_dossiers db) = Some d"
    using journaled_dossier [OF inv j(1)] by auto
  moreover have "journal_row (db_dossiers db) j" using inv j by (simp add: db_inv_def journal_ok_def)
  ultimately show ?thesis using phase by (auto simp: journal_row_def dest: dossier_tab.select_SomeD)
qed

section \<open>Reachable stores\<close>

text \<open>C1: Every store that the transactions can reach, in any order and with any arguments,
  satisfies the whole invariant: keys and references, a valid snapshot of every job, one running
  attempt per task, a journal that fits the phase, dossiers that match their digest, and an
  increasing ledger.\<close>

theorem reachable_store_invariant:
  assumes "(db_step sha)\<^sup>*\<^sup>* empty_db db"
  shows "db_inv sha db"
  using assms by (rule store.reach_inv)

theorem reachable_store_invariant_witness: "db_inv demo_sha (demo_db 4)"
  by (rule reachable_store_invariant [OF demo_reachable])

text \<open>C3: A completed job is final: no run of transactions from a reachable store changes any
  column of its row except the time of the last update, removes it, or changes its published
  dossier.\<close>

theorem completed_job_final:
  assumes "(db_step sha)\<^sup>*\<^sup>* empty_db db" and "(db_step sha)\<^sup>*\<^sup>* db db'"
    and "find_job jid (db_jobs db) = Some j" and "j_state j = JobCompleted"
  shows "\<exists>u d. find_job jid (db_jobs db') = Some (j\<lparr>j_updated_at := u\<rparr>) \<and>
    get_dossier jid db = Some d \<and> get_dossier jid db' = Some d"
proof -
  have inv: "db_inv sha db" by (rule store.reach_inv [OF assms(1)])
  have inv': "db_inv sha db'" by (rule store.run_inv [OF assms(2) inv])
  have kept: "kept db db'" by (rule store.reach_hist [OF assms(1,2)])
  have j: "j \<in> set (db_jobs db)" "j_id j = jid" using assms(3) by (auto dest: job_tab.select_SomeD)
  have "evolves find_job job_kept (db_jobs db) (db_jobs db')" using kept by (simp add: kept_def)
  from evolvesD [OF this assms(3)] obtain j' where
    j': "find_job jid (db_jobs db') = Some j'" "j' = j\<lparr>j_updated_at := j_updated_at j'\<rparr>"
    using assms(4) unfolding job_kept_def by blast
  obtain d where d: "find_dossier jid (db_dossiers db) = Some d" "d_published d"
    using published_dossier [OF inv j(1) assms(4)] j(2) by blast
  have "j_acceptance_phase j \<noteq> PhaseNone" using inv_completed(1) [OF inv j(1)] assms(4) by simp
  with kept d(1) j obtain d' where
    "find_dossier jid (db_dossiers db') = Some d'" "dossier_kept d d'"
    by (auto simp: kept_def graph_kept_def)
  with d(2) have "find_dossier jid (db_dossiers db') = Some d"
    using dossier_kept_published by blast
  with d have "get_dossier jid db = Some d" "get_dossier jid db' = Some d"
    by (simp_all add: get_dossier_eq [OF inv] get_dossier_eq [OF inv'])
  with j' show ?thesis by metis
qed

lemma completed_job_final_witness:
  "\<exists>u d. find_job ''job-1'' (db_jobs (demo_db 11)) =
      Some ((hd (db_jobs (demo_db 11)))\<lparr>j_updated_at := u\<rparr>) \<and>
    get_dossier ''job-1'' (demo_db 11) = Some d \<and> get_dossier ''job-1'' (demo_db 11) = Some d"
  by (rule completed_job_final [OF demo_reachable rtranclp.rtrancl_refl demo_completed_job])

text \<open>C4: Acceptance is never taken back: along every run from a reachable store the phase of a
  job only moves forward, and from the moment it leaves the first phase its commit, the
  source-apply intent, its tasks and its attempts stand still, and its dossier keeps its
  content.\<close>

theorem acceptance_never_undone:
  assumes "(db_step sha)\<^sup>*\<^sup>* empty_db db" and "(db_step sha)\<^sup>*\<^sup>* db db'"
    and "find_job jid (db_jobs db) = Some j" and "j_acceptance_phase j \<noteq> PhaseNone"
  shows "\<exists>j' d d'. find_job jid (db_jobs db') = Some j' \<and>
    j_acceptance_phase j \<le> j_acceptance_phase j' \<and> j_accepted_commit j' = j_accepted_commit j \<and>
    j_source_apply_intent j' = j_source_apply_intent j \<and> j_accepted_commit j \<noteq> '''' \<and>
    filter (\<lambda>t. t_job_id t = jid) (db_tasks db') = filter (\<lambda>t. t_job_id t = jid) (db_tasks db) \<and>
    filter (\<lambda>a. a_job_id a = jid) (db_attempts db') = filter (\<lambda>a. a_job_id a = jid) (db_attempts db) \<and>
    get_staged_dossier jid db = Some d \<and> get_staged_dossier jid db' = Some d' \<and>
    d_content d' = d_content d \<and> d_sha256 d' = d_sha256 d"
proof -
  have inv: "db_inv sha db" by (rule store.reach_inv [OF assms(1)])
  have kept: "kept db db'" by (rule store.reach_hist [OF assms(1,2)])
  have j: "j \<in> set (db_jobs db)" "j_id j = jid" using assms(3) by (auto dest: job_tab.select_SomeD)
  have "evolves find_job job_kept (db_jobs db) (db_jobs db')" using kept by (simp add: kept_def)
  from evolvesD [OF this assms(3)] obtain j' where
    j': "find_job jid (db_jobs db') = Some j'" "job_kept j j'" by blast
  have row: "journal_row (db_dossiers db) j" using inv j by (simp add: db_inv_def journal_ok_def)
  obtain d where d: "find_dossier jid (db_dossiers db) = Some d"
    using journaled_dossier [OF inv j(1) assms(4)] j(2) by blast
  with kept j assms(4) obtain d' where
    "find_dossier jid (db_dossiers db') = Some d'" "dossier_kept d d'"
    by (auto simp: kept_def graph_kept_def)
  moreover have "filter (\<lambda>t. t_job_id t = jid) (db_tasks db') = filter (\<lambda>t. t_job_id t = jid) (db_tasks db)"
    "filter (\<lambda>a. a_job_id a = jid) (db_attempts db') = filter (\<lambda>a. a_job_id a = jid) (db_attempts db)"
    using kept j assms(4) by (auto simp: kept_def graph_kept_def)
  moreover have "j_accepted_commit j \<noteq> ''''" using row assms(4) by (simp add: journal_row_def)
  ultimately show ?thesis
    using j' d assms(4) by (auto simp: job_kept_def dossier_kept_def get_staged_dossier_def)
qed

lemma acceptance_never_undone_witness:
  "\<exists>j' d d'. find_job ''job-1'' (db_jobs (demo_db 11)) = Some j' \<and>
    j_acceptance_phase (hd (db_jobs (demo_db 9))) \<le> j_acceptance_phase j' \<and>
    j_accepted_commit j' = j_accepted_commit (hd (db_jobs (demo_db 9))) \<and>
    j_source_apply_intent j' = j_source_apply_intent (hd (db_jobs (demo_db 9))) \<and>
    j_accepted_commit (hd (db_jobs (demo_db 9))) \<noteq> '''' \<and>
    filter (\<lambda>t. t_job_id t = ''job-1'') (db_tasks (demo_db 11)) =
      filter (\<lambda>t. t_job_id t = ''job-1'') (db_tasks (demo_db 9)) \<and>
    filter (\<lambda>a. a_job_id a = ''job-1'') (db_attempts (demo_db 11)) =
      filter (\<lambda>a. a_job_id a = ''job-1'') (db_attempts (demo_db 9)) \<and>
    get_staged_dossier ''job-1'' (demo_db 9) = Some d \<and> get_staged_dossier ''job-1'' (demo_db 11) = Some d' \<and>
    d_content d' = d_content d \<and> d_sha256 d' = d_sha256 d"
  by (rule acceptance_never_undone [OF demo_reachable demo_reaches demo_accepted_job(1)])
    (simp_all add: demo_accepted_job(2))

text \<open>C5: What a published result rests on: in a reachable store a completed job has a readable
  dossier whose digest matches its content, a non-empty accepted commit, an outcome that fits
  the intent, only completed tasks, and no running attempt.\<close>

theorem completed_job_evidence:
  assumes "(db_step sha)\<^sup>*\<^sup>* empty_db db" and "find_job jid (db_jobs db) = Some j"
    and "j_state j = JobCompleted"
  shows "(\<exists>d. get_dossier jid db = Some d \<and> sha (d_content d) = d_sha256 d \<and> length (d_sha256 d) = 64) \<and>
    j_acceptance_phase j = PhasePublished \<and> j_accepted_commit j \<noteq> '''' \<and>
    j_source_apply_outcome j \<noteq> OutcomeUnset \<and>
    (j_source_apply_outcome j = OutcomeNotRequested \<longleftrightarrow> j_source_apply_intent j = IntentNotRequested) \<and>
    \<not> j_stop_requested j \<and> task_states_of jid db \<subseteq> {TaskCompleted} \<and>
    (\<forall>a \<in> set (db_attempts db). a_job_id a = jid \<longrightarrow> a_state a \<noteq> AttemptRunning)"
proof -
  have inv: "db_inv sha db" by (rule store.reach_inv [OF assms(1)])
  have j: "j \<in> set (db_jobs db)" "j_id j = jid" using assms(2) by (auto dest: job_tab.select_SomeD)
  have phase: "j_acceptance_phase j = PhasePublished" using inv_completed(1) [OF inv j(1)] assms(3) by simp
  have row: "journal_row (db_dossiers db) j" using inv j by (simp add: db_inv_def journal_ok_def)
  obtain d where d: "find_dossier jid (db_dossiers db) = Some d" "d_published d"
    using published_dossier [OF inv j(1) assms(3)] j(2) by blast
  then have "d \<in> set (db_dossiers db)" by (auto dest: dossier_tab.select_SomeD)
  with inv have "digest_matches sha (d_content d) (d_sha256 d)" by (simp add: db_inv_def dossiers_ok_def)
  with d have "\<exists>d. get_dossier jid db = Some d \<and> sha (d_content d) = d_sha256 d \<and> length (d_sha256 d) = 64"
    by (simp add: get_dossier_eq [OF inv] digest_matches_def)
  moreover have "a_state a \<noteq> AttemptRunning" if "a \<in> set (db_attempts db)" "a_job_id a = jid" for a
    using inv_running_attempt [OF inv that(1) _ j(1)] that(2) j(2) phase by auto
  moreover have "task_states_of jid db \<subseteq> {TaskCompleted}"
    using inv_consistent [OF inv j(1)] phase j(2) by (simp add: job_consistent_def snapshot_ok_def)
  ultimately show ?thesis
    using row phase inv_completed(2) [OF inv j(1) assms(3)] by (auto simp: journal_row_def)
qed

lemma completed_job_evidence_witness:
  "(\<exists>d. get_dossier ''job-1'' (demo_db 11) = Some d \<and> demo_sha (d_content d) = d_sha256 d \<and>
      length (d_sha256 d) = 64) \<and>
    j_acceptance_phase (hd (db_jobs (demo_db 11))) = PhasePublished \<and>
    j_accepted_commit (hd (db_jobs (demo_db 11))) \<noteq> '''' \<and>
    j_source_apply_outcome (hd (db_jobs (demo_db 11))) \<noteq> OutcomeUnset \<and>
    (j_source_apply_outcome (hd (db_jobs (demo_db 11))) = OutcomeNotRequested \<longleftrightarrow>
      j_source_apply_intent (hd (db_jobs (demo_db 11))) = IntentNotRequested) \<and>
    \<not> j_stop_requested (hd (db_jobs (demo_db 11))) \<and>
    task_states_of ''job-1'' (demo_db 11) \<subseteq> {TaskCompleted}"
  using completed_job_evidence [OF demo_reachable demo_completed_job] by (elim conjE) (intro conjI)

end
