(* ===== verification/Yolo_Config.thy ===== *)
theory Yolo_Config
  imports Yolo_Util "HOL-Library.Code_Target_Nat"
begin

text \<open>
  The configuration of \<open>src/omarchy_yolo/config.py\<close>: the dataclasses, the readers that accept or
  refuse each kind of value, \<open>load_config\<close> on the parsed TOML document, the consistency checks of
  \<open>Config.__post_init__\<close>, the per-profile network decision and the trust posture. Reading and
  parsing the file and the environment variables that give the two paths are inputs. \<open>render\<close> is
  \<open>str\<close> of a value that is not text, a Boolean or an integer. Error messages keep their constant
  text and the name of the setting.
\<close>

section \<open>TOML values\<close>

datatype toml_float = Finite rat | Infinite bool | NotANumber

datatype toml =
    TBool bool
  | TInt int
  | TFloat toml_float
  | TStr string
  | TList "toml list"
  | TTable "(string \<times> toml) list"
  | TTime string

type_synonym table = "(string \<times> toml) list"

definition t_get :: "table \<Rightarrow> string \<Rightarrow> toml option" where
  "t_get t key = map_of t key"

definition t_get_or :: "table \<Rightarrow> string \<Rightarrow> toml \<Rightarrow> toml" where
  "t_get_or t key dflt = (case map_of t key of None \<Rightarrow> dflt | Some v \<Rightarrow> v)"

fun str_of :: "(toml \<Rightarrow> string) \<Rightarrow> toml \<Rightarrow> string" where
  "str_of render (TStr s) = s"
| "str_of render (TBool b) = (if b then ''True'' else ''False'')"
| "str_of render (TInt i) = int_str i"
| "str_of render v = render v"

text \<open>\<open>int(text)\<close>: white space around, a sign, digits with single underscores between them.\<close>

fun digits_value :: "nat \<Rightarrow> bool \<Rightarrow> string \<Rightarrow> nat option" where
  "digits_value acc after_digit [] = (if after_digit then Some acc else None)"
| "digits_value acc after_digit (c # s) =
     (if is_ascii_digit c then digits_value (acc * 10 + (of_char c - 48)) True s
      else if c = CHR ''_'' \<and> after_digit then digits_value acc False s
      else None)"

definition int_of_text :: "string \<Rightarrow> int option" where
  "int_of_text text =
     (case py_strip text of
        [] \<Rightarrow> None
      | c # s \<Rightarrow>
          if c = CHR ''-'' then map_option (\<lambda>n. - int n) (digits_value 0 False s)
          else if c = CHR ''+'' then map_option int (digits_value 0 False s)
          else map_option int (digits_value 0 False (c # s)))"

definition truncate_rat :: "rat \<Rightarrow> int" where
  "truncate_rat q = (if q < 0 then - \<lfloor>- q\<rfloor> else \<lfloor>q\<rfloor>)"

text \<open>\<open>int(value)\<close> with the class of the exception it raises.\<close>

fun int_of :: "toml \<Rightarrow> py_error + int" where
  "int_of (TBool b) = Inr (if b then 1 else 0)"
| "int_of (TInt i) = Inr i"
| "int_of (TFloat (Finite q)) = Inr (truncate_rat q)"
| "int_of (TFloat (Infinite neg)) = Inl (OverflowError ''cannot convert float infinity to integer'')"
| "int_of (TFloat NotANumber) = Inl (ValueError ''cannot convert float NaN to integer'')"
| "int_of (TStr s) =
     (case int_of_text s of
        None \<Rightarrow> Inl (ValueError ''invalid literal for int()'')
      | Some i \<Rightarrow> Inr i)"
| "int_of v = Inl (OtherError ''TypeError'')"

section \<open>The records\<close>

record engine_config =
  max_parallel :: int
  max_global_workers :: int
  max_attempts :: int
  max_final_cycles :: int
  max_tasks :: int
  agent_timeout_seconds :: int
  gate_timeout_seconds :: int
  planner_agent :: string
  reviewer_agent :: string
  integrator_agent :: string
  worker_agents :: "string list"
  auto_apply :: bool
  cleanup_worktrees :: bool
  execution_profile :: string
  final_review_chunk_bytes :: int
  final_review_max_files :: int
  final_review_allow_binary :: bool

record git_config =
  require_clean_repo :: bool
  branch_prefix :: string
  commit_name :: string
  commit_email :: string
  command_timeout_seconds :: int
  allow_repository_commands :: bool

record gate_config =
  gate_commands :: "string list"
  final_commands :: "string list"

record sandbox_config =
  sb_backend :: string
  sb_network :: bool
  sb_review_network :: "bool option"
  sb_gate_network :: "bool option"
  sb_read_only_home :: bool
  sb_writable_home_paths :: "string list"
  sb_hostile_repo_mode :: bool
  sb_gate_env_allowlist :: "string list"
  sb_agent_env_allowlist :: "string list"

record resource_policy =
  rp_backend :: string
  rp_memory_max_mib :: int
  rp_memory_high_mib :: int
  rp_tasks_max :: int
  rp_cpu_quota_percent :: int
  rp_io_weight :: int

record agent_config =
  ac_enabled :: bool
  ac_command :: "string list"
  ac_review_command :: "string list"
  ac_roles :: "string list"

record config =
  cf_state_dir :: string
  cf_config_path :: string
  cf_engine :: engine_config
  cf_git :: git_config
  cf_gates :: gate_config
  cf_sandbox :: sandbox_config
  cf_resources :: resource_policy
  cf_agents :: "(string \<times> agent_config) list"
  cf_safety_preset :: string

definition network_for :: "sandbox_config \<Rightarrow> string \<Rightarrow> bool" where
  "network_for sb profile =
     (if profile = ''review'' \<and> sb_review_network sb \<noteq> None then the (sb_review_network sb)
      else if profile = ''gate'' then
        (case sb_gate_network sb of
           Some b \<Rightarrow> b
         | None \<Rightarrow> if sb_hostile_repo_mode sb then False else sb_network sb)
      else sb_network sb)"

definition safety_presets :: "string set" where
  "safety_presets = {''trusted-local'', ''hostile-repo'', ''custom''}"

text \<open>\<open>Config.__post_init__\<close>.\<close>

definition preset_violations :: "config \<Rightarrow> string list" where
  "preset_violations c =
     (let sb = cf_sandbox c in
      (if sb_backend sb \<noteq> ''bwrap'' then [''sandbox.backend=bwrap''] else []) @
      (if \<not> sb_hostile_repo_mode sb then [''sandbox.hostile_repo_mode=true''] else []) @
      (if \<not> sb_read_only_home sb then [''sandbox.read_only_home=true''] else []) @
      (if network_for sb ''review'' then [''sandbox.review_network=false''] else []) @
      (if network_for sb ''gate'' then [''sandbox.gate_network=false''] else []) @
      (if allow_repository_commands (cf_git c) then [''git.allow_repository_commands=false''] else []))"

definition post_init :: "config \<Rightarrow> py_error + config" where
  "post_init c =
     (if cf_safety_preset c \<notin> safety_presets
      then Inl (YoloError (''safety preset must be one of '' @
             repr_list [''custom'', ''hostile-repo'', ''trusted-local'']))
      else if sb_hostile_repo_mode (cf_sandbox c) \<and> sb_backend (cf_sandbox c) \<noteq> ''bwrap''
      then Inl (YoloError (''sandbox.hostile_repo_mode requires sandbox.backend='' @ quoted ''bwrap''))
      else if sb_hostile_repo_mode (cf_sandbox c) \<and> allow_repository_commands (cf_git c)
      then Inl (YoloError ''sandbox.hostile_repo_mode requires git.allow_repository_commands=false'')
      else if cf_safety_preset c = ''hostile-repo'' \<and> preset_violations c \<noteq> []
      then Inl (YoloError (''safety preset '' @ quoted ''hostile-repo'' @ '' requires: '' @
                  join_with '', '' (preset_violations c)))
      else Inr c)"

text \<open>The name of the posture; the explanation text is constant per name and left out.\<close>

definition trust_posture :: "config \<Rightarrow> string" where
  "trust_posture c =
     (let sb = cf_sandbox c in
      if sb_backend sb = ''bwrap'' \<and> sb_hostile_repo_mode sb \<and> sb_read_only_home sb \<and>
         \<not> network_for sb ''review'' \<and> \<not> network_for sb ''gate'' \<and>
         \<not> allow_repository_commands (cf_git c)
      then ''hostile-repo''
      else if sb_backend sb \<in> {''native'', ''none''} \<and> \<not> sb_hostile_repo_mode sb \<and>
              allow_repository_commands (cf_git c)
      then ''trusted-local''
      else ''custom'')"

section \<open>Readers\<close>

definition section_of :: "table \<Rightarrow> string \<Rightarrow> table" where
  "section_of data key =
     (case t_get data key of Some (TTable t) \<Rightarrow> t | _ \<Rightarrow> [])"

definition tuple_str :: "(toml \<Rightarrow> string) \<Rightarrow> toml option \<Rightarrow> string list \<Rightarrow> string list" where
  "tuple_str render value dflt =
     (case value of Some (TList vs) \<Rightarrow> map (str_of render) vs | _ \<Rightarrow> dflt)"

definition bounded_int :: "toml \<Rightarrow> int \<Rightarrow> int \<Rightarrow> string \<Rightarrow> py_error + int" where
  "bounded_int value minimum maximum name =
     (case int_of value of
        Inl (OverflowError m) \<Rightarrow> Inl (OverflowError m)
      | Inl _ \<Rightarrow> Inl (YoloError (name @ '' must be an integer''))
      | Inr parsed \<Rightarrow>
          if minimum \<le> parsed \<and> parsed \<le> maximum then Inr parsed
          else Inl (YoloError (name @ '' must be between '' @ int_str minimum @ '' and '' @
                      int_str maximum)))"

definition strict_bool :: "toml option \<Rightarrow> bool \<Rightarrow> string \<Rightarrow> py_error + bool" where
  "strict_bool value dflt name =
     (case value of
        None \<Rightarrow> Inr dflt
      | Some (TBool b) \<Rightarrow> Inr b
      | Some _ \<Rightarrow> Inl (YoloError (name @ '' must be true or false'')))"

definition optional_bool :: "toml option \<Rightarrow> string \<Rightarrow> py_error + bool option" where
  "optional_bool value name =
     (case value of
        None \<Rightarrow> Inr None
      | Some (TBool b) \<Rightarrow> Inr (Some b)
      | Some _ \<Rightarrow> Inl (YoloError (name @ '' must be true or false'')))"

definition word_char :: "char \<Rightarrow> bool" where
  "word_char c \<longleftrightarrow> is_ascii_alpha c \<or> is_ascii_digit c"

text \<open>A full match of \<open>[first][rest]{0,n}\<close>.\<close>

definition matches_name :: "(char \<Rightarrow> bool) \<Rightarrow> (char \<Rightarrow> bool) \<Rightarrow> nat \<Rightarrow> string \<Rightarrow> bool" where
  "matches_name first rest n s =
     (case s of [] \<Rightarrow> False | c # cs \<Rightarrow> first c \<and> list_all rest cs \<and> length cs \<le> n)"

definition safe_agent_name :: "string \<Rightarrow> bool" where
  "safe_agent_name = matches_name word_char (\<lambda>c. word_char c \<or> is_mark c) 63"

definition agent_name :: "(toml \<Rightarrow> string) \<Rightarrow> toml \<Rightarrow> string \<Rightarrow> py_error + string" where
  "agent_name render value field_name =
     (let name = py_strip (str_of render value)
      in if safe_agent_name name then Inr name
         else Inl (YoloError (field_name @ '' must be a safe agent identifier'')))"

definition agent_names ::
  "(toml \<Rightarrow> string) \<Rightarrow> toml option \<Rightarrow> string list \<Rightarrow> string \<Rightarrow> py_error + string list" where
  "agent_names render value dflt field_name =
     (let names = tuple_str render value dflt
      in if names = [] then Inl (YoloError (field_name @ '' must contain at least one agent''))
         else map_result (\<lambda>name. agent_name render (TStr name) field_name) names)"

definition branch_prefix_of :: "(toml \<Rightarrow> string) \<Rightarrow> toml \<Rightarrow> py_error + string" where
  "branch_prefix_of render value =
     (let prefix = py_strip (str_of render value);
          invalid = (\<not> matches_name word_char
                        (\<lambda>c. word_char c \<or> is_mark c \<or> c = CHR ''/'') 63 prefix \<or>
                     contains ''..'' prefix \<or> contains ''//'' prefix \<or>
                     ends_with ''/'' prefix \<or> ends_with ''.'' prefix \<or> ends_with ''.lock'' prefix \<or>
                     contains [CHR 0x40, CHR 0x7B] prefix)
      in if invalid then Inl (YoloError ''git.branch_prefix is not a safe Git ref prefix'')
         else Inr prefix)"

definition identity_value ::
  "(toml \<Rightarrow> string) \<Rightarrow> toml \<Rightarrow> string \<Rightarrow> nat \<Rightarrow> py_error + string" where
  "identity_value render value field_name maximum =
     (let identity = py_strip (str_of render value)
      in if identity = [] then Inl (YoloError (field_name @ '' cannot be empty''))
         else if list_ex (\<lambda>c. c \<in> {CHR 0x00, CHR 0x0D, CHR 0x0A}) identity
         then Inl (YoloError (field_name @ '' cannot contain control line breaks''))
         else if length identity > maximum
         then Inl (YoloError (field_name @ '' cannot exceed '' @ int_str (int maximum) @ '' characters''))
         else Inr identity)"

definition strip_slashes :: "string \<Rightarrow> string" where
  "strip_slashes s =
     rev (dropWhile (\<lambda>c. c = CHR ''/'') (rev (dropWhile (\<lambda>c. c = CHR ''/'') s)))"

definition writable_home_path :: "string \<Rightarrow> py_error + string" where
  "writable_home_path raw =
     (let candidate = strip_slashes (py_strip raw)
      in if candidate = [] \<or> candidate \<in> {''.'', ''..''} \<or> starts_with ''../'' candidate \<or>
            contains ''/../'' candidate
         then Inl (YoloError ''sandbox.writable_home_paths must contain relative paths inside HOME'')
         else Inr candidate)"

definition writable_home_paths ::
  "(toml \<Rightarrow> string) \<Rightarrow> toml option \<Rightarrow> py_error + string list" where
  "writable_home_paths render value =
     map_result writable_home_path (tuple_str render value [])"

definition env_name_matches :: "string \<Rightarrow> bool" where
  "env_name_matches s =
     (case s of
        [] \<Rightarrow> False
      | c # cs \<Rightarrow> (is_ascii_alpha c \<or> c = CHR ''_'') \<and>
                  list_all (\<lambda>c. word_char c \<or> c = CHR ''_'') cs)"

text \<open>The readers that collect distinct names: a loop over the items with the result so far.\<close>

fun collect_distinct ::
  "(string \<Rightarrow> string) \<Rightarrow> (string \<Rightarrow> bool) \<Rightarrow> (string \<Rightarrow> py_error) \<Rightarrow> string list \<Rightarrow> string list \<Rightarrow>
   py_error + string list" where
  "collect_distinct canon ok err [] clean = Inr clean"
| "collect_distinct canon ok err (raw # raws) clean =
     (let name = canon raw
      in if \<not> ok name then Inl (err name)
         else collect_distinct canon ok err raws (if name \<in> set clean then clean else clean @ [name]))"

definition environment_names ::
  "(toml \<Rightarrow> string) \<Rightarrow> toml option \<Rightarrow> string \<Rightarrow> py_error + string list" where
  "environment_names render value field_name =
     collect_distinct py_strip env_name_matches
       (\<lambda>_. YoloError (field_name @ '' contains an invalid environment variable name''))
       (tuple_str render value []) []"

definition role_names :: "string set" where
  "role_names = {''worker'', ''planner'', ''reviewer'', ''integrator''}"

definition agent_roles ::
  "(toml \<Rightarrow> string) \<Rightarrow> toml option \<Rightarrow> string \<Rightarrow> py_error + string list" where
  "agent_roles render value field_name =
     (case value of
        None \<Rightarrow> Inr []
      | Some (TList vs) \<Rightarrow>
          collect_distinct (\<lambda>raw. py_lower (py_strip raw)) (\<lambda>role. role \<in> role_names)
            (\<lambda>role. YoloError (field_name @ '' contains invalid role '' @ py_repr role @
               ''; expected one of '' @ repr_list [''integrator'', ''planner'', ''reviewer'', ''worker'']))
            (map (str_of render) vs) []
      | Some _ \<Rightarrow> Inl (YoloError (field_name @ '' must be an array of role names'')))"

definition safety_preset_of :: "(toml \<Rightarrow> string) \<Rightarrow> table \<Rightarrow> py_error + string" where
  "safety_preset_of render data =
     (let preset = py_lower (py_strip (str_of render
                     (t_get_or (section_of data ''safety'') ''preset'' (TStr ''trusted-local''))))
      in if preset \<in> safety_presets then Inr preset
         else Inl (YoloError (''safety.preset must be one of '' @
                repr_list [''custom'', ''hostile-repo'', ''trusted-local''])))"

section \<open>Loading\<close>

definition read_int :: "table \<Rightarrow> string \<Rightarrow> string \<Rightarrow> int \<Rightarrow> int \<Rightarrow> int \<Rightarrow> py_error + int" where
  "read_int t sect key dflt minimum maximum =
     bounded_int (t_get_or t key (TInt dflt)) minimum maximum (sect @ ''.'' @ key)"

definition read_agent :: "(toml \<Rightarrow> string) \<Rightarrow> table \<Rightarrow> string \<Rightarrow> string \<Rightarrow> py_error + string" where
  "read_agent render t key dflt =
     agent_name render (t_get_or t key (TStr dflt)) (''engine.'' @ key)"

definition read_bool :: "table \<Rightarrow> string \<Rightarrow> string \<Rightarrow> bool \<Rightarrow> py_error + bool" where
  "read_bool t sect key dflt = strict_bool (t_get t key) dflt (sect @ ''.'' @ key)"

definition load_engine :: "(toml \<Rightarrow> string) \<Rightarrow> table \<Rightarrow> py_error + engine_config" where
  "load_engine render data =
     (let e = section_of data ''engine'';
          profile = str_of render (t_get_or e ''execution_profile'' (TStr ''yolo-worktree''))
      in rbind (require (t_get e ''final_review_chunk_files'' = None)
           (YoloError ''engine.final_review_chunk_files was removed in v1.4.2; raw review shards are intentionally file-local'')) (\<lambda>_.
         rbind (require (profile \<in> {''yolo-worktree'', ''danger-yolo''})
           (YoloError (''engine.execution_profile must be '' @ quoted ''yolo-worktree'' @ '' or '' @
              quoted ''danger-yolo''))) (\<lambda>_.
         rbind (read_int e ''engine'' ''max_parallel'' 4 1 64) (\<lambda>parallel.
         rbind (read_int e ''engine'' ''max_global_workers'' 4 1 128) (\<lambda>workers.
         rbind (read_int e ''engine'' ''max_attempts'' 3 1 20) (\<lambda>attempts.
         rbind (read_int e ''engine'' ''max_final_cycles'' 2 0 20) (\<lambda>cycles.
         rbind (read_int e ''engine'' ''max_tasks'' 12 1 256) (\<lambda>tasks.
         rbind (read_int e ''engine'' ''agent_timeout_seconds'' 3600 1 86400) (\<lambda>agent_timeout.
         rbind (read_int e ''engine'' ''gate_timeout_seconds'' 1800 1 86400) (\<lambda>gate_timeout.
         rbind (read_agent render e ''planner_agent'' ''codex'') (\<lambda>planner.
         rbind (read_agent render e ''reviewer_agent'' ''claude'') (\<lambda>reviewer.
         rbind (read_agent render e ''integrator_agent'' ''codex'') (\<lambda>integrator.
         rbind (agent_names render (t_get e ''worker_agents'') [''codex'', ''claude'', ''opencode'']
                  ''engine.worker_agents'') (\<lambda>worker_names.
         rbind (read_bool e ''engine'' ''auto_apply'' False) (\<lambda>apply.
         rbind (read_bool e ''engine'' ''cleanup_worktrees'' True) (\<lambda>cleanup.
         rbind (read_int e ''engine'' ''final_review_chunk_bytes'' 60000 8000 120000) (\<lambda>chunk_bytes.
         rbind (read_int e ''engine'' ''final_review_max_files'' 512 1 4096) (\<lambda>files.
         rbind (read_bool e ''engine'' ''final_review_allow_binary'' False) (\<lambda>binary.
           Inr \<lparr>max_parallel = parallel, max_global_workers = workers, max_attempts = attempts,
             max_final_cycles = cycles, max_tasks = tasks, agent_timeout_seconds = agent_timeout,
             gate_timeout_seconds = gate_timeout, planner_agent = planner, reviewer_agent = reviewer,
             integrator_agent = integrator, worker_agents = worker_names, auto_apply = apply,
             cleanup_worktrees = cleanup, execution_profile = profile,
             final_review_chunk_bytes = chunk_bytes, final_review_max_files = files,
             final_review_allow_binary = binary\<rparr>)))))))))))))))))))"

text \<open>
  The settings that contradict the hostile preset. A key that is present must have exactly the
  Boolean the preset stands for.
\<close>

definition preset_conflict :: "(toml \<Rightarrow> string) \<Rightarrow> table \<Rightarrow> string option" where
  "preset_conflict render s =
     (let clash = (\<lambda>key b. t_get s key \<noteq> None \<and> t_get s key \<noteq> Some (TBool b))
      in if t_get s ''backend'' \<noteq> None \<and> str_of render (the (t_get s ''backend'')) \<noteq> ''bwrap''
         then Some ''backend''
         else if clash ''hostile_repo_mode'' True then Some ''hostile_repo_mode''
         else if clash ''read_only_home'' True then Some ''read_only_home''
         else if clash ''review_network'' False then Some ''review_network''
         else if clash ''gate_network'' False then Some ''gate_network''
         else None)"

definition read_network :: "bool \<Rightarrow> table \<Rightarrow> string \<Rightarrow> py_error + bool option" where
  "read_network hostile_preset s key =
     (if hostile_preset \<and> t_get s key = None then Inr (Some False)
      else optional_bool (t_get s key) (''sandbox.'' @ key))"

definition load_sandbox :: "(toml \<Rightarrow> string) \<Rightarrow> table \<Rightarrow> string \<Rightarrow> py_error + sandbox_config" where
  "load_sandbox render data preset =
     (let s = section_of data ''sandbox'';
          hostile_preset = (preset = ''hostile-repo'');
          backend = str_of render (t_get_or s ''backend''
                      (TStr (if hostile_preset then ''bwrap'' else ''native'')))
      in rbind (case (if hostile_preset then preset_conflict render s else None) of
                  None \<Rightarrow> Inr ()
                | Some key \<Rightarrow> Inl (YoloError (''safety.preset='' @ quoted ''hostile-repo'' @ '' conflicts with sandbox.'' @ key))) (\<lambda>_.
         rbind (require (backend \<in> {''native'', ''none'', ''bwrap''})
                  (YoloError (''sandbox.backend must be '' @ quoted ''native'' @ '', '' @ quoted ''none'' @
                     '', or '' @ quoted ''bwrap''))) (\<lambda>_.
         rbind (read_bool s ''sandbox'' ''hostile_repo_mode'' hostile_preset) (\<lambda>hostile.
         rbind (require (\<not> (hostile \<and> backend \<noteq> ''bwrap''))
                  (YoloError (''sandbox.hostile_repo_mode requires sandbox.backend='' @ quoted ''bwrap''))) (\<lambda>_.
         rbind (read_bool s ''sandbox'' ''network'' True) (\<lambda>network.
         rbind (read_network hostile_preset s ''review_network'') (\<lambda>review_network.
         rbind (read_network hostile_preset s ''gate_network'') (\<lambda>gate_network.
         rbind (read_bool s ''sandbox'' ''read_only_home'' hostile_preset) (\<lambda>read_only.
         rbind (writable_home_paths render (t_get s ''writable_home_paths'')) (\<lambda>writable.
         rbind (environment_names render (t_get s ''gate_env_allowlist'') ''sandbox.gate_env_allowlist'') (\<lambda>gate_env.
         rbind (environment_names render (t_get s ''agent_env_allowlist'') ''sandbox.agent_env_allowlist'') (\<lambda>agent_env.
           Inr \<lparr>sb_backend = backend, sb_network = network, sb_review_network = review_network,
             sb_gate_network = gate_network, sb_read_only_home = read_only,
             sb_writable_home_paths = writable, sb_hostile_repo_mode = hostile,
             sb_gate_env_allowlist = gate_env, sb_agent_env_allowlist = agent_env\<rparr>))))))))))))"

definition load_git :: "(toml \<Rightarrow> string) \<Rightarrow> table \<Rightarrow> string \<Rightarrow> bool \<Rightarrow> py_error + git_config" where
  "load_git render data preset hostile =
     (let g = section_of data ''git''
      in rbind (require (\<not> (preset = ''hostile-repo'' \<and>
                             t_get g ''allow_repository_commands'' = Some (TBool True)))
           (YoloError (''safety.preset='' @ quoted ''hostile-repo'' @
              '' conflicts with git.allow_repository_commands=true''))) (\<lambda>_.
         rbind (read_bool g ''git'' ''allow_repository_commands'' (\<not> hostile)) (\<lambda>commands.
         rbind (require (\<not> (hostile \<and> commands))
           (YoloError ''sandbox.hostile_repo_mode requires git.allow_repository_commands=false'')) (\<lambda>_.
         rbind (read_bool g ''git'' ''require_clean_repo'' True) (\<lambda>clean.
         rbind (branch_prefix_of render (t_get_or g ''branch_prefix'' (TStr ''yolo''))) (\<lambda>prefix.
         rbind (identity_value render (t_get_or g ''commit_name'' (TStr ''Omarchy YOLO'')) ''git.commit_name'' 200) (\<lambda>name.
         rbind (identity_value render (t_get_or g ''commit_email'' (TStr ''omarchy-yolo@localhost'')) ''git.commit_email'' 320) (\<lambda>email.
         rbind (read_int g ''git'' ''command_timeout_seconds'' 120 5 900) (\<lambda>timeout.
           Inr \<lparr>require_clean_repo = clean, branch_prefix = prefix, commit_name = name,
             commit_email = email, command_timeout_seconds = timeout,
             allow_repository_commands = commands\<rparr>)))))))))"

definition load_gates :: "(toml \<Rightarrow> string) \<Rightarrow> table \<Rightarrow> gate_config" where
  "load_gates render data =
     (let g = section_of data ''gates''
      in \<lparr>gate_commands = tuple_str render (t_get g ''commands'') [],
          final_commands = tuple_str render (t_get g ''final_commands'') []\<rparr>)"

definition load_resources :: "(toml \<Rightarrow> string) \<Rightarrow> table \<Rightarrow> py_error + resource_policy" where
  "load_resources render data =
     (let r = section_of data ''resources'';
          backend = str_of render (t_get_or r ''backend'' (TStr ''none''))
      in rbind (require (backend \<in> {''none'', ''systemd''})
           (YoloError (''resources.backend must be '' @ quoted ''none'' @ '' or '' @ quoted ''systemd''))) (\<lambda>_.
         rbind (read_int r ''resources'' ''memory_high_mib'' 0 0 1048576) (\<lambda>high.
         rbind (read_int r ''resources'' ''memory_max_mib'' 0 0 1048576) (\<lambda>most.
         rbind (require (\<not> (high \<noteq> 0 \<and> most \<noteq> 0 \<and> high > most))
           (YoloError ''resources.memory_high_mib cannot exceed resources.memory_max_mib'')) (\<lambda>_.
         rbind (read_int r ''resources'' ''tasks_max'' 0 0 1000000) (\<lambda>tasks.
         rbind (read_int r ''resources'' ''cpu_quota_percent'' 0 0 10000) (\<lambda>cpu.
         rbind (read_int r ''resources'' ''io_weight'' 0 0 10000) (\<lambda>io.
           Inr \<lparr>rp_backend = backend, rp_memory_max_mib = most, rp_memory_high_mib = high,
             rp_tasks_max = tasks, rp_cpu_quota_percent = cpu, rp_io_weight = io\<rparr>))))))))"

definition default_agent_commands :: "(string \<times> string list) list" where
  "default_agent_commands =
     [(''codex'', [''codex'', ''exec'', ''--full-auto'', ''--sandbox'', ''workspace-write'']),
      (''claude'', [''claude'', ''-p'', ''--dangerously-skip-permissions'', ''--output-format'', ''json'']),
      (''opencode'', [''opencode'', ''run'', ''--format'', ''json'', ''--auto'']),
      (''gemini'', [''gemini'', ''-p''])]"

definition load_agent ::
  "(toml \<Rightarrow> string) \<Rightarrow> string \<Rightarrow> table \<Rightarrow> bool \<Rightarrow> string list \<Rightarrow> py_error + string \<times> agent_config" where
  "load_agent render name raw enabled_default command =
     rbind (strict_bool (t_get raw ''enabled'') enabled_default (''agents.'' @ name @ ''.enabled'')) (\<lambda>enabled.
     rbind (agent_roles render (t_get raw ''roles'') (''agents.'' @ name @ ''.roles'')) (\<lambda>roles.
       Inr (name, \<lparr>ac_enabled = enabled,
                   ac_command = tuple_str render (t_get raw ''command'') command,
                   ac_review_command = tuple_str render (t_get raw ''review_command'') [],
                   ac_roles = roles\<rparr>)))"

text \<open>The loop over the section: the agents the user adds to the built-in ones.\<close>

fun add_agents ::
  "(toml \<Rightarrow> string) \<Rightarrow> table \<Rightarrow> (string \<times> agent_config) list \<Rightarrow>
   py_error + (string \<times> agent_config) list" where
  "add_agents render [] agents = Inr agents"
| "add_agents render ((name, raw) # rest) agents =
     rbind (agent_name render (TStr name) (''agents.'' @ name)) (\<lambda>safe_name.
       case raw of
         TTable t \<Rightarrow>
           if safe_name \<in> fst ` set agents then add_agents render rest agents
           else rbind (load_agent render safe_name t True []) (\<lambda>entry.
                  add_agents render rest (agents @ [entry]))
       | _ \<Rightarrow> add_agents render rest agents)"

definition load_agents :: "(toml \<Rightarrow> string) \<Rightarrow> table \<Rightarrow> py_error + (string \<times> agent_config) list" where
  "load_agents render data =
     (let sect = section_of data ''agents''
      in rbind (map_result (\<lambda>(name, command).
                  load_agent render name (section_of sect name) (name \<noteq> ''gemini'') command)
                  default_agent_commands) (\<lambda>agents.
           add_agents render sect agents))"

definition load_config ::
  "(toml \<Rightarrow> string) \<Rightarrow> string \<Rightarrow> string \<Rightarrow> table \<Rightarrow> py_error + config" where
  "load_config render config_path state_dir data =
     rbind (safety_preset_of render data) (\<lambda>preset.
     rbind (load_engine render data) (\<lambda>engine.
     rbind (load_sandbox render data preset) (\<lambda>sandbox.
     rbind (load_git render data preset (sb_hostile_repo_mode sandbox)) (\<lambda>git.
     rbind (load_resources render data) (\<lambda>resources.
     rbind (load_agents render data) (\<lambda>agents.
       post_init \<lparr>cf_state_dir = state_dir, cf_config_path = config_path, cf_engine = engine,
         cf_git = git, cf_gates = load_gates render data, cf_sandbox = sandbox,
         cf_resources = resources, cf_agents = agents, cf_safety_preset = preset\<rparr>))))))"

section \<open>What a loaded configuration satisfies\<close>

lemma bounded_int_Inr:
  "bounded_int v lo hi name = Inr n \<Longrightarrow> lo \<le> n \<and> n \<le> hi"
  by (auto simp: bounded_int_def split: sum.splits py_error.splits if_splits)

lemma read_int_Inr: "read_int t sect key d lo hi = Inr n \<Longrightarrow> lo \<le> n \<and> n \<le> hi"
  unfolding read_int_def by (rule bounded_int_Inr)

lemma agent_name_Inr: "agent_name render v f = Inr name \<Longrightarrow> safe_agent_name name"
  by (auto simp: agent_name_def Let_def split: if_splits)

lemma agent_names_Inr:
  assumes "agent_names render v d f = Inr names"
  shows "names \<noteq> [] \<and> list_all safe_agent_name names"
proof -
  from assms have "tuple_str render v d \<noteq> []"
    and m: "map_result (\<lambda>name. agent_name render (TStr name) f) (tuple_str render v d) = Inr names"
    by (auto simp: agent_names_def Let_def split: if_splits)
  then show ?thesis
    using map_result_length [OF m] map_result_all [OF m, of safe_agent_name] agent_name_Inr
    by (auto simp: list_all_iff)
qed

definition engine_ok :: "engine_config \<Rightarrow> bool" where
  "engine_ok e \<longleftrightarrow>
     max_parallel e \<in> {1..64} \<and> max_global_workers e \<in> {1..128} \<and> max_attempts e \<in> {1..20} \<and>
     max_final_cycles e \<in> {0..20} \<and> max_tasks e \<in> {1..256} \<and>
     agent_timeout_seconds e \<in> {1..86400} \<and> gate_timeout_seconds e \<in> {1..86400} \<and>
     final_review_chunk_bytes e \<in> {8000..120000} \<and> final_review_max_files e \<in> {1..4096} \<and>
     list_all safe_agent_name [planner_agent e, reviewer_agent e, integrator_agent e] \<and>
     worker_agents e \<noteq> [] \<and> list_all safe_agent_name (worker_agents e) \<and>
     execution_profile e \<in> {''yolo-worktree'', ''danger-yolo''}"

lemma load_engine_ok:
  assumes "load_engine render data = Inr e"
  shows "engine_ok e"
  using assms unfolding load_engine_def Let_def rbind_Inr_iff require_Inr_iff
  by (elim exE conjE, goal_cases)
    (auto simp: engine_ok_def read_agent_def
      dest!: read_int_Inr agent_name_Inr agent_names_Inr)

lemma post_init_Inr:
  "post_init c = Inr c' \<Longrightarrow> c' = c \<and>
     (cf_safety_preset c = ''hostile-repo'' \<longrightarrow> preset_violations c = [])"
  by (auto simp: post_init_def split: if_splits)

lemma no_violation_posture: "preset_violations c = [] \<Longrightarrow> trust_posture c = ''hostile-repo''"
  by (auto simp: preset_violations_def trust_posture_def Let_def split: if_splits)

lemma load_config_Inr:
  assumes "load_config render path dir data = Inr c"
  shows "safety_preset_of render data = Inr (cf_safety_preset c) \<and> engine_ok (cf_engine c) \<and>
     (cf_safety_preset c = ''hostile-repo'' \<longrightarrow> preset_violations c = []) \<and>
     (\<exists>sb preset. load_sandbox render data preset = Inr sb \<and> cf_sandbox c = sb)"
  using assms unfolding load_config_def rbind_Inr_iff
  by (elim exE conjE) (drule post_init_Inr, auto intro: load_engine_ok)

section \<open>Properties\<close>

text \<open>
  C23: A configuration file that selects the hostile-repository preset yields a configuration
  whose trust posture is hostile-repository (isolated backend, hidden home, review and gate
  network off, repository commands neutralised), or is refused: no other setting weakens it.
\<close>

theorem hostile_preset_enforced:
  assumes "load_config render path dir data = Inr c"
    and "safety_preset_of render data = Inr ''hostile-repo''"
  shows "trust_posture c = ''hostile-repo'' \<and> cf_safety_preset c = ''hostile-repo''"
  using load_config_Inr [OF assms(1)] assms(2) no_violation_posture by auto

definition demo_hostile :: table where
  "demo_hostile = [(''safety'', TTable [(''preset'', TStr ''Hostile-Repo'')]),
                   (''engine'', TTable [(''max_parallel'', TStr '' 8 '')])]"

lemma hostile_preset_enforced_witness:
  "\<exists>c. load_config (\<lambda>_. ''?'') ''/c'' ''/s'' demo_hostile = Inr c \<and> trust_posture c = ''hostile-repo''"
proof -
  have "\<not> isl (load_config (\<lambda>_. ''?'') ''/c'' ''/s'' demo_hostile)" by code_simp
  then obtain c where c: "load_config (\<lambda>_. ''?'') ''/c'' ''/s'' demo_hostile = Inr c"
    by (cases "load_config (\<lambda>_. ''?'') ''/c'' ''/s'' demo_hostile") auto
  have "safety_preset_of (\<lambda>_. ''?'') demo_hostile = Inr ''hostile-repo''" by code_simp
  from hostile_preset_enforced [OF c this] c show ?thesis by blast
qed

text \<open>
  Every engine setting of a loaded configuration lies in its documented range, at least one
  worker agent is configured, and every agent named for a role has a safe identifier.
\<close>

theorem loaded_engine_bounds:
  assumes "load_config render path dir data = Inr c"
  shows "engine_ok (cf_engine c)"
  using load_config_Inr [OF assms] by blast

lemma loaded_engine_bounds_witness:
  "\<exists>c. load_config (\<lambda>_. ''?'') ''/c'' ''/s'' [] = Inr c \<and> engine_ok (cf_engine c)"
proof -
  have "\<not> isl (load_config (\<lambda>_. ''?'') ''/c'' ''/s'' [])" by code_simp
  then obtain c where c: "load_config (\<lambda>_. ''?'') ''/c'' ''/s'' [] = Inr c"
    by (cases "load_config (\<lambda>_. ''?'') ''/c'' ''/s'' []") auto
  from loaded_engine_bounds [OF c] c show ?thesis by blast
qed

end
