(* ===== verification/Yolo_Sandbox.thy ===== *)
theory Yolo_Sandbox
  imports Yolo_Config
begin

text \<open>
  The execution envelopes: \<open>src/omarchy_yolo/sandbox.py\<close> (the bubblewrap command line and the
  filtered environment) and \<open>src/omarchy_yolo/resources.py\<close> (the systemd scope). An absolute path
  is the list of its parts. The file system and the process environment are a record of inputs:
  where an executable is found, what a path resolves to, which paths exist.
\<close>

section \<open>Paths and the host\<close>

type_synonym path = "string list"

definition path_str :: "path \<Rightarrow> string" where
  "path_str p = CHR ''/'' # join_with ''/'' p"

text \<open>\<open>p.relative_to(anchor)\<close>: the remaining parts, or \<^term>\<open>None\<close> for \<open>ValueError\<close>.\<close>

definition relative_to :: "path \<Rightarrow> path \<Rightarrow> path option" where
  "relative_to anchor p = (if starts_with anchor p then Some (drop (length anchor) p) else None)"

fun split_slash :: "string \<Rightarrow> string \<Rightarrow> path" where
  "split_slash acc [] = [rev acc]"
| "split_slash acc (c # s) =
     (if c = CHR ''/'' then rev acc # split_slash [] s else split_slash (c # acc) s)"

text \<open>\<open>home / relative\<close>: empty parts and single dots vanish, double dots stay.\<close>

definition path_parts :: "string \<Rightarrow> path" where
  "path_parts s = filter (\<lambda>p. p \<noteq> [] \<and> p \<noteq> ''.'') (split_slash [] s)"

record host =
  h_which :: "string \<Rightarrow> string option"
  h_resolve :: "path \<Rightarrow> path"
  h_exists :: "path \<Rightarrow> bool"
  h_is_dir :: "path \<Rightarrow> bool"
  h_home :: path
  h_runtime :: path
  h_environ :: "(string \<times> string) list"

definition known_profile :: "string \<Rightarrow> bool" where
  "known_profile p = (p \<in> {''review'', ''gate'', ''yolo-worktree'', ''danger-yolo''})"

section \<open>Building the command line\<close>

text \<open>
  \<open>--dir\<close> for every directory on the way from \<open>base\<close> down the given parts that was not created
  before; the state is the command so far and the created paths.
\<close>

fun dir_chain :: "path \<Rightarrow> path \<Rightarrow> string list \<times> path list \<Rightarrow> string list \<times> path list" where
  "dir_chain base [] st = st"
| "dir_chain base (part # parts) (wrapped, created) =
     (let candidate = base @ [part]
      in dir_chain candidate parts
           (if candidate \<in> set created then (wrapped, created)
            else (wrapped @ [''--dir'', path_str candidate], candidate # created)))"

fun mask_dirs :: "path \<Rightarrow> path list \<Rightarrow> string list \<times> path list \<Rightarrow> string list \<times> path list" where
  "mask_dirs cwd [] st = st"
| "mask_dirs cwd (anchor # roots) st =
     (case relative_to anchor cwd of
        None \<Rightarrow> mask_dirs cwd roots st
      | Some parts \<Rightarrow> mask_dirs cwd roots (dir_chain anchor parts st))"

definition escape_error :: "string \<Rightarrow> py_error" where
  "escape_error relative = YoloError (''sandbox writable path escapes HOME: '' @ relative)"

text \<open>The exceptions to the hidden home in hostile mode.\<close>

fun home_exceptions ::
  "host \<Rightarrow> path \<Rightarrow> bool \<Rightarrow> string list \<Rightarrow> string list \<times> path list \<Rightarrow>
   py_error + string list \<times> path list" where
  "home_exceptions h home review_mode [] st = Inr st"
| "home_exceptions h home review_mode (relative # rest) st =
     (let candidate = h_resolve h (home @ path_parts relative)
      in case relative_to home candidate of
           None \<Rightarrow> Inl (escape_error relative)
         | Some parts \<Rightarrow>
             if \<not> h_exists h candidate then home_exceptions h home review_mode rest st
             else if \<not> h_is_dir h candidate
             then Inl (YoloError (''hostile repository HOME exceptions must be directories: '' @ relative))
             else
               let (wrapped, created) = dir_chain home parts st
               in home_exceptions h home review_mode rest
                    (wrapped @ [if review_mode then ''--ro-bind'' else ''--bind'',
                                path_str candidate, path_str candidate], created))"

text \<open>The writable paths of the home directory in the modes that show it.\<close>

fun home_binds :: "host \<Rightarrow> path \<Rightarrow> string list \<Rightarrow> string list \<Rightarrow> py_error + string list" where
  "home_binds h home [] wrapped = Inr wrapped"
| "home_binds h home (relative # rest) wrapped =
     (let candidate = h_resolve h (home @ path_parts relative)
      in case relative_to home candidate of
           None \<Rightarrow> Inl (escape_error relative)
         | Some _ \<Rightarrow>
             home_binds h home rest
               (if h_exists h candidate
                then wrapped @ [''--bind'', path_str candidate, path_str candidate] else wrapped))"

text \<open>The masks, directories and exceptions of hostile mode.\<close>

definition hostile_part ::
  "host \<Rightarrow> sandbox_config \<Rightarrow> path \<Rightarrow> path \<Rightarrow> string \<Rightarrow> string list \<Rightarrow> py_error + string list" where
  "hostile_part h sb home cwd profile wrapped =
     (let mask_home = h_exists h home;
          mask_runtime = (h_exists h (h_runtime h) \<and> h_runtime h \<noteq> home \<and>
                          relative_to home (h_runtime h) = None);
          wrapped = wrapped @
            (if mask_home then [''--tmpfs'', path_str home] else []) @
            (if mask_runtime then [''--tmpfs'', path_str (h_runtime h)] else []);
          roots = (if mask_home then [home] else []) @ (if mask_runtime then [h_runtime h] else []);
          st = mask_dirs cwd roots (wrapped, [])
      in if mask_home \<and> profile \<noteq> ''gate''
         then rbind (home_exceptions h home (profile = ''review'') (sb_writable_home_paths sb) st)
                (\<lambda>(wrapped, _). Inr wrapped)
         else Inr (fst st))"

definition base_options :: "string \<Rightarrow> bool \<Rightarrow> string list" where
  "base_options executable hostile =
     [executable, ''--die-with-parent'', ''--new-session'', ''--unshare-pid'', ''--proc'', ''/proc''] @
     (if hostile then [''--unshare-ipc'', ''--unshare-uts'', ''--dev'', ''/dev'']
      else [''--dev-bind'', ''/dev'', ''/dev'']) @
     [''--ro-bind'', ''/'', ''/'', ''--tmpfs'', ''/tmp'']"

definition bwrap_options ::
  "host \<Rightarrow> sandbox_config \<Rightarrow> string \<Rightarrow> path \<Rightarrow> string \<Rightarrow> py_error + string list" where
  "bwrap_options h sb executable cwd_path profile =
     (let home = h_resolve h (h_home h);
          cwd = h_resolve h cwd_path;
          hostile = sb_hostile_repo_mode sb;
          cwd_bind = (if profile = ''review'' then ''--ro-bind'' else ''--bind'')
      in rbind (if hostile then hostile_part h sb home cwd profile (base_options executable hostile)
                else Inr (base_options executable hostile)) (\<lambda>wrapped.
         let wrapped = wrapped @ [cwd_bind, path_str cwd, path_str cwd, ''--chdir'', path_str cwd]
         in rbind
              (if h_exists h home \<and> \<not> hostile \<and> profile \<noteq> ''review'' \<and> profile \<noteq> ''gate'' then
                 (if \<not> sb_read_only_home sb
                  then Inr (wrapped @ [''--bind'', path_str home, path_str home])
                  else home_binds h home (sb_writable_home_paths sb) wrapped)
               else Inr wrapped) (\<lambda>wrapped.
              Inr (wrapped @ (if \<not> network_for sb profile then [''--unshare-net''] else [])))))"

text \<open>\<open>Sandbox.wrap\<close>.\<close>

definition sandbox_wrap ::
  "host \<Rightarrow> sandbox_config \<Rightarrow> string list \<Rightarrow> path \<Rightarrow> string \<Rightarrow> py_error + string list" where
  "sandbox_wrap h sb argv cwd profile =
     (if \<not> known_profile profile
      then Inl (YoloError (''unknown sandbox execution profile: '' @ profile))
      else if sb_backend sb \<in> {''native'', ''none''} then
        (if sb_hostile_repo_mode sb
         then Inl (YoloError ''hostile repository mode requires the bwrap sandbox backend'')
         else Inr argv)
      else if sb_backend sb \<noteq> ''bwrap''
      then Inl (YoloError (''unknown sandbox backend: '' @ sb_backend sb))
      else case h_which h ''bwrap'' of
             None \<Rightarrow> Inl (YoloError (''sandbox backend '' @ quoted ''bwrap'' @
                      '' requested but bubblewrap is not installed''))
           | Some executable \<Rightarrow>
               rbind (bwrap_options h sb executable cwd profile) (\<lambda>options.
                 Inr (options @ [''--''] @ argv)))"

definition base_env_names :: "string list" where
  "base_env_names =
     [''AR'', ''CC'', ''COLORTERM'', ''CXX'', ''HOME'', ''LANG'', ''LANGUAGE'', ''LD'', ''LOGNAME'',
      ''MAKEFLAGS'', ''NINJA_STATUS'', ''PATH'', ''PYTHONHOME'', ''PYTHONPATH'', ''RUST_BACKTRACE'',
      ''SHELL'', ''TERM'', ''USER'', ''VIRTUAL_ENV'']"

definition dict_set :: "string \<Rightarrow> string \<Rightarrow> (string \<times> string) list \<Rightarrow> (string \<times> string) list" where
  "dict_set key v d =
     (if key \<in> fst ` set d then map (\<lambda>(k, x). if k = key then (k, v) else (k, x)) d
      else d @ [(key, v)])"

definition sandbox_environment ::
  "host \<Rightarrow> sandbox_config \<Rightarrow> string \<Rightarrow> py_error + (string \<times> string) list" where
  "sandbox_environment h sb profile =
     (if \<not> known_profile profile
      then Inl (YoloError (''unknown sandbox execution profile: '' @ profile))
      else
        let safe_names = base_env_names @
              (if profile = ''gate'' then sb_gate_env_allowlist sb else sb_agent_env_allowlist sb);
            env = (if sb_hostile_repo_mode sb
                   then filter (\<lambda>(key, _). key \<in> set safe_names \<or> starts_with ''LC_'' key) (h_environ h)
                   else h_environ h);
            env = (if ''CI'' \<in> fst ` set env then env else env @ [(''CI'', ''1'')])
        in Inr (dict_set ''OMARCHY_YOLO'' ''1'' env))"

section \<open>Resource scopes\<close>

definition rp_enabled :: "resource_policy \<Rightarrow> bool" where
  "rp_enabled p = (rp_backend p \<noteq> ''none'')"

definition rp_properties :: "resource_policy \<Rightarrow> string list" where
  "rp_properties p =
     (if rp_memory_high_mib p \<noteq> 0 then [''MemoryHigh='' @ int_str (rp_memory_high_mib p) @ ''M''] else []) @
     (if rp_memory_max_mib p \<noteq> 0 then [''MemoryMax='' @ int_str (rp_memory_max_mib p) @ ''M''] else []) @
     (if rp_tasks_max p \<noteq> 0 then [''TasksMax='' @ int_str (rp_tasks_max p)] else []) @
     (if rp_cpu_quota_percent p \<noteq> 0 then [''CPUQuota='' @ int_str (rp_cpu_quota_percent p) @ ''%''] else []) @
     (if rp_io_weight p \<noteq> 0 then [''IOWeight='' @ int_str (rp_io_weight p)] else [])"

definition systemd_run :: "(string \<Rightarrow> string option) \<Rightarrow> resource_policy \<Rightarrow> py_error + string" where
  "systemd_run which p =
     (if rp_backend p \<noteq> ''systemd''
      then Inl (YoloError (''unknown resource-control backend: '' @ rp_backend p))
      else case which ''systemd-run'' of
             None \<Rightarrow> Inl (YoloError (''resources.backend='' @ quoted ''systemd'' @ '' requires systemd-run on PATH''))
           | Some path \<Rightarrow> Inr path)"

definition resource_wrap ::
  "(string \<Rightarrow> string option) \<Rightarrow> resource_policy \<Rightarrow> string list \<Rightarrow> py_error + string list" where
  "resource_wrap which p argv =
     (if \<not> rp_enabled p then Inr argv
      else rbind (systemd_run which p) (\<lambda>executable.
             Inr ([executable, ''--user'', ''--scope'', ''--quiet'', ''--collect''] @
                  concat (map (\<lambda>prop. [''--property'', prop]) (rp_properties p)) @
                  [''--''] @ argv)))"

text \<open>The live check of \<open>yolo doctor\<close>: what the trial run of the scope gave is an input.\<close>

datatype probe_run = ProbeRaised string | ProbeExited int string string

definition probe_argv :: "(string \<Rightarrow> string option) \<Rightarrow> string \<Rightarrow> string list" where
  "probe_argv which executable =
     [executable, ''--user'', ''--scope'', ''--quiet'', ''--collect'', ''--'',
      case which ''true'' of None \<Rightarrow> ''/usr/bin/true'' | Some t \<Rightarrow> if t = [] then ''/usr/bin/true'' else t]"

definition resource_probe ::
  "(string \<Rightarrow> string option) \<Rightarrow> (string list \<Rightarrow> int \<Rightarrow> probe_run) \<Rightarrow> int \<Rightarrow> resource_policy \<Rightarrow> bool \<times> string" where
  "resource_probe which run timeout_seconds p =
     (if \<not> rp_enabled p then (True, ''disabled'')
      else case systemd_run which p of
        Inl (YoloError m) \<Rightarrow> (False, m)
      | Inl _ \<Rightarrow> (False, [])
      | Inr executable \<Rightarrow>
          (case run (probe_argv which executable) (max 1 (min 30 timeout_seconds)) of
             ProbeRaised m \<Rightarrow> (False, ''systemd user-scope probe failed: '' @ m)
           | ProbeExited returncode out err \<Rightarrow>
               if returncode \<noteq> 0
               then let detail = py_strip (if err \<noteq> [] then err else out)
                    in (False, ''systemd user-scope unavailable: '' @
                          (if detail \<noteq> [] then detail else ''rc='' @ int_str returncode))
               else (True, executable)))"

section \<open>What the sandbox command line grants\<close>

text \<open>The sources of the writable mounts of a command line.\<close>

fun writable_mounts :: "string list \<Rightarrow> string list" where
  "writable_mounts (opt # src # rest) =
     (if opt = ''--bind'' then src # writable_mounts (src # rest) else writable_mounts (src # rest))"
| "writable_mounts _ = []"

lemma path_str_not_bind [simp]: "path_str p \<noteq> ''--bind''" "''--bind'' \<noteq> path_str p"
  by (simp_all add: path_str_def)

lemma writable_mounts_Cons:
  "writable_mounts (a # xs) = (if a = ''--bind'' \<and> xs \<noteq> [] then [hd xs] else []) @ writable_mounts xs"
  by (cases xs) simp_all

lemma writable_mounts_append:
  "(xs = [] \<or> last xs \<noteq> ''--bind'') \<Longrightarrow>
   writable_mounts (xs @ ys) = writable_mounts xs @ writable_mounts ys"
proof (induction xs)
  case Nil
  then show ?case by simp
next
  case (Cons a xs)
  show ?case
  proof (cases xs)
    case Nil
    with Cons.prems show ?thesis by (simp add: writable_mounts_Cons)
  next
    case (Cons b xs')
    with Cons.prems Cons.IH show ?thesis by (simp add: writable_mounts_Cons [of a])
  qed
qed

text \<open>A command that ends in a path and mounts exactly the given sources for writing.\<close>

definition mounts :: "string set \<Rightarrow> string list \<Rightarrow> bool" where
  "mounts W xs \<longleftrightarrow> xs \<noteq> [] \<and> last xs \<noteq> ''--bind'' \<and> set (writable_mounts xs) \<subseteq> W"

lemma mounts_append:
  "mounts W xs \<Longrightarrow> mounts W ys \<Longrightarrow> mounts W (xs @ ys)"
  by (auto simp: mounts_def writable_mounts_append)

lemma mounts_quiet:
  "mounts W xs \<Longrightarrow> ''--bind'' \<notin> set ys \<Longrightarrow> mounts W (xs @ ys)"
proof (induction ys arbitrary: xs)
  case Nil
  then show ?case by simp
next
  case (Cons y ys)
  then have "y \<noteq> ''--bind''" by auto
  with Cons.prems have "mounts W (xs @ [y])" by (simp add: mounts_def writable_mounts_append)
  with Cons.IH [of "xs @ [y]"] Cons.prems show ?case by simp
qed

lemma mounts_bind:
  "mounts W xs \<Longrightarrow> p \<in> W \<Longrightarrow> p \<noteq> ''--bind'' \<Longrightarrow> mounts W (xs @ [''--bind'', p, p])"
  by (auto simp: mounts_def writable_mounts_append)

lemma mounts_mono: "mounts W xs \<Longrightarrow> W \<subseteq> W' \<Longrightarrow> mounts W' xs"
  by (auto simp: mounts_def)

lemma dir_chain_mounts: "mounts W (fst st) \<Longrightarrow> mounts W (fst (dir_chain base parts st))"
proof (induction base parts st rule: dir_chain.induct)
  case (1 base st)
  then show ?case by simp
next
  case (2 base part parts wrapped created)
  then show ?case using mounts_quiet [of W wrapped] by (simp add: Let_def)
qed

lemma mask_dirs_mounts: "mounts W (fst st) \<Longrightarrow> mounts W (fst (mask_dirs cwd roots st))"
  by (induction cwd roots st rule: mask_dirs.induct)
    (auto simp: dir_chain_mounts split: option.splits)

text \<open>The directories the settings expose.\<close>

definition exposed :: "host \<Rightarrow> sandbox_config \<Rightarrow> path \<Rightarrow> string set" where
  "exposed h sb home = (\<lambda>rel. path_str (h_resolve h (home @ path_parts rel))) ` set (sb_writable_home_paths sb)"

lemma home_exceptions_mounts:
  "home_exceptions h home review rels st = Inr st' \<Longrightarrow> mounts W (fst st) \<Longrightarrow>
   (\<not> review \<Longrightarrow> (\<lambda>rel. path_str (h_resolve h (home @ path_parts rel))) ` set rels \<subseteq> W) \<Longrightarrow>
   mounts W (fst st')"
proof (induction rels arbitrary: st)
  case Nil
  then show ?case by simp
next
  case (Cons rel rels)
  let ?c = "h_resolve h (home @ path_parts rel)"
  from Cons.prems(1) obtain parts where parts: "relative_to home ?c = Some parts"
    by (auto simp: Let_def split: option.splits)
  show ?case
  proof (cases "h_exists h ?c")
    case False
    with Cons.prems parts Cons.IH [of st] show ?thesis by (auto simp: Let_def)
  next
    case True
    obtain w cr where ch: "dir_chain home parts st = (w, cr)" by (cases "dir_chain home parts st") auto
    with dir_chain_mounts [OF Cons.prems(2), of home parts] have w: "mounts W w" by simp
    let ?w' = "w @ [if review then ''--ro-bind'' else ''--bind'', path_str ?c, path_str ?c]"
    have "mounts W ?w'"
      using mounts_bind [OF w, of "path_str ?c"] mounts_quiet [OF w, of "[''--ro-bind'', path_str ?c, path_str ?c]"]
        Cons.prems(3) by auto
    moreover from Cons.prems(1) parts True ch
    have "home_exceptions h home review rels (?w', cr) = Inr st'"
      by (auto simp: Let_def split: if_splits)
    ultimately show ?thesis using Cons.IH [of "(?w', cr)"] Cons.prems(3) by auto
  qed
qed

lemma base_options_mounts: "executable \<noteq> ''--bind'' \<Longrightarrow> mounts W (base_options executable hostile)"
  by (simp add: mounts_def base_options_def)

text \<open>In hostile mode a command line can write to the worktree and the configured exceptions only.\<close>

lemma hostile_mounts:
  assumes "bwrap_options h sb executable cwd profile = Inr options"
    and "sb_hostile_repo_mode sb" and "executable \<noteq> ''--bind''"
  shows "set (writable_mounts options) \<subseteq>
    (if profile = ''review'' then {} else {path_str (h_resolve h cwd)}) \<union>
    (if profile \<in> {''review'', ''gate''} then {} else exposed h sb (h_resolve h (h_home h)))"
proof -
  let ?home = "h_resolve h (h_home h)" and ?cwd = "h_resolve h cwd"
  let ?W = "(if profile = ''review'' then {} else {path_str ?cwd}) \<union>
    (if profile \<in> {''review'', ''gate''} then {} else exposed h sb ?home)"
  from assms(1,2) obtain wrapped where
    part: "hostile_part h sb ?home ?cwd profile (base_options executable True) = Inr wrapped"
    and options: "options = (wrapped @ [if profile = ''review'' then ''--ro-bind'' else ''--bind'',
        path_str ?cwd, path_str ?cwd, ''--chdir'', path_str ?cwd]) @
        (if \<not> network_for sb profile then [''--unshare-net''] else [])"
    by (auto simp: bwrap_options_def Let_def rbind_Inr_iff split: if_splits)
  have quiet: "mounts ?W (base_options executable True @ ys)" if "''--bind'' \<notin> set ys" for ys
    by (rule mounts_quiet [OF base_options_mounts [OF assms(3)] that])
  have "mounts ?W wrapped"
  proof -
    define st where "st = mask_dirs ?cwd
      ((if h_exists h ?home then [?home] else []) @
       (if h_exists h (h_runtime h) \<and> h_runtime h \<noteq> ?home \<and> relative_to ?home (h_runtime h) = None
        then [h_runtime h] else []))
      (base_options executable True @ (if h_exists h ?home then [''--tmpfs'', path_str ?home] else []) @
       (if h_exists h (h_runtime h) \<and> h_runtime h \<noteq> ?home \<and> relative_to ?home (h_runtime h) = None
        then [''--tmpfs'', path_str (h_runtime h)] else []), [])"
    have st: "mounts ?W (fst st)"
      unfolding st_def by (rule mask_dirs_mounts, unfold fst_conv, rule quiet) auto
    show ?thesis
    proof (cases "h_exists h ?home \<and> profile \<noteq> ''gate''")
      case True
      with part obtain st' where "home_exceptions h ?home (profile = ''review'') (sb_writable_home_paths sb) st = Inr st'"
        and w: "wrapped = fst st'"
        by (auto simp: hostile_part_def Let_def rbind_Inr_iff st_def)
      note run = this(1)
      have "(\<lambda>rel. path_str (h_resolve h (?home @ path_parts rel))) ` set (sb_writable_home_paths sb) \<subseteq> ?W"
        if "profile \<noteq> ''review''"
        using that True by (auto simp: exposed_def)
      then show ?thesis unfolding w by (intro home_exceptions_mounts [OF run st]) simp
    next
      case False
      with part have "wrapped = fst st" by (auto simp: hostile_part_def Let_def st_def)
      with st show ?thesis by simp
    qed
  qed
  then have "mounts ?W (wrapped @ [if profile = ''review'' then ''--ro-bind'' else ''--bind'',
      path_str ?cwd, path_str ?cwd])"
    using mounts_bind [of ?W wrapped "path_str ?cwd"]
      mounts_quiet [of ?W wrapped "[''--ro-bind'', path_str ?cwd, path_str ?cwd]"] by auto
  then have "mounts ?W ((wrapped @ [if profile = ''review'' then ''--ro-bind'' else ''--bind'',
      path_str ?cwd, path_str ?cwd]) @ ([''--chdir'', path_str ?cwd] @
        (if \<not> network_for sb profile then [''--unshare-net''] else [])))"
    by (rule mounts_quiet) simp
  then show ?thesis unfolding options by (simp add: mounts_def)
qed

section \<open>Properties\<close>


text \<open>
  A host whose paths resolve lexically (no symbolic links), which is what \<open>Path.resolve\<close> does on
  existing paths without links.
\<close>

fun lexical :: "path \<Rightarrow> path \<Rightarrow> path" where
  "lexical acc [] = rev acc"
| "lexical acc (p # ps) = lexical (if p = ''..'' then tl acc else p # acc) ps"

definition demo_host :: host where
  "demo_host = \<lparr>h_which = (\<lambda>name. if name = ''bwrap'' then Some ''/usr/bin/bwrap'' else None),
     h_resolve = lexical [], h_exists = (\<lambda>_. True), h_is_dir = (\<lambda>_. True),
     h_home = [''home'', ''me''], h_runtime = [''run'', ''user'', ''1000''],
     h_environ = [(''PATH'', ''/usr/bin''), (''AWS_SECRET'', ''x'')]\<rparr>"

definition demo_sandbox :: "string list \<Rightarrow> sandbox_config" where
  "demo_sandbox writable = \<lparr>sb_backend = ''bwrap'', sb_network = True, sb_review_network = Some False,
     sb_gate_network = Some False, sb_read_only_home = True, sb_writable_home_paths = writable,
     sb_hostile_repo_mode = True, sb_gate_env_allowlist = [], sb_agent_env_allowlist = []\<rparr>"


text \<open>
  The environment of a wrapped command in hostile-repository mode holds only variables of the
  fixed list, of the profile's own allow list, of the locale, and the two markers of the program.
\<close>

theorem hostile_environment_filtered:
  assumes "sandbox_environment h sb profile = Inr env" and "sb_hostile_repo_mode sb"
    and "(key, v) \<in> set env"
  shows "key \<in> set base_env_names \<or> starts_with ''LC_'' key \<or> key \<in> {''CI'', ''OMARCHY_YOLO''} \<or>
    key \<in> set (if profile = ''gate'' then sb_gate_env_allowlist sb else sb_agent_env_allowlist sb)"
proof -
  have set_keys: "fst ` set (dict_set k x d) \<subseteq> insert k (fst ` set d)" for k x d
    by (auto simp: dict_set_def split: if_splits)
  from assms(3) have "key \<in> fst ` set env" by (metis fst_conv image_eqI)
  with assms(1,2) set_keys show ?thesis
    by (fastforce simp: sandbox_environment_def Let_def split: if_splits)
qed

lemma hostile_environment_filtered_witness:
  "sandbox_environment demo_host (demo_sandbox []) ''gate'' =
     Inr [(''PATH'', ''/usr/bin''), (''CI'', ''1''), (''OMARCHY_YOLO'', ''1'')] \<and>
   ''PATH'' \<in> set base_env_names"
proof -
  have run: "sandbox_environment demo_host (demo_sandbox []) ''gate'' =
     Inr [(''PATH'', ''/usr/bin''), (''CI'', ''1''), (''OMARCHY_YOLO'', ''1'')]" by code_simp
  have "sb_hostile_repo_mode (demo_sandbox [])" by (simp add: demo_sandbox_def)
  from hostile_environment_filtered [OF run this, of "''PATH''" "''/usr/bin''"] run show ?thesis
    by (simp add: starts_with_def demo_sandbox_def)
qed

text \<open>
  The setting of writable home paths is meant to name directories inside the home directory,
  but a path that ends in a double dot passes the check: with \<open>projects/..\<close> the hostile-repository
  sandbox of a worker first hides the home directory and then mounts all of it for writing.
\<close>

theorem home_exception_reopens_home:
  "writable_home_path ''projects/..'' = Inr ''projects/..'' \<and>
   (\<exists>options. sandbox_wrap demo_host (demo_sandbox [''projects/..'']) [''codex''] [''home'', ''me'', ''w'']
      ''yolo-worktree'' = Inr (options @ [''--'', ''codex'']) \<and>
    contains [''--tmpfs'', ''/home/me''] options \<and>
    contains [''--bind'', ''/home/me'', ''/home/me''] options)"
proof -
  let ?r = "sandbox_wrap demo_host (demo_sandbox [''projects/..'']) [''codex''] [''home'', ''me'', ''w'']
      ''yolo-worktree''"
  define out where "out = (case ?r of Inl _ \<Rightarrow> [] | Inr out \<Rightarrow> out)"
  define options where "options = take (length out - 2) out"
  have "?r = Inr (options @ [''--'', ''codex''])" "contains [''--tmpfs'', ''/home/me''] options"
    "contains [''--bind'', ''/home/me'', ''/home/me''] options"
    unfolding options_def out_def by code_simp+
  moreover have "writable_home_path ''projects/..'' = Inr ''projects/..''" by code_simp
  ultimately show ?thesis by blast
qed

end
