(* ===== verification/Yolo_Agents.thy ===== *)
theory Yolo_Agents
  imports Yolo_Sandbox Yolo_Model Yolo_Utf8
begin

text \<open>
  The agents: the capability contract and command lines of a configured CLI agent
  (\<open>src/omarchy_yolo/agents/base.py\<close>) and the registry that chooses one for a role
  (\<open>src/omarchy_yolo/agents/registry.py\<close>). The host answers where executables are; the JSON reader of
  an agent's output (\<open>json.loads\<close>) is an argument.
\<close>

section \<open>Capabilities of a command agent\<close>

definition builtin_review_agents :: "string set" where
  "builtin_review_agents = {''codex'', ''claude'', ''opencode''}"

definition on_path :: "host \<Rightarrow> string list \<Rightarrow> bool" where
  "on_path h command = (command \<noteq> [] \<and> h_which h (hd command) \<noteq> None)"

definition agent_available :: "host \<Rightarrow> agent_config \<Rightarrow> bool" where
  "agent_available h ac =
     (ac_enabled ac \<and> (on_path h (ac_command ac) \<or> on_path h (ac_review_command ac)))"

text \<open>\<open>Path(text).name\<close>.\<close>

definition path_name :: "string \<Rightarrow> string" where
  "path_name s = (case path_parts s of [] \<Rightarrow> '''' | ps \<Rightarrow> last ps)"

definition trusted_builtin :: "host \<Rightarrow> string \<Rightarrow> agent_config \<Rightarrow> bool" where
  "trusted_builtin h name ac =
     (if name \<notin> builtin_review_agents \<or> ac_command ac = [] then False
      else
        let executable = hd (ac_command ac)
        in if path_name executable \<noteq> name then False
           else if executable = name then True
           else case (h_which h executable, h_which h name) of
                  (Some configured, Some expected) \<Rightarrow>
                    h_resolve h (path_parts configured) = h_resolve h (path_parts expected)
                | _ \<Rightarrow> False)"

definition declared_roles :: "host \<Rightarrow> string \<Rightarrow> agent_config \<Rightarrow> py_error + agent_role list" where
  "declared_roles h name ac =
     (if ac_roles ac \<noteq> [] then map_result agent_role_of_string (ac_roles ac)
      else Inr
        ((if ac_command ac \<noteq> [] then [RoleWorker, RoleIntegrator] else []) @
         (if ac_review_command ac \<noteq> [] \<or> trusted_builtin h name ac then [RolePlanner, RoleReviewer]
          else [])))"

definition supports_profile :: "host \<Rightarrow> string \<Rightarrow> agent_config \<Rightarrow> string \<Rightarrow> bool" where
  "supports_profile h name ac profile =
     (if profile \<in> {''yolo-worktree'', ''danger-yolo''} then ac_command ac \<noteq> []
      else if profile \<noteq> ''review'' then False
      else if ac_review_command ac \<noteq> [] then h_which h (hd (ac_review_command ac)) \<noteq> None
      else trusted_builtin h name ac)"

definition supports_role :: "host \<Rightarrow> string \<Rightarrow> agent_config \<Rightarrow> agent_role \<Rightarrow> py_error + bool" where
  "supports_role h name ac role =
     rbind (declared_roles h name ac) (\<lambda>roles.
       Inr (if role \<notin> set roles then False
            else if role \<in> {RolePlanner, RoleReviewer} then supports_profile h name ac ''review''
            else ac_command ac \<noteq> []))"

section \<open>Command lines\<close>

fun strip_option :: "string \<Rightarrow> bool \<Rightarrow> string list \<Rightarrow> string list" where
  "strip_option opt skip_next [] = []"
| "strip_option opt skip_next (token # argv) =
     (if skip_next then strip_option opt False argv
      else if token = opt then strip_option opt True argv
      else if starts_with (opt @ ''='') token then strip_option opt False argv
      else token # strip_option opt False argv)"

definition strip_option_with_value :: "string list \<Rightarrow> string \<Rightarrow> string list" where
  "strip_option_with_value argv opt = strip_option opt False argv"

definition no_review_error :: "string \<Rightarrow> py_error" where
  "no_review_error name =
     YoloError (''agent '' @ quoted name @ '' has no declared read-only review capability; configure agents.<name>.review_command'')"

definition command_for_profile ::
  "host \<Rightarrow> string \<Rightarrow> agent_config \<Rightarrow> string \<Rightarrow> py_error + string list" where
  "command_for_profile h name ac profile =
     (let argv = ac_command ac in
      if profile = ''review'' then
        (if ac_review_command ac \<noteq> [] then Inr (ac_review_command ac)
         else if \<not> trusted_builtin h name ac then Inl (no_review_error name)
         else if name = ''codex'' then
           Inr (strip_option_with_value
                  (filter (\<lambda>token. token \<notin> {''--dangerously-bypass-approvals-and-sandbox'', ''--full-auto''}) argv)
                  ''--sandbox'' @ [''--sandbox'', ''read-only''])
         else if name = ''claude'' then
           Inr (strip_option_with_value
                  (filter (\<lambda>token. token \<noteq> ''--dangerously-skip-permissions'') argv)
                  ''--permission-mode'' @ [''--permission-mode'', ''plan''])
         else if name = ''opencode'' then Inr argv
         else Inl (no_review_error name))
      else if profile = ''yolo-worktree'' then Inr argv
      else if profile \<noteq> ''danger-yolo''
      then Inl (YoloError (''unknown agent execution profile: '' @ profile))
      else if name \<noteq> ''codex'' then Inr argv
      else Inr (strip_option_with_value
                  (filter (\<lambda>token. token \<notin> {''--full-auto'', ''--dangerously-bypass-approvals-and-sandbox''}) argv)
                  ''--sandbox'' @ [''--dangerously-bypass-approvals-and-sandbox'']))"

definition opencode_policy :: string where
  \<open>opencode_policy =
     ''{"permission":{"edit":"deny","bash":"deny","webfetch":"deny","websearch":"deny","external_directory":"deny"}}''\<close>

definition environment_for_profile :: "string \<Rightarrow> string \<Rightarrow> (string \<times> string) list" where
  "environment_for_profile name profile =
     (if profile \<noteq> ''review'' \<or> name \<noteq> ''opencode'' then []
      else [(''OPENCODE_CONFIG_CONTENT'', opencode_policy)])"

definition MAX_PROMPT_ARG_BYTES :: nat where "MAX_PROMPT_ARG_BYTES = 120000"

definition prompt_marker :: code_points where
  "prompt_marker = 10 # cps ''...[prompt truncated by orchestrator]...'' @ [10]"

definition dict_update ::
  "(string \<times> string) list \<Rightarrow> (string \<times> string) list \<Rightarrow> (string \<times> string) list" where
  "dict_update env extra = fold (\<lambda>(k, v) e. dict_set k v e) extra env"

text \<open>
  The process that \<open>run\<close> starts: its command line, environment and prompt, or the refusal.
\<close>

definition agent_process ::
  "host \<Rightarrow> sandbox_config \<Rightarrow> string \<Rightarrow> agent_config \<Rightarrow> code_points \<Rightarrow> path \<Rightarrow> string \<Rightarrow>
   (string \<times> string) list \<Rightarrow> py_error + string list \<times> (string \<times> string) list \<times> code_points" where
  "agent_process h sb name ac prompt cwd profile extra_env =
     (if \<not> agent_available h ac
      then Inl (YoloError (''agent '' @ quoted name @ '' is not installed or disabled''))
      else if \<not> supports_profile h name ac profile
      then Inl (YoloError (''agent '' @ quoted name @ '' does not support execution profile '' @ quoted profile))
      else rbind (command_for_profile h name ac profile) (\<lambda>command.
           rbind (sandbox_wrap h sb command cwd profile) (\<lambda>argv.
           rbind (sandbox_environment h sb profile) (\<lambda>env.
             Inr (argv,
                  dict_update (dict_update env extra_env) (environment_for_profile name profile),
                  truncate_utf8 prompt MAX_PROMPT_ARG_BYTES prompt_marker)))))"

section \<open>Reading the output\<close>

text \<open>\<open>_collect_text\<close>: the stack, at most ten thousand visits, and the texts found.\<close>

definition text_keys :: "string set" where
  "text_keys = {''text'', ''result'', ''content''}"

fun dict_texts :: "payload_dict \<Rightarrow> string list" where
  "dict_texts [] = []"
| "dict_texts ((key, child) # d) =
     (case child of
        PStr s \<Rightarrow> if key \<in> text_keys then s # dict_texts d else dict_texts d
      | _ \<Rightarrow> dict_texts d)"

fun dict_children :: "payload_dict \<Rightarrow> payload list" where
  "dict_children [] = []"
| "dict_children ((key, child) # d) =
     (case child of
        PDict _ \<Rightarrow> child # dict_children d
      | PList _ \<Rightarrow> child # dict_children d
      | _ \<Rightarrow> dict_children d)"

text \<open>The top of the stack is the head of the list, so children are pushed in reverse.\<close>

fun collect_text :: "nat \<Rightarrow> payload list \<Rightarrow> string list \<Rightarrow> string list" where
  "collect_text visits [] found = found"
| "collect_text 0 stack found = found"
| "collect_text (Suc visits) (current # stack) found =
     (case current of
        PDict d \<Rightarrow> collect_text visits (rev (dict_children d) @ stack) (found @ dict_texts d)
      | PList vs \<Rightarrow> collect_text visits (vs @ stack) found
      | _ \<Rightarrow> collect_text visits stack found)"

definition normalize_stdout :: "(string \<Rightarrow> payload option) \<Rightarrow> string \<Rightarrow> string \<Rightarrow> string" where
  "normalize_stdout loads name stdout =
     (let claude = (if name = ''claude''
                    then Option.bind (Option.bind (loads stdout) as_dict)
                           (\<lambda>d. Option.bind (dict_get d ''result'') as_str)
                    else None)
      in case claude of
           Some result \<Rightarrow> result
         | None \<Rightarrow>
             if name = ''opencode'' then
               let texts = concat (map (\<lambda>line.
                             case loads line of None \<Rightarrow> [] | Some v \<Rightarrow> collect_text 10000 [v] [])
                             (py_splitlines stdout))
               in if texts \<noteq> []
                  then map char_of (truncate_utf8 (cps (join_with [CHR 0x0A] texts)) 262144 truncation_marker)
                  else stdout
             else stdout)"

section \<open>The registry\<close>

text \<open>
  The registry holds agents in order. An agent is seen through the calls the registry makes: its
  availability, profiles and (where it has one) \<open>supports_role\<close>.
\<close>

record agent_view =
  av_name :: string
  av_available :: bool
  av_profile :: "string \<Rightarrow> bool"
  av_role :: "(agent_role \<Rightarrow> bool) option"

type_synonym registry = "agent_view list"

definition registry_get :: "registry \<Rightarrow> string \<Rightarrow> py_error + agent_view" where
  "registry_get reg name =
     (case List.find (\<lambda>a. av_name a = name) reg of
        None \<Rightarrow> Inl (YoloError (''unknown agent '' @ quoted name))
      | Some a \<Rightarrow> Inr a)"

definition registry_supports :: "agent_view \<Rightarrow> string option \<Rightarrow> agent_role option \<Rightarrow> bool" where
  "registry_supports a profile role =
     (let profile_ok = (case profile of None \<Rightarrow> True | Some p \<Rightarrow> av_profile a p)
      in case role of
           None \<Rightarrow> profile_ok
         | Some r \<Rightarrow>
             (case av_role a of
                Some supports \<Rightarrow> supports r
              | None \<Rightarrow> av_profile a (if r \<in> {RolePlanner, RoleReviewer} then ''review'' else ''yolo-worktree''))
             \<and> profile_ok)"

definition usable :: "registry \<Rightarrow> string option \<Rightarrow> agent_role option \<Rightarrow> string \<Rightarrow> bool" where
  "usable reg profile role name =
     (case List.find (\<lambda>a. av_name a = name) reg of
        None \<Rightarrow> False
      | Some a \<Rightarrow> av_available a \<and> registry_supports a profile role)"

definition available_agents :: "registry \<Rightarrow> string option \<Rightarrow> agent_role option \<Rightarrow> string list" where
  "available_agents reg profile role =
     map av_name (filter (\<lambda>a. av_available a \<and> registry_supports a profile role) reg)"

definition first_available ::
  "registry \<Rightarrow> string list \<Rightarrow> string option \<Rightarrow> agent_role option \<Rightarrow> py_error + string" where
  "first_available reg preferred profile role =
     (case List.find (usable reg profile role) preferred of
        Some name \<Rightarrow> Inr name
      | None \<Rightarrow>
          (case available_agents reg profile role of
             name # _ \<Rightarrow> Inr name
           | [] \<Rightarrow>
               (case role of
                  Some r \<Rightarrow> Inl (YoloError (''no configured agent satisfies the '' @ agent_role_value r @
                                    '' capability contract''))
                | None \<Rightarrow>
                    if profile = Some ''review''
                    then Inl (YoloError ''no configured agent has a declared read-only review capability'')
                    else Inl (YoloError ''no configured coding agent CLI is available''))))"

definition choose_role ::
  "registry \<Rightarrow> string \<Rightarrow> string list \<Rightarrow> string option \<Rightarrow> agent_role option \<Rightarrow> py_error + string" where
  "choose_role reg configured fallbacks profile role =
     (if usable reg profile role configured then Inr configured
      else first_available reg fallbacks profile role)"

section \<open>Contracts\<close>

record agent_contract =
  ct_roles :: "string list"
  ct_executable :: string
  ct_review_executable :: string
  ct_review_capability :: string

definition command_contract :: "host \<Rightarrow> string \<Rightarrow> agent_config \<Rightarrow> py_error + agent_contract" where
  "command_contract h name ac =
     (let which = (\<lambda>command. if command = [] then None else h_which h (hd command));
          configured = which (ac_command ac);
          review_kind = (if ac_review_command ac \<noteq> [] then ''explicit-command''
                         else if trusted_builtin h name ac then ''verified-builtin'' else ''none'')
      in rbind (declared_roles h name ac) (\<lambda>roles.
         Inr \<lparr>ct_roles = map agent_role_value roles,
              ct_executable = (case configured of None \<Rightarrow> [] | Some e \<Rightarrow> e),
              ct_review_executable =
                (if ac_review_command ac \<noteq> []
                 then (case which (ac_review_command ac) of None \<Rightarrow> [] | Some e \<Rightarrow> e)
                 else if review_kind = ''verified-builtin''
                 then (case configured of None \<Rightarrow> [] | Some e \<Rightarrow> e) else []),
              ct_review_capability = review_kind\<rparr>))"

text \<open>An agent without a contract of its own (a test double) is described by what it supports.\<close>

definition override_contract :: "agent_view \<Rightarrow> agent_contract" where
  "override_contract a =
     \<lparr>ct_roles = map agent_role_value (filter (\<lambda>r. registry_supports a None (Some r)) all_agent_roles),
      ct_executable = [], ct_review_executable = [], ct_review_capability = ''override''\<rparr>"

definition registry_contracts ::
  "(agent_view \<times> (py_error + agent_contract) option) list \<Rightarrow> py_error + (string \<times> agent_contract) list" where
  "registry_contracts agents =
     map_result (\<lambda>(a, contract).
       case contract of
         Some c \<Rightarrow> rbind c (\<lambda>c. Inr (av_name a, c))
       | None \<Rightarrow> Inr (av_name a, override_contract a)) agents"

section \<open>What is chosen and what is run\<close>

lemma find_name_unique:
  "distinct (map av_name reg) \<Longrightarrow> a \<in> set reg \<Longrightarrow> List.find (\<lambda>x. av_name x = av_name a) reg = Some a"
  by (induction reg) auto

lemma available_usable:
  "distinct (map av_name reg) \<Longrightarrow> name \<in> set (available_agents reg profile role) \<longleftrightarrow>
   usable reg profile role name"
proof (cases "List.find (\<lambda>a. av_name a = name) reg")
  case None
  then have "\<forall>a \<in> set reg. av_name a \<noteq> name" by (auto simp: find_None_iff)
  with None show ?thesis by (auto simp: available_agents_def usable_def)
next
  case (Some a)
  then have a: "a \<in> set reg" "av_name a = name" using nth_mem by (fastforce simp: find_Some_iff)+
  assume d: "distinct (map av_name reg)"
  have same: "b = a" if "b \<in> set reg" "av_name b = name" for b
    using find_name_unique [OF d that(1)] that(2) Some by simp
  have "name \<in> av_name ` {b \<in> set reg. Q b} \<longleftrightarrow> Q a" for Q
  proof
    assume "name \<in> av_name ` {b \<in> set reg. Q b}"
    then obtain b where b: "b \<in> set reg" "Q b" "av_name b = name" by blast
    from same [OF b(1,3)] b(2) show "Q a" by simp
  next
    assume "Q a"
    with a show "name \<in> av_name ` {b \<in> set reg. Q b}" by blast
  qed
  with Some show ?thesis by (simp add: available_agents_def usable_def)
qed

lemma first_available_usable:
  assumes "distinct (map av_name reg)" and "first_available reg preferred profile role = Inr name"
  shows "usable reg profile role name"
  using assms available_usable [OF assms(1), of name profile role]
  by (auto simp: first_available_def find_Some_iff split: option.splits list.splits if_splits)

lemma choose_role_usable:
  "distinct (map av_name reg) \<Longrightarrow> choose_role reg configured fallbacks profile role = Inr name \<Longrightarrow>
   usable reg profile role name"
  using first_available_usable by (auto simp: choose_role_def split: if_splits)

lemma choose_role_total:
  assumes "distinct (map av_name reg)" and "usable reg profile role name"
  shows "\<exists>chosen. choose_role reg configured fallbacks profile role = Inr chosen"
proof -
  from assms available_usable have "available_agents reg profile role \<noteq> []"
    by (metis empty_iff list.set(1))
  then show ?thesis
    by (auto simp: choose_role_def first_available_def split: option.splits list.splits)
qed

lemma strip_option_clean:
  "token \<in> set (strip_option opt skip argv) \<Longrightarrow>
   token \<in> set argv \<and> token \<noteq> opt \<and> \<not> starts_with (opt @ ''='') token"
  by (induction opt skip argv rule: strip_option.induct) (auto split: if_splits)

section \<open>Properties\<close>

text \<open>
  In review mode a trusted built-in agent is never started with a flag that lifts its
  restrictions: the Codex command carries exactly the read-only sandbox option, at its end, and
  the Claude command exactly the plan permission mode, whatever options are configured.
\<close>

theorem review_command_restricted:
  assumes "command_for_profile h name ac ''review'' = Inr argv"
    and "ac_review_command ac = []" and "name \<in> {''codex'', ''claude''}"
  shows "\<exists>opt mode rest. argv = rest @ [opt, mode] \<and>
     (opt, mode) = (if name = ''codex'' then (''--sandbox'', ''read-only'')
                    else (''--permission-mode'', ''plan'')) \<and>
     opt \<notin> set rest \<and> list_all (\<lambda>token. \<not> starts_with (opt @ ''='') token) rest \<and>
     (if name = ''codex''
      then ''--full-auto'' \<notin> set rest \<and> ''--dangerously-bypass-approvals-and-sandbox'' \<notin> set rest
      else ''--dangerously-skip-permissions'' \<notin> set rest)"
  using assms
  by (auto simp: command_for_profile_def Let_def strip_option_with_value_def list_all_iff
      split: if_splits dest!: strip_option_clean)

definition demo_codex :: agent_config where
  "demo_codex = \<lparr>ac_enabled = True,
     ac_command = [''codex'', ''exec'', ''--full-auto'', ''--sandbox'', ''workspace-write''],
     ac_review_command = [], ac_roles = []\<rparr>"

lemma review_command_restricted_witness:
  "\<exists>rest. command_for_profile demo_host ''codex'' demo_codex ''review'' = Inr (rest @ [''--sandbox'', ''read-only'']) \<and>
     ''--full-auto'' \<notin> set rest"
proof -
  have run: "command_for_profile demo_host ''codex'' demo_codex ''review'' =
      Inr [''codex'', ''exec'', ''--sandbox'', ''read-only'']" by code_simp
  have "ac_review_command demo_codex = []" by (simp add: demo_codex_def)
  from review_command_restricted [OF run this] run show ?thesis by auto
qed

text \<open>
  Choosing an agent for a role always yields an agent that is configured, installed and
  declares the capability, the configured one when it qualifies; and the choice fails only when
  no agent of the registry qualifies.
\<close>

theorem choose_role_sound_complete:
  assumes "distinct (map av_name reg)"
  shows "(case choose_role reg configured fallbacks profile role of
      Inr name \<Rightarrow> usable reg profile role name \<and> (name = configured \<or> \<not> usable reg profile role configured)
    | Inl e \<Rightarrow> available_agents reg profile role = [])"
proof (cases "choose_role reg configured fallbacks profile role")
  case (Inl e)
  then have none: "\<not> usable reg profile role name" for name
    using choose_role_total [OF assms, of profile role name configured fallbacks] by auto
  show ?thesis
  proof (cases "available_agents reg profile role")
    case (Cons name names)
    then have "name \<in> set (available_agents reg profile role)" by simp
    with available_usable [OF assms] none show ?thesis by blast
  qed (use Inl in simp)
next
  case (Inr name)
  with choose_role_usable [OF assms Inr] show ?thesis
    by (auto simp: choose_role_def split: if_splits)
qed

definition demo_registry :: registry where
  "demo_registry =
     [\<lparr>av_name = ''codex'', av_available = False, av_profile = (\<lambda>_. True), av_role = None\<rparr>,
      \<lparr>av_name = ''claude'', av_available = True, av_profile = (\<lambda>p. p = ''review''), av_role = None\<rparr>]"

lemma choose_role_sound_complete_witness:
  "choose_role demo_registry ''codex'' [] None (Some RoleReviewer) = Inr ''claude'' \<and>
   usable demo_registry None (Some RoleReviewer) ''claude''"
proof -
  have run: "choose_role demo_registry ''codex'' [] None (Some RoleReviewer) = Inr ''claude''" by code_simp
  have "distinct (map av_name demo_registry)" by (simp add: demo_registry_def)
  from choose_role_sound_complete [OF this, of None "Some RoleReviewer" "''codex''" "[]"] run
  show ?thesis by simp
qed

end
