(* ===== verification/Yolo_Actions.thy ===== *)
theory Yolo_Actions
  imports Yolo_DB_Properties Yolo_Agents
begin

text \<open>
  Coroutines of the orchestrator as state-passing actions. The state is the store and the rest of
  the world (repositories, agents, files, the clock), whose type is a parameter. An action ends
  with a value or an exception (a cancellation or an error) and, either way, in a state: what was
  committed before an exception stays.

  Whatever is not under \<open>src/\<close> (an agent process, a Git command, the wait for a lock) or runs in
  another thread is a field of the environment. Such a field is an action itself, so everything
  other coroutines do to the store while this one is suspended is part of it; the only assumption
  (\<open>env_ok\<close>) is that they too change the store by its transactions. The event loop itself is the field
  \<open>x_join\<close>: it gets the coroutines that are running, by name, runs them in whatever interleaving, and
  returns those that have finished with the outcome of each.
\<close>

section \<open>Actions\<close>

datatype exc = Cancelled | Raised py_error

type_synonym ('g, 'a) act = "db \<times> 'g \<Rightarrow> (exc + 'a) \<times> db \<times> 'g"

definition ret :: "'a \<Rightarrow> ('g, 'a) act" where
  "ret x = (\<lambda>s. (Inr x, s))"

definition raise_exc :: "exc \<Rightarrow> ('g, 'a) act" where
  "raise_exc e = (\<lambda>s. (Inl e, s))"

definition act_bind :: "('g, 'a) act \<Rightarrow> ('a \<Rightarrow> ('g, 'b) act) \<Rightarrow> ('g, 'b) act" where
  "act_bind m f = (\<lambda>s. case m s of (Inl e, t) \<Rightarrow> (Inl e, t) | (Inr x, t) \<Rightarrow> f x t)"

definition act_then :: "('g, 'a) act \<Rightarrow> ('g, 'b) act \<Rightarrow> ('g, 'b) act" where
  "act_then m n = act_bind m (\<lambda>_. n)"

text \<open>\<open>try: m except BaseException: ..\<close> and \<open>except Exception\<close>, which lets a cancellation pass.\<close>

definition handle_all :: "('g, 'a) act \<Rightarrow> (exc \<Rightarrow> ('g, 'a) act) \<Rightarrow> ('g, 'a) act" where
  "handle_all m h = (\<lambda>s. case m s of (Inl e, t) \<Rightarrow> h e t | (Inr x, t) \<Rightarrow> (Inr x, t))"

definition handle_error :: "('g, 'a) act \<Rightarrow> (py_error \<Rightarrow> ('g, 'a) act) \<Rightarrow> ('g, 'a) act" where
  "handle_error m h =
     handle_all m (\<lambda>e. case e of Cancelled \<Rightarrow> raise_exc Cancelled | Raised err \<Rightarrow> h err)"

definition of_result :: "py_error + 'a \<Rightarrow> ('g, 'a) act" where
  "of_result r = (case r of Inl e \<Rightarrow> raise_exc (Raised e) | Inr x \<Rightarrow> ret x)"

definition read_db :: "(db \<Rightarrow> py_error + 'a) \<Rightarrow> ('g, 'a) act" where
  "read_db f = (\<lambda>s. of_result (f (fst s)) s)"

definition read_world :: "('g \<Rightarrow> 'a) \<Rightarrow> ('g, 'a) act" where
  "read_world f = (\<lambda>s. (Inr (f (snd s)), s))"

fun act_when :: "bool \<Rightarrow> ('g, unit) act \<Rightarrow> ('g, unit) act" where
  "act_when b m = (if b then m else ret ())"

fun err_text :: "py_error \<Rightarrow> string" where
  "err_text (ValueError s) = s"
| "err_text (KeyError s) = s"
| "err_text (YoloError s) = s"
| "err_text (StateTransitionError s) = s"
| "err_text (IntegrityError s) = s"
| "err_text (OverflowError s) = s"
| "err_text (GitError s) = s"
| "err_text (MergeConflict s) = s"
| "err_text (OtherError s) = s"

fun is_git_error :: "py_error \<Rightarrow> bool" where
  "is_git_error (GitError s) = True"
| "is_git_error (MergeConflict s) = True"
| "is_git_error _ = False"

section \<open>The environment\<close>

text \<open>The prompts, as the template and its arguments.\<close>

datatype agent_prompt =
    PlannerPrompt string
  | WorkerPrompt string task_row string
  | RepairPrompt string string
  | TaskReviewPrompt string string string string
  | FinalChunkPrompt string string int int string string
  | FileSynthesisPrompt string string string string
  | FinalSynthesisPrompt string string string string

record shard =
  sh_index :: int
  sh_files :: "string list"
  sh_text :: string

record agent_call =
  call_agent :: string
  call_prompt :: agent_prompt
  call_cwd :: string
  call_log :: string
  call_profile :: string

record 'g env =
  x_now :: "'g \<Rightarrow> timestamp \<times> 'g"
  x_fresh :: "'g \<Rightarrow> string \<times> 'g"
  x_registry :: "'g \<Rightarrow> registry"
  x_cancelled :: "'g \<Rightarrow> bool"
  x_exists :: "string \<Rightarrow> 'g \<Rightarrow> bool"
  x_detect :: "string \<Rightarrow> 'g \<Rightarrow> string list"
  x_decode :: decoder
  x_float :: "rat \<Rightarrow> code_points"
  x_sha :: "string \<Rightarrow> string"
  x_wait :: "string \<Rightarrow> ('g, unit) act"
  x_agent :: "agent_call \<Rightarrow> ('g, agent_result) act"
  x_gates :: "string list \<Rightarrow> string \<Rightarrow> string \<Rightarrow> ('g, gate_result list) act"
  x_head :: "string \<Rightarrow> ('g, string) act"
  x_git_bool :: "string \<Rightarrow> string \<Rightarrow> ('g, bool) act"
  x_git :: "string \<Rightarrow> string list \<Rightarrow> ('g, unit) act"
  x_diff :: "string \<Rightarrow> string \<Rightarrow> ('g, string) act"
  x_unresolved :: "string \<Rightarrow> ('g, string list) act"
  x_shards :: "string \<Rightarrow> string \<Rightarrow> ('g, string list \<times> shard list) act"
  x_reconcile :: "string \<Rightarrow> string \<Rightarrow> string \<Rightarrow> string \<Rightarrow> ('g, string \<times> string) act"
  x_dossier :: "string \<Rightarrow> string \<Rightarrow> string \<Rightarrow> string \<Rightarrow> ('g, string \<times> string) act"
  x_join :: "(string \<times> ('g, bool) act) list \<Rightarrow> ('g, (string \<times> (exc + bool)) list) act"

text \<open>A transaction of the store, at the current time; the second form returns a value.\<close>

definition tx :: "'g env \<Rightarrow> (timestamp \<Rightarrow> db \<Rightarrow> py_error + db) \<Rightarrow> ('g, unit) act" where
  "tx env f = (\<lambda>(db, g). case x_now env g of (now, g') \<Rightarrow>
     (case f now db of Inl e \<Rightarrow> (Inl (Raised e), db, g') | Inr db' \<Rightarrow> (Inr (), db', g')))"

definition txv :: "'g env \<Rightarrow> (timestamp \<Rightarrow> db \<Rightarrow> py_error + 'a \<times> db) \<Rightarrow> ('g, 'a) act" where
  "txv env f = (\<lambda>(db, g). case x_now env g of (now, g') \<Rightarrow>
     (case f now db of Inl e \<Rightarrow> (Inl (Raised e), db, g') | Inr (x, db') \<Rightarrow> (Inr x, db', g')))"

definition fresh_id :: "'g env \<Rightarrow> string \<Rightarrow> ('g, string) act" where
  "fresh_id env prefix = (\<lambda>(db, g). case x_fresh env g of (h, g') \<Rightarrow> (Inr (new_id h prefix), db, g'))"

definition emit ::
  "'g env \<Rightarrow> string \<Rightarrow> string \<Rightarrow> (string \<times> json) list \<Rightarrow> string option \<Rightarrow> ('g, unit) act" where
  "emit env job_id kind payload task_id =
     act_bind (txv env (\<lambda>now. event now job_id kind
                (Some (JObj (map (\<lambda>(k, v). (cps k, v)) payload))) task_id)) (\<lambda>_. ret ())"

text \<open>
  \<open>finish_before_cancel\<close> of \<open>src/omarchy_yolo/util.py\<close>: the inner awaitable is shielded and runs to
  its end; if the caller was cancelled meanwhile, the cancellation replaces its outcome.
\<close>

definition finish_before_cancel :: "'g env \<Rightarrow> ('g, 'a) act \<Rightarrow> ('g, 'a) act" where
  "finish_before_cancel env m = (\<lambda>s. case m s of (r, t) \<Rightarrow>
     if x_cancelled env (snd t) then (Inl Cancelled, t) else (r, t))"

definition jtext :: "string \<Rightarrow> json" where
  "jtext s = JStr (cps s)"

definition jtexts :: "string list \<Rightarrow> json" where
  "jtexts ss = JArr (map jtext ss)"

section \<open>Actions that only make store transactions\<close>

named_theorems steps_intros \<open>composition of actions that change the store by its steps\<close>

definition steps :: "(string \<Rightarrow> string) \<Rightarrow> ('g, 'a) act \<Rightarrow> bool" where
  "steps sha m \<longleftrightarrow> (\<forall>s. (db_step sha)\<^sup>*\<^sup>* (fst s) (fst (snd (m s))))"

lemma stepsD: "steps sha m \<Longrightarrow> m (db, g) = (r, db', g') \<Longrightarrow> (db_step sha)\<^sup>*\<^sup>* db db'"
  unfolding steps_def by (metis fst_conv snd_conv)

lemma steps_ret [steps_intros]: "steps sha (ret x)"
  by (simp add: steps_def ret_def)

lemma steps_raise [steps_intros]: "steps sha (raise_exc e)"
  by (simp add: steps_def raise_exc_def)

lemma steps_bind [steps_intros]:
  assumes "steps sha m" and "\<And>x. steps sha (f x)"
  shows "steps sha (act_bind m f)"
  unfolding steps_def
proof
  fix s
  have m: "(db_step sha)\<^sup>*\<^sup>* (fst s) (fst (snd (m s)))" using assms(1) unfolding steps_def by blast
  show "(db_step sha)\<^sup>*\<^sup>* (fst s) (fst (snd (act_bind m f s)))"
  proof (cases "fst (m s)")
    case (Inl e)
    with m show ?thesis by (cases "m s") (simp add: act_bind_def)
  next
    case (Inr x)
    then have "act_bind m f s = f x (snd (m s))" by (cases "m s") (simp add: act_bind_def)
    moreover have "(db_step sha)\<^sup>*\<^sup>* (fst (snd (m s))) (fst (snd (f x (snd (m s)))))"
      using assms(2) unfolding steps_def by blast
    ultimately show ?thesis using m by simp
  qed
qed

lemma steps_then [steps_intros]: "steps sha m \<Longrightarrow> steps sha n \<Longrightarrow> steps sha (act_then m n)"
  unfolding act_then_def by (intro steps_bind)

lemma steps_handle_all [steps_intros]:
  assumes "steps sha m" and "\<And>e. steps sha (h e)"
  shows "steps sha (handle_all m h)"
  unfolding steps_def
proof
  fix s
  have m: "(db_step sha)\<^sup>*\<^sup>* (fst s) (fst (snd (m s)))" using assms(1) unfolding steps_def by blast
  show "(db_step sha)\<^sup>*\<^sup>* (fst s) (fst (snd (handle_all m h s)))"
  proof (cases "fst (m s)")
    case (Inr x)
    with m show ?thesis by (cases "m s") (simp add: handle_all_def)
  next
    case (Inl e)
    then have "handle_all m h s = h e (snd (m s))" by (cases "m s") (simp add: handle_all_def)
    moreover have "(db_step sha)\<^sup>*\<^sup>* (fst (snd (m s))) (fst (snd (h e (snd (m s)))))"
      using assms(2) unfolding steps_def by blast
    ultimately show ?thesis using m by simp
  qed
qed

lemma steps_handle_error [steps_intros]:
  "steps sha m \<Longrightarrow> (\<And>e. steps sha (h e)) \<Longrightarrow> steps sha (handle_error m h)"
  unfolding handle_error_def
  by (rule steps_handle_all) (auto intro: steps_raise split: exc.splits)

lemma steps_finish [steps_intros]: "steps sha m \<Longrightarrow> steps sha (finish_before_cancel env m)"
proof -
  assume m: "steps sha m"
  have "fst (snd (finish_before_cancel env m s)) = fst (snd (m s))" for s
    by (simp add: finish_before_cancel_def split: prod.splits)
  with m show ?thesis unfolding steps_def by simp
qed

lemma steps_of_result [steps_intros]: "steps sha (of_result r)"
  by (auto simp: of_result_def intro: steps_ret steps_raise split: sum.splits)

lemma steps_read_db [steps_intros]: "steps sha (read_db f)"
  using steps_of_result [of sha] unfolding steps_def read_db_def by blast

lemma steps_read_world [steps_intros]: "steps sha (read_world f)"
  by (simp add: steps_def read_world_def)

lemma steps_fresh [steps_intros]: "steps sha (fresh_id env prefix)"
  by (auto simp: steps_def fresh_id_def split: prod.splits)

lemma steps_when [steps_intros]: "steps sha m \<Longrightarrow> steps sha (act_when b m)"
  by (simp add: steps_ret)

lemma steps_if [steps_intros]: "(b \<Longrightarrow> steps sha m) \<Longrightarrow> (\<not> b \<Longrightarrow> steps sha n) \<Longrightarrow> steps sha (if b then m else n)"
  by simp

lemma steps_tx: "(\<And>now db db'. f now db = Inr db' \<Longrightarrow> db_step sha db db') \<Longrightarrow> steps sha (tx env f)"
  by (auto simp: steps_def tx_def split: prod.splits sum.splits)

lemma steps_txv:
  "(\<And>now db x db'. f now db = Inr (x, db') \<Longrightarrow> db_step sha db db') \<Longrightarrow> steps sha (txv env f)"
  by (auto simp: steps_def txv_def split: prod.splits sum.splits)

lemma steps_tx_ops [steps_intros]:
  "steps sha (tx env (\<lambda>now. update_job now jid ju))"
  "steps sha (tx env (\<lambda>now. update_task now tid tu))"
  "steps sha (tx env (\<lambda>now. start_attempt now aid jid tid n agent wt br lp))"
  "steps sha (tx env (\<lambda>now. finish_attempt now aid st rc summary))"
  "steps sha (tx env (\<lambda>now. settle_inflight now jid tst st summary))"
  "steps sha (tx env (\<lambda>now. prepare_accepted_job sha now jid commit summary intent v digest content))"
  "steps sha (tx env (\<lambda>now. mark_apply_started now jid commit))"
  "steps sha (tx env (\<lambda>now. publish_completed_job sha now jid v digest summary out reason))"
  "steps sha (txv env (\<lambda>now. add_tasks now jid ps))"
  by (auto intro!: steps_tx steps_txv intro: db_step.intros)

lemma steps_emit [steps_intros]: "steps sha (emit env jid kind payload tid)"
  unfolding emit_def by (intro steps_bind steps_txv steps_ret) (auto intro: step_event)

text \<open>The assumption on the environment.\<close>

definition env_ok :: "'g env \<Rightarrow> bool" where
  "env_ok env \<longleftrightarrow>
     (\<forall>a. steps (x_sha env) (x_wait env a)) \<and>
     (\<forall>a. steps (x_sha env) (x_agent env a)) \<and>
     (\<forall>a b c. steps (x_sha env) (x_gates env a b c)) \<and>
     (\<forall>a. steps (x_sha env) (x_head env a)) \<and>
     (\<forall>a b. steps (x_sha env) (x_git_bool env a b)) \<and>
     (\<forall>a b. steps (x_sha env) (x_git env a b)) \<and>
     (\<forall>a b. steps (x_sha env) (x_diff env a b)) \<and>
     (\<forall>a. steps (x_sha env) (x_unresolved env a)) \<and>
     (\<forall>a b. steps (x_sha env) (x_shards env a b)) \<and>
     (\<forall>a b c d. steps (x_sha env) (x_reconcile env a b c d)) \<and>
     (\<forall>a b c d. steps (x_sha env) (x_dossier env a b c d)) \<and>
     (\<forall>hs. (\<forall>h \<in> set hs. steps (x_sha env) (snd h)) \<longrightarrow> steps (x_sha env) (x_join env hs))"

lemma env_ok_steps [steps_intros]:
  assumes "env_ok env"
  shows "steps (x_sha env) (x_wait env n)" "steps (x_sha env) (x_agent env c)"
    "steps (x_sha env) (x_gates env cs d l)" "steps (x_sha env) (x_head env p)"
    "steps (x_sha env) (x_git_bool env o1 p)" "steps (x_sha env) (x_git env o2 ps)"
    "steps (x_sha env) (x_diff env p b)" "steps (x_sha env) (x_unresolved env p)"
    "steps (x_sha env) (x_shards env p b)" "steps (x_sha env) (x_reconcile env p b c' d')"
    "steps (x_sha env) (x_dossier env p b c' d')"
  using assms by (simp_all add: env_ok_def)

lemma env_ok_join [steps_intros]:
  "env_ok env \<Longrightarrow> (\<And>h. h \<in> set hs \<Longrightarrow> steps (x_sha env) (snd h)) \<Longrightarrow> steps (x_sha env) (x_join env hs)"
  by (simp add: env_ok_def)

text \<open>
  Elimination rules: what a run of a composed action consists of.
\<close>

lemma act_bind_Inr:
  "act_bind m f s = (Inr y, t) \<longleftrightarrow> (\<exists>x u. m s = (Inr x, u) \<and> f x u = (Inr y, t))"
  by (auto simp: act_bind_def split: prod.splits sum.splits)

lemma act_then_Inr:
  "act_then m n s = (Inr y, t) \<longleftrightarrow> (\<exists>x u. m s = (Inr x, u) \<and> n u = (Inr y, t))"
  by (simp add: act_then_def act_bind_Inr)

lemma act_bind_InrE:
  "act_bind m f s = (Inr y, t) \<Longrightarrow>
   (\<And>x u. m s = (Inr x, u) \<Longrightarrow> f x u = (Inr y, t) \<Longrightarrow> thesis) \<Longrightarrow> thesis"
  unfolding act_bind_Inr by blast

lemma act_then_InrE:
  "act_then m n s = (Inr y, t) \<Longrightarrow>
   (\<And>x u. m s = (Inr x, u) \<Longrightarrow> n u = (Inr y, t) \<Longrightarrow> thesis) \<Longrightarrow> thesis"
  unfolding act_then_Inr by blast

lemma ret_Inr [simp]: "ret x s = (r, t) \<longleftrightarrow> r = Inr x \<and> t = s"
  by (auto simp: ret_def)

lemma raise_exc_run [simp]: "raise_exc e s = (r, t) \<longleftrightarrow> r = Inl e \<and> t = s"
  by (auto simp: raise_exc_def)

lemma of_result_Inr: "of_result r s = (Inr x, t) \<longleftrightarrow> r = Inr x \<and> t = s"
  by (cases r) (auto simp: of_result_def)

lemma read_db_Inr: "read_db f s = (Inr x, t) \<longleftrightarrow> f (fst s) = Inr x \<and> t = s"
  by (simp add: read_db_def of_result_Inr)

lemma tx_Inr: "tx env f s = (Inr x, t) \<Longrightarrow> \<exists>now. f now (fst s) = Inr (fst t)"
  by (cases s) (auto simp: tx_def split: prod.splits sum.splits)

lemma txv_Inr: "txv env f s = (Inr x, t) \<Longrightarrow> \<exists>now. f now (fst s) = Inr (x, fst t)"
  by (cases s) (auto simp: txv_def split: prod.splits sum.splits)

end
