(* ===== verification/Yolo_Reviewer.thy ===== *)
theory Yolo_Reviewer
  imports Yolo_Actions
begin

text \<open>
  The reviewer of \<open>src/omarchy_yolo/reviewer.py\<close>: what is put before a reviewing agent, within
  byte limits that are checked and never cut, and how its verdict is read. A verdict is accepted
  only in a form that says something: a pass has a summary and no finding, anything else has a
  summary or a finding.
\<close>

section \<open>Gate reports\<close>

definition MAX_REVIEW_SUMMARY_CHARS :: nat where "MAX_REVIEW_SUMMARY_CHARS = 8000"
definition MAX_REVIEW_FINDINGS :: nat where "MAX_REVIEW_FINDINGS = 64"
definition MAX_REVIEW_FINDING_CHARS :: nat where "MAX_REVIEW_FINDING_CHARS = 4000"
definition MAX_GATE_SUMMARY_BYTES :: nat where "MAX_GATE_SUMMARY_BYTES = 16000"
definition MAX_SYNTHESIS_INPUT_BYTES :: nat where "MAX_SYNTHESIS_INPUT_BYTES = 80000"

definition newline :: string where
  "newline = [CHR 0x0A]"

definition gate_line :: "gate_result \<Rightarrow> string" where
  "gate_line r =
     ''- '' @ gr_command r @ '': exit='' @ int_str (gr_returncode r) @ '' timeout='' @
     (if gr_timed_out r then ''True'' else ''False'') @ newline @ py_last 1500 (gr_stderr r)"

definition str_truncate_utf8 :: "string \<Rightarrow> nat \<Rightarrow> string" where
  "str_truncate_utf8 s n = map char_of (truncate_utf8 (cps s) n truncation_marker)"

definition str_bytes :: "string \<Rightarrow> nat" where
  "str_bytes s = utf8_length (cps s)"

definition or_text :: "string \<Rightarrow> string \<Rightarrow> string" where
  "or_text s dflt = (if s = [] then dflt else s)"

definition format_gates :: "gate_result list \<Rightarrow> string" where
  "format_gates results =
     str_truncate_utf8
       (or_text (join_with newline (map gate_line results)) ''No explicit gates were run.'')
       MAX_GATE_SUMMARY_BYTES"

section \<open>Reading a verdict\<close>

definition parse_finding :: "payload \<Rightarrow> py_error + string" where
  "parse_finding item =
     (case as_str item of
        None \<Rightarrow> Inl (YoloError ''reviewer findings must contain only strings'')
      | Some s \<Rightarrow>
          let finding = py_strip s
          in if length finding > MAX_REVIEW_FINDING_CHARS
             then Inl (YoloError ''reviewer finding is too large'') else Inr finding)"

definition verdict_check :: "string \<Rightarrow> string \<Rightarrow> string list \<Rightarrow> py_error + review_result" where
  "verdict_check verdict summary findings =
     (if verdict = ''pass'' \<and> findings \<noteq> []
      then Inl (YoloError ''reviewer returned pass with material findings'')
      else if verdict = ''pass'' \<and> summary = []
      then Inl (YoloError ''reviewer pass verdict must include a semantic summary'')
      else if verdict \<noteq> ''pass'' \<and> summary = [] \<and> \<not> list_ex (\<lambda>f. f \<noteq> []) findings
      then Inl (YoloError ''reviewer non-pass verdict must include a summary or finding'')
      else Inr \<lparr>rv_verdict = verdict, rv_summary = summary, rv_findings = findings\<rparr>)"

definition parse_review :: "decoder \<Rightarrow> string \<Rightarrow> agent_result \<Rightarrow> py_error + review_result" where
  "parse_review decode agent result =
     (if \<not> agent_ok result
      then Inl (YoloError (''reviewer agent '' @ agent @ '' exited '' @
                  int_str (ar_returncode result) @ '': '' @ py_last 1000 (ar_stderr result)))
      else
        rbind (extract_json_object decode (ar_stdout result)) (\<lambda>payload.
        case (as_str (dict_get_or payload ''verdict'' (PStr [])),
              as_str (dict_get_or payload ''summary'' (PStr []))) of
          (Some verdict_raw, Some summary_raw) \<Rightarrow>
            let verdict = py_lower (py_strip verdict_raw); summary = py_strip summary_raw
            in rbind (require (verdict \<in> {''pass'', ''retry'', ''fail''})
                 (YoloError (''reviewer returned invalid verdict '' @ quoted verdict))) (\<lambda>_.
               rbind (require (length summary \<le> MAX_REVIEW_SUMMARY_CHARS)
                 (YoloError ''reviewer summary is too large'')) (\<lambda>_.
               case as_list (dict_get_or payload ''findings'' (PList [])) of
                 None \<Rightarrow> Inl (YoloError ''reviewer findings must be an array'')
               | Some raw_findings \<Rightarrow>
                   rbind (require (length raw_findings \<le> MAX_REVIEW_FINDINGS)
                     (YoloError ''reviewer returned too many findings'')) (\<lambda>_.
                   rbind (map_result parse_finding raw_findings) (\<lambda>findings.
                     verdict_check verdict summary findings))))
        | _ \<Rightarrow> Inl (YoloError ''reviewer verdict and summary must be strings'')))"

section \<open>The reviews\<close>

definition reviewer_run ::
  "'g env \<Rightarrow> agent_prompt \<Rightarrow> string \<Rightarrow> string \<Rightarrow> string \<Rightarrow> ('g, review_result) act" where
  "reviewer_run env prompt cwd agent log_path =
     act_bind (read_world (x_registry env)) (\<lambda>reg.
     act_bind (of_result (registry_get reg agent)) (\<lambda>_.
     act_bind (x_agent env \<lparr>call_agent = agent, call_prompt = prompt, call_cwd = cwd,
                 call_log = log_path, call_profile = ''review''\<rparr>) (\<lambda>result.
       of_result (parse_review (x_decode env) agent result))))"

definition review_task ::
  "'g env \<Rightarrow> string \<Rightarrow> task_row \<Rightarrow> string \<Rightarrow> gate_result list \<Rightarrow> string \<Rightarrow> string \<Rightarrow> string \<Rightarrow>
   ('g, review_result) act" where
  "review_task env goal task diff gates cwd agent log_path =
     reviewer_run env
       (TaskReviewPrompt goal (t_logical_id task @ '' '' @ t_title task @ newline @ t_description task)
          (format_gates gates) diff)
       cwd agent log_path"

definition bullet_list :: "string list \<Rightarrow> string" where
  "bullet_list items = join_with newline (map (\<lambda>x. ''- '' @ x) items)"

definition review_final_chunk ::
  "'g env \<Rightarrow> string \<Rightarrow> shard \<Rightarrow> int \<Rightarrow> gate_result list \<Rightarrow> string \<Rightarrow> string \<Rightarrow> string \<Rightarrow>
   ('g, review_result) act" where
  "review_final_chunk env goal chunk count gates cwd agent log_path =
     reviewer_run env
       (FinalChunkPrompt goal (format_gates gates) (sh_index chunk) count
          (or_text (bullet_list (sh_files chunk)) ''- none'') (sh_text chunk))
       cwd agent log_path"

definition review_final ::
  "'g env \<Rightarrow> string \<Rightarrow> string \<Rightarrow> gate_result list \<Rightarrow> string \<Rightarrow> string \<Rightarrow> string \<Rightarrow> ('g, review_result) act" where
  "review_final env goal diff gates cwd agent log_path =
     review_final_chunk env goal \<lparr>sh_index = 1, sh_files = [''candidate''], sh_text = diff\<rparr> 1 gates cwd agent log_path"

definition shard_summaries :: "review_result list \<Rightarrow> string" where
  "shard_summaries reviews =
     bullet_list (map (\<lambda>(i, r). ''shard '' @ int_str (int i) @ '': '' @ rv_summary r) (enumerate 1 reviews))"

definition review_file_synthesis ::
  "'g env \<Rightarrow> string \<Rightarrow> gate_result list \<Rightarrow> string \<Rightarrow> review_result list \<Rightarrow> string \<Rightarrow> string \<Rightarrow> string \<Rightarrow>
   ('g, review_result) act" where
  "review_file_synthesis env goal gates file_path reviews cwd agent log_path =
     (let summary_text = shard_summaries reviews
      in if str_bytes file_path > MAX_SYNTHESIS_INPUT_BYTES
         then raise_exc (Raised (YoloError ''file path is too large for complete file synthesis review''))
         else if str_bytes summary_text > MAX_SYNTHESIS_INPUT_BYTES
         then raise_exc (Raised (YoloError ''file shard summaries are too large for complete synthesis review''))
         else reviewer_run env
                (FileSynthesisPrompt goal (format_gates gates) file_path
                   (or_text summary_text ''- no shard summaries''))
                cwd agent log_path)"

text \<open>The reports of the final synthesis, with the form that callers of version 1.1 used.\<close>

definition effective_reviews ::
  "string list \<Rightarrow> (string \<times> review_result) list option \<Rightarrow> review_result list \<Rightarrow>
   (string \<times> review_result) list" where
  "effective_reviews manifest file_reviews legacy =
     (case file_reviews of
        Some reviews \<Rightarrow> reviews
      | None \<Rightarrow>
          if length legacy = length manifest then zip manifest legacy
          else map (\<lambda>(i, r). (''legacy-shard-'' @ int_str (int i), r)) (enumerate 1 legacy))"

definition review_final_synthesis ::
  "'g env \<Rightarrow> string \<Rightarrow> gate_result list \<Rightarrow> string list \<Rightarrow> (string \<times> review_result) list option \<Rightarrow>
   review_result list \<Rightarrow> string \<Rightarrow> string \<Rightarrow> string \<Rightarrow> ('g, review_result) act" where
  "review_final_synthesis env goal gates manifest file_reviews legacy cwd agent log_path =
     (let manifest_text = or_text (bullet_list manifest) ''- no changed files'';
          summary_text = or_text
            (bullet_list (map (\<lambda>(path, r). path @ '': '' @ rv_summary r)
               (effective_reviews manifest file_reviews legacy)))
            ''- no changed-file reports''
      in if str_bytes manifest_text > MAX_SYNTHESIS_INPUT_BYTES
         then raise_exc (Raised (YoloError ''changed-file manifest is too large for complete synthesis review''))
         else if str_bytes summary_text > MAX_SYNTHESIS_INPUT_BYTES
         then raise_exc (Raised (YoloError ''file semantic reports are too large for complete synthesis review''))
         else reviewer_run env
                (FinalSynthesisPrompt goal (format_gates gates) manifest_text summary_text)
                cwd agent log_path)"

section \<open>What an accepted verdict guarantees\<close>

definition review_ok :: "review_result \<Rightarrow> bool" where
  "review_ok r \<longleftrightarrow>
     rv_verdict r \<in> {''pass'', ''retry'', ''fail''} \<and> length (rv_summary r) \<le> 8000 \<and>
     length (rv_findings r) \<le> 64 \<and> list_all (\<lambda>f. length f \<le> 4000) (rv_findings r) \<and>
     (review_passed r \<longrightarrow> rv_findings r = [] \<and> rv_summary r \<noteq> []) \<and>
     (\<not> review_passed r \<longrightarrow> rv_summary r \<noteq> [] \<or> list_ex (\<lambda>f. f \<noteq> []) (rv_findings r))"

lemma parse_finding_Inr: "parse_finding v = Inr f \<Longrightarrow> length f \<le> 4000"
  by (auto simp: parse_finding_def MAX_REVIEW_FINDING_CHARS_def Let_def split: option.splits if_splits)

lemma parse_review_Inr:
  assumes "parse_review decode agent result = Inr r"
  shows "agent_ok result \<and> review_ok r"
proof -
  from assms have ok: "agent_ok result" by (simp add: parse_review_def split: if_splits)
  with assms obtain payload where p: "extract_json_object decode (ar_stdout result) = Inr payload"
    by (auto simp: parse_review_def rbind_Inr_iff)
  obtain vo so where vs: "as_str (dict_get_or payload ''verdict'' (PStr [])) = vo"
    "as_str (dict_get_or payload ''summary'' (PStr [])) = so" by blast
  with assms ok p obtain v s where some: "vo = Some v" "so = Some s"
    by (cases vo; cases so) (simp_all add: parse_review_def)
  let ?v = "py_lower (py_strip v)" and ?s = "py_strip s"
  from assms ok p vs some obtain raw where
    raw: "as_list (dict_get_or payload ''findings'' (PList [])) = Some raw"
    by (cases "as_list (dict_get_or payload ''findings'' (PList []))")
      (simp_all add: parse_review_def Let_def rbind_Inr_iff del: as_str_Some)
  from assms ok p vs some raw obtain fs where
    fs: "map_result parse_finding raw = Inr fs" "verdict_check ?v ?s fs = Inr r"
    and b: "?v \<in> {''pass'', ''retry'', ''fail''}" "length ?s \<le> 8000" "length raw \<le> 64"
    by (auto simp: parse_review_def Let_def rbind_Inr_iff MAX_REVIEW_SUMMARY_CHARS_def
        MAX_REVIEW_FINDINGS_def simp del: as_str_Some as_list_Some)
  have "list_all (\<lambda>f. length f \<le> 4000) fs"
    using map_result_all [OF fs(1), of "\<lambda>f. length f \<le> 4000"] parse_finding_Inr
    by (auto simp: list_all_iff)
  moreover have "length fs \<le> 64" using map_result_length [OF fs(1)] b(3) by simp
  ultimately show ?thesis
    using fs(2) b(1,2) ok
    by (auto simp: verdict_check_def review_ok_def review_passed_def split: if_splits)
qed

lemma reviewer_run_Inr:
  "reviewer_run env prompt cwd agent lp s = (Inr r, t) \<Longrightarrow> review_ok r"
  using parse_review_Inr by (fastforce simp: reviewer_run_def act_bind_Inr of_result_Inr)

lemma steps_reviewer [steps_intros]:
  assumes "env_ok env"
  shows "steps (x_sha env) (reviewer_run env prompt cwd agent lp)"
    "steps (x_sha env) (review_task env goal task diff gates cwd agent lp)"
    "steps (x_sha env) (review_final_chunk env goal chunk count gates cwd agent lp)"
    "steps (x_sha env) (review_file_synthesis env goal gates fp reviews cwd agent lp)"
    "steps (x_sha env) (review_final_synthesis env goal gates manifest frs legacy cwd agent lp)"
  unfolding reviewer_run_def review_task_def review_final_chunk_def review_file_synthesis_def
    review_final_synthesis_def Let_def
  by (intro steps_intros assms)+

section \<open>Properties\<close>

text \<open>
  A review that is accepted from an agent has a known verdict and bounded texts; a pass comes
  with a summary and without findings, and any other verdict says why; an agent that failed is
  never read as a review.
\<close>

theorem accepted_review_wellformed:
  assumes "parse_review decode agent result = Inr r"
  shows "agent_ok result \<and> review_ok r"
  by (rule parse_review_Inr [OF assms])

lemma accepted_review_wellformed_witness:
  "review_ok \<lparr>rv_verdict = ''retry'', rv_summary = ''no'', rv_findings = [''a'']\<rparr>"
proof -
  have run: "parse_review (\<lambda>w i. if i = 0 then Some (PDict [(''verdict'', PStr '' RETRY''), (''summary'', PStr ''no''),
      (''findings'', PList [PStr ''a ''])]) else None) ''claude''
      \<lparr>ar_returncode = 0, ar_stdout = ''{}'', ar_stderr = ''''\<rparr> =
    Inr \<lparr>rv_verdict = ''retry'', rv_summary = ''no'', rv_findings = [''a'']\<rparr>"
    by code_simp
  from accepted_review_wellformed [OF run] show ?thesis by simp
qed

end
