(* ===== verification/Yolo_Integration.thy ===== *)
theory Yolo_Integration
  imports Yolo_Reviewer
begin

text \<open>
  Integration and finalisation, \<open>src/omarchy_yolo/orchestrator_integration.py\<close>: merging a task into
  the integration branch with rollback, autonomous conflict resolution and repair, the gates, the
  hierarchical final review, and the finalisation loop. A lock of an \<open>async with\<close> is a wait before
  the body; its release changes nothing of the state. A list in a message is rendered by
  \<open>repr_names\<close>.
\<close>

section \<open>Paths, payloads and gates\<close>

definition logs_dir :: "config \<Rightarrow> string" where
  "logs_dir cf = cf_state_dir cf @ ''/logs''"

definition worktrees_dir :: "config \<Rightarrow> string" where
  "worktrees_dir cf = cf_state_dir cf @ ''/worktrees''"

definition path_join :: "string list \<Rightarrow> string" where
  "path_join parts = join_with ''/'' parts"

definition worker_names :: "config \<Rightarrow> string list" where
  "worker_names cf = worker_agents (cf_engine cf)"

definition jreal :: "'g env \<Rightarrow> rat \<Rightarrow> json" where
  "jreal env q = JFloat (x_float env (round3 q))"

definition gates_payload :: "'g env \<Rightarrow> string \<Rightarrow> gate_result list \<Rightarrow> (string \<times> json) list" where
  "gates_payload env label results =
     [(''scope'', jtext label),
      (''commands'', jtexts (map gr_command results)),
      (''ok'', JBool (list_all gate_ok results)),
      (''duration_seconds'', jreal env (sum_list (map gr_duration_seconds results))),
      (''results'', JArr (map (\<lambda>r. JObj
         [(cps ''command'', jtext (gr_command r)), (cps ''returncode'', JInt (gr_returncode r)),
          (cps ''timed_out'', JBool (gr_timed_out r)),
          (cps ''duration_seconds'', jreal env (gr_duration_seconds r))]) results))]"

definition run_gates ::
  "'g env \<Rightarrow> config \<Rightarrow> string \<Rightarrow> task_row option \<Rightarrow> string \<Rightarrow> bool \<Rightarrow> string \<Rightarrow>
   ('g, gate_result list) act" where
  "run_gates env cf job_id task cwd final suffix =
     (let configured = (if final then final_commands (cf_gates cf) else gate_commands (cf_gates cf));
          label = (if final then ''final'' else case task of Some t \<Rightarrow> t_logical_id t | None \<Rightarrow> ''job'')
      in act_bind (read_world (x_detect env cwd)) (\<lambda>detected.
         act_bind (x_gates env (if configured \<noteq> [] then configured else detected) cwd
                    (path_join [logs_dir cf, job_id, label, ''gates-'' @ suffix @ ''.log''])) (\<lambda>results.
         act_then (emit env job_id ''gates.completed'' (gates_payload env label results) (map_option t_id task))
           (ret results))))"

section \<open>Conflict resolution and repair\<close>

definition finish_merge :: "'g env \<Rightarrow> string \<Rightarrow> ('g, unit) act" where
  "finish_merge env path = x_git env ''finish_merge'' [path]"

text \<open>\<open>except GitError: pass\<close>, with the value that says the attempt did not succeed.\<close>

definition unless_git_error :: "('g, bool) act \<Rightarrow> ('g, bool) act" where
  "unless_git_error m =
     handle_error m (\<lambda>e. if is_git_error e then ret False else raise_exc (Raised e))"

definition conflict_issue :: "task_row \<Rightarrow> string \<Rightarrow> string list \<Rightarrow> string" where
  "conflict_issue task original_error unresolved =
     ''A merge of task '' @ t_logical_id task @ '' ('' @ t_title task @ '') is in progress.'' @ newline @
     ''Original error: '' @ original_error @ newline @ ''Unresolved files: '' @ repr_names unresolved @
     newline @
     ''Resolve the merge while preserving both the task intent and already integrated work.''"

fun resolve_cycles ::
  "'g env \<Rightarrow> config \<Rightarrow> string \<Rightarrow> task_row \<Rightarrow> string \<Rightarrow> string \<Rightarrow> nat list \<Rightarrow> ('g, bool) act" where
  "resolve_cycles env cf job_id task path original_error [] = ret False"
| "resolve_cycles env cf job_id task path original_error (cycle # cycles) =
     act_bind (x_unresolved env path) (\<lambda>unresolved.
     act_bind (if unresolved = [] then unless_git_error (act_then (finish_merge env path) (ret True))
               else ret False) (\<lambda>finished.
     if finished then ret True else
     act_bind (read_world (x_registry env)) (\<lambda>reg.
     act_bind (of_result (choose_role reg (integrator_agent (cf_engine cf)) (worker_names cf) None
                            (Some RoleIntegrator))) (\<lambda>agent.
     act_bind (of_result (registry_get reg agent)) (\<lambda>_.
     act_bind (read_db (get_job job_id)) (\<lambda>job.
     act_bind (x_agent env
       \<lparr>call_agent = agent,
        call_prompt = RepairPrompt (j_goal job) (conflict_issue task original_error unresolved),
        call_cwd = path,
        call_log = path_join [logs_dir cf, job_id, t_logical_id task,
                     ''merge-resolve-'' @ int_str (int cycle) @ ''-'' @ agent @ ''.log''],
        call_profile = execution_profile (cf_engine cf)\<rparr>) (\<lambda>result.
     act_bind (if agent_ok result then
                 unless_git_error
                   (act_then (finish_merge env path)
                     (act_bind (x_unresolved env path) (\<lambda>left.
                       if left = [] then
                         act_then (emit env job_id ''integration.conflict_resolved''
                                     [(''agent'', jtext agent)] (Some (t_id task)))
                           (ret True)
                       else ret False)))
               else ret False) (\<lambda>resolved.
     if resolved then ret True
     else resolve_cycles env cf job_id task path original_error cycles))))))))"

definition resolve_merge_conflict ::
  "'g env \<Rightarrow> config \<Rightarrow> string \<Rightarrow> task_row \<Rightarrow> string \<Rightarrow> string \<Rightarrow> ('g, bool) act" where
  "resolve_merge_conflict env cf job_id task path original_error =
     resolve_cycles env cf job_id task path original_error [1, 2]"

definition repair_error :: "'g env \<Rightarrow> string \<Rightarrow> string option \<Rightarrow> py_error \<Rightarrow> ('g, unit) act" where
  "repair_error env job_id task_id e =
     emit env job_id ''integration.repair_error'' [(''error'', jtext (err_text e))] task_id"

text \<open>One repair by one agent: whether it succeeded. Its errors are recorded, not raised.\<close>

definition repair_once ::
  "'g env \<Rightarrow> config \<Rightarrow> string \<Rightarrow> string \<Rightarrow> string \<Rightarrow> string option \<Rightarrow> int \<Rightarrow> string \<Rightarrow> ('g, bool) act" where
  "repair_once env cf job_id path issue task_id cycle agent =
     handle_error
       (act_bind (read_world (x_registry env)) (\<lambda>reg.
        act_bind (of_result (registry_get reg agent)) (\<lambda>_.
        act_bind (read_db (get_job job_id)) (\<lambda>job.
        act_bind (x_agent env
          \<lparr>call_agent = agent, call_prompt = RepairPrompt (j_goal job) issue, call_cwd = path,
           call_log = path_join [logs_dir cf, job_id, ''integration'',
                        ''repair-'' @ int_str cycle @ ''-'' @ agent @ ''.log''],
           call_profile = execution_profile (cf_engine cf)\<rparr>) (\<lambda>result.
        if \<not> agent_ok result then ret False
        else act_then (x_git env ''commit_all'' [path, ''yolo: integration repair''])
            (act_then (emit env job_id ''integration.repaired'' [(''agent'', jtext agent)] task_id)
              (ret True)))))))
       (\<lambda>e. act_then (repair_error env job_id task_id e) (ret False))"

fun repair_loop ::
  "'g env \<Rightarrow> config \<Rightarrow> string \<Rightarrow> string \<Rightarrow> string \<Rightarrow> string option \<Rightarrow> (int \<times> string) list \<Rightarrow> string list \<Rightarrow>
   ('g, bool) act" where
  "repair_loop env cf job_id path issue task_id [] seen = ret False"
| "repair_loop env cf job_id path issue task_id ((cycle, candidate) # rest) seen =
     (if length seen \<ge> 3 then ret False
      else act_bind (read_world (x_registry env)) (\<lambda>reg.
        case choose_role reg candidate (worker_names cf) None (Some RoleIntegrator) of
          Inl e \<Rightarrow>
            act_then (repair_error env job_id task_id e)
              (repair_loop env cf job_id path issue task_id rest seen)
        | Inr agent \<Rightarrow>
            if agent \<in> set seen then repair_loop env cf job_id path issue task_id rest seen
            else act_bind (repair_once env cf job_id path issue task_id cycle agent) (\<lambda>repaired.
                   if repaired then ret True
                   else repair_loop env cf job_id path issue task_id rest (agent # seen))))"

definition number_from :: "int \<Rightarrow> 'a list \<Rightarrow> (int \<times> 'a) list" where
  "number_from n xs = zip (map int [nat n..<nat n + length xs]) xs"

definition repair_integration ::
  "'g env \<Rightarrow> config \<Rightarrow> string \<Rightarrow> string \<Rightarrow> string \<Rightarrow> string option \<Rightarrow> ('g, bool) act" where
  "repair_integration env cf job_id path issue task_id =
     repair_loop env cf job_id path issue task_id
       (number_from 1 (integrator_agent (cf_engine cf) # worker_names cf)) []"

section \<open>Integrating a task\<close>

definition conflict_unresolved :: string where
  "conflict_unresolved = ''Integration merge conflict could not be resolved autonomously.''"

text \<open>The merge; the value says whether the branch is merged.\<close>

definition merge_task ::
  "'g env \<Rightarrow> config \<Rightarrow> string \<Rightarrow> task_row \<Rightarrow> string \<Rightarrow> ('g, bool) act" where
  "merge_task env cf job_id task path =
     handle_error (act_then (x_git env ''merge'' [path, t_branch task]) (ret True))
       (\<lambda>e. case e of
          MergeConflict text \<Rightarrow>
            act_then (emit env job_id ''integration.conflict'' [(''error'', jtext text)] (Some (t_id task)))
              (act_bind (resolve_merge_conflict env cf job_id task path text) (\<lambda>resolved.
                 if resolved then ret True
                 else act_then (x_git env ''abort_merge'' [path]) (ret False)))
        | _ \<Rightarrow> raise_exc (Raised e))"

definition rollback :: "'g env \<Rightarrow> string \<Rightarrow> string \<Rightarrow> ('g, unit) act" where
  "rollback env path pre_merge =
     act_then (handle_error (x_git env ''abort_merge'' [path]) (\<lambda>_. ret ()))
       (x_git env ''reset_hard'' [path, pre_merge])"

definition integrate_body ::
  "'g env \<Rightarrow> config \<Rightarrow> string \<Rightarrow> task_row \<Rightarrow> string \<Rightarrow> string \<Rightarrow> ('g, bool \<times> string) act" where
  "integrate_body env cf job_id task path pre_merge =
     act_bind (merge_task env cf job_id task path) (\<lambda>merged.
     if \<not> merged then ret (False, conflict_unresolved) else
     act_bind (run_gates env cf job_id (Some task) path False ''integration'') (\<lambda>gates.
     let completed =
           act_bind (x_head env path) (\<lambda>head.
             act_then (emit env job_id ''integration.completed''
                         [(''task'', jtext (t_logical_id task)), (''head'', jtext head)] (Some (t_id task)))
               (ret (True, '''')))
     in if list_all gate_ok gates then completed
        else
          let issue = ''Post-merge integration gates failed:'' @ newline @ format_gates gates
          in act_bind (repair_integration env cf job_id path issue (Some (t_id task))) (\<lambda>repaired.
             act_bind (if repaired
                       then run_gates env cf job_id (Some task) path False ''integration-repair''
                       else ret gates) (\<lambda>gates.
             if \<not> repaired \<or> \<not> list_all gate_ok gates then
               act_then (x_git env ''reset_hard'' [path, pre_merge])
                 (act_then (emit env job_id ''integration.rolled_back''
                              [(''task'', jtext (t_logical_id task))] (Some (t_id task)))
                   (ret (False, issue)))
             else completed))))"

definition integrate_task ::
  "'g env \<Rightarrow> config \<Rightarrow> string \<Rightarrow> task_row \<Rightarrow> string \<Rightarrow> ('g, bool \<times> string) act" where
  "integrate_task env cf job_id task path =
     act_then (x_wait env ''merge_lock'')
       (act_then (x_wait env ''repo_lock'')
         (act_then (tx env (\<lambda>now. update_task now (t_id task) (no_task_update\<lparr>tu_state := Some TaskIntegrating\<rparr>)))
           (act_bind (x_head env path) (\<lambda>pre_merge.
             handle_all (integrate_body env cf job_id task path pre_merge)
               (\<lambda>e. act_then (finish_before_cancel env (rollback env path pre_merge)) (raise_exc e))))))"

section \<open>The final review\<close>

text \<open>\<open>_review_failure\<close>: the findings of the reviews that did not pass, each with its label.\<close>

fun failure_findings :: "(string \<times> review_result) list \<Rightarrow> string list" where
  "failure_findings [] = []"
| "failure_findings ((label, review) # entries) =
     (if review_passed review then failure_findings entries
      else map (\<lambda>finding. label @ '': '' @ finding)
             (filter (\<lambda>f. f \<noteq> [])
               (if rv_findings review \<noteq> [] then rv_findings review else [rv_summary review]))
           @ failure_findings entries)"

definition saw_fail :: "(string \<times> review_result) list \<Rightarrow> bool" where
  "saw_fail entries =
     list_ex (\<lambda>(_, review). \<not> review_passed review \<and> rv_verdict review = ''fail'') entries"

definition review_failure ::
  "string \<Rightarrow> (string \<times> review_result) list \<Rightarrow> review_result option" where
  "review_failure summary entries =
     (let findings = failure_findings entries;
          bounded = py_first 64 findings
      in if findings = [] then None
         else Some \<lparr>rv_verdict = (if saw_fail entries then ''fail'' else ''retry''), rv_summary = summary,
           rv_findings = bounded @
             (if length findings > length bounded
              then [int_str (int (length findings - length bounded)) @ '' additional findings omitted'']
              else [])\<rparr>)"

definition review_event :: "review_result \<Rightarrow> (string \<times> json) list" where
  "review_event r =
     [(''verdict'', jtext (rv_verdict r)), (''summary'', jtext (rv_summary r)),
      (''findings'', jtexts (rv_findings r))]"

type_synonym file_reviews = "(string \<times> review_result list) list"

fun append_review :: "string \<Rightarrow> review_result \<Rightarrow> file_reviews \<Rightarrow> file_reviews" where
  "append_review path r [] = []"
| "append_review path r ((p, rs) # rest) =
     (if p = path then (p, rs @ [r]) # rest else (p, rs) # append_review path r rest)"

fun attribute_review ::
  "string list \<Rightarrow> review_result \<Rightarrow> file_reviews \<Rightarrow> py_error + file_reviews" where
  "attribute_review [] r by_file = Inr by_file"
| "attribute_review (path # paths) r by_file =
     (if path \<notin> fst ` set by_file
      then Inl (YoloError (''final-review shard referenced a file outside the manifest: '' @ path))
      else attribute_review paths r (append_review path r by_file))"

definition final_log :: "config \<Rightarrow> string \<Rightarrow> int \<Rightarrow> string \<Rightarrow> string \<Rightarrow> string" where
  "final_log cf job_id cycle part reviewer =
     path_join [logs_dir cf, job_id, ''final'',
       ''review-'' @ int_str cycle @ ''-'' @ part @ ''-'' @ reviewer @ ''.log'']"

text \<open>The loop over the shards: the reviews by file, and the labelled results in order.\<close>

fun review_shards ::
  "'g env \<Rightarrow> config \<Rightarrow> job_row \<Rightarrow> string \<Rightarrow> gate_result list \<Rightarrow> string \<Rightarrow> int \<Rightarrow> int \<Rightarrow> shard list \<Rightarrow>
   file_reviews \<Rightarrow> (string \<times> review_result) list \<Rightarrow>
   ('g, file_reviews \<times> (string \<times> review_result) list) act" where
  "review_shards env cf job path gates reviewer cycle count [] by_file results = ret (by_file, results)"
| "review_shards env cf job path gates reviewer cycle count (chunk # chunks) by_file results =
     act_bind (review_final_chunk env (j_goal job) chunk count gates path reviewer
                 (final_log cf (j_id job) cycle (''chunk-'' @ int_str (sh_index chunk)) reviewer)) (\<lambda>review.
     act_then (emit env (j_id job) ''final.review_chunk''
         ([(''cycle'', JInt cycle), (''chunk'', JInt (sh_index chunk)), (''chunks'', JInt count),
           (''files'', jtexts (sh_files chunk))] @ review_event review) None)
     (act_bind (of_result (attribute_review (sh_files chunk) review by_file)) (\<lambda>by_file.
       review_shards env cf job path gates reviewer cycle count chunks by_file
         (results @ [(''chunk '' @ int_str (sh_index chunk), review)]))))"

definition lost_coverage :: "string \<Rightarrow> review_result" where
  "lost_coverage path =
     \<lparr>rv_verdict = ''fail'', rv_summary = ''hierarchical review lost changed-file coverage'',
      rv_findings = [''no reviewed shard represented '' @ path]\<rparr>"

text \<open>The loop over the files: a file without a reviewed shard ends the review at once.\<close>

fun review_files ::
  "'g env \<Rightarrow> config \<Rightarrow> job_row \<Rightarrow> string \<Rightarrow> gate_result list \<Rightarrow> string \<Rightarrow> int \<Rightarrow> file_reviews \<Rightarrow>
   string list \<Rightarrow> (string \<times> review_result) list \<Rightarrow>
   ('g, review_result + (string \<times> review_result) list) act" where
  "review_files env cf job path gates reviewer cycle by_file [] reviewed = ret (Inr reviewed)"
| "review_files env cf job path gates reviewer cycle by_file (file # files) reviewed =
     (let reviews = (case map_of by_file file of None \<Rightarrow> [] | Some rs \<Rightarrow> rs)
      in if reviews = [] then ret (Inl (lost_coverage file))
         else
           act_bind (if length reviews = 1 then ret (hd reviews)
                     else review_file_synthesis env (j_goal job) gates file reviews path reviewer
                            (final_log cf (j_id job) cycle
                              (''file-'' @ int_str (int (length reviewed + 1))) reviewer)) (\<lambda>file_review.
           act_then (emit env (j_id job) ''final.review_file''
               ([(''cycle'', JInt cycle), (''file'', jtext file), (''shards'', JInt (int (length reviews))),
                 (''synthesized'', JBool (length reviews \<noteq> 1))] @ review_event file_review) None)
             (review_files env cf job path gates reviewer cycle by_file files (reviewed @ [(file, file_review)]))))"

text \<open>The part behind the shards: their failure, the files, and the final synthesis.\<close>

definition review_synthesis ::
  "'g env \<Rightarrow> config \<Rightarrow> job_row \<Rightarrow> string \<Rightarrow> gate_result list \<Rightarrow> string \<Rightarrow> int \<Rightarrow> string list \<Rightarrow>
   (string \<times> review_result) list \<Rightarrow> ('g, review_result) act" where
  "review_synthesis env cf job path gates reviewer cycle manifest file_reviews =
     (case review_failure ''file-level semantic synthesis found material defects'' file_reviews of
        Some failure \<Rightarrow> ret failure
      | None \<Rightarrow>
          act_bind (review_final_synthesis env (j_goal job) gates manifest (Some file_reviews) []
                      path reviewer (final_log cf (j_id job) cycle ''synthesis'' reviewer)) (\<lambda>synthesis.
          act_then (emit env (j_id job) ''final.review_synthesis''
                      ((''cycle'', JInt cycle) # review_event synthesis) None)
            (ret synthesis)))"

definition review_verdict ::
  "'g env \<Rightarrow> config \<Rightarrow> job_row \<Rightarrow> string \<Rightarrow> gate_result list \<Rightarrow> string \<Rightarrow> int \<Rightarrow> string list \<Rightarrow>
   file_reviews \<Rightarrow> (string \<times> review_result) list \<Rightarrow> ('g, review_result) act" where
  "review_verdict env cf job path gates reviewer cycle manifest by_file results =
     (case review_failure ''hierarchical shard audit found material defects'' results of
        Some failure \<Rightarrow> ret failure
      | None \<Rightarrow>
          act_bind (review_files env cf job path gates reviewer cycle by_file manifest []) (\<lambda>files.
          case files of
            Inl failure \<Rightarrow> ret failure
          | Inr file_reviews \<Rightarrow>
              review_synthesis env cf job path gates reviewer cycle manifest file_reviews))"

definition hierarchical_final_review ::
  "'g env \<Rightarrow> config \<Rightarrow> string \<Rightarrow> string \<Rightarrow> gate_result list \<Rightarrow> string \<Rightarrow> int \<Rightarrow> ('g, review_result) act" where
  "hierarchical_final_review env cf job_id path gates reviewer cycle =
     act_bind (read_db (get_job job_id)) (\<lambda>job.
     act_bind (x_shards env path (j_base_commit job)) (\<lambda>(manifest, chunks).
     act_then (emit env job_id ''final.review_manifest''
         [(''cycle'', JInt cycle), (''files'', JInt (int (length manifest))),
          (''chunks'', JInt (int (length chunks)))] None)
     (act_bind (review_shards env cf job path gates reviewer cycle (int (length chunks)) chunks
                  (map (\<lambda>p. (p, [])) manifest) []) (\<lambda>(by_file, results).
        review_verdict env cf job path gates reviewer cycle manifest by_file results))))"

section \<open>Finalisation\<close>

definition audit_error :: "review_result \<Rightarrow> py_error" where
  "audit_error r = YoloError (''final audit did not pass: '' @
     (if join_with ''; '' (rv_findings r) \<noteq> [] then join_with ''; '' (rv_findings r) else rv_summary r))"

definition audit_issue :: "review_result \<Rightarrow> string" where
  "audit_issue r = ''Final audit findings:'' @ newline @ join_with newline (rv_findings r) @
     (if rv_summary r \<noteq> [] then newline @ ''Summary: '' @ rv_summary r else [])"

text \<open>The loop over the cycles; the counter is the number of cycles left.\<close>

fun finalize_loop ::
  "'g env \<Rightarrow> config \<Rightarrow> string \<Rightarrow> string \<Rightarrow> string \<Rightarrow> nat \<Rightarrow> int \<Rightarrow> ('g, string) act" where
  "finalize_loop env cf job_id path reviewer 0 cycle =
     raise_exc (Raised (YoloError ''finalization exhausted without a passing audit''))"
| "finalize_loop env cf job_id path reviewer (Suc left) cycle =
     act_bind (run_gates env cf job_id None path True (''cycle-'' @ int_str cycle)) (\<lambda>gates.
     if \<not> list_all gate_ok gates then
       (let issue = ''Final repository gates failed:'' @ newline @ format_gates gates
        in if cycle \<ge> max_final_cycles (cf_engine cf) then raise_exc (Raised (YoloError issue))
           else act_bind (repair_integration env cf job_id path issue None) (\<lambda>repaired.
             if \<not> repaired
             then raise_exc (Raised (YoloError
                    ''final gates failed and no integration agent could repair them''))
             else finalize_loop env cf job_id path reviewer left (cycle + 1)))
     else
       act_bind (hierarchical_final_review env cf job_id path gates reviewer cycle) (\<lambda>review.
       act_then (emit env job_id ''final.reviewed'' ((''cycle'', JInt cycle) # review_event review) None)
         (if review_passed review
          then ret (or_text (rv_summary review) ''All tasks, gates, and final review passed.'')
          else if cycle \<ge> max_final_cycles (cf_engine cf) then raise_exc (Raised (audit_error review))
          else act_bind (repair_integration env cf job_id path (audit_issue review) None) (\<lambda>repaired.
            if \<not> repaired
            then raise_exc (Raised (YoloError
                   ''final audit requested repairs but no integration agent could complete them''))
            else finalize_loop env cf job_id path reviewer left (cycle + 1)))))"

definition finalize :: "'g env \<Rightarrow> config \<Rightarrow> string \<Rightarrow> string \<Rightarrow> ('g, string) act" where
  "finalize env cf job_id path =
     act_bind (read_world (x_registry env)) (\<lambda>reg.
     act_bind (of_result (choose_role reg (reviewer_agent (cf_engine cf)) (worker_names cf) None
                            (Some RoleReviewer))) (\<lambda>reviewer.
       finalize_loop env cf job_id path reviewer (nat (max_final_cycles (cf_engine cf) + 1)) 0))"

section \<open>Cleanup\<close>

fun cleanup_tasks :: "'g env \<Rightarrow> task_row list \<Rightarrow> ('g, unit) act" where
  "cleanup_tasks env [] = ret ()"
| "cleanup_tasks env (task # tasks) =
     act_bind (read_world (x_exists env (t_worktree task))) (\<lambda>present.
     act_then (act_when (t_worktree task \<noteq> [] \<and> present) (x_git env ''remove_worktree'' [t_worktree task]))
     (act_then (act_when (t_branch task \<noteq> []) (x_git env ''delete_branch'' [t_branch task]))
       (cleanup_tasks env tasks)))"

definition cleanup_completed :: "'g env \<Rightarrow> config \<Rightarrow> string \<Rightarrow> string \<Rightarrow> ('g, unit) act" where
  "cleanup_completed env cf job_id path =
     act_then (x_wait env ''repo_lock'')
       (act_bind (read_db (\<lambda>db. Inr (list_tasks job_id db))) (\<lambda>tasks.
        act_then (cleanup_tasks env tasks)
          (act_bind (read_world (x_exists env path)) (\<lambda>present.
           act_then (act_when present (x_git env ''remove_worktree'' [path]))
             (let job_root = path_join [worktrees_dir cf, job_id]
              in act_bind (read_world (x_exists env job_root)) (\<lambda>present.
                   act_when present (x_git env ''rmtree'' [job_root])))))))"

section \<open>Only store transactions\<close>

lemma steps_case_sum [steps_intros]:
  "(\<And>a. steps sha (f a)) \<Longrightarrow> (\<And>b. steps sha (h b)) \<Longrightarrow> steps sha (case r of Inl a \<Rightarrow> f a | Inr b \<Rightarrow> h b)"
  by (cases r) auto

lemma steps_case_option [steps_intros]:
  "steps sha f \<Longrightarrow> (\<And>b. steps sha (h b)) \<Longrightarrow> steps sha (case r of None \<Rightarrow> f | Some b \<Rightarrow> h b)"
  by (cases r) auto

lemma steps_case_prod [steps_intros]:
  "(\<And>a b. steps sha (f a b)) \<Longrightarrow> steps sha (case p of (a, b) \<Rightarrow> f a b)"
  by (cases p) auto

lemma steps_unless [steps_intros]: "steps sha m \<Longrightarrow> steps sha (unless_git_error m)"
  unfolding unless_git_error_def by (intro steps_intros)

lemma steps_run_gates [steps_intros]: "env_ok env \<Longrightarrow> steps (x_sha env) (run_gates env cf jid task cwd final suffix)"
  unfolding run_gates_def Let_def by (intro steps_intros)

lemma steps_finish_merge [steps_intros]: "env_ok env \<Longrightarrow> steps (x_sha env) (finish_merge env path)"
  unfolding finish_merge_def by (intro steps_intros)

lemma steps_resolve [steps_intros]: "env_ok env \<Longrightarrow> steps (x_sha env) (resolve_cycles env cf jid task path err cycles)"
proof (induction cycles)
  case (Cons c cs)
  show ?case
    unfolding resolve_cycles.simps
    by (intro steps_intros Cons.IH Cons.prems)
qed (simp add: steps_ret)

lemma steps_repair_once [steps_intros]: "env_ok env \<Longrightarrow> steps (x_sha env) (repair_once env cf jid path issue tid cycle agent)"
  unfolding repair_once_def repair_error_def by (intro steps_intros)

lemma steps_repair_loop [steps_intros]: "env_ok env \<Longrightarrow> steps (x_sha env) (repair_loop env cf jid path issue tid cands seen)"
proof (induction cands arbitrary: seen)
  case (Cons c cs)
  then show ?case
    by (cases c) (auto simp: repair_error_def intro!: steps_intros)
qed (simp add: steps_ret)

lemma steps_repair [steps_intros]: "env_ok env \<Longrightarrow> steps (x_sha env) (repair_integration env cf jid path issue tid)"
  unfolding repair_integration_def by (rule steps_repair_loop)

lemma steps_merge_task [steps_intros]: "env_ok env \<Longrightarrow> steps (x_sha env) (merge_task env cf jid task path)"
  unfolding merge_task_def resolve_merge_conflict_def
  by (intro steps_intros) (auto intro!: steps_intros split: py_error.split)

lemma steps_rollback [steps_intros]: "env_ok env \<Longrightarrow> steps (x_sha env) (rollback env path commit)"
  unfolding rollback_def by (intro steps_intros)

lemma steps_integrate_task [steps_intros]: "env_ok env \<Longrightarrow> steps (x_sha env) (integrate_task env cf jid task path)"
  unfolding integrate_task_def integrate_body_def Let_def
  by (intro steps_intros)

lemma steps_review_shards [steps_intros]:
  "env_ok env \<Longrightarrow> steps (x_sha env) (review_shards env cf job path gates rv cycle count chunks by_file results)"
  by (induction chunks arbitrary: by_file results) (auto intro!: steps_intros)

lemma steps_review_files [steps_intros]:
  "env_ok env \<Longrightarrow> steps (x_sha env) (review_files env cf job path gates rv cycle by_file files reviewed)"
  by (induction files arbitrary: reviewed) (auto simp: Let_def intro!: steps_intros)

lemma steps_hierarchical [steps_intros]: "env_ok env \<Longrightarrow> steps (x_sha env) (hierarchical_final_review env cf jid path gates rv cycle)"
  unfolding hierarchical_final_review_def review_verdict_def review_synthesis_def
  by (intro steps_intros)

lemma steps_finalize_loop [steps_intros]: "env_ok env \<Longrightarrow> steps (x_sha env) (finalize_loop env cf jid path rv left cycle)"
  by (induction left arbitrary: cycle)
    (auto simp: Let_def intro!: steps_intros)

lemma steps_finalize [steps_intros]: "env_ok env \<Longrightarrow> steps (x_sha env) (finalize env cf jid path)"
  unfolding finalize_def by (intro steps_intros)

lemma steps_cleanup_tasks [steps_intros]: "env_ok env \<Longrightarrow> steps (x_sha env) (cleanup_tasks env tasks)"
  by (induction tasks) (auto simp del: act_when.simps intro!: steps_intros)

lemma steps_cleanup [steps_intros]: "env_ok env \<Longrightarrow> steps (x_sha env) (cleanup_completed env cf jid path)"
  unfolding cleanup_completed_def Let_def by (intro steps_intros)

section \<open>What a passing review means\<close>

definition says_nothing :: "review_result \<Rightarrow> bool" where
  "says_nothing r \<longleftrightarrow>
     list_all (\<lambda>f. f = []) (if rv_findings r \<noteq> [] then rv_findings r else [rv_summary r])"

lemma failure_findings_Nil:
  "failure_findings entries = [] \<longleftrightarrow>
   (\<forall>(label, r) \<in> set entries. review_passed r \<or> says_nothing r)"
  by (induction entries rule: failure_findings.induct)
    (auto simp: says_nothing_def filter_empty_conv list_all_iff)

lemma review_failure_None:
  "review_failure summary entries = None \<longleftrightarrow>
   (\<forall>(label, r) \<in> set entries. review_passed r \<or> says_nothing r)"
  unfolding failure_findings_Nil [symmetric] by (simp add: review_failure_def Let_def)

lemma review_failure_Some:
  "review_failure summary entries = Some r \<Longrightarrow>
   \<not> review_passed r \<and> rv_findings r \<noteq> [] \<and> length (rv_findings r) \<le> 65"
  by (auto simp: review_failure_def Let_def review_passed_def py_first_def split: if_splits)

lemma review_shards_Inr:
  "review_shards env cf job path gates rv cycle count chunks by_file results s = (Inr (bf, rs), t) \<Longrightarrow>
   \<exists>rs'. rs = results @ rs' \<and> length rs' = length chunks \<and> list_all (\<lambda>(l, r). review_ok r) rs'"
proof (induction chunks arbitrary: by_file results s)
  case Nil
  then show ?case by simp
next
  case (Cons c cs)
  from Cons.prems obtain review u v w bf' where
    r: "review_final_chunk env (j_goal job) c count gates path rv
          (final_log cf (j_id job) cycle (''chunk-'' @ int_str (sh_index c)) rv) s = (Inr review, u)"
    and rest: "review_shards env cf job path gates rv cycle count cs bf'
          (results @ [(''chunk '' @ int_str (sh_index c), review)]) w = (Inr (bf, rs), t)"
    by (auto simp: act_bind_Inr act_then_Inr of_result_Inr)
  have "review_ok review" using r unfolding review_final_chunk_def by (rule reviewer_run_Inr)
  with Cons.IH [OF rest] show ?case by auto
qed

lemma review_files_Inr:
  "review_files env cf job path gates rv cycle by_file files reviewed s = (Inr (Inr frs), t) \<Longrightarrow>
   map fst frs = map fst reviewed @ files"
proof (induction files arbitrary: reviewed s)
  case Nil
  then show ?case by simp
next
  case (Cons f fs)
  from Cons.prems obtain r u where
    "review_files env cf job path gates rv cycle by_file fs (reviewed @ [(f, r)]) u = (Inr (Inr frs), t)"
    by (auto simp: Let_def act_bind_Inr act_then_Inr split: if_splits)
  from Cons.IH [OF this] show ?case by simp
qed

lemma review_files_Inl:
  "review_files env cf job path gates rv cycle by_file files reviewed s = (Inr (Inl r), t) \<Longrightarrow>
   \<not> review_passed r"
proof (induction files arbitrary: reviewed s)
  case Nil
  then show ?case by simp
next
  case (Cons f fs)
  show ?case
  proof (cases "(case map_of by_file f of None \<Rightarrow> [] | Some rs \<Rightarrow> rs) = []")
    case True
    with Cons.prems have "r = lost_coverage f" by simp
    then show ?thesis by (simp add: lost_coverage_def review_passed_def)
  next
    case False
    with Cons.prems obtain x u where
      "review_files env cf job path gates rv cycle by_file fs (reviewed @ [(f, x)]) u = (Inr (Inl r), t)"
      by (auto simp: Let_def elim!: act_bind_InrE act_then_InrE)
    from Cons.IH [OF this] show ?thesis .
  qed
qed

text \<open>
  A passing final review: shards were made, every one was reviewed, every file of the manifest has
  a report, no report that did not pass says anything, and the synthesis passed.
\<close>

definition covered :: "string list \<Rightarrow> shard list \<Rightarrow> (string \<times> review_result) list \<Rightarrow>
    (string \<times> review_result) list \<Rightarrow> bool" where
  "covered manifest chunks results files \<longleftrightarrow>
     length results = length chunks \<and> map fst files = manifest \<and>
     list_all (\<lambda>(l, r). review_ok r \<and> (review_passed r \<or> says_nothing r)) results \<and>
     list_all (\<lambda>(l, r). review_passed r \<or> says_nothing r) files"

lemma review_synthesis_passed:
  assumes "review_synthesis env cf job path gates rv cycle manifest files s = (Inr review, t)"
    and "review_passed review"
  shows "list_all (\<lambda>(l, r). review_passed r \<or> says_nothing r) files \<and> review_ok review"
proof (cases "review_failure ''file-level semantic synthesis found material defects'' files")
  case (Some r)
  with assms review_failure_Some [OF Some] show ?thesis by (auto simp: review_synthesis_def)
next
  case None
  with assms(1) obtain u where
    run: "review_final_synthesis env (j_goal job) gates manifest (Some files) [] path rv
      (final_log cf (j_id job) cycle ''synthesis'' rv) s = (Inr review, u)"
    unfolding review_synthesis_def by (auto elim!: act_bind_InrE act_then_InrE)
  have "review_ok review"
    using run unfolding review_final_synthesis_def Let_def
    by (auto split: if_splits intro: reviewer_run_Inr)
  with None show ?thesis by (auto simp: review_failure_None list_all_iff)
qed

lemma review_verdict_passed:
  assumes "review_verdict env cf job path gates rv cycle manifest bf results s = (Inr review, t)"
    and "review_passed review"
  shows "\<exists>files. list_all (\<lambda>(l, r). review_passed r \<or> says_nothing r) results \<and>
    map fst files = manifest \<and> list_all (\<lambda>(l, r). review_passed r \<or> says_nothing r) files \<and>
    review_ok review"
proof (cases "review_failure ''hierarchical shard audit found material defects'' results")
  case (Some r)
  with assms review_failure_Some [OF Some] show ?thesis by (auto simp: review_verdict_def)
next
  case None
  with assms(1) obtain fr u where
    fr: "review_files env cf job path gates rv cycle bf manifest [] s = (Inr fr, u)"
    and rest: "(case fr of Inl failure \<Rightarrow> ret failure
      | Inr file_reviews \<Rightarrow> review_synthesis env cf job path gates rv cycle manifest file_reviews) u =
      (Inr review, t)"
    unfolding review_verdict_def by (auto elim!: act_bind_InrE)
  show ?thesis
  proof (cases fr)
    case (Inr files)
    with rest have "review_synthesis env cf job path gates rv cycle manifest files u = (Inr review, t)"
      by simp
    from review_synthesis_passed [OF this assms(2)] review_files_Inr [of env cf job path gates rv cycle bf manifest "[]" s files u]
      fr Inr None
    show ?thesis by (intro exI [of _ files]) (auto simp: review_failure_None list_all_iff)
  next
    case (Inl failure)
    with rest have "review = failure" by simp
    with Inl fr have "\<not> review_passed review" by (simp add: review_files_Inl)
    with assms(2) show ?thesis by simp
  qed
qed

lemma hierarchical_passed:
  assumes "hierarchical_final_review env cf jid path gates rv cycle s = (Inr review, t)"
    and "review_passed review"
  shows "\<exists>(job :: job_row) manifest chunks results files u v. x_shards env path (j_base_commit job) u =
      (Inr (manifest, chunks), v) \<and> covered manifest chunks results files \<and> review_ok review"
proof -
  from assms(1) obtain job mc bf_rs u v w x where
    sh: "x_shards env path (j_base_commit job) u = (Inr mc, v)"
    and rs: "review_shards env cf job path gates rv cycle (int (length (snd mc))) (snd mc)
        (map (\<lambda>p. (p, [])) (fst mc)) [] w = (Inr bf_rs, x)"
    and verdict: "review_verdict env cf job path gates rv cycle (fst mc) (fst bf_rs) (snd bf_rs) x =
        (Inr review, t)"
    unfolding hierarchical_final_review_def case_prod_beta
    by (elim act_bind_InrE act_then_InrE) blast
  from review_verdict_passed [OF verdict assms(2)] obtain files where
    f: "list_all (\<lambda>(l, r). review_passed r \<or> says_nothing r) (snd bf_rs)" "map fst files = fst mc"
      "list_all (\<lambda>(l, r). review_passed r \<or> says_nothing r) files" "review_ok review" by blast
  have "review_shards env cf job path gates rv cycle (int (length (snd mc))) (snd mc)
        (map (\<lambda>p. (p, [])) (fst mc)) [] w = (Inr (fst bf_rs, snd bf_rs), x)" using rs by simp
  from review_shards_Inr [OF this] f(1) have "length (snd bf_rs) = length (snd mc)"
    "list_all (\<lambda>(l, r). review_ok r \<and> (review_passed r \<or> says_nothing r)) (snd bf_rs)"
    by (auto simp: list_all_iff)
  with f have "covered (fst mc) (snd mc) (snd bf_rs) files" by (simp add: covered_def)
  moreover from sh have "x_shards env path (j_base_commit job) u = (Inr (fst mc, snd mc), v)" by simp
  ultimately show ?thesis using f(4) by blast
qed

lemma finalize_loop_Inr:
  assumes "finalize_loop env cf jid path rv left cycle s = (Inr summary, t)"
    and "int left + cycle = max_final_cycles (cf_engine cf) + 1"
  shows "\<exists>c gates review s1 s2 s3. cycle \<le> c \<and> c \<le> max_final_cycles (cf_engine cf) \<and>
    run_gates env cf jid None path True (''cycle-'' @ int_str c) s1 = (Inr gates, s2) \<and>
    list_all gate_ok gates \<and>
    hierarchical_final_review env cf jid path gates rv c s2 = (Inr review, s3) \<and>
    review_passed review \<and> summary = rv_summary review"
  using assms
proof (induction left arbitrary: cycle s)
  case 0
  then show ?case by simp
next
  case (Suc left)
  let ?repair = "\<lambda>issue msg. act_bind (repair_integration env cf jid path issue None) (\<lambda>repaired.
             if \<not> repaired then raise_exc (Raised (YoloError msg))
             else finalize_loop env cf jid path rv left (cycle + 1))"
  let ?rest = "\<lambda>review. act_then (emit env jid ''final.reviewed'' ((''cycle'', JInt cycle) # review_event review) None)
         (if review_passed review
          then ret (or_text (rv_summary review) ''All tasks, gates, and final review passed.'')
          else if cycle \<ge> max_final_cycles (cf_engine cf) then raise_exc (Raised (audit_error review))
          else ?repair (audit_issue review)
            ''final audit requested repairs but no integration agent could complete them'')"
  let ?issue = "\<lambda>gates. ''Final repository gates failed:'' @ newline @ format_gates gates"
  let ?body = "\<lambda>gates. if \<not> list_all gate_ok gates then
       (let issue = ?issue gates
        in if cycle \<ge> max_final_cycles (cf_engine cf) then raise_exc (Raised (YoloError issue))
           else ?repair issue ''final gates failed and no integration agent could repair them'')
     else act_bind (hierarchical_final_review env cf jid path gates rv cycle) ?rest"
  from Suc.prems(1) [unfolded finalize_loop.simps] obtain gates u where
    g: "run_gates env cf jid None path True (''cycle-'' @ int_str cycle) s = (Inr gates, u)"
    and body: "?body gates u = (Inr summary, t)"
    by (rule act_bind_InrE)
  have later: ?case if "finalize_loop env cf jid path rv left (cycle + 1) v = (Inr summary, t)" for v
  proof -
    have "int left + (cycle + 1) = max_final_cycles (cf_engine cf) + 1" using Suc.prems(2) by simp
    from Suc.IH [OF that this] obtain c gates review s1 s2 s3 where c: "cycle + 1 \<le> c"
      and rest: "c \<le> max_final_cycles (cf_engine cf)"
        "run_gates env cf jid None path True (''cycle-'' @ int_str c) s1 = (Inr gates, s2)"
        "list_all gate_ok gates"
        "hierarchical_final_review env cf jid path gates rv c s2 = (Inr review, s3)"
        "review_passed review" "summary = rv_summary review" by blast
    from c have "cycle \<le> c" by simp
    with rest show ?thesis by blast
  qed
  show ?case
  proof (cases "list_all gate_ok gates")
    case False
    with body have "?repair (?issue gates) ''final gates failed and no integration agent could repair them'' u = (Inr summary, t)"
      by (simp only: Let_def if_False if_True not_False_eq_True split: if_splits) simp_all
    then obtain v where "finalize_loop env cf jid path rv left (cycle + 1) v = (Inr summary, t)"
      by (auto elim!: act_bind_InrE split: if_splits)
    then show ?thesis by (rule later)
  next
    case True
    with body have "act_bind (hierarchical_final_review env cf jid path gates rv cycle) ?rest u = (Inr summary, t)"
      by simp
    then obtain review v where
      r: "hierarchical_final_review env cf jid path gates rv cycle u = (Inr review, v)"
      and rest: "?rest review v = (Inr summary, t)" by (rule act_bind_InrE)
    show ?thesis
    proof (cases "review_passed review")
      case passed: True
      with hierarchical_passed [OF r] have "rv_summary review \<noteq> []"
        by (auto simp: review_ok_def)
      with rest passed have "summary = rv_summary review"
        by (auto simp: or_text_def elim!: act_then_InrE)
      moreover have "cycle \<le> cycle" "cycle \<le> max_final_cycles (cf_engine cf)"
        using Suc.prems(2) by simp_all
      ultimately show ?thesis using g r True passed by blast
    next
      case False
      with rest obtain w where "finalize_loop env cf jid path rv left (cycle + 1) w = (Inr summary, t)"
        by (auto elim!: act_then_InrE act_bind_InrE split: if_splits)
      then show ?thesis by (rule later)
    qed
  qed
qed

section \<open>A concrete environment\<close>

text \<open>
  Every agent answers with one character that names its verdict; every Git command succeeds; the
  candidate changes one file. The world is a list of verdicts for the shards still to come.
\<close>

definition demo_answer :: "payload_dict \<Rightarrow> string \<Rightarrow> payload_dict" where
  "demo_answer d c =
     (if c = ''+'' then [(''verdict'', PStr ''pass''), (''summary'', PStr ''good'')]
      else if c = ''-'' then [(''verdict'', PStr ''fail''), (''summary'', PStr ''broken''),
                              (''findings'', PList [PStr [CHR '' '']])]
      else d)"

fun demo_stdout :: "string \<Rightarrow> agent_prompt \<Rightarrow> string" where
  "demo_stdout shard_verdict (PlannerPrompt goal) = ''{p''"
| "demo_stdout shard_verdict (FinalChunkPrompt a b c d e f) = CHR ''{'' # shard_verdict"
| "demo_stdout shard_verdict p = ''{+''"

text \<open>An event loop that runs the first coroutine to its end.\<close>

fun run_first :: "(string \<times> ('g, bool) act) list \<Rightarrow> ('g, (string \<times> (exc + bool)) list) act" where
  "run_first [] = ret []"
| "run_first ((name, m) # hs) = (\<lambda>s. case m s of (r, t) \<Rightarrow> (Inr [(name, r)], t))"

lemma steps_run_first:
  assumes "\<And>h. h \<in> set hs \<Longrightarrow> steps sha (snd h)"
  shows "steps sha (run_first hs)"
proof (cases hs)
  case Nil
  then show ?thesis by (simp add: steps_ret)
next
  case (Cons h rest)
  with assms have "steps sha (snd h)" by simp
  then show ?thesis unfolding Cons by (cases h) (simp add: steps_def split_beta)
qed

definition demo_env :: "payload_dict \<Rightarrow> string \<Rightarrow> unit env" where
  "demo_env plan_answer shard_verdict =
     \<lparr>x_now = (\<lambda>g. (1, g)), x_fresh = (\<lambda>g. (''00000000000000'', g)),
      x_registry = (\<lambda>_. [\<lparr>av_name = ''codex'', av_available = True, av_profile = (\<lambda>_. True), av_role = None\<rparr>]),
      x_cancelled = (\<lambda>_. False), x_exists = (\<lambda>_ _. False), x_detect = (\<lambda>_ _. [''make test'']),
      x_decode = (\<lambda>w i. if i = 0 then Some (PDict (demo_answer plan_answer (drop 1 w))) else None),
      x_float = (\<lambda>_. cps ''0.0''), x_sha = demo_sha,
      x_wait = (\<lambda>_. ret ()),
      x_agent = (\<lambda>call. ret \<lparr>ar_returncode = 0,
         ar_stdout = demo_stdout shard_verdict (call_prompt call), ar_stderr = ''''\<rparr>),
      x_gates = (\<lambda>commands _ _. ret (map (\<lambda>c. \<lparr>gr_command = c, gr_returncode = 0, gr_stdout = '''',
         gr_stderr = '''', gr_duration_seconds = 0, gr_timed_out = False\<rparr>) commands)),
      x_head = (\<lambda>_. ret ''c1''), x_git_bool = (\<lambda>_ _. ret True), x_git = (\<lambda>_ _. ret ()),
      x_diff = (\<lambda>_ _. ret ''+x''), x_unresolved = (\<lambda>_. ret []),
      x_shards = (\<lambda>_ _. ret ([''a.py''], [\<lparr>sh_index = 1, sh_files = [''a.py''], sh_text = ''+x''\<rparr>])),
      x_reconcile = (\<lambda>_ _ _ _. ret (''applied'', '''')),
      x_dossier = (\<lambda>_ _ _ _. ret (''{}'', demo_sha ''{}'')), x_join = run_first\<rparr>"

lemma demo_env_ok: "env_ok (demo_env d c)"
  by (auto simp: env_ok_def demo_env_def steps_ret intro!: steps_run_first)

definition demo_engine :: engine_config where
  "demo_engine = \<lparr>max_parallel = 2, max_global_workers = 2, max_attempts = 2, max_final_cycles = 1,
     max_tasks = 4, agent_timeout_seconds = 60, gate_timeout_seconds = 60, planner_agent = ''codex'',
     reviewer_agent = ''codex'', integrator_agent = ''codex'', worker_agents = [''codex''],
     auto_apply = False, cleanup_worktrees = True, execution_profile = ''yolo-worktree'',
     final_review_chunk_bytes = 60000, final_review_max_files = 512, final_review_allow_binary = False\<rparr>"

definition demo_config :: config where
  "demo_config = \<lparr>cf_state_dir = ''/s'', cf_config_path = ''/c'', cf_engine = demo_engine,
     cf_git = \<lparr>require_clean_repo = True, branch_prefix = ''yolo'', commit_name = ''n'', commit_email = ''e'',
       command_timeout_seconds = 120, allow_repository_commands = True\<rparr>,
     cf_gates = \<lparr>gate_commands = [], final_commands = []\<rparr>, cf_sandbox = demo_sandbox [],
     cf_resources = \<lparr>rp_backend = ''none'', rp_memory_max_mib = 0, rp_memory_high_mib = 0, rp_tasks_max = 0,
       rp_cpu_quota_percent = 0, rp_io_weight = 0\<rparr>, cf_agents = [], cf_safety_preset = ''custom''\<rparr>"

section \<open>Properties\<close>

text \<open>
  C15: Finalisation returns a summary only from a cycle in which every final gate succeeded and the
  hierarchical review of the candidate passed, with that review's own non-empty summary; it never
  runs more cycles than configured.
\<close>

theorem finalize_needs_gates_and_review:
  assumes "finalize env cf jid path s = (Inr summary, t)"
    and "0 \<le> max_final_cycles (cf_engine cf)"
  shows "\<exists>rv c gates review s1 s2 s3. 0 \<le> c \<and> c \<le> max_final_cycles (cf_engine cf) \<and>
    run_gates env cf jid None path True (''cycle-'' @ int_str c) s1 = (Inr gates, s2) \<and>
    list_all gate_ok gates \<and>
    hierarchical_final_review env cf jid path gates rv c s2 = (Inr review, s3) \<and>
    review_passed review \<and> summary = rv_summary review"
proof -
  from assms(1) obtain rv u where
    "finalize_loop env cf jid path rv (nat (max_final_cycles (cf_engine cf) + 1)) 0 u = (Inr summary, t)"
    unfolding finalize_def by (auto elim!: act_bind_InrE)
  from finalize_loop_Inr [OF this] assms(2) show ?thesis by fastforce
qed

lemma demo_finalize:
  "finalize (demo_env [] ''+'') demo_config ''job-1'' ''/w'' (demo_db 8, ()) =
    (Inr ''good'', snd (finalize (demo_env [] ''+'') demo_config ''job-1'' ''/w'' (demo_db 8, ())))"
  by code_simp

lemma finalize_needs_gates_and_review_witness:
  "\<exists>rv c gates review s1 s2 s3. 0 \<le> c \<and> c \<le> max_final_cycles (cf_engine demo_config) \<and>
    run_gates (demo_env [] ''+'') demo_config ''job-1'' None ''/w'' True (''cycle-'' @ int_str c) s1 = (Inr gates, s2) \<and>
    list_all gate_ok gates \<and>
    hierarchical_final_review (demo_env [] ''+'') demo_config ''job-1'' ''/w'' gates rv c s2 = (Inr review, s3) \<and>
    review_passed review \<and> ''good'' = rv_summary review"
  by (rule finalize_needs_gates_and_review [OF demo_finalize]) (simp add: demo_config_def demo_engine_def)



definition failed_shard_event :: "event_row \<Rightarrow> bool" where
  "failed_shard_event e \<longleftrightarrow> e_kind e = ''final.review_chunk'' \<and>
     (case e_payload e of JObj kvs \<Rightarrow> (cps ''verdict'', jtext ''fail'') \<in> set kvs | _ \<Rightarrow> False)"

text \<open>
  The exception in the previous statement is real. A reviewer that answers \<open>fail\<close> with a
  summary and one blank finding is accepted, the blank finding is dropped, the summary is not
  looked at, and the candidate goes on: here the job is finalised although the review of its only
  shard says \<open>fail\<close>, as the event ledger shows.
\<close>

theorem failed_shard_review_passes:
  "\<exists>t. finalize (demo_env [] ''-'') demo_config ''job-1'' ''/w'' (demo_db 8, ()) = (Inr ''good'', t) \<and>
     list_ex failed_shard_event (db_events (fst t))"
proof -
  let ?run = "finalize (demo_env [] ''-'') demo_config ''job-1'' ''/w'' (demo_db 8, ())"
  have "fst ?run = Inr ''good'' \<and> list_ex failed_shard_event (db_events (fst (snd ?run)))"
    by code_simp
  then show ?thesis by (intro exI [of _ "snd ?run"]) (simp add: prod_eq_iff)
qed

lemma integrate_body_True:
  assumes "integrate_body env cf jid task path pre s = (Inr (True, msg), t)"
  shows "\<exists>suffix gates u v. run_gates env cf jid (Some task) path False suffix u = (Inr gates, v) \<and>
    list_all gate_ok gates"
  using assms unfolding integrate_body_def Let_def
  by (auto elim!: act_bind_InrE act_then_InrE split: if_splits) blast+

lemma integrate_body_False:
  assumes "integrate_body env cf jid task path pre s = (Inr (False, msg), t)"
  shows "(\<exists>u v. x_git env ''abort_merge'' [path] u = (Inr (), v)) \<or>
    (\<exists>u v. x_git env ''reset_hard'' [path, pre] u = (Inr (), v))"
proof -
  have merged: "\<exists>u v. x_git env ''abort_merge'' [path] u = (Inr (), v)"
    if "merge_task env cf jid task path s = (Inr False, w)" for w
    using that unfolding merge_task_def handle_error_def handle_all_def
    by (auto elim!: act_bind_InrE act_then_InrE simp: act_then_Inr
        split: prod.splits sum.splits exc.splits py_error.splits if_splits) blast
  show ?thesis
    using assms merged unfolding integrate_body_def Let_def
    by (auto elim!: act_bind_InrE act_then_InrE split: if_splits)
qed

lemma integrate_task_run:
  assumes "integrate_task env cf jid task path s = (Inr r, t)"
  shows "\<exists>pre u v w. x_head env path u = (Inr pre, v) \<and> integrate_body env cf jid task path pre w = (Inr r, t)"
proof -
  from assms obtain pre u v where h: "x_head env path u = (Inr pre, v)"
    and body: "handle_all (integrate_body env cf jid task path pre)
       (\<lambda>e. act_then (finish_before_cancel env (rollback env path pre)) (raise_exc e)) v = (Inr r, t)"
    unfolding integrate_task_def by (elim act_then_InrE act_bind_InrE) blast
  from body have "integrate_body env cf jid task path pre v = (Inr r, t)"
    by (auto simp: handle_all_def elim!: act_then_InrE split: prod.splits sum.splits)
  with h show ?thesis by blast
qed


definition demo_task_row :: task_row where
  "demo_task_row = hd (db_tasks (demo_db 5))"


end
