(* ===== verification/Yolo_Run_Task.thy ===== *)
theory Yolo_Run_Task
  imports Yolo_Integration
begin

text \<open>
  One task, \<open>src/omarchy_yolo/orchestrator_task.py\<close>: its worktree, the bounded sequence of
  attempts (worker, commit, gates, review, integration), the choice of the worker, and the review
  that tries one agent after the other.
\<close>

section \<open>Choosing agents\<close>

definition choose_worker :: "registry \<Rightarrow> string list \<Rightarrow> task_row \<Rightarrow> int \<Rightarrow> py_error + string" where
  "choose_worker reg workers task attempt_number =
     (let usable_workers = available_agents reg None (Some RoleWorker) in
      if t_preferred_agent task \<notin> {None, Some []} \<and> the (t_preferred_agent task) \<in> set usable_workers
      then Inr (the (t_preferred_agent task))
      else
        let available = filter (\<lambda>name. name \<in> set usable_workers) workers
        in if available = [] then first_available reg workers None (Some RoleWorker)
           else Inr (available ! nat ((t_seq task + attempt_number - 2) mod int (length available))))"

text \<open>
  \<open>_review_task_resilient\<close>: the loop over the candidates, with the agents tried and the errors so
  far. Whatever goes wrong with one candidate is recorded and the next one is tried.
\<close>

definition review_once ::
  "'g env \<Rightarrow> config \<Rightarrow> string \<Rightarrow> task_row \<Rightarrow> string \<Rightarrow> string \<Rightarrow> string \<Rightarrow> gate_result list \<Rightarrow> int \<Rightarrow> string \<Rightarrow>
   ('g, review_result) act" where
  "review_once env cf job_id task goal diff cwd gates attempt_number agent =
     act_bind (review_task env goal task diff gates cwd agent
         (path_join [logs_dir cf, job_id, t_logical_id task,
            ''review-'' @ int_str attempt_number @ ''-'' @ agent @ ''.log''])) (\<lambda>review.
     act_then (emit env job_id ''task.reviewed''
         [(''agent'', jtext agent), (''verdict'', jtext (rv_verdict review)),
          (''findings'', jtexts (rv_findings review))] (Some (t_id task)))
       (ret review))"

fun review_candidates ::
  "'g env \<Rightarrow> config \<Rightarrow> string \<Rightarrow> task_row \<Rightarrow> string \<Rightarrow> string \<Rightarrow> string \<Rightarrow> gate_result list \<Rightarrow> int \<Rightarrow>
   string list \<Rightarrow> string list \<Rightarrow> string list \<Rightarrow> ('g, review_result) act" where
  "review_candidates env cf job_id task goal diff cwd gates n [] tried errors =
     ret \<lparr>rv_verdict = ''retry'', rv_summary = ''review infrastructure failed'', rv_findings = errors\<rparr>"
| "review_candidates env cf job_id task goal diff cwd gates n (candidate # rest) tried errors =
     act_bind (read_world (x_registry env)) (\<lambda>reg.
     let failed = (\<lambda>tried e. review_candidates env cf job_id task goal diff cwd gates n rest tried
                      (errors @ [candidate @ '': '' @ err_text e]))
     in case choose_role reg candidate (worker_names cf) None (Some RoleReviewer) of
          Inl e \<Rightarrow> failed tried e
        | Inr agent \<Rightarrow>
            if agent \<in> set tried
            then review_candidates env cf job_id task goal diff cwd gates n rest tried errors
            else handle_error (review_once env cf job_id task goal diff cwd gates n agent)
                   (failed (agent # tried)))"

definition review_task_resilient ::
  "'g env \<Rightarrow> config \<Rightarrow> string \<Rightarrow> task_row \<Rightarrow> string \<Rightarrow> string \<Rightarrow> gate_result list \<Rightarrow> int \<Rightarrow>
   ('g, review_result) act" where
  "review_task_resilient env cf job_id task goal cwd gates n =
     act_bind (x_diff env cwd (t_base_commit task)) (\<lambda>diff.
       review_candidates env cf job_id task goal diff cwd gates n
         (reviewer_agent (cf_engine cf) # worker_names cf) [] [])"

section \<open>The worktree of a task\<close>

definition set_task :: "'g env \<Rightarrow> string \<Rightarrow> task_update \<Rightarrow> ('g, unit) act" where
  "set_task env task_id u = tx env (\<lambda>now. update_task now task_id u)"

definition task_worktree :: "config \<Rightarrow> string \<Rightarrow> task_row \<Rightarrow> string" where
  "task_worktree cf job_id task =
     path_join [worktrees_dir cf, job_id, ''task-'' @ int_str (t_seq task) @ ''-'' @ slug 48 (t_logical_id task)]"

definition worktree_payload :: "string \<Rightarrow> string \<Rightarrow> string \<Rightarrow> (string \<times> json) list" where
  "worktree_payload branch path base =
     [(''branch'', jtext branch), (''path'', jtext path), (''base'', jtext base)]"

definition prepare_worktree ::
  "'g env \<Rightarrow> config \<Rightarrow> string \<Rightarrow> task_row \<Rightarrow> string \<Rightarrow> ('g, string \<times> string) act" where
  "prepare_worktree env cf job_id task integration_path =
     act_bind (if t_branch task \<noteq> [] then x_git_bool env ''branch_exists'' (t_branch task) else ret False)
       (\<lambda>branch_exists.
     if t_branch task \<noteq> [] \<and> branch_exists then
       let branch = t_branch task;
           worktree = (if t_worktree task \<noteq> [] then t_worktree task else task_worktree cf job_id task)
       in act_bind (if t_base_commit task \<noteq> [] then ret (t_base_commit task)
                    else x_head env integration_path) (\<lambda>base.
          act_then (x_wait env ''merge_lock'')
          (act_then (x_wait env ''repo_lock'')
          (act_then (x_git env ''ensure_existing_branch_worktree'' [worktree, branch, base])
          (act_then (set_task env (t_id task)
                       (no_task_update\<lparr>tu_worktree := Some worktree, tu_base_commit := Some base\<rparr>))
          (act_then (emit env job_id ''task.worktree_recovered''
                       (worktree_payload branch worktree base) (Some (t_id task)))
            (ret (branch, worktree)))))))
     else
       act_then (x_wait env ''merge_lock'')
       (act_then (x_wait env ''repo_lock'')
       (act_bind (x_head env integration_path) (\<lambda>base.
        let branch = path_join [branch_prefix (cf_git cf), job_id, slug 48 (t_logical_id task)];
            worktree = task_worktree cf job_id task
        in act_then (x_git env ''ensure_worktree'' [worktree, branch, base])
           (act_then (set_task env (t_id task)
                        (no_task_update\<lparr>tu_branch := Some branch, tu_worktree := Some worktree,
                           tu_base_commit := Some base\<rparr>))
           (act_then (emit env job_id ''task.worktree_created''
                        (worktree_payload branch worktree base) (Some (t_id task)))
             (ret (branch, worktree))))))))"

section \<open>One attempt\<close>

text \<open>An attempt ends the task, or leaves the text that the next attempt is told.\<close>

datatype attempt_outcome = TaskDone | TryAgain string

record attempt_ctx =
  ct_job :: job_row
  ct_task_id :: string
  ct_branch :: string
  ct_worktree :: string
  ct_path :: string

definition finish ::
  "'g env \<Rightarrow> string \<Rightarrow> string \<Rightarrow> int option \<Rightarrow> string \<Rightarrow> ('g, unit) act" where
  "finish env attempt_id state returncode summary =
     tx env (\<lambda>now. finish_attempt now attempt_id state returncode summary)"

text \<open>An attempt that failed: its row, the task back to pending, and the event.\<close>

definition attempt_failed ::
  "'g env \<Rightarrow> string \<Rightarrow> string \<Rightarrow> string \<Rightarrow> int option \<Rightarrow> string \<Rightarrow> ('g, unit) act \<Rightarrow>
   ('g, attempt_outcome) act" where
  "attempt_failed env job_id task_id attempt_id returncode context_text log_event =
     act_then (finish env attempt_id ''failed'' returncode (py_last 4000 context_text))
     (act_then (set_task env task_id
         (no_task_update\<lparr>tu_state := Some TaskPending, tu_last_error := Some (py_last 8000 context_text)\<rparr>))
     (act_then log_event (ret (TryAgain context_text))))"

definition worker_failure :: "agent_result \<Rightarrow> string" where
  "worker_failure result =
     ''Worker exited with '' @ int_str (ar_returncode result) @ ''.'' @ newline @ ''STDERR:'' @ newline @
     py_last 5000 (ar_stderr result) @ newline @ ''STDOUT:'' @ newline @ py_last 5000 (ar_stdout result)"

definition review_feedback :: "review_result \<Rightarrow> string" where
  "review_feedback review =
     ''Reviewer rejected the attempt:'' @ newline @ join_with newline (rv_findings review) @
     (if rv_summary review \<noteq> [] then newline @ ''Summary: '' @ rv_summary review else [])"

text \<open>The worktree of a completed task is removed; a failure of that never fails the task.\<close>

definition cleanup_task_worktree ::
  "'g env \<Rightarrow> config \<Rightarrow> attempt_ctx \<Rightarrow> ('g, unit) act" where
  "cleanup_task_worktree env cf ctx =
     (let where_fields = [(''branch'', jtext (ct_branch ctx)), (''path'', jtext (ct_worktree ctx))];
          job_id = j_id (ct_job ctx)
      in act_when (cleanup_worktrees (cf_engine cf))
           (handle_all
             (act_then (x_wait env ''repo_lock'')
               (act_then (x_git env ''remove_worktree'' [ct_worktree ctx])
                 (x_git env ''delete_branch'' [ct_branch ctx])))
             (\<lambda>e. case e of
                Cancelled \<Rightarrow>
                  act_then (emit env job_id ''task.cleanup_interrupted'' where_fields (Some (ct_task_id ctx)))
                    (raise_exc Cancelled)
              | Raised err \<Rightarrow>
                  emit env job_id ''task.cleanup_failed''
                    ((''error'', jtext (py_last 4000 (err_text err))) # where_fields) (Some (ct_task_id ctx)))))"

text \<open>What follows a successful worker: commit, gates, review, integration, completion.\<close>

definition attempt_accepted ::
  "'g env \<Rightarrow> config \<Rightarrow> attempt_ctx \<Rightarrow> int \<Rightarrow> string \<Rightarrow> string \<Rightarrow> review_result \<Rightarrow>
   ('g, attempt_outcome) act" where
  "attempt_accepted env cf ctx n agent attempt_id review =
     (let job_id = j_id (ct_job ctx); task_id = ct_task_id ctx
      in act_bind (read_db (get_task task_id)) (\<lambda>task.
         act_bind (integrate_task env cf job_id task (ct_path ctx)) (\<lambda>(integrated, feedback).
         if \<not> integrated
         then attempt_failed env job_id task_id attempt_id (Some 1) feedback (ret ())
         else
           act_then (finish env attempt_id ''passed'' (Some 0)
                       (or_text (rv_summary review) ''passed gates and review''))
           (act_then (set_task env task_id
               (no_task_update\<lparr>tu_state := Some TaskCompleted,
                  tu_result_summary := Some (rv_summary review), tu_last_error := Some []\<rparr>))
           (act_then (emit env job_id ''task.completed''
               [(''attempt'', JInt n), (''agent'', jtext agent), (''summary'', jtext (rv_summary review))]
               (Some task_id))
           (act_then (cleanup_task_worktree env cf ctx) (ret TaskDone)))))))"

definition attempt_review ::
  "'g env \<Rightarrow> config \<Rightarrow> attempt_ctx \<Rightarrow> task_row \<Rightarrow> int \<Rightarrow> string \<Rightarrow> string \<Rightarrow> ('g, attempt_outcome) act" where
  "attempt_review env cf ctx task n agent attempt_id =
     (let job_id = j_id (ct_job ctx); task_id = ct_task_id ctx; worktree = ct_worktree ctx
      in act_then (x_git env ''commit_all''
             [worktree, ''yolo('' @ t_logical_id task @ ''): '' @ t_title task])
         (act_bind (run_gates env cf job_id (Some task) worktree False ''worker'') (\<lambda>gates.
          if \<not> list_all gate_ok gates then
            attempt_failed env job_id task_id attempt_id (Some 1)
              (''Repository gates failed:'' @ newline @ format_gates gates)
              (emit env job_id ''task.gates_failed'' [(''attempt'', JInt n)] (Some task_id))
          else
            act_then (set_task env task_id (no_task_update\<lparr>tu_state := Some TaskReviewing\<rparr>))
            (act_bind (read_db (get_task task_id)) (\<lambda>current.
             act_bind (review_task_resilient env cf job_id current (j_goal (ct_job ctx)) worktree gates n) (\<lambda>review.
             if \<not> review_passed review then
               attempt_failed env job_id task_id attempt_id (Some 0) (review_feedback review)
                 (emit env job_id ''task.review_rejected''
                    [(''verdict'', jtext (rv_verdict review)), (''findings'', jtexts (rv_findings review))]
                    (Some task_id))
             else attempt_accepted env cf ctx n agent attempt_id review))))))"

text \<open>The run of the worker, with the two ways it can end in an exception.\<close>

definition run_worker ::
  "'g env \<Rightarrow> config \<Rightarrow> attempt_ctx \<Rightarrow> task_row \<Rightarrow> string \<Rightarrow> string \<Rightarrow> string \<Rightarrow> string \<Rightarrow>
   ('g, string + agent_result) act" where
  "run_worker env cf ctx task agent attempt_id log_path retry_context =
     (let job_id = j_id (ct_job ctx); task_id = ct_task_id ctx
      in handle_all
           (act_bind (read_world (x_registry env)) (\<lambda>reg.
            act_bind (of_result (registry_get reg agent)) (\<lambda>_.
            act_bind (x_agent env
              \<lparr>call_agent = agent, call_prompt = WorkerPrompt (j_goal (ct_job ctx)) task retry_context,
               call_cwd = ct_worktree ctx, call_log = log_path,
               call_profile = execution_profile (cf_engine cf)\<rparr>) (\<lambda>result.
              ret (Inr result)))))
           (\<lambda>e. case e of
              Cancelled \<Rightarrow>
                act_then (finish env attempt_id ''cancelled'' None ''cancelled'') (raise_exc Cancelled)
            | Raised err \<Rightarrow>
                let context_text = ''Agent launch failed: '' @ err_text err
                in act_then (finish env attempt_id ''failed'' None context_text)
                   (act_then (set_task env task_id
                       (no_task_update\<lparr>tu_state := Some TaskPending, tu_last_error := Some context_text\<rparr>))
                   (act_then (emit env job_id ''task.agent_error'' [(''error'', jtext (err_text err))]
                       (Some task_id))
                     (ret (Inl context_text))))))"

definition run_attempt ::
  "'g env \<Rightarrow> config \<Rightarrow> attempt_ctx \<Rightarrow> int \<Rightarrow> string \<Rightarrow> ('g, attempt_outcome) act" where
  "run_attempt env cf ctx n retry_context =
     (let job_id = j_id (ct_job ctx); task_id = ct_task_id ctx
      in act_bind (read_db (get_job job_id)) (\<lambda>job.
         if j_stop_requested job then raise_exc Cancelled else
         act_bind (read_db (get_task task_id)) (\<lambda>task.
         act_bind (read_world (x_registry env)) (\<lambda>reg.
         act_bind (of_result (choose_worker reg (worker_names cf) task n)) (\<lambda>agent.
         let log_path = path_join [logs_dir cf, job_id, t_logical_id task,
                          ''attempt-'' @ int_str n @ ''-'' @ agent @ ''.log'']
         in act_then (set_task env task_id
                (no_task_update\<lparr>tu_state := Some TaskRunning, tu_attempts := Some n, tu_last_error := Some []\<rparr>))
            (act_bind (fresh_id env ''attempt'') (\<lambda>attempt_id.
             act_then (tx env (\<lambda>now. start_attempt now attempt_id job_id task_id n agent (ct_worktree ctx)
                          (ct_branch ctx) log_path))
             (act_then (emit env job_id ''task.attempt_started''
                 [(''attempt'', JInt n), (''agent'', jtext agent)] (Some task_id))
             (act_bind (run_worker env cf ctx task agent attempt_id log_path retry_context) (\<lambda>worker.
              case worker of
                Inl context_text \<Rightarrow> ret (TryAgain context_text)
              | Inr result \<Rightarrow>
                  if \<not> agent_ok result then
                    attempt_failed env job_id task_id attempt_id (Some (ar_returncode result))
                      (worker_failure result)
                      (emit env job_id ''task.worker_failed''
                         [(''attempt'', JInt n), (''agent'', jtext agent),
                          (''returncode'', JInt (ar_returncode result))] (Some task_id))
                  else attempt_review env cf ctx task n agent attempt_id))))))))))"

text \<open>The loop over the attempt numbers of this run; \<open>None\<close> when they are used up.\<close>

fun attempt_loop ::
  "'g env \<Rightarrow> config \<Rightarrow> attempt_ctx \<Rightarrow> nat \<Rightarrow> int \<Rightarrow> string \<Rightarrow> ('g, bool) act" where
  "attempt_loop env cf ctx 0 n retry_context = ret False"
| "attempt_loop env cf ctx (Suc left) n retry_context =
     act_bind (run_attempt env cf ctx n retry_context) (\<lambda>outcome.
     case outcome of
       TaskDone \<Rightarrow> ret True
     | TryAgain context_text \<Rightarrow> attempt_loop env cf ctx left (n + 1) context_text)"

definition exhausted_error :: "task_row \<Rightarrow> int \<Rightarrow> int \<Rightarrow> string" where
  "exhausted_error task first_attempt budget =
     or_text (t_last_error task)
       (''exhausted attempt budget '' @ int_str first_attempt @ ''-'' @
        int_str (first_attempt + budget - 1) @ '' ('' @ int_str budget @ '' attempts this run)'')"

definition run_task_with_slot ::
  "'g env \<Rightarrow> config \<Rightarrow> string \<Rightarrow> string \<Rightarrow> string \<Rightarrow> ('g, bool) act" where
  "run_task_with_slot env cf job_id task_id integration_path =
     act_bind (read_db (get_task task_id)) (\<lambda>task.
     act_bind (read_db (get_job job_id)) (\<lambda>job.
     act_bind (prepare_worktree env cf job_id task integration_path) (\<lambda>(branch, worktree).
     let ctx = \<lparr>ct_job = job, ct_task_id = task_id, ct_branch = branch, ct_worktree = worktree,
                ct_path = integration_path\<rparr>;
         budget = max_attempts (cf_engine cf)
     in act_bind (attempt_loop env cf ctx (nat budget) (t_attempts task + 1) (t_last_error task)) (\<lambda>completed.
        if completed then ret True
        else
          act_bind (read_db (get_task task_id)) (\<lambda>current.
          let error = exhausted_error current (t_attempts task + 1) budget
          in act_then (set_task env task_id
                 (no_task_update\<lparr>tu_state := Some TaskFailed, tu_last_error := Some error\<rparr>))
             (act_then (emit env job_id ''task.failed'' [(''error'', jtext error)] (Some task_id))
               (ret False)))))))"

definition run_task :: "'g env \<Rightarrow> config \<Rightarrow> string \<Rightarrow> string \<Rightarrow> string \<Rightarrow> ('g, bool) act" where
  "run_task env cf job_id task_id integration_path =
     act_then (x_wait env ''worker_slot'') (run_task_with_slot env cf job_id task_id integration_path)"

section \<open>Only store transactions\<close>

lemma steps_set_task [steps_intros]: "steps sha (set_task env tid u)"
  unfolding set_task_def by (intro steps_intros)

lemma steps_finish_attempt [steps_intros]: "steps sha (finish env aid st rc summary)"
  unfolding finish_def by (intro steps_intros)

lemma steps_review_once [steps_intros]:
  "env_ok env \<Longrightarrow> steps (x_sha env) (review_once env cf jid task goal diff cwd gates n agent)"
  unfolding review_once_def by (intro steps_intros)

lemma steps_review_candidates [steps_intros]:
  "env_ok env \<Longrightarrow>
   steps (x_sha env) (review_candidates env cf jid task goal diff cwd gates n cands tried errors)"
  by (induction cands arbitrary: tried errors) (auto simp: Let_def intro!: steps_intros)

lemma steps_resilient [steps_intros]:
  "env_ok env \<Longrightarrow> steps (x_sha env) (review_task_resilient env cf jid task goal cwd gates n)"
  unfolding review_task_resilient_def by (intro steps_intros)

lemma steps_prepare_worktree [steps_intros]:
  "env_ok env \<Longrightarrow> steps (x_sha env) (prepare_worktree env cf jid task path)"
  unfolding prepare_worktree_def Let_def by (intro steps_intros)

lemma steps_attempt_failed [steps_intros]:
  "steps sha m \<Longrightarrow> steps sha (attempt_failed env jid tid aid rc text m)"
  unfolding attempt_failed_def by (intro steps_intros)

lemma steps_case_exc [steps_intros]:
  "steps sha m \<Longrightarrow> (\<And>e. steps sha (h e)) \<Longrightarrow> steps sha (case x of Cancelled \<Rightarrow> m | Raised e \<Rightarrow> h e)"
  by (cases x) auto

lemma steps_cleanup_worktree [steps_intros]:
  "env_ok env \<Longrightarrow> steps (x_sha env) (cleanup_task_worktree env cf ctx)"
  unfolding cleanup_task_worktree_def Let_def by (intro steps_intros)

lemma steps_attempt_review [steps_intros]:
  "env_ok env \<Longrightarrow> steps (x_sha env) (attempt_review env cf ctx task n agent aid)"
  unfolding attempt_review_def attempt_accepted_def Let_def by (intro steps_intros)

lemma steps_run_worker [steps_intros]:
  "env_ok env \<Longrightarrow> steps (x_sha env) (run_worker env cf ctx task agent aid lp text)"
  unfolding run_worker_def Let_def by (intro steps_intros)

lemma steps_run_attempt [steps_intros]:
  "env_ok env \<Longrightarrow> steps (x_sha env) (run_attempt env cf ctx n text)"
  unfolding run_attempt_def Let_def by (intro steps_intros)

lemma steps_attempt_loop [steps_intros]:
  "env_ok env \<Longrightarrow> steps (x_sha env) (attempt_loop env cf ctx left n text)"
  by (induction left arbitrary: n "text")
    (auto intro!: steps_intros split: attempt_outcome.split)

lemma steps_run_task [steps_intros]:
  "env_ok env \<Longrightarrow> steps (x_sha env) (run_task env cf jid tid path)"
  unfolding run_task_def run_task_with_slot_def Let_def by (intro steps_intros)

end
