(* ===== verification/Yolo_Task_Proofs.thy ===== *)
theory Yolo_Task_Proofs
  imports Yolo_Run_Task
begin

text \<open>
  What the result of a task run means: how the worker of an attempt is chosen, what stands behind a
  completed task, and what a failed run leaves in the store.
\<close>

section \<open>The rotation over the workers\<close>

lemma mod_reaches:
  assumes "j < k"
  shows "\<exists>i < k. nat ((a + int i) mod int k) = j"
proof -
  let ?i = "nat ((int j - a) mod int k)"
  have k: "int k > 0" using assms by simp
  then have i: "0 \<le> (int j - a) mod int k" "(int j - a) mod int k < int k" by simp_all
  have "(a + int ?i) mod int k = (a + (int j - a)) mod int k"
    using i(1) by (simp add: mod_simps)
  also have "\<dots> = int j" using assms by simp
  finally have "nat ((a + int ?i) mod int k) = j" by simp
  moreover have "?i < k" using i by (simp add: nat_less_iff)
  ultimately show ?thesis by blast
qed

text \<open>
  The attempts of a task go round the usable workers: a worker that is configured and usable is
  chosen at least once in any run of consecutive attempts as long as the list of such workers,
  unless the task names a usable preferred agent, which is then always chosen.
\<close>

theorem worker_rotation_fair:
  assumes "w \<in> set workers" and "w \<in> set (available_agents reg None (Some RoleWorker))"
  shows "(\<exists>i < length workers. choose_worker reg workers task (n + int i) = Inr w) \<or>
    (\<exists>p. t_preferred_agent task = Some p \<and> p \<in> set (available_agents reg None (Some RoleWorker)) \<and>
      (\<forall>n. choose_worker reg workers task n = Inr p))"
proof (cases "t_preferred_agent task \<notin> {None, Some []} \<and>
    the (t_preferred_agent task) \<in> set (available_agents reg None (Some RoleWorker))")
  case True
  then have "choose_worker reg workers task n = Inr (the (t_preferred_agent task))" for n
    by (simp add: choose_worker_def)
  with True show ?thesis by auto
next
  case False
  let ?ws = "filter (\<lambda>name. name \<in> set (available_agents reg None (Some RoleWorker))) workers"
  have "w \<in> set ?ws" using assms by simp
  then obtain j where j: "j < length ?ws" "?ws ! j = w" by (metis in_set_conv_nth)
  from mod_reaches [OF j(1), of "t_seq task + n - 2"] obtain i where
    i: "i < length ?ws" "nat ((t_seq task + n - 2 + int i) mod int (length ?ws)) = j" by blast
  have "?ws \<noteq> []" using j(1) by auto
  then have "choose_worker reg workers task (n + int i) =
      Inr (?ws ! nat ((t_seq task + (n + int i) - 2) mod int (length ?ws)))"
    using False by (auto simp: choose_worker_def Let_def)
  moreover have "t_seq task + (n + int i) - 2 = t_seq task + n - 2 + int i" by simp
  ultimately have "choose_worker reg workers task (n + int i) = Inr w"
    using i(2) j(2) by metis
  moreover have "i < length workers" using i(1) by (rule order.strict_trans2) (rule length_filter_le)
  ultimately show ?thesis by blast
qed

lemma worker_rotation_fair_witness:
  "\<exists>i < length [''codex'', ''claude'']. choose_worker
     [\<lparr>av_name = ''claude'', av_available = True, av_profile = (\<lambda>_. True), av_role = None\<rparr>]
     [''codex'', ''claude''] demo_task_row (1 + int i) = Inr ''claude''"
proof -
  have w: "''claude'' \<in> set [''codex'', ''claude'']" by simp
  have u: "''claude'' \<in> set (available_agents
     [\<lparr>av_name = ''claude'', av_available = True, av_profile = (\<lambda>_. True), av_role = None\<rparr>]
     None (Some RoleWorker))" by code_simp
  have p: "t_preferred_agent demo_task_row = None" by code_simp
  show ?thesis using worker_rotation_fair [OF w u, of demo_task_row 1] p by simp
qed

section \<open>What a task update leaves in the store\<close>

lemma update_task_row:
  assumes "update_task now tid u db = Inr db'" and "tu_state u = Some st"
  shows "\<exists>r. find_task tid (db_tasks db') = Some r \<and> t_state r = st \<and>
    (tu_last_error u \<noteq> None \<longrightarrow> t_last_error r = the (tu_last_error u))"
proof -
  have "u \<noteq> no_task_update" using assms(2) by (auto simp: no_task_update_def)
  from update_task_effect [OF assms(1) this] obtain row where
    row: "find_task tid (db_tasks db) = Some row"
    and db': "db_tasks db' = update_where (\<lambda>t. t_id t = tid \<and> t_state t = t_state row)
        (apply_task_update now u (override (tu_state u) (t_state row))) (db_tasks db)" by auto
  have "t_id row = tid" using row by (auto dest: task_tab.select_SomeD)
  moreover have "t_id (apply_task_update now u x r) = t_id r" for x r by (simp add: apply_task_update_def)
  ultimately show ?thesis
    using row assms(2)
    by (auto simp: db' task_tab.select_update apply_task_update_def override_def split: option.splits)
qed

lemma event_tasks: "event now jid kind p tid db = Inr (n, db') \<Longrightarrow> db_tasks db' = db_tasks db"
  by (auto simp: event_def rbind_Inr_iff insert_event_effect)

lemma emit_tasks: "emit env jid kind p tid s = (Inr x, t) \<Longrightarrow> db_tasks (fst t) = db_tasks (fst s)"
  unfolding emit_def by (auto elim!: act_bind_InrE dest!: txv_Inr event_tasks)

lemma set_task_row:
  assumes "set_task env tid u s = (Inr x, t)" and "tu_state u = Some st"
  shows "\<exists>r. find_task tid (db_tasks (fst t)) = Some r \<and> t_state r = st \<and>
    (tu_last_error u \<noteq> None \<longrightarrow> t_last_error r = the (tu_last_error u))"
  using assms tx_Inr update_task_row unfolding set_task_def by meson

text \<open>A completed task stays completed, whatever transactions follow.\<close>

lemma task_stays_completed:
  assumes "db_inv sha db" and "(db_step sha)\<^sup>*\<^sup>* db db'"
    and "find_task tid (db_tasks db) = Some r" and "t_state r = TaskCompleted"
  shows "\<exists>r'. find_task tid (db_tasks db') = Some r' \<and> t_state r' = TaskCompleted"
proof -
  have "evolves find_task task_kept (db_tasks db) (db_tasks db')"
    using store.run_hist [OF assms(2,1)] by (simp add: kept_def)
  from evolvesD [OF this assms(3)] assms(4) show ?thesis by (auto simp: task_kept_def)
qed

lemma steps_run: "steps sha m \<Longrightarrow> m s = (r, t) \<Longrightarrow> (db_step sha)\<^sup>*\<^sup>* (fst s) (fst t)"
  by (cases s; cases t) (auto dest: stepsD)


section \<open>The last attempt of a completed task\<close>

text \<open>
  What a completed attempt did: gates that all succeeded in the worktree, a review that passed with
  those gates, an integration that was kept.
\<close>

definition attempt_evidence ::
  "'g env \<Rightarrow> config \<Rightarrow> attempt_ctx \<Rightarrow> int \<Rightarrow> bool" where
  "attempt_evidence env cf ctx n \<longleftrightarrow>
     (\<exists>task current merged gates review msg s1 s2 s3 s4 s5 s6.
        run_gates env cf (j_id (ct_job ctx)) (Some task) (ct_worktree ctx) False ''worker'' s1 = (Inr gates, s2) \<and>
        list_all gate_ok gates \<and>
        review_task_resilient env cf (j_id (ct_job ctx)) current (j_goal (ct_job ctx)) (ct_worktree ctx)
          gates n s3 = (Inr review, s4) \<and>
        review_passed review \<and>
        integrate_task env cf (j_id (ct_job ctx)) merged (ct_path ctx) s5 = (Inr (True, msg), s6))"

definition stored_state :: "string \<Rightarrow> db \<Rightarrow> task_state option" where
  "stored_state tid db = map_option t_state (find_task tid (db_tasks db))"

lemma attempt_failed_again: "attempt_failed env jid tid aid rc c m s = (Inr r, t) \<Longrightarrow> r = TryAgain c"
  unfolding attempt_failed_def by (auto elim!: act_then_InrE)

lemma stays_completed_act:
  assumes "steps sha m" and "m s = (Inr x, t)" and "db_inv sha (fst s)"
    and "stored_state tid (fst s) = Some TaskCompleted"
  shows "stored_state tid (fst t) = Some TaskCompleted"
  using task_stays_completed [OF assms(3) steps_run [OF assms(1,2)]] assms(4)
  by (auto simp: stored_state_def)

lemma act_inv:
  "steps sha m \<Longrightarrow> m s = (r, t) \<Longrightarrow> db_inv sha (fst s) \<Longrightarrow> db_inv sha (fst t)"
  using store.run_inv steps_run by blast

text \<open>
  What a normal end ensures, from any store in which the invariant holds. The steps before the
  last one only have to keep the invariant.
\<close>

definition ensures :: "(string \<Rightarrow> string) \<Rightarrow> ('g, 'a) act \<Rightarrow> ('a \<Rightarrow> db \<Rightarrow> bool) \<Rightarrow> bool" where
  "ensures sha m Q \<longleftrightarrow> (\<forall>s y t. db_inv sha (fst s) \<longrightarrow> m s = (Inr y, t) \<longrightarrow> Q y (fst t))"

named_theorems ensures_intros \<open>composition of what actions ensure\<close>

lemma ensuresD: "ensures sha m Q \<Longrightarrow> m s = (Inr y, t) \<Longrightarrow> db_inv sha (fst s) \<Longrightarrow> Q y (fst t)"
  unfolding ensures_def by blast

lemma ensures_bind [ensures_intros]:
  assumes "steps sha m" and "\<And>x. ensures sha (f x) Q"
  shows "ensures sha (act_bind m f) Q"
  unfolding ensures_def
proof (intro allI impI)
  fix s y t
  assume "db_inv sha (fst s)" and "act_bind m f s = (Inr y, t)"
  then obtain x u where "m s = (Inr x, u)" "f x u = (Inr y, t)" by (auto elim: act_bind_InrE)
  with assms(1) \<open>db_inv sha (fst s)\<close> show "Q y (fst t)" using ensuresD [OF assms(2)] act_inv by blast
qed

lemma ensures_then [ensures_intros]:
  "steps sha m \<Longrightarrow> ensures sha n Q \<Longrightarrow> ensures sha (act_then m n) Q"
  unfolding act_then_def by (rule ensures_bind)

lemma ensures_raise [ensures_intros]: "ensures sha (raise_exc e) Q"
  by (simp add: ensures_def)

lemma ensures_if [ensures_intros]:
  "(b \<Longrightarrow> ensures sha m Q) \<Longrightarrow> (\<not> b \<Longrightarrow> ensures sha n Q) \<Longrightarrow> ensures sha (if b then m else n) Q"
  by simp

lemma ensures_case_sum [ensures_intros]:
  "(\<And>a. ensures sha (f a) Q) \<Longrightarrow> (\<And>b. ensures sha (h b) Q) \<Longrightarrow>
   ensures sha (case r of Inl a \<Rightarrow> f a | Inr b \<Rightarrow> h b) Q"
  by (cases r) auto

lemma ensures_case_prod [ensures_intros]:
  "(\<And>a b. ensures sha (f a b) Q) \<Longrightarrow> ensures sha (case p of (a, b) \<Rightarrow> f a b) Q"
  by (cases p) auto

lemma attempt_accepted_done:
  assumes "attempt_accepted env cf ctx n agent aid review s = (Inr TaskDone, t)"
    and ok: "env_ok env" and inv: "db_inv (x_sha env) (fst s)"
  shows "(\<exists>task msg s1 s2. integrate_task env cf (j_id (ct_job ctx)) task (ct_path ctx) s1 = (Inr (True, msg), s2)) \<and>
    stored_state (ct_task_id ctx) (fst t) = Some TaskCompleted"
proof -
  let ?jid = "j_id (ct_job ctx)" and ?tid = "ct_task_id ctx"
  let ?u = "no_task_update\<lparr>tu_state := Some TaskCompleted, tu_result_summary := Some (rv_summary review),
     tu_last_error := Some []\<rparr>"
  from assms(1) obtain task res s1 s2 where
    r: "read_db (get_task ?tid) s = (Inr task, s1)"
    and i: "integrate_task env cf ?jid task (ct_path ctx) s1 = (Inr res, s2)"
    and rest: "(case res of (integrated, feedback) \<Rightarrow>
         if \<not> integrated
         then attempt_failed env ?jid ?tid aid (Some 1) feedback (ret ())
         else
           act_then (finish env aid ''passed'' (Some 0) (or_text (rv_summary review) ''passed gates and review''))
           (act_then (set_task env ?tid ?u)
           (act_then (emit env ?jid ''task.completed''
               [(''attempt'', JInt n), (''agent'', jtext agent), (''summary'', jtext (rv_summary review))]
               (Some ?tid))
           (act_then (cleanup_task_worktree env cf ctx) (ret TaskDone))))) s2 = (Inr TaskDone, t)"
    unfolding attempt_accepted_def Let_def by (elim act_bind_InrE) blast
  have res: "fst res" using rest by (auto dest: attempt_failed_again split: prod.splits if_splits)
  then obtain fb where "res = (True, fb)" by (cases res) simp
  with rest obtain s3 s4 s5 a b c d where
    f: "finish env aid ''passed'' (Some 0) (or_text (rv_summary review) ''passed gates and review'') s2 = (Inr a, s3)"
    and u: "set_task env ?tid ?u s3 = (Inr b, s4)"
    and e: "emit env ?jid ''task.completed''
       [(''attempt'', JInt n), (''agent'', jtext agent), (''summary'', jtext (rv_summary review))]
       (Some ?tid) s4 = (Inr c, s5)"
    and cl: "cleanup_task_worktree env cf ctx s5 = (Inr d, t)"
    by (auto elim!: act_then_InrE)
  have s1: "s1 = s" using r by (simp add: read_db_Inr)
  have "db_inv (x_sha env) (fst s2)"
    using act_inv [OF steps_integrate_task [OF ok] i] inv s1 by simp
  from act_inv [OF steps_finish_attempt f this] have "db_inv (x_sha env) (fst s3)" .
  from act_inv [OF steps_set_task u this] have "db_inv (x_sha env) (fst s4)" .
  from act_inv [OF steps_emit e this] have inv5: "db_inv (x_sha env) (fst s5)" .
  from set_task_row [OF u, of TaskCompleted] have "stored_state ?tid (fst s4) = Some TaskCompleted"
    by (auto simp: stored_state_def)
  then have "stored_state ?tid (fst s5) = Some TaskCompleted"
    using emit_tasks [OF e] by (simp add: stored_state_def)
  then have "stored_state ?tid (fst t) = Some TaskCompleted"
    using stays_completed_act [OF steps_cleanup_worktree [OF ok] cl inv5] by blast
  with i \<open>res = (True, fb)\<close> show ?thesis by blast
qed


lemma attempt_review_done:
  assumes "attempt_review env cf ctx task n agent aid s = (Inr TaskDone, t)"
    and ok: "env_ok env" and inv: "db_inv (x_sha env) (fst s)"
  shows "attempt_evidence env cf ctx n \<and> stored_state (ct_task_id ctx) (fst t) = Some TaskCompleted"
proof -
  let ?jid = "j_id (ct_job ctx)" and ?tid = "ct_task_id ctx" and ?wt = "ct_worktree ctx"
  let ?rejected = "\<lambda>review. attempt_failed env ?jid ?tid aid (Some 0) (review_feedback review)
    (emit env ?jid ''task.review_rejected''
       [(''verdict'', jtext (rv_verdict review)), (''findings'', jtexts (rv_findings review))] (Some ?tid))"
  let ?reviewed = "\<lambda>review. if \<not> review_passed review then ?rejected review
    else attempt_accepted env cf ctx n agent aid review"
  let ?gated = "\<lambda>gates. if \<not> list_all gate_ok gates then
      attempt_failed env ?jid ?tid aid (Some 1) (''Repository gates failed:'' @ newline @ format_gates gates)
        (emit env ?jid ''task.gates_failed'' [(''attempt'', JInt n)] (Some ?tid))
    else act_then (set_task env ?tid (no_task_update\<lparr>tu_state := Some TaskReviewing\<rparr>))
      (act_bind (read_db (get_task ?tid)) (\<lambda>current.
       act_bind (review_task_resilient env cf ?jid current (j_goal (ct_job ctx)) ?wt gates n) ?reviewed))"
  from assms(1) obtain c gates s1 s2 where
    c: "x_git env ''commit_all'' [?wt, ''yolo('' @ t_logical_id task @ ''): '' @ t_title task] s = (Inr c, s1)"
    and g: "run_gates env cf ?jid (Some task) ?wt False ''worker'' s1 = (Inr gates, s2)"
    and rest: "?gated gates s2 = (Inr TaskDone, t)"
    unfolding attempt_review_def Let_def by (elim act_then_InrE act_bind_InrE) blast
  have all: "list_all gate_ok gates" using rest by (auto dest: attempt_failed_again split: if_splits)
  with rest have "act_then (set_task env ?tid (no_task_update\<lparr>tu_state := Some TaskReviewing\<rparr>))
      (act_bind (read_db (get_task ?tid)) (\<lambda>current.
       act_bind (review_task_resilient env cf ?jid current (j_goal (ct_job ctx)) ?wt gates n) ?reviewed)) s2 =
      (Inr TaskDone, t)" by simp
  then obtain u current review s3 s4 s5 where
    u: "set_task env ?tid (no_task_update\<lparr>tu_state := Some TaskReviewing\<rparr>) s2 = (Inr u, s3)"
    and r: "read_db (get_task ?tid) s3 = (Inr current, s4)"
    and v: "review_task_resilient env cf ?jid current (j_goal (ct_job ctx)) ?wt gates n s4 = (Inr review, s5)"
    and rev: "?reviewed review s5 = (Inr TaskDone, t)"
    by (elim act_then_InrE act_bind_InrE) blast
  have passed: "review_passed review" using rev by (auto dest: attempt_failed_again split: if_splits)
  with rev have acc: "attempt_accepted env cf ctx n agent aid review s5 = (Inr TaskDone, t)" by simp
  have "db_inv (x_sha env) (fst s1)" by (rule act_inv [OF env_ok_steps(6) [OF ok] c inv])
  from act_inv [OF steps_run_gates [OF ok] g this] have "db_inv (x_sha env) (fst s2)" .
  from act_inv [OF steps_set_task u this] have "db_inv (x_sha env) (fst s3)" .
  from act_inv [OF steps_read_db r this] have "db_inv (x_sha env) (fst s4)" .
  from act_inv [OF steps_resilient [OF ok] v this] have "db_inv (x_sha env) (fst s5)" .
  from attempt_accepted_done [OF acc ok this] g all v passed show ?thesis
    unfolding attempt_evidence_def by blast
qed



definition finished_task :: "'g env \<Rightarrow> config \<Rightarrow> attempt_ctx \<Rightarrow> db \<Rightarrow> bool" where
  "finished_task env cf ctx db \<longleftrightarrow>
     (\<exists>n. attempt_evidence env cf ctx n) \<and> stored_state (ct_task_id ctx) db = Some TaskCompleted"

lemma ensures_again [ensures_intros]:
  "ensures sha (ret (TryAgain c)) (\<lambda>r db. r = TaskDone \<longrightarrow> P db)"
  "ensures sha (attempt_failed env jid tid aid rc c m) (\<lambda>r db. r = TaskDone \<longrightarrow> P db)"
  by (auto simp: ensures_def dest: attempt_failed_again)

lemma ensures_attempt_review [ensures_intros]:
  "env_ok env \<Longrightarrow> ensures (x_sha env) (attempt_review env cf ctx task n agent aid)
     (\<lambda>r db. r = TaskDone \<longrightarrow> finished_task env cf ctx db)"
  by (auto simp: ensures_def finished_task_def dest!: attempt_review_done)

lemma ensures_run_attempt:
  "env_ok env \<Longrightarrow> ensures (x_sha env) (run_attempt env cf ctx n retry_context)
     (\<lambda>r db. r = TaskDone \<longrightarrow> finished_task env cf ctx db)"
  unfolding run_attempt_def Let_def by (intro ensures_intros steps_intros)

lemma ensures_attempt_loop [ensures_intros]:
  assumes "env_ok env"
  shows "ensures (x_sha env) (attempt_loop env cf ctx left n retry_context)
     (\<lambda>r db. r \<longrightarrow> finished_task env cf ctx db)"
proof (induction left arbitrary: n retry_context)
  case 0
  show ?case by (simp add: ensures_def)
next
  case (Suc left)
  show ?case
    unfolding ensures_def
  proof (intro allI impI)
    fix s y t
    assume inv: "db_inv (x_sha env) (fst s)" and y: y
      and run: "attempt_loop env cf ctx (Suc left) n retry_context s = (Inr y, t)"
    then obtain r u where r: "run_attempt env cf ctx n retry_context s = (Inr r, u)"
      and rest: "(case r of TaskDone \<Rightarrow> ret True
        | TryAgain context_text \<Rightarrow> attempt_loop env cf ctx left (n + 1) context_text) u = (Inr y, t)"
      by (auto elim: act_bind_InrE)
    show "finished_task env cf ctx (fst t)"
    proof (cases r)
      case TaskDone
      with rest have "t = u" by simp
      with ensuresD [OF ensures_run_attempt [OF assms] r inv] TaskDone show ?thesis by simp
    next
      case (TryAgain c)
      with rest have "attempt_loop env cf ctx left (n + 1) c u = (Inr y, t)" by simp
      from ensuresD [OF Suc.IH this act_inv [OF steps_run_attempt [OF assms] r inv]] y show ?thesis by simp
    qed
  qed
qed


text \<open>The result of the loop decides the result of the run.\<close>

lemma ensures_loop_then:
  assumes loop: "ensures sha m (\<lambda>r db. r \<longrightarrow> P db)"
    and exhausted: "\<And>s y t. f False s = (Inr y, t) \<Longrightarrow> \<not> y"
  shows "ensures sha (act_bind m (\<lambda>completed. if completed then ret True else f completed)) (\<lambda>r db. r \<longrightarrow> P db)"
  unfolding ensures_def
proof (intro allI impI)
  fix s y t
  assume inv: "db_inv sha (fst s)" and y: y
    and run: "act_bind m (\<lambda>completed. if completed then ret True else f completed) s = (Inr y, t)"
  then obtain r u where r: "m s = (Inr r, u)" and "(if r then ret True else f r) u = (Inr y, t)"
    by (auto elim: act_bind_InrE)
  with y exhausted [of u y t] have "r \<and> t = u" by (cases r) auto
  with ensuresD [OF loop r inv] show "P (fst t)" by simp
qed

lemma ensures_run_task:
  assumes "env_ok env"
  shows "ensures (x_sha env) (run_task env cf jid tid path)
    (\<lambda>r db. r \<longrightarrow> (\<exists>ctx. ct_task_id ctx = tid \<and> ct_path ctx = path \<and> finished_task env cf ctx db))"
    (is "ensures _ _ (\<lambda>r db. r \<longrightarrow> ?P db)")
proof -
  have loop: "ensures (x_sha env) (attempt_loop env cf
      \<lparr>ct_job = job, ct_task_id = tid, ct_branch = branch, ct_worktree = worktree, ct_path = path\<rparr> left n c)
      (\<lambda>r db. r \<longrightarrow> ?P db)" for job branch worktree left n c
    using ensures_attempt_loop [OF assms, of cf "\<lparr>ct_job = job, ct_task_id = tid, ct_branch = branch,
      ct_worktree = worktree, ct_path = path\<rparr>" left n c] unfolding ensures_def
    by (metis attempt_ctx.select_convs(2) attempt_ctx.select_convs(5))
  have "ensures (x_sha env) (run_task_with_slot env cf jid tid path) (\<lambda>r db. r \<longrightarrow> ?P db)"
    unfolding run_task_with_slot_def Let_def
    by (rule ensures_bind, rule steps_read_db, rule ensures_bind, rule steps_read_db,
        rule ensures_bind, rule steps_prepare_worktree [OF assms], rule ensures_case_prod,
        rule ensures_loop_then, rule loop, auto elim!: act_bind_InrE act_then_InrE)
  then show ?thesis unfolding run_task_def by (intro ensures_then steps_intros assms)
qed



lemma demo_task_runs:
  "fst (run_task (demo_env [] ''+'') demo_config ''job-1'' ''task-1'' ''/w'' (demo_db 2, ())) = Inr True"
  by code_simp


text \<open>
  A task run that reports failure leaves the task failed in the store with a non-empty error,
  and that failure is the last thing it does to the task.
\<close>

theorem failed_task_recorded:
  assumes "run_task env cf jid tid path s = (Inr False, t)"
  shows "\<exists>r. find_task tid (db_tasks (fst t)) = Some r \<and> t_state r = TaskFailed \<and> t_last_error r \<noteq> []"
proof -
  let ?fail = "\<lambda>error. no_task_update\<lparr>tu_state := Some TaskFailed, tu_last_error := Some error\<rparr>"
  from assms obtain current n budget s1 u s2 v where
    u: "set_task env tid (?fail (exhausted_error current n budget)) s1 = (Inr u, s2)"
    and e: "emit env jid ''task.failed'' [(''error'', jtext (exhausted_error current n budget))] (Some tid) s2 =
      (Inr v, t)"
    unfolding run_task_def run_task_with_slot_def Let_def case_prod_beta
    by (auto elim!: act_then_InrE act_bind_InrE split: if_splits)
  from set_task_row [OF u, of TaskFailed] emit_tasks [OF e] show ?thesis
    by (auto simp: exhausted_error_def or_text_def)
qed

definition broken_gates_env :: "unit env" where
  "broken_gates_env = (demo_env [] ''+'')\<lparr>x_gates := (\<lambda>commands _ _. ret [\<lparr>gr_command = ''make test'',
     gr_returncode = 1, gr_stdout = '''', gr_stderr = ''boom'', gr_duration_seconds = 0, gr_timed_out = False\<rparr>])\<rparr>"

definition one_attempt :: config where
  "one_attempt = demo_config\<lparr>cf_engine := demo_engine\<lparr>max_attempts := 1\<rparr>\<rparr>"

lemma demo_task_fails:
  "fst (run_task broken_gates_env one_attempt ''job-1'' ''task-1'' ''/w'' (demo_db 2, ())) = Inr False"
  by code_simp

lemma failed_task_recorded_witness:
  "\<exists>r. find_task ''task-1'' (db_tasks (fst (snd (run_task broken_gates_env one_attempt ''job-1'' ''task-1'' ''/w''
       (demo_db 2, ()))))) = Some r \<and> t_state r = TaskFailed \<and> t_last_error r \<noteq> []"
proof -
  let ?run = "run_task broken_gates_env one_attempt ''job-1'' ''task-1'' ''/w'' (demo_db 2, ())"
  have "?run = (Inr False, snd ?run)" using demo_task_fails by (simp add: prod_eq_iff)
  from failed_task_recorded [OF this] show ?thesis .
qed

end
