(* ===== verification/Yolo_Planner.thy ===== *)
theory Yolo_Planner
  imports Yolo_Util Yolo_Model "HOL-Library.Code_Target_Nat"
begin

text \<open>
  The planner of \<open>src/omarchy_yolo/planner.py\<close>: reading a plan out of the answer of the planning
  agent, and \<open>Planner.validate\<close> with its depth-first search for cycles. The answer itself (an
  agent process) and the JSON decoder are arguments. Python iterates the set of dependencies of
  a task in an arbitrary order; the model takes the order of the list, and
  \<open>validate_plan_exact\<close> shows that acceptance does not depend on it. Error messages keep their
  constant text and the task they name; the list of unknown dependencies is left out of its
  message.
\<close>

section \<open>Bounds and identifiers\<close>

definition MAX_SUMMARY_CHARS :: nat where "MAX_SUMMARY_CHARS = 4000"
definition MAX_TITLE_CHARS :: nat where "MAX_TITLE_CHARS = 240"
definition MAX_DESCRIPTION_CHARS :: nat where "MAX_DESCRIPTION_CHARS = 8000"
definition MAX_ACCEPTANCE_ITEMS :: nat where "MAX_ACCEPTANCE_ITEMS = 16"
definition MAX_ACCEPTANCE_CHARS :: nat where "MAX_ACCEPTANCE_CHARS = 1000"
definition MAX_AGENT_NAME_CHARS :: nat where "MAX_AGENT_NAME_CHARS = 64"

text \<open>\<open>[A-Za-z][A-Za-z0-9_.-]{0,31}\<close> and \<open>[A-Za-z0-9][A-Za-z0-9._-]{0,63}\<close>, full matches.\<close>

definition name_char :: "char \<Rightarrow> bool" where
  "name_char c = (is_ascii_alpha c \<or> is_ascii_digit c \<or> is_mark c)"

definition task_id_matches :: "string \<Rightarrow> bool" where
  "task_id_matches s =
     (case s of
        [] \<Rightarrow> False
      | c # rest \<Rightarrow> is_ascii_alpha c \<and> length rest \<le> 31 \<and> list_all name_char rest)"

definition agent_name_matches :: "string \<Rightarrow> bool" where
  "agent_name_matches s =
     (case s of
        [] \<Rightarrow> False
      | c # rest \<Rightarrow>
          (is_ascii_alpha c \<or> is_ascii_digit c) \<and> length rest \<le> 63 \<and> list_all name_char rest)"

section \<open>Reading the plan\<close>

definition field_error :: "string \<Rightarrow> string \<Rightarrow> py_error" where
  "field_error field text = YoloError (''planner field '' @ quoted field @ text)"

definition string_item :: "string \<Rightarrow> nat \<Rightarrow> payload \<Rightarrow> py_error + string" where
  "string_item field max_item_chars item =
     (case as_str item of
        None \<Rightarrow> Inl (field_error field '' must contain only strings'')
      | Some s \<Rightarrow>
          let text = py_strip s
          in if length text > max_item_chars
             then Inl (field_error field '' contains an oversized item'')
             else Inr text)"

definition string_list ::
  "string \<Rightarrow> nat \<Rightarrow> nat \<Rightarrow> payload \<Rightarrow> py_error + string list" where
  "string_list field max_items max_item_chars value =
     (if value = PNull then Inr []
      else case as_list value of
        None \<Rightarrow> Inl (field_error field '' must be an array'')
      | Some items \<Rightarrow>
          if length items > max_items then Inl (field_error field '' has too many items'')
          else map_result (string_item field max_item_chars) items)"

text \<open>The preferred agent: absent, null or blank is none.\<close>

definition parse_preferred :: "payload option \<Rightarrow> py_error + string option" where
  "parse_preferred raw =
     (case raw of
        None \<Rightarrow> Inr None
      | Some PNull \<Rightarrow> Inr None
      | Some (PStr s) \<Rightarrow>
          let preferred = py_strip s
          in if preferred = [] then Inr None
             else if length preferred > MAX_AGENT_NAME_CHARS \<or> \<not> agent_name_matches preferred
             then Inl (YoloError ''planner preferred_agent is not a safe agent identifier'')
             else Inr (Some preferred)
      | Some _ \<Rightarrow> Inl (YoloError ''planner preferred_agent must be a string or null''))"

definition parse_task :: "nat \<Rightarrow> payload \<Rightarrow> py_error + planned_task" where
  "parse_task max_tasks raw =
     (case as_dict raw of
        None \<Rightarrow> Inl (YoloError ''planner tasks must be objects'')
      | Some d \<Rightarrow>
          (case (as_str (dict_get_or d ''id'' (PStr [])), as_str (dict_get_or d ''title'' (PStr [])),
                 as_str (dict_get_or d ''description'' (PStr []))) of
             (Some logical_id, Some title, Some description) \<Rightarrow>
               rbind (string_list ''depends_on'' max_tasks 32
                        (dict_get_or d ''depends_on'' (PList [])))
                 (\<lambda>depends_on.
               rbind (string_list ''acceptance'' MAX_ACCEPTANCE_ITEMS MAX_ACCEPTANCE_CHARS
                        (dict_get_or d ''acceptance'' (PList [])))
                 (\<lambda>acceptance.
               rbind (parse_preferred (dict_get d ''preferred_agent''))
                 (\<lambda>preferred.
               case as_str (dict_get_or d ''risk'' (PStr ''medium'')) of
                 None \<Rightarrow> Inl (YoloError ''planner risk must be a string'')
               | Some risk \<Rightarrow>
                   Inr \<lparr>pt_logical_id = py_strip logical_id, pt_title = py_strip title,
                        pt_description = py_strip description, pt_depends_on = depends_on,
                        pt_acceptance = acceptance, pt_preferred_agent = preferred,
                        pt_risk =
                          (let r = py_lower (py_strip risk) in if r = [] then ''medium'' else r)\<rparr>)))
           | _ \<Rightarrow> Inl (YoloError ''planner task id/title/description must be strings'')))"

definition too_many_tasks :: "nat \<Rightarrow> nat \<Rightarrow> py_error" where
  "too_many_tasks n max_tasks =
     YoloError (''planner returned '' @ int_str (int n) @ '' tasks; configured maximum is '' @
       int_str (int max_tasks))"

section \<open>Validation\<close>

definition task_error :: "planned_task \<Rightarrow> string \<Rightarrow> py_error" where
  "task_error task text = YoloError (''task '' @ pt_logical_id task @ text)"

definition validate_task :: "string list \<Rightarrow> planned_task \<Rightarrow> py_error + unit" where
  "validate_task known task =
     rbind (require (pt_title task \<noteq> [] \<and> pt_description task \<noteq> [])
              (task_error task '' is missing title/description'')) (\<lambda>_.
     rbind (require (length (pt_title task) \<le> MAX_TITLE_CHARS)
              (task_error task '' title is too long'')) (\<lambda>_.
     rbind (require (length (pt_description task) \<le> MAX_DESCRIPTION_CHARS)
              (task_error task '' description is too long'')) (\<lambda>_.
     rbind (require (length (pt_acceptance task) \<le> MAX_ACCEPTANCE_ITEMS)
              (task_error task '' has too many acceptance criteria'')) (\<lambda>_.
     rbind (require (list_all (\<lambda>item. length item \<le> MAX_ACCEPTANCE_CHARS) (pt_acceptance task))
              (task_error task '' has an oversized acceptance criterion'')) (\<lambda>_.
     rbind (require (distinct (pt_depends_on task))
              (task_error task '' has duplicate dependencies'')) (\<lambda>_.
     rbind (require (list_all (\<lambda>dep. dep \<in> set known) (pt_depends_on task))
              (task_error task ('' depends on unknown tasks: '' @
                 repr_list (sort_key id (remdups (filter (\<lambda>dep. dep \<notin> set known) (pt_depends_on task))))))) (\<lambda>_.
     rbind (require (pt_logical_id task \<notin> set (pt_depends_on task))
              (task_error task '' depends on itself'')) (\<lambda>_.
     require (pt_risk task \<in> {''low'', ''medium'', ''high''})
       (task_error task ('' has invalid risk '' @ quoted (pt_risk task)))))))))))"

type_synonym task_graph = "(string \<times> string list) list"

definition plan_graph :: "planned_task list \<Rightarrow> task_graph" where
  "plan_graph tasks = map (\<lambda>t. (pt_logical_id t, pt_depends_on t)) tasks"

definition cycle_error :: py_error where
  "cycle_error = YoloError ''planner task graph contains a dependency cycle''"

lemma rbind_cong [fundef_cong]:
  "m = m' \<Longrightarrow> (\<And>x. m' = Inr x \<Longrightarrow> f x = f' x) \<Longrightarrow> rbind m f = rbind m' f'"
  by (cases m') auto

definition unvisited_keys :: "task_graph \<Rightarrow> string list \<Rightarrow> nat" where
  "unvisited_keys graph visiting = card (fst ` set graph - set visiting)"

lemma unvisited_keys_less:
  "map_of graph node = Some deps \<Longrightarrow> node \<notin> set visiting \<Longrightarrow>
   unvisited_keys graph (node # visiting) < unvisited_keys graph visiting"
  unfolding unvisited_keys_def
  by (rule psubset_card_mono) (force dest!: map_of_SomeD)+

text \<open>
  The nested function \<open>visit\<close> and its loop over the dependencies. The set \<open>visited\<close> is threaded
  through; \<open>visiting\<close> holds the nodes on the current path, since every return of \<open>visit\<close> removes
  what it added.
\<close>

function (sequential) visit :: "task_graph \<Rightarrow> string list \<Rightarrow> string list \<Rightarrow> string \<Rightarrow> py_error + string list"
and visit_all ::
  "task_graph \<Rightarrow> string list \<Rightarrow> string list \<Rightarrow> string list \<Rightarrow> py_error + string list"
where
  "visit graph visiting visited node =
     (if node \<in> set visited then Inr visited
      else if node \<in> set visiting then Inl cycle_error
      else case map_of graph node of
             None \<Rightarrow> Inl (KeyError node)
           | Some deps \<Rightarrow>
               rbind (visit_all graph (node # visiting) visited deps)
                 (\<lambda>visited. Inr (node # visited)))"
| "visit_all graph visiting visited [] = Inr visited"
| "visit_all graph visiting visited (dep # deps) =
     rbind (visit graph visiting visited dep)
       (\<lambda>visited. visit_all graph visiting visited deps)"
  by pat_completeness auto

termination
  by (relation "measures
        [\<lambda>s. case s of Inl (g, p, v, n) \<Rightarrow> unvisited_keys g p | Inr (g, p, v, ds) \<Rightarrow> unvisited_keys g p,
         \<lambda>s. case s of Inl _ \<Rightarrow> 0 | Inr (g, p, v, ds) \<Rightarrow> Suc (length ds)]")
    (auto simp: unvisited_keys_less)

declare visit.simps [simp del]

definition validate_plan :: "nat \<Rightarrow> planned_task list \<Rightarrow> py_error + unit" where
  "validate_plan max_tasks tasks =
     (let ids = map pt_logical_id tasks
      in rbind (require (tasks \<noteq> []) (YoloError ''planner returned zero tasks'')) (\<lambda>_.
         rbind (require (length tasks \<le> max_tasks) (too_many_tasks (length tasks) max_tasks)) (\<lambda>_.
         rbind (require (list_all task_id_matches ids)
           (YoloError ''planner task IDs must be short identifiers such as T1 or parser_fix'')) (\<lambda>_.
         rbind (require (distinct ids) (YoloError ''planner returned duplicate task IDs'')) (\<lambda>_.
         rbind (each (validate_task ids) tasks) (\<lambda>_.
         rbind (visit_all (plan_graph tasks) [] [] (map fst (plan_graph tasks))) (\<lambda>_. Inr ())))))))"

text \<open>\<open>Planner.plan\<close> on the result of the agent run.\<close>

definition plan :: "decoder \<Rightarrow> nat \<Rightarrow> string \<Rightarrow> agent_result \<Rightarrow> py_error + string \<times> planned_task list" where
  "plan decode max_tasks agent_name result =
     (if \<not> agent_ok result
      then Inl (YoloError (''planner agent '' @ agent_name @ '' exited '' @
                  int_str (ar_returncode result) @ '': '' @ py_last 1000 (ar_stderr result)))
      else
        rbind (extract_json_object decode (ar_stdout result)) (\<lambda>payload.
        case as_str (dict_get_or payload ''summary'' (PStr [])) of
          None \<Rightarrow> Inl (YoloError ''planner summary must be a string'')
        | Some summary_raw \<Rightarrow>
            let summary = py_strip summary_raw
            in rbind (require (length summary \<le> MAX_SUMMARY_CHARS)
                        (YoloError ''planner summary is too large'')) (\<lambda>_.
               case Option.bind (dict_get payload ''tasks'') as_list of
                 None \<Rightarrow> Inl (YoloError ''planner JSON is missing a tasks array'')
               | Some raw_tasks \<Rightarrow>
                   rbind (require (length raw_tasks \<le> max_tasks)
                            (too_many_tasks (length raw_tasks) max_tasks)) (\<lambda>_.
                   rbind (map_result (parse_task max_tasks) raw_tasks) (\<lambda>tasks.
                   rbind (validate_plan max_tasks tasks) (\<lambda>_. Inr (summary, tasks)))))))"

section \<open>The search decides acyclicity\<close>

definition depends :: "task_graph \<Rightarrow> (string \<times> string) set" where
  "depends graph = {(n, d). \<exists>deps. map_of graph n = Some deps \<and> d \<in> set deps}"

definition known_deps :: "task_graph \<Rightarrow> bool" where
  "known_deps graph \<longleftrightarrow> (\<forall>(n, d) \<in> depends graph. d \<in> fst ` set graph)"

text \<open>
  What the list of visited nodes means: each node comes with all its dependencies behind it.
\<close>

fun settled :: "task_graph \<Rightarrow> string list \<Rightarrow> bool" where
  "settled graph [] = True"
| "settled graph (n # ns) =
     (settled graph ns \<and> (\<exists>deps. map_of graph n = Some deps \<and> set deps \<subseteq> set ns))"

lemma visit_sound:
  "visit graph path vis node = Inr vis' \<Longrightarrow> settled graph vis \<Longrightarrow>
   settled graph vis' \<and> node \<in> set vis' \<and> set vis \<subseteq> set vis'"
  "visit_all graph path vis nodes = Inr vis' \<Longrightarrow> settled graph vis \<Longrightarrow>
   settled graph vis' \<and> set nodes \<subseteq> set vis' \<and> set vis \<subseteq> set vis'"
proof (induction graph path vis node and graph path vis nodes
    arbitrary: vis' and vis' rule: visit_visit_all.induct)
  case (1 graph path vis node)
  show ?case
  proof (cases "node \<in> set vis \<or> node \<in> set path \<or> map_of graph node = None")
    case True
    with 1(2,3) show ?thesis
      by (subst (asm) visit.simps) (auto split: if_splits)
  next
    case False
    then obtain deps where deps: "map_of graph node = Some deps" by auto
    with False 1(2) obtain v where
      v: "visit_all graph (node # path) vis deps = Inr v" "vis' = node # v"
      by (subst (asm) visit.simps) (auto simp: rbind_Inr_iff)
    from "1.IH" [OF _ _ deps v(1) 1(3)] False v(2) deps show ?thesis by auto
  qed
next
  case (2 graph path vis)
  then show ?case by simp
next
  case (3 graph path vis dep deps)
  from 3(3) obtain v where v: "visit graph path vis dep = Inr v"
    and rest: "visit_all graph path v deps = Inr vis'"
    by (auto simp: rbind_Inr_iff)
  from 3(1) [OF v 3(4)] 3(2) [OF v rest] show ?case by auto
qed

lemma settled_acyclic:
  "settled graph vis \<Longrightarrow> x \<in> set vis \<Longrightarrow> (x, y) \<in> (depends graph)\<^sup>+ \<Longrightarrow> y \<in> set vis \<and> x \<noteq> y"
proof (induction vis arbitrary: x y)
  case Nil
  then show ?case by simp
next
  case (Cons n ns)
  from Cons.prems(1) obtain deps where ns: "settled graph ns"
    and deps: "map_of graph n = Some deps" "set deps \<subseteq> set ns" by auto
  note inside = Cons.IH [OF ns]
  show ?case
  proof (cases "x \<in> set ns")
    case True
    with inside [OF True Cons.prems(3)] show ?thesis by simp
  next
    case False
    with Cons.prems(2) have x: "x = n" by simp
    from Cons.prems(3) obtain z where z: "(x, z) \<in> depends graph"
      and zy: "z = y \<or> (z, y) \<in> (depends graph)\<^sup>+"
      by (meson tranclD rtranclD)
    from z x deps have "z \<in> set ns" by (auto simp: depends_def)
    with zy inside [of z y] have "y \<in> set ns" by auto
    with False show ?thesis by auto
  qed
qed

lemma visit_complete:
  "\<lbrakk>acyclic (depends graph); known_deps graph; node \<in> fst ` set graph;
    \<forall>v \<in> set path. (v, node) \<in> (depends graph)\<^sup>+\<rbrakk> \<Longrightarrow>
   \<exists>vis'. visit graph path vis node = Inr vis'"
  "\<lbrakk>acyclic (depends graph); known_deps graph; set nodes \<subseteq> fst ` set graph;
    \<forall>v \<in> set path. \<forall>n \<in> set nodes. (v, n) \<in> (depends graph)\<^sup>+\<rbrakk> \<Longrightarrow>
   \<exists>vis'. visit_all graph path vis nodes = Inr vis'"
proof (induction graph path vis node and graph path vis nodes rule: visit_visit_all.induct)
  case (1 graph path vis node)
  show ?case
  proof (cases "node \<in> set vis")
    case True
    then show ?thesis by (subst visit.simps) simp
  next
    case False
    have off_path: "node \<notin> set path" using 1(2,5) by (auto simp: acyclic_def)
    from 1(4) obtain deps where deps: "map_of graph node = Some deps"
      by (metis map_of_eq_None_iff not_None_eq)
    have edge: "(node, d) \<in> depends graph" if "d \<in> set deps" for d
      using that deps by (auto simp: depends_def)
    have "set deps \<subseteq> fst ` set graph"
      using edge 1(3) by (fastforce simp: known_deps_def)
    moreover have "\<forall>v \<in> set (node # path). \<forall>n \<in> set deps. (v, n) \<in> (depends graph)\<^sup>+"
      using edge 1(5) by (auto intro: trancl_into_trancl)
    ultimately obtain v where "visit_all graph (node # path) vis deps = Inr v"
      using "1.IH" [OF False off_path deps 1(2,3)] by blast
    with False off_path deps show ?thesis by (subst visit.simps) simp
  qed
next
  case (2 graph path vis)
  then show ?case by simp
next
  case (3 graph path vis dep deps)
  from 3(3-6) obtain v where v: "visit graph path vis dep = Inr v" using 3(1) by auto
  from 3(3-6) 3(2) [OF v] have "\<exists>vis'. visit_all graph path v deps = Inr vis'" by auto
  with v show ?case by simp
qed

lemma visit_all_iff_acyclic:
  assumes "known_deps graph"
  shows "(\<exists>vis. visit_all graph [] [] (map fst graph) = Inr vis) \<longleftrightarrow> acyclic (depends graph)"
proof
  assume "\<exists>vis. visit_all graph [] [] (map fst graph) = Inr vis"
  then obtain vis where vis: "settled graph vis" "fst ` set graph \<subseteq> set vis"
    using visit_sound(2) [of graph "[]" "[]" "map fst graph"] by auto
  have keys: "x \<in> fst ` set graph" if "(x, y) \<in> (depends graph)\<^sup>+" for x y
  proof -
    from that obtain z where "(x, z) \<in> depends graph" by (meson tranclD)
    then show ?thesis by (force simp: depends_def dest: map_of_SomeD)
  qed
  show "acyclic (depends graph)"
  proof (rule acyclicI, rule allI)
    fix x
    show "(x, x) \<notin> (depends graph)\<^sup>+"
      using settled_acyclic [OF vis(1), of x x] keys [of x x] vis(2) by auto
  qed
next
  assume "acyclic (depends graph)"
  then show "\<exists>vis. visit_all graph [] [] (map fst graph) = Inr vis"
    using visit_complete(2) [of graph "map fst graph" "[]" "[]"] assms by simp
qed

section \<open>The abstract contract of a plan\<close>

definition task_ok :: "string set \<Rightarrow> planned_task \<Rightarrow> bool" where
  "task_ok ids t \<longleftrightarrow>
     task_id_matches (pt_logical_id t) \<and>
     0 < length (pt_title t) \<and> length (pt_title t) \<le> 240 \<and>
     0 < length (pt_description t) \<and> length (pt_description t) \<le> 8000 \<and>
     length (pt_acceptance t) \<le> 16 \<and> (\<forall>a \<in> set (pt_acceptance t). length a \<le> 1000) \<and>
     distinct (pt_depends_on t) \<and> set (pt_depends_on t) \<subseteq> ids \<and>
     pt_risk t \<in> {''low'', ''medium'', ''high''}"

definition depends_on :: "planned_task list \<Rightarrow> (string \<times> string) set" where
  "depends_on tasks = {(n, d). \<exists>t \<in> set tasks. n = pt_logical_id t \<and> d \<in> set (pt_depends_on t)}"

definition plan_ok :: "nat \<Rightarrow> planned_task list \<Rightarrow> bool" where
  "plan_ok max_tasks tasks \<longleftrightarrow>
     0 < length tasks \<and> length tasks \<le> max_tasks \<and> distinct (map pt_logical_id tasks) \<and>
     (\<forall>t \<in> set tasks. task_ok (pt_logical_id ` set tasks) t) \<and> acyclic (depends_on tasks)"

lemma map_of_plan_graph:
  "distinct (map pt_logical_id tasks) \<Longrightarrow>
   map_of (plan_graph tasks) n = Some deps \<longleftrightarrow>
   (\<exists>t \<in> set tasks. n = pt_logical_id t \<and> deps = pt_depends_on t)"
  by (subst map_of_eq_Some_iff) (auto simp: plan_graph_def comp_def image_iff)

lemma depends_plan_graph:
  "distinct (map pt_logical_id tasks) \<Longrightarrow> depends (plan_graph tasks) = depends_on tasks"
  unfolding depends_def depends_on_def by (auto simp: map_of_plan_graph)

lemma validate_task_iff:
  "validate_task known t = Inr () \<longleftrightarrow>
   pt_title t \<noteq> [] \<and> pt_description t \<noteq> [] \<and>
   length (pt_title t) \<le> 240 \<and> length (pt_description t) \<le> 8000 \<and>
   length (pt_acceptance t) \<le> 16 \<and> (\<forall>a \<in> set (pt_acceptance t). length a \<le> 1000) \<and>
   distinct (pt_depends_on t) \<and> set (pt_depends_on t) \<subseteq> set known \<and>
   pt_logical_id t \<notin> set (pt_depends_on t) \<and> pt_risk t \<in> {''low'', ''medium'', ''high''}"
  unfolding validate_task_def rbind_Inr_iff require_Inr_iff
  by (auto simp: MAX_TITLE_CHARS_def MAX_DESCRIPTION_CHARS_def MAX_ACCEPTANCE_ITEMS_def
      MAX_ACCEPTANCE_CHARS_def list_all_iff)

lemma no_self_dependency:
  "acyclic (depends_on tasks) \<Longrightarrow> t \<in> set tasks \<Longrightarrow> pt_logical_id t \<notin> set (pt_depends_on t)"
  unfolding acyclic_def depends_on_def by blast

lemma validate_plan_iff: "validate_plan max_tasks tasks = Inr () \<longleftrightarrow> plan_ok max_tasks tasks"
proof -
  let ?ids = "map pt_logical_id tasks"
  let ?g = "plan_graph tasks"
  have known: "known_deps ?g" if "distinct ?ids" "\<forall>t \<in> set tasks. validate_task ?ids t = Inr ()"
  proof -
    have "d \<in> fst ` set ?g" if "(n, d) \<in> depends_on tasks" for n d
    proof -
      from that obtain t where "t \<in> set tasks" "d \<in> set (pt_depends_on t)"
        by (auto simp: depends_on_def)
      with \<open>\<forall>t \<in> set tasks. validate_task ?ids t = Inr ()\<close> have "d \<in> set ?ids"
        by (metis validate_task_iff subsetD)
      then show ?thesis by (simp add: plan_graph_def image_image)
    qed
    with that(1) show ?thesis by (auto simp: known_deps_def depends_plan_graph)
  qed
  have "validate_plan max_tasks tasks = Inr () \<longleftrightarrow>
     tasks \<noteq> [] \<and> length tasks \<le> max_tasks \<and> (\<forall>t \<in> set tasks. task_id_matches (pt_logical_id t)) \<and>
     distinct ?ids \<and> (\<forall>t \<in> set tasks. validate_task ?ids t = Inr ()) \<and>
     (\<exists>vis. visit_all ?g [] [] (map fst ?g) = Inr vis)"
    by (simp add: validate_plan_def Let_def rbind_Inr_iff each_Inr_iff list_all_iff)
  also have "\<dots> \<longleftrightarrow>
     tasks \<noteq> [] \<and> length tasks \<le> max_tasks \<and> (\<forall>t \<in> set tasks. task_id_matches (pt_logical_id t)) \<and>
     distinct ?ids \<and> (\<forall>t \<in> set tasks. validate_task ?ids t = Inr ()) \<and> acyclic (depends_on tasks)"
    using known visit_all_iff_acyclic [of ?g] depends_plan_graph [of tasks] by auto
  also have "\<dots> \<longleftrightarrow> plan_ok max_tasks tasks"
    unfolding plan_ok_def task_ok_def validate_task_iff
    using no_self_dependency [of tasks] by auto
  finally show ?thesis .
qed

text \<open>Where every node is known, the only way the search fails is a cycle.\<close>

lemma visit_error:
  "visit graph path vis node = Inl e \<Longrightarrow> known_deps graph \<Longrightarrow> node \<in> fst ` set graph \<Longrightarrow>
   e = cycle_error"
  "visit_all graph path vis nodes = Inl e \<Longrightarrow> known_deps graph \<Longrightarrow> set nodes \<subseteq> fst ` set graph \<Longrightarrow>
   e = cycle_error"
proof (induction graph path vis node and graph path vis nodes rule: visit_visit_all.induct)
  case (1 graph path vis node)
  show ?case
  proof (cases "node \<in> set vis \<or> node \<in> set path")
    case True
    with 1(2) show ?thesis by (subst (asm) visit.simps) (auto split: if_splits)
  next
    case False
    from 1(4) obtain deps where deps: "map_of graph node = Some deps"
      by (metis map_of_eq_None_iff not_None_eq)
    have sub: "set deps \<subseteq> fst ` set graph"
      using 1(3) deps by (fastforce simp: known_deps_def depends_def)
    from 1(2) False deps have "visit_all graph (node # path) vis deps = Inl e"
      by (subst (asm) visit.simps) (auto simp: rbind_Inl_iff)
    with "1.IH" [OF _ _ deps] False 1(3) sub show ?thesis by auto
  qed
next
  case (2 graph path vis)
  then show ?case by simp
next
  case (3 graph path vis dep deps)
  then show ?case by (auto simp: rbind_Inl_iff)
qed

section \<open>Properties\<close>

text \<open>
  C20: Planner.validate accepts a plan exactly when the plan satisfies the declarative contract:
  between one and the configured number of tasks, distinct well-formed identifiers, bounded
  texts, known and distinct dependencies, a known risk, and a dependency relation without
  cycles. The depth-first search of the code always ends.
\<close>

theorem validate_plan_exact: "validate_plan max_tasks tasks = Inr () \<longleftrightarrow> plan_ok max_tasks tasks"
  by (rule validate_plan_iff)

lemma cycle_error_only:
  assumes "validate_plan max_tasks tasks = Inl cycle_error"
  shows "distinct (map pt_logical_id tasks) \<and> \<not> acyclic (depends_on tasks)"
proof -
  let ?ids = "map pt_logical_id tasks"
  let ?g = "plan_graph tasks"
  have each: "each (validate_task ?ids) ts \<noteq> Inl cycle_error" for ts
    by (induction ts)
      (auto simp: rbind_Inl_iff validate_task_def task_error_def cycle_error_def)
  from assms each have
    parts: "tasks \<noteq> []" "length tasks \<le> max_tasks" "list_all task_id_matches ?ids" "distinct ?ids"
      "each (validate_task ?ids) tasks = Inr ()" "visit_all ?g [] [] (map fst ?g) = Inl cycle_error"
    unfolding validate_plan_def Let_def rbind_Inl_iff
    by (auto simp: cycle_error_def too_many_tasks_def)
  have "\<not> plan_ok max_tasks tasks"
    using assms validate_plan_iff [of max_tasks tasks] by auto
  moreover have "acyclic (depends_on tasks) \<Longrightarrow> plan_ok max_tasks tasks"
    using parts(1-5) no_self_dependency [of tasks]
    by (auto simp: plan_ok_def task_ok_def each_Inr_iff validate_task_iff list_all_iff)
  ultimately show ?thesis using parts(4) by blast
qed

lemma parse_preferred_name:
  "parse_preferred raw = Inr (Some name) \<Longrightarrow> agent_name_matches name \<and> length name \<le> 64"
  by (auto simp: parse_preferred_def MAX_AGENT_NAME_CHARS_def Let_def
      split: option.splits payload.splits if_splits)

lemma parse_task_preferred:
  "parse_task n raw = Inr t \<Longrightarrow> pt_preferred_agent t = Some name \<Longrightarrow>
   agent_name_matches name \<and> length name \<le> 64"
  using parse_preferred_name [of _ name]
  by (auto simp: parse_task_def rbind_Inr_iff simp del: as_str_Some as_dict_Some split: option.splits)

lemma plan_Inr:
  assumes "plan decode max_tasks agent result = Inr (summary, tasks)"
  obtains payload summary_raw raw_tasks where "agent_ok result"
    "extract_json_object decode (ar_stdout result) = Inr payload"
    "summary = py_strip summary_raw" "length summary \<le> MAX_SUMMARY_CHARS"
    "map_result (parse_task max_tasks) raw_tasks = Inr tasks"
    "validate_plan max_tasks tasks = Inr ()"
proof -
  from assms have ok: "agent_ok result" by (simp add: plan_def split: if_splits)
  with assms obtain payload where p: "extract_json_object decode (ar_stdout result) = Inr payload"
    by (auto simp: plan_def rbind_Inr_iff)
  with assms ok obtain raw where raw: "as_str (dict_get_or payload ''summary'' (PStr [])) = Some raw"
    by (cases "as_str (dict_get_or payload ''summary'' (PStr []))") (simp_all add: plan_def)
  with assms ok p obtain raw_tasks where
    ts: "Option.bind (dict_get payload ''tasks'') as_list = Some raw_tasks"
    by (cases "Option.bind (dict_get payload ''tasks'') as_list")
      (simp_all add: plan_def Let_def rbind_Inr_iff del: as_str_Some)
  from assms have "summary = py_strip raw" "length summary \<le> MAX_SUMMARY_CHARS"
    "map_result (parse_task max_tasks) raw_tasks = Inr tasks" "validate_plan max_tasks tasks = Inr ()"
    using ok p raw ts by (auto simp: plan_def Let_def rbind_Inr_iff simp del: as_str_Some)
  with ok p show thesis by (intro that)
qed

definition preferred_ok :: "planned_task \<Rightarrow> bool" where
  "preferred_ok t =
     (case pt_preferred_agent t of None \<Rightarrow> True | Some name \<Rightarrow> agent_name_matches name)"

text \<open>
  Whatever text the planning agent prints, a plan that is returned satisfies the contract,
  its summary is bounded, and every preferred agent it names is a safe agent identifier.
\<close>

theorem returned_plan_valid:
  assumes "plan decode max_tasks agent result = Inr (summary, tasks)"
  shows "plan_ok max_tasks tasks \<and> length summary \<le> 4000 \<and> list_all preferred_ok tasks"
proof -
  from assms obtain raw_tasks where p: "length summary \<le> MAX_SUMMARY_CHARS"
    "map_result (parse_task max_tasks) raw_tasks = Inr tasks" "validate_plan max_tasks tasks = Inr ()"
    by (rule plan_Inr) blast
  have "\<forall>t \<in> set tasks. preferred_ok t"
    using map_result_all [OF p(2), of preferred_ok] parse_task_preferred
    by (force simp: preferred_ok_def split: option.splits)
  with p(1,3) show ?thesis
    by (auto simp: validate_plan_iff MAX_SUMMARY_CHARS_def list_all_iff)
qed

definition demo_plan_payload :: payload_dict where
  "demo_plan_payload =
     [(''summary'', PStr '' two steps ''),
      (''tasks'', PList
         [PDict [(''id'', PStr ''T1''), (''title'', PStr ''parse''), (''description'', PStr ''write it''),
                 (''preferred_agent'', PStr ''codex'')],
          PDict [(''id'', PStr ''T2''), (''title'', PStr ''test''), (''description'', PStr ''test it''),
                 (''depends_on'', PList [PStr ''T1'']), (''risk'', PStr '' LOW '')]])]"

definition demo_decode :: "payload_dict \<Rightarrow> decoder" where
  "demo_decode d w i = (if i = 0 then Some (PDict d) else None)"

lemma returned_plan_valid_witness:
  "\<exists>tasks. plan_ok 8 tasks \<and> length tasks = 2"
proof -
  let ?r = "\<lparr>ar_returncode = 0, ar_stdout = ''{}'', ar_stderr = ''''\<rparr>"
  let ?t1 = "\<lparr>pt_logical_id = ''T1'', pt_title = ''parse'', pt_description = ''write it'',
    pt_depends_on = [], pt_acceptance = [], pt_preferred_agent = Some ''codex'', pt_risk = ''medium''\<rparr>"
  let ?t2 = "\<lparr>pt_logical_id = ''T2'', pt_title = ''test'', pt_description = ''test it'',
    pt_depends_on = [''T1''], pt_acceptance = [], pt_preferred_agent = None, pt_risk = ''low''\<rparr>"
  have run: "plan (demo_decode demo_plan_payload) 8 ''codex'' ?r = Inr (''two steps'', [?t1, ?t2])"
    by code_simp
  have "plan_ok 8 [?t1, ?t2]"
    using returned_plan_valid [OF run] by simp
  then show ?thesis by (intro exI [of _ "[?t1, ?t2]"]) simp
qed

text \<open>
  The structured answer of an agent is the object that opens last in the final 262144
  characters, provided at most 512 opening braces follow it (itself included); otherwise the
  output is refused with an error.
\<close>

theorem extract_json_object_last:
  "extract_json_object decode text = Inr d \<longleftrightarrow>
   (let w = py_last 262144 text
    in \<exists>i < length w. opens_object decode w i d \<and> braces_between w i (length w) \<le> 512 \<and>
         \<not> (\<exists>k d'. i < k \<and> k < length w \<and> opens_object decode w k d'))"
  unfolding extract_json_object_def Let_def scan_json_exact
  by (auto simp: MAX_STRUCTURED_OUTPUT_CHARS_def MAX_JSON_DECODE_ATTEMPTS_def)

text \<open>
  A plan refused for a dependency cycle has distinct task identifiers and really contains
  one: the search never reports a cycle in an acyclic plan.
\<close>

theorem cycle_report_true:
  assumes "validate_plan max_tasks tasks = Inl cycle_error"
  shows "distinct (map pt_logical_id tasks) \<and>
    (\<exists>t \<in> set tasks. (pt_logical_id t, pt_logical_id t) \<in> (depends_on tasks)\<^sup>+)"
proof -
  from cycle_error_only [OF assms] obtain x where d: "distinct (map pt_logical_id tasks)"
    and x: "(x, x) \<in> (depends_on tasks)\<^sup>+"
    by (auto simp: acyclic_def)
  from x obtain y where "(x, y) \<in> depends_on tasks" by (meson tranclD)
  then show ?thesis using x d by (auto simp: depends_on_def)
qed

definition demo_cycle :: "planned_task list" where
  "demo_cycle = map (\<lambda>(n, d). \<lparr>pt_logical_id = n, pt_title = ''t'', pt_description = ''d'',
     pt_depends_on = [d], pt_acceptance = [], pt_preferred_agent = None, pt_risk = ''low''\<rparr>)
     [(''A'', ''B''), (''B'', ''A'')]"

lemma cycle_report_true_witness:
  "\<exists>t \<in> set demo_cycle. (pt_logical_id t, pt_logical_id t) \<in> (depends_on demo_cycle)\<^sup>+"
proof -
  have "validate_plan 8 demo_cycle = Inl cycle_error" by code_simp
  from cycle_report_true [OF this] show ?thesis by blast
qed

end
