(* ===== verification/Yolo_Orchestrator.thy ===== *)
theory Yolo_Orchestrator
  imports Yolo_Task_Proofs Yolo_Planner
begin

text \<open>
  One job, \<open>src/omarchy_yolo/orchestrator.py\<close>: planning, the scheduling of the task graph, acceptance
  and its resumption, and the settlement of a job that was cancelled or failed.
\<close>

section \<open>Planning\<close>

text \<open>The single task that replaces a plan that could not be made.\<close>

definition fallback_task :: "string \<Rightarrow> planned_task" where
  "fallback_task goal =
     \<lparr>pt_logical_id = ''T1'', pt_title = ''Implement the requested goal'', pt_description = goal,
      pt_depends_on = [],
      pt_acceptance = [''The requested goal is implemented and repository checks pass.''],
      pt_preferred_agent = None, pt_risk = ''high''\<rparr>"

definition ask_planner ::
  "'g env \<Rightarrow> config \<Rightarrow> job_row \<Rightarrow> string \<Rightarrow> string \<Rightarrow> ('g, planned_task list) act" where
  "ask_planner env cf job path planner =
     act_bind (read_world (x_registry env)) (\<lambda>reg.
     act_bind (of_result (registry_get reg planner)) (\<lambda>_.
     act_bind (x_agent env \<lparr>call_agent = planner, call_prompt = PlannerPrompt (j_goal job),
                 call_cwd = path, call_log = path_join [logs_dir cf, j_id job, ''planner.log''],
                 call_profile = ''review''\<rparr>) (\<lambda>result.
     act_bind (of_result (plan (x_decode env) (nat (max_tasks (cf_engine cf))) planner result)) (\<lambda>(summary, tasks).
     act_then (emit env (j_id job) ''planner.completed''
         [(''agent'', jtext planner), (''summary'', jtext summary),
          (''tasks'', JInt (int (length tasks)))] None)
       (ret tasks)))))"

text \<open>\<open>add_tasks\<close> gives every task a fresh id.\<close>

fun fresh_ids :: "'g env \<Rightarrow> planned_task list \<Rightarrow> ('g, (string \<times> planned_task) list) act" where
  "fresh_ids env [] = ret []"
| "fresh_ids env (t # ts) =
     act_bind (fresh_id env ''task'') (\<lambda>i.
     act_bind (fresh_ids env ts) (\<lambda>rest. ret ((i, t) # rest)))"

definition plan_job :: "'g env \<Rightarrow> config \<Rightarrow> string \<Rightarrow> string \<Rightarrow> ('g, unit) act" where
  "plan_job env cf job_id path =
     act_bind (read_db (get_job job_id)) (\<lambda>job.
     act_then (tx env (\<lambda>now. update_job now job_id (no_job_update\<lparr>ju_state := Some JobPlanning\<rparr>)))
     (act_then (emit env job_id ''planner.started'' [] None)
     (act_bind (read_world (x_registry env)) (\<lambda>reg.
      act_bind (of_result (choose_role reg (planner_agent (cf_engine cf)) (worker_names cf) None
                             (Some RolePlanner))) (\<lambda>planner.
      act_bind (handle_error (ask_planner env cf job path planner)
          (\<lambda>e. act_then (emit env job_id ''planner.fallback'' [(''error'', jtext (err_text e))] None)
                 (ret [fallback_task (j_goal job)]))) (\<lambda>tasks.
      act_bind (fresh_ids env tasks) (\<lambda>planned.
      act_bind (txv env (\<lambda>now. add_tasks now job_id planned)) (\<lambda>_. ret ()))))))))"

section \<open>The task graph\<close>

definition completed_names :: "task_row list \<Rightarrow> string list" where
  "completed_names tasks = map t_logical_id (filter (\<lambda>t. t_state t = TaskCompleted) tasks)"

text \<open>What may start: pending, every dependency completed, and no running coroutine of its own.\<close>

definition ready_tasks :: "task_row list \<Rightarrow> string list \<Rightarrow> task_row list" where
  "ready_tasks tasks active =
     filter (\<lambda>t. t_state t = TaskPending \<and> set (t_dependencies t) \<subseteq> set (completed_names tasks) \<and>
                 t_id t \<notin> set active) tasks"

definition started_tasks :: "int \<Rightarrow> task_row list \<Rightarrow> string list \<Rightarrow> string list" where
  "started_tasks parallel tasks active =
     map t_id (take (nat (max 0 (parallel - int (length active)))) (ready_tasks tasks active))"

definition failed_error :: "task_row list \<Rightarrow> py_error" where
  "failed_error failures = YoloError (''task(s) failed: '' @
     join_with '', '' (map (\<lambda>t. t_logical_id t @ '': '' @ t_last_error t) failures))"

fun block_tasks :: "'g env \<Rightarrow> task_row list \<Rightarrow> ('g, unit) act" where
  "block_tasks env [] = ret ()"
| "block_tasks env (task # tasks) =
     act_then (set_task env (t_id task) (no_task_update\<lparr>tu_state := Some TaskBlocked,
         tu_last_error := Some ''dependency graph made no schedulable progress''\<rparr>))
       (block_tasks env tasks)"

text \<open>The loop over the handles that are done: the first bad outcome ends it.\<close>

fun collect_results :: "'g env \<Rightarrow> (string \<times> (exc + bool)) list \<Rightarrow> ('g, unit) act" where
  "collect_results env [] = ret ()"
| "collect_results env ((name, outcome) # rest) =
     (case outcome of
        Inl Cancelled \<Rightarrow> raise_exc Cancelled
      | Inl (Raised e) \<Rightarrow> raise_exc (Raised (YoloError (err_text e)))
      | Inr True \<Rightarrow> collect_results env rest
      | Inr False \<Rightarrow>
          act_bind (read_db (get_task name)) (\<lambda>failed.
            raise_exc (Raised (YoloError (t_logical_id failed @ '' failed: '' @ t_last_error failed)))))"

text \<open>
  One round of the loop, with the names of the handles that are not done. \<open>None\<close> is the return of
  the coroutine, otherwise the handles that are left.
\<close>

definition dag_round ::
  "'g env \<Rightarrow> config \<Rightarrow> string \<Rightarrow> string \<Rightarrow> string list \<Rightarrow> ('g, string list option) act" where
  "dag_round env cf job_id path active =
     act_bind (read_db (get_job job_id)) (\<lambda>job.
     if j_stop_requested job then raise_exc Cancelled else
     act_bind (read_db (\<lambda>db. Inr (list_tasks job_id db))) (\<lambda>tasks.
     let failures = filter (\<lambda>t. t_state t = TaskFailed) tasks in
     if failures \<noteq> [] then raise_exc (Raised (failed_error failures))
     else if tasks \<noteq> [] \<and> list_all (\<lambda>t. t_state t = TaskCompleted) tasks then ret None
     else
       let running = active @ started_tasks (max_parallel (cf_engine cf)) tasks active;
           remaining = filter (\<lambda>t. t_state t \<noteq> TaskCompleted) tasks
       in if running = [] then
            (if remaining \<noteq> []
             then act_then (block_tasks env remaining)
                    (raise_exc (Raised (YoloError ''task graph stalled with blocked tasks'')))
             else ret None)
          else
            act_bind (x_join env (map (\<lambda>name. (name, run_task env cf job_id name path)) running)) (\<lambda>finished.
            act_then (collect_results env finished)
              (ret (Some (filter (\<lambda>name. name \<notin> fst ` set finished) running))))))"

text \<open>The loop, for a number of rounds; \<open>False\<close> when the rounds are used up before it returns.\<close>

fun execute_dag ::
  "'g env \<Rightarrow> config \<Rightarrow> string \<Rightarrow> string \<Rightarrow> nat \<Rightarrow> string list \<Rightarrow> ('g, bool) act" where
  "execute_dag env cf job_id path 0 active = ret False"
| "execute_dag env cf job_id path (Suc rounds) active =
     act_bind (dag_round env cf job_id path active) (\<lambda>next.
     case next of
       None \<Rightarrow> ret True
     | Some active \<Rightarrow> execute_dag env cf job_id path rounds active)"


section \<open>Acceptance\<close>

definition DOSSIER_SCHEMA_VERSION :: int where "DOSSIER_SCHEMA_VERSION = 1"

definition verify_dossier :: "(string \<Rightarrow> string) \<Rightarrow> string \<Rightarrow> string \<Rightarrow> bool" where
  "verify_dossier sha content expected \<longleftrightarrow> sha content = expected"

text \<open>
  The apply intent of the row decides whether the source branch is touched at all. The row is read
  again once the start of the application is journaled.
\<close>

definition apply_to_source :: "'g env \<Rightarrow> job_row \<Rightarrow> ('g, job_row \<times> string \<times> string) act" where
  "apply_to_source env accepted =
     (case j_source_apply_intent accepted of
        IntentRequested \<Rightarrow>
          act_bind (if j_acceptance_phase accepted = PhaseAccepted
                    then act_then (tx env (\<lambda>now. mark_apply_started now (j_id accepted) (j_accepted_commit accepted)))
                           (read_db (get_job (j_id accepted)))
                    else ret accepted) (\<lambda>accepted.
          act_then (x_wait env ''repo_lock'')
          (act_bind (x_reconcile env (j_integration_branch accepted) (j_base_branch accepted)
               (j_base_commit accepted) (j_accepted_commit accepted)) (\<lambda>result.
            ret (accepted, result))))
      | IntentNotRequested \<Rightarrow> ret (accepted, ''not-requested'', []))"

definition resume_accepted_job :: "'g env \<Rightarrow> job_row \<Rightarrow> ('g, unit) act" where
  "resume_accepted_job env accepted =
     (if j_acceptance_phase accepted \<notin> {PhaseAccepted, PhaseApplying}
      then raise_exc (Raised (YoloError (''cannot reconcile acceptance from phase '' @
             phase_value (j_acceptance_phase accepted))))
      else if j_accepted_commit accepted = []
      then raise_exc (Raised (YoloError ''accepted job is missing its durable accepted commit''))
      else act_bind (read_db (\<lambda>db. Inr (get_staged_dossier (j_id accepted) db))) (\<lambda>staged.
        case staged of
          None \<Rightarrow> raise_exc (Raised (YoloError ''accepted job is missing its unpublished staged dossier''))
        | Some d \<Rightarrow>
            if d_published d
            then raise_exc (Raised (YoloError ''accepted job is missing its unpublished staged dossier''))
            else if d_schema_version d \<noteq> DOSSIER_SCHEMA_VERSION
            then raise_exc (Raised (YoloError
                   (''accepted job staged dossier has an unsupported schema version: '' @
                    int_str (d_schema_version d))))
            else if \<not> verify_dossier (x_sha env) (d_content d) (d_sha256 d)
            then raise_exc (Raised (YoloError ''accepted job staged dossier failed SHA-256 verification''))
            else
              act_bind (apply_to_source env accepted) (\<lambda>(accepted, outcome, reason).
                tx env (\<lambda>now. publish_completed_job (x_sha env) now (j_id accepted) (d_schema_version d)
                  (d_sha256 d) (j_final_summary accepted) outcome reason))))"

definition apply_intent_text :: "job_row \<Rightarrow> string" where
  "apply_intent_text job = (if j_auto_apply job then ''requested'' else ''not-requested'')"

definition complete_accepted_job :: "'g env \<Rightarrow> job_row \<Rightarrow> string \<Rightarrow> ('g, unit) act" where
  "complete_accepted_job env job final_summary =
     act_bind (read_db (get_job (j_id job))) (\<lambda>accepted.
     act_bind (x_head env (j_integration_path accepted)) (\<lambda>final_commit.
     act_bind (x_dossier env (j_id accepted) final_commit final_summary (apply_intent_text accepted)) (\<lambda>(content, digest).
     act_then (tx env (\<lambda>now. prepare_accepted_job (x_sha env) now (j_id accepted) final_commit final_summary
                 (apply_intent_text accepted) DOSSIER_SCHEMA_VERSION digest content))
       (act_bind (read_db (get_job (j_id accepted))) (\<lambda>row. resume_accepted_job env row)))))"


section \<open>The job\<close>

text \<open>\<open>_cleanup_completed\<close> under its two handlers: a failure of it is only an event.\<close>

definition cleanup_job :: "'g env \<Rightarrow> config \<Rightarrow> string \<Rightarrow> string \<Rightarrow> ('g, unit) act" where
  "cleanup_job env cf job_id path =
     act_when (cleanup_worktrees (cf_engine cf))
       (handle_all (cleanup_completed env cf job_id path)
         (\<lambda>e. case e of
            Cancelled \<Rightarrow> act_then (emit env job_id ''job.cleanup_interrupted'' [] None) (raise_exc Cancelled)
          | Raised err \<Rightarrow> emit env job_id ''job.cleanup_failed''
                [(''error'', jtext (py_last 4000 (err_text err)))] None))"

definition integration_dir :: "config \<Rightarrow> string \<Rightarrow> string" where
  "integration_dir cf job_id = path_join [worktrees_dir cf, job_id, ''integration'']"

text \<open>A job whose acceptance was journaled is only finished, never planned or reviewed again.\<close>

definition finish_accepted :: "'g env \<Rightarrow> config \<Rightarrow> job_row \<Rightarrow> ('g, unit) act" where
  "finish_accepted env cf job =
     act_then (finish_before_cancel env (resume_accepted_job env job))
       (act_bind (read_db (get_job (j_id job))) (\<lambda>completed.
          cleanup_job env cf (j_id job)
            (or_text (j_integration_path completed) (integration_dir cf (j_id job)))))"

definition prepare_integration :: "'g env \<Rightarrow> job_row \<Rightarrow> string \<Rightarrow> ('g, unit) act" where
  "prepare_integration env job path =
     act_then (x_wait env ''repo_lock'')
     (act_then (x_git env ''ensure_existing_branch_worktree''
                 [path, j_integration_branch job, j_base_commit job])
     (act_bind (x_git_bool env ''merge_in_progress'' path) (\<lambda>merging.
      act_then (act_when merging
          (act_then (x_git env ''abort_merge'' [path])
            (emit env (j_id job) ''integration.recovered_merge_abort'' [] None)))
      (act_bind (x_git_bool env ''is_clean'' path) (\<lambda>clean.
       act_when (\<not> clean)
         (act_bind (x_head env path) (\<lambda>head.
          act_then (x_git env ''reset_hard'' [path, head])
            (emit env (j_id job) ''integration.recovered_dirty_reset'' [(''head'', jtext head)] None))))))))"

text \<open>The whole of an ordinary run; \<open>False\<close> when the rounds of the task graph were used up.\<close>

definition work_job :: "'g env \<Rightarrow> config \<Rightarrow> nat \<Rightarrow> job_row \<Rightarrow> ('g, bool) act" where
  "work_job env cf rounds job =
     (let job_id = j_id job; path = integration_dir cf job_id
      in act_then (prepare_integration env job path)
         (act_then (tx env (\<lambda>now. update_job now job_id (no_job_update\<lparr>ju_integration_path := Some path\<rparr>)))
         (act_then (emit env job_id ''integration.ready''
             [(''path'', jtext path), (''branch'', jtext (j_integration_branch job))] None)
         (act_bind (read_db (\<lambda>db. Inr (list_tasks job_id db))) (\<lambda>tasks.
          act_then (act_when (tasks = [])
              (act_then (x_wait env ''worker_slot'') (plan_job env cf job_id path)))
          (act_then (tx env (\<lambda>now. update_job now job_id (no_job_update\<lparr>ju_state := Some JobRunning\<rparr>)))
          (act_then (emit env job_id ''job.running'' [] None)
          (act_bind (execute_dag env cf job_id path rounds []) (\<lambda>returned.
           if \<not> returned then ret False else
           act_bind (read_db (get_job job_id)) (\<lambda>current.
           if j_stop_requested current then raise_exc Cancelled else
           act_then (x_wait env ''worker_slot'')
           (act_bind (finalize env cf job_id path) (\<lambda>final_summary.
            act_bind (read_db (get_job job_id)) (\<lambda>job.
            act_then (finish_before_cancel env (complete_accepted_job env job final_summary))
            (act_then (cleanup_job env cf job_id path) (ret True)))))))))))))))"

section \<open>Settlement\<close>

text \<open>What is done with a job whose run was cancelled, before the cancellation is raised again.\<close>

definition settle_cancelled :: "'g env \<Rightarrow> string \<Rightarrow> ('g, unit) act" where
  "settle_cancelled env job_id =
     act_then (x_wait env ''cancel_active'')
     (act_bind (read_db (get_job job_id)) (\<lambda>current.
      if j_state current = JobCompleted then ret ()
      else if j_acceptance_phase current \<in> {PhaseAccepted, PhaseApplying} then
        emit env job_id ''job.acceptance_recovery_required''
          [(''phase'', jtext (phase_value (j_acceptance_phase current))),
           (''reason'', jtext ''orchestrator cancelled'')] None
      else if j_stop_requested current then
        act_then (tx env (\<lambda>now. settle_inflight now job_id TaskStopped ''cancelled'' ''stopped by user request''))
        (act_then (tx env (\<lambda>now. update_job now job_id (no_job_update\<lparr>ju_state := Some JobStopped\<rparr>)))
          (emit env job_id ''job.stopped'' [] None))
      else
        act_then (tx env (\<lambda>now. settle_inflight now job_id TaskPending ''cancelled'' ''orchestrator interrupted''))
        (act_then (tx env (\<lambda>now. update_job now job_id (no_job_update\<lparr>ju_state := Some JobQueued\<rparr>)))
          (emit env job_id ''job.interrupted'' [] None))))"

definition settle_failed :: "'g env \<Rightarrow> string \<Rightarrow> py_error \<Rightarrow> ('g, unit) act" where
  "settle_failed env job_id err =
     act_then (x_wait env ''cancel_active'')
     (act_bind (read_db (get_job job_id)) (\<lambda>current.
      if j_acceptance_phase current \<in> {PhaseAccepted, PhaseApplying} then
        emit env job_id ''job.acceptance_recovery_required''
          [(''phase'', jtext (phase_value (j_acceptance_phase current))),
           (''accepted_commit'', jtext (j_accepted_commit current)),
           (''error'', jtext (py_last 4000 (err_text err)))] None
      else
        act_then (tx env (\<lambda>now. settle_inflight now job_id TaskFailed ''failed''
                    (''orchestrator failure: '' @ err_text err)))
        (act_then (tx env (\<lambda>now. update_job now job_id
                    (no_job_update\<lparr>ju_state := Some JobFailed, ju_error := Some (err_text err)\<rparr>)))
          (emit env job_id ''job.failed'' [(''error'', jtext (err_text err))] None))))"

definition run_job :: "'g env \<Rightarrow> config \<Rightarrow> nat \<Rightarrow> string \<Rightarrow> ('g, bool) act" where
  "run_job env cf rounds job_id =
     act_bind (read_db (get_job job_id)) (\<lambda>job.
     act_then (x_git env ''ensure_private_dir'' [path_join [worktrees_dir cf, job_id]])
     (handle_all
        (if j_acceptance_phase job \<in> {PhaseAccepted, PhaseApplying}
         then act_then (finish_accepted env cf job) (ret True)
         else work_job env cf rounds job)
        (\<lambda>e. act_then
           (case e of Cancelled \<Rightarrow> settle_cancelled env job_id | Raised err \<Rightarrow> settle_failed env job_id err)
           (raise_exc e))))"


section \<open>Only store transactions\<close>

lemma steps_fresh_ids [steps_intros]: "steps sha (fresh_ids env ts)"
  by (induction ts) (auto intro!: steps_intros)

lemma steps_ask_planner [steps_intros]:
  "env_ok env \<Longrightarrow> steps (x_sha env) (ask_planner env cf job path planner)"
  unfolding ask_planner_def by (intro steps_intros)

lemma steps_plan_job [steps_intros]: "env_ok env \<Longrightarrow> steps (x_sha env) (plan_job env cf jid path)"
  unfolding plan_job_def by (intro steps_intros)

lemma steps_block_tasks [steps_intros]: "steps sha (block_tasks env tasks)"
  by (induction tasks) (auto intro!: steps_intros)

lemma steps_collect [steps_intros]: "steps sha (collect_results env results)"
  by (induction results rule: collect_results.induct)
    (auto intro!: steps_intros split: sum.split exc.split bool.split)

lemma steps_dag_round [steps_intros]: "env_ok env \<Longrightarrow> steps (x_sha env) (dag_round env cf jid path active)"
  unfolding dag_round_def Let_def by (intro steps_intros) (auto intro: steps_run_task)

lemma steps_execute_dag [steps_intros]:
  "env_ok env \<Longrightarrow> steps (x_sha env) (execute_dag env cf jid path rounds active)"
  by (induction rounds arbitrary: active) (auto intro!: steps_intros)

lemma steps_case_intent [steps_intros]:
  "steps sha m \<Longrightarrow> steps sha n \<Longrightarrow>
   steps sha (case i of IntentRequested \<Rightarrow> m | IntentNotRequested \<Rightarrow> n)"
  by (cases i) auto

lemma steps_apply [steps_intros]: "env_ok env \<Longrightarrow> steps (x_sha env) (apply_to_source env job)"
  unfolding apply_to_source_def by (intro steps_intros)

lemma steps_resume [steps_intros]: "env_ok env \<Longrightarrow> steps (x_sha env) (resume_accepted_job env job)"
  unfolding resume_accepted_job_def by (intro steps_intros)

lemma steps_complete [steps_intros]:
  "env_ok env \<Longrightarrow> steps (x_sha env) (complete_accepted_job env job summary)"
  unfolding complete_accepted_job_def by (intro steps_intros)

lemma steps_cleanup_job [steps_intros]: "env_ok env \<Longrightarrow> steps (x_sha env) (cleanup_job env cf jid path)"
  unfolding cleanup_job_def by (intro steps_intros)

lemma steps_finish_accepted [steps_intros]: "env_ok env \<Longrightarrow> steps (x_sha env) (finish_accepted env cf job)"
  unfolding finish_accepted_def by (intro steps_intros)

lemma steps_prepare_integration [steps_intros]:
  "env_ok env \<Longrightarrow> steps (x_sha env) (prepare_integration env job path)"
  unfolding prepare_integration_def by (intro steps_intros)

lemma steps_work_job [steps_intros]: "env_ok env \<Longrightarrow> steps (x_sha env) (work_job env cf rounds job)"
  unfolding work_job_def Let_def by (intro steps_intros)

lemma steps_settle_cancelled [steps_intros]: "env_ok env \<Longrightarrow> steps (x_sha env) (settle_cancelled env jid)"
  unfolding settle_cancelled_def by (intro steps_intros)

lemma steps_settle_failed [steps_intros]: "env_ok env \<Longrightarrow> steps (x_sha env) (settle_failed env jid e)"
  unfolding settle_failed_def by (intro steps_intros)

lemma steps_run_job: "env_ok env \<Longrightarrow> steps (x_sha env) (run_job env cf rounds jid)"
  unfolding run_job_def by (intro steps_intros)

end
