(* ===== verification/Yolo_Orchestrator_Proofs.thy ===== *)
theory Yolo_Orchestrator_Proofs
  imports Yolo_Orchestrator
begin

text \<open>
  What a job run guarantees: the store it leaves, the job it reports as finished, the settlement of
  a run that was cancelled or failed, and when the source branch is touched.
\<close>

section \<open>A finished run\<close>

definition stored_job_state :: "string \<Rightarrow> db \<Rightarrow> job_state option" where
  "stored_job_state jid db = map_option j_state (find_job jid (db_jobs db))"

lemma publish_completes:
  assumes "publish_completed_job sha now jid v digest summary out reason db = Inr db'"
  shows "stored_job_state jid db' = Some JobCompleted"
proof (cases "stored_job_state jid db = Some JobCompleted")
  case True
  then obtain j where "find_job jid (db_jobs db) = Some j" "j_state j = JobCompleted"
    by (auto simp: stored_job_state_def)
  with assms have "db' = db" by (auto simp: publish_completed_job_def op_simps split: if_splits)
  with True show ?thesis by simp
next
  case False
  let ?mid = "\<lambda>job outcome. db\<lparr>db_jobs := update_where (\<lambda>r. j_id r = jid \<and> j_state r = j_state job \<and>
                j_acceptance_phase r = j_acceptance_phase job)
              (\<lambda>r. r\<lparr>j_state := JobCompleted, j_stop_requested := False,
                        j_final_summary := summary, j_error := '''',
                        j_acceptance_phase := PhasePublished, j_source_apply_outcome := outcome,
                        j_source_apply_reason := py_last 4000 reason,
                        j_updated_at := now\<rparr>) (db_jobs db),
             db_dossiers := update_where (\<lambda>d. d_job_id d = jid \<and> \<not> d_published d \<and> d_sha256 d = digest)
               (\<lambda>d. d\<lparr>d_published := True\<rparr>) (db_dossiers db)\<rparr>"
  from assms False obtain job outcome where job: "find_job jid (db_jobs db) = Some job"
    and pub: "publish_events now job v digest summary outcome reason (?mid job outcome) = Inr db'"
    unfolding publish_completed_job_def stored_job_state_def
    by (clarsimp simp: op_simps split: if_splits)
  have "j_id job = jid" using job by (auto dest: job_tab.select_SomeD)
  with publish_events_logged [OF pub] have "db_jobs db' = db_jobs (?mid job outcome)"
    by (auto simp: logged_def)
  with job \<open>j_id job = jid\<close> show ?thesis by (simp add: stored_job_state_def job_tab.select_update)
qed

lemma completed_stays:
  assumes "db_inv sha db" and "(db_step sha)\<^sup>*\<^sup>* db db'" and "stored_job_state jid db = Some JobCompleted"
  shows "stored_job_state jid db' = Some JobCompleted"
proof -
  from assms(3) obtain j where j: "find_job jid (db_jobs db) = Some j" "j_state j = JobCompleted"
    by (auto simp: stored_job_state_def)
  have "evolves find_job job_kept (db_jobs db) (db_jobs db')"
    using store.run_hist [OF assms(2,1)] by (simp add: kept_def)
  from evolvesD [OF this j(1)] j(2) obtain j' where
    "find_job jid (db_jobs db') = Some j'" "j' = j\<lparr>j_updated_at := j_updated_at j'\<rparr>"
    unfolding job_kept_def by blast
  with j(2) show ?thesis unfolding stored_job_state_def by (metis job_row.select_convs(4) job_row.surjective job_row.update_convs(12) option.map(2))
qed

text \<open>Composition: what is established stays, and what a result says of itself can be used.\<close>

lemma ensures_then_stays [ensures_intros]:
  assumes "steps sha m" and "steps sha n" and "ensures sha m (\<lambda>_ db. stored_job_state jid db = Some JobCompleted)"
  shows "ensures sha (act_then m n) (\<lambda>_ db. stored_job_state jid db = Some JobCompleted)"
  unfolding ensures_def
proof (intro allI impI)
  fix s y t
  assume inv: "db_inv sha (fst s)" and "act_then m n s = (Inr y, t)"
  then obtain x u where x: "m s = (Inr x, u)" "n u = (Inr y, t)" by (auto elim: act_then_InrE)
  from completed_stays [OF act_inv [OF assms(1) x(1) inv] steps_run [OF assms(2) x(2)]]
    ensuresD [OF assms(3) x(1) inv]
  show "stored_job_state jid (fst t) = Some JobCompleted" by blast
qed

lemma ensures_bind_with:
  assumes "steps sha m" and "ensures sha m (\<lambda>x _. P x)" and "\<And>x. P x \<Longrightarrow> ensures sha (f x) Q"
  shows "ensures sha (act_bind m f) Q"
  unfolding ensures_def
proof (intro allI impI)
  fix s y t
  assume inv: "db_inv sha (fst s)" and "act_bind m f s = (Inr y, t)"
  then obtain x u where x: "m s = (Inr x, u)" "f x u = (Inr y, t)" by (auto elim: act_bind_InrE)
  from ensuresD [OF assms(2) x(1) inv] have "P x" .
  from ensuresD [OF assms(3) [OF this] x(2) act_inv [OF assms(1) x(1) inv]] show "Q y (fst t)" .
qed

lemma ensures_get_job:
  "(\<And>job. j_id job = jid \<Longrightarrow> ensures sha (f job) Q) \<Longrightarrow>
   ensures sha (act_bind (read_db (get_job jid)) f) Q"
  by (rule ensures_bind_with [OF steps_read_db, where P = "\<lambda>job. j_id job = jid"])
    (auto simp: ensures_def read_db_Inr get_job_def lookup_job_def split: option.splits
      dest: job_tab.select_SomeD)

lemma ensures_handle_all:
  assumes "steps sha m" and "ensures sha m Q" and "\<And>e. ensures sha (h e) Q"
  shows "ensures sha (handle_all m h) Q"
  unfolding ensures_def
proof (intro allI impI)
  fix s y t
  assume inv: "db_inv sha (fst s)" and run: "handle_all m h s = (Inr y, t)"
  obtain r u where r: "m s = (r, u)" by (cases "m s")
  show "Q y (fst t)"
  proof (cases r)
    case (Inl e)
    with run r have "h e u = (Inr y, t)" by (simp add: handle_all_def)
    from ensuresD [OF assms(3) this act_inv [OF assms(1) r inv]] show ?thesis .
  next
    case (Inr x)
    with run r have "m s = (Inr y, t)" by (simp add: handle_all_def)
    from ensuresD [OF assms(2) this inv] show ?thesis .
  qed
qed

lemma finish_before_cancel_Inr: "finish_before_cancel env m s = (Inr x, t) \<Longrightarrow> m s = (Inr x, t)"
  by (auto simp: finish_before_cancel_def split: prod.splits if_splits)

lemma ensures_finish_before_cancel:
  "ensures sha m Q \<Longrightarrow> ensures sha (finish_before_cancel env m) Q"
  using finish_before_cancel_Inr unfolding ensures_def by metis

lemma ensures_weaken: "ensures sha m P \<Longrightarrow> (\<And>x db. P x db \<Longrightarrow> Q x db) \<Longrightarrow> ensures sha m Q"
  unfolding ensures_def by blast


lemma ensures_tx:
  "(\<And>now db db'. f now db = Inr db' \<Longrightarrow> Q db') \<Longrightarrow> ensures sha (tx env f) (\<lambda>_ db. Q db)"
  by (auto simp: ensures_def dest!: tx_Inr)

text \<open>The source application reports on the same job.\<close>

lemma ensures_apply_same:
  assumes "env_ok env"
  shows "ensures (x_sha env) (apply_to_source env a) (\<lambda>x _. j_id (fst x) = j_id a)"
proof (cases "j_source_apply_intent a")
  case IntentNotRequested
  then show ?thesis by (simp add: apply_to_source_def ensures_def)
next
  case IntentRequested
  have "ensures (x_sha env) (if j_acceptance_phase a = PhaseAccepted
      then act_then (tx env (\<lambda>now. mark_apply_started now (j_id a) (j_accepted_commit a)))
             (read_db (get_job (j_id a)))
      else ret a) (\<lambda>x _. j_id x = j_id a)"
    by (auto simp: ensures_def read_db_Inr get_job_def lookup_job_def elim!: act_then_InrE
        split: option.splits dest: job_tab.select_SomeD)
  moreover have "ensures (x_sha env) (act_then (x_wait env ''repo_lock'')
      (act_bind (x_reconcile env (j_integration_branch b) (j_base_branch b) (j_base_commit b)
         (j_accepted_commit b)) (\<lambda>result. ret (b, result)))) (\<lambda>x _. j_id (fst x) = j_id a)"
    if "j_id b = j_id a" for b
    using that by (intro ensures_intros steps_intros assms) (simp add: ensures_def)
  ultimately show ?thesis
    unfolding apply_to_source_def IntentRequested apply_intent.case
    by (intro ensures_bind_with [where P = "\<lambda>x. j_id x = j_id a"] steps_intros) simp_all
qed

lemma ensures_resume [ensures_intros]:
  assumes "env_ok env" and "j_id job = jid"
  shows "ensures (x_sha env) (resume_accepted_job env job) (\<lambda>_ db. stored_job_state jid db = Some JobCompleted)"
proof -
  have publish: "ensures (x_sha env) (act_bind (apply_to_source env job) (\<lambda>(accepted, outcome, reason).
      tx env (\<lambda>now. publish_completed_job (x_sha env) now (j_id accepted) v digest (j_final_summary accepted)
        outcome reason))) (\<lambda>_ db. stored_job_state jid db = Some JobCompleted)" for v digest
    unfolding case_prod_beta using assms
    by (intro ensures_bind_with [OF steps_apply ensures_apply_same] ensures_tx publish_completes) simp_all
  have case_option: "ensures sha (case r of None \<Rightarrow> m | Some d \<Rightarrow> h d) Q"
    if "ensures sha m Q" "\<And>d. ensures sha (h d) Q" for sha r h Q and m :: "('a, unit) act"
    using that by (cases r) auto
  show ?thesis
    unfolding resume_accepted_job_def
    by (intro ensures_if ensures_raise ensures_bind steps_intros case_option publish)
qed

lemma ensures_complete:
  assumes "env_ok env" and "j_id job = jid"
  shows "ensures (x_sha env) (complete_accepted_job env job summary)
    (\<lambda>_ db. stored_job_state jid db = Some JobCompleted)"
  unfolding complete_accepted_job_def assms(2)
  by (rule ensures_get_job) (auto intro!: assms(1) ensures_intros steps_intros ensures_get_job)


lemma ensures_ret_False [ensures_intros]: "ensures sha (ret False) (\<lambda>r db. r \<longrightarrow> P db)"
  by (simp add: ensures_def)

lemma ensures_raised [ensures_intros]: "ensures sha (act_then m (raise_exc e)) Q"
  by (auto simp: ensures_def elim: act_then_InrE)

lemma ensures_completed_then:
  assumes "env_ok env" and "ensures (x_sha env) m (\<lambda>_ db. stored_job_state jid db = Some JobCompleted)"
    and "steps (x_sha env) m" and "steps (x_sha env) n"
  shows "ensures (x_sha env) (act_then m n) (\<lambda>r db. stored_job_state jid db = Some JobCompleted)"
  using assms by (intro ensures_then_stays)

lemma ensures_finish_accepted:
  assumes "env_ok env" and "j_id job = jid"
  shows "ensures (x_sha env) (finish_accepted env cf job) (\<lambda>_ db. stored_job_state jid db = Some JobCompleted)"
  unfolding finish_accepted_def
  by (intro ensures_completed_then ensures_finish_before_cancel ensures_resume assms steps_intros)

lemma ensures_work_job:
  assumes ok: "env_ok env" and "j_id job = jid"
  shows "ensures (x_sha env) (work_job env cf rounds job)
    (\<lambda>r db. r \<longrightarrow> stored_job_state jid db = Some JobCompleted)"
proof -
  let ?path = "integration_dir cf jid"
  define tail where "tail = (\<lambda>summary. act_bind (read_db (get_job jid)) (\<lambda>job.
        act_then (finish_before_cancel env (complete_accepted_job env job summary))
          (act_then (cleanup_job env cf jid ?path) (ret True))))"
  have tail_eq: "act_bind (read_db (get_job jid)) (\<lambda>job.
        act_then (finish_before_cancel env (complete_accepted_job env job summary))
          (act_then (cleanup_job env cf jid ?path) (ret True))) = tail summary" for summary
    by (simp add: tail_def)
  have last: "ensures (x_sha env) (tail summary)
      (\<lambda>r db. r \<longrightarrow> stored_job_state jid db = Some JobCompleted)" for summary
    unfolding tail_def
    by (rule ensures_weaken, rule ensures_get_job, rule ensures_completed_then [OF ok])
      (auto intro!: ensures_finish_before_cancel ensures_complete ok steps_intros)
  show ?thesis
    unfolding work_job_def Let_def assms(2) tail_eq
    by (intro ensures_then ensures_bind ensures_if ensures_raise ensures_ret_False
        steps_intros ok last)
qed

lemma ensures_run_job:
  assumes ok: "env_ok env"
  shows "ensures (x_sha env) (run_job env cf rounds jid)
    (\<lambda>r db. r \<longrightarrow> stored_job_state jid db = Some JobCompleted)"
  unfolding run_job_def
proof (rule ensures_get_job, rule ensures_then)
  fix job :: job_row
  assume id: "j_id job = jid"
  have fin: "ensures (x_sha env) (act_then (finish_accepted env cf job) (ret True))
      (\<lambda>r db. r \<longrightarrow> stored_job_state jid db = Some JobCompleted)"
    by (rule ensures_weaken, rule ensures_completed_then [OF ok ensures_finish_accepted [OF ok id]])
      (auto intro!: ok steps_intros)
  show "ensures (x_sha env) (handle_all
        (if j_acceptance_phase job \<in> {PhaseAccepted, PhaseApplying}
         then act_then (finish_accepted env cf job) (ret True)
         else work_job env cf rounds job)
        (\<lambda>e. act_then
           (case e of Cancelled \<Rightarrow> settle_cancelled env jid | Raised err \<Rightarrow> settle_failed env jid err)
           (raise_exc e))) (\<lambda>r db. r \<longrightarrow> stored_job_state jid db = Some JobCompleted)"
    by (intro ensures_handle_all ensures_if fin ensures_work_job [OF ok id] ensures_raised steps_intros ok)
qed (intro steps_intros ok)

text \<open>
  C9: A job run that returns leaves the job completed in the store, whatever other transactions ran
  in between: planning, the task graph, the final review and the acceptance never end a run
  normally without publication. Every other end is an exception.
\<close>

theorem returned_job_completed:
  assumes "env_ok env" and "(db_step (x_sha env))\<^sup>*\<^sup>* empty_db (fst s)"
    and "run_job env cf rounds jid s = (Inr True, t)"
  shows "stored_job_state jid (fst t) = Some JobCompleted"
  using ensuresD [OF ensures_run_job [OF assms(1)] assms(3) store.reach_inv [OF assms(2)]] by simp

definition one_task_plan :: payload_dict where
  "one_task_plan =
     [(''summary'', PStr ''one step''),
      (''tasks'', PList
         [PDict [(''id'', PStr ''T1''), (''title'', PStr ''parse''), (''description'', PStr ''write it'')]])]"

text \<open>From the creation of the job, through planning, one task, the final review and publication.\<close>

lemma demo_job_runs:
  "fst (run_job (demo_env one_task_plan ''+'') demo_config 9 ''job-1'' (demo_db 1, ())) = Inr True"
  by code_simp

lemma returned_job_completed_witness:
  "stored_job_state ''job-1'' (fst (snd (run_job (demo_env one_task_plan ''+'') demo_config 9 ''job-1''
     (demo_db 1, ())))) = Some JobCompleted"
proof -
  let ?run = "run_job (demo_env one_task_plan ''+'') demo_config 9 ''job-1'' (demo_db 1, ())"
  have sha: "x_sha (demo_env one_task_plan ''+'') = demo_sha" by (simp add: demo_env_def)
  have run: "?run = (Inr True, snd ?run)" using demo_job_runs by (simp add: prod_eq_iff)
  show ?thesis
    using returned_job_completed [OF demo_env_ok _ run] demo_reachable sha by simp
qed




section \<open>Settlement\<close>

text \<open>Nothing of the job is running or in flight.\<close>

definition settled_job :: "string \<Rightarrow> db \<Rightarrow> bool" where
  "settled_job jid db \<longleftrightarrow>
     list_all (\<lambda>a. a_job_id a = jid \<longrightarrow> a_state a \<noteq> AttemptRunning) (db_attempts db) \<and>
     list_all (\<lambda>t. t_job_id t = jid \<longrightarrow> t_state t \<notin> inflight_task_states) (db_tasks db)"

lemma settle_inflight_settles:
  assumes "settle_inflight now jid ts st summary db = Inr db'"
  shows "settled_job jid db'"
proof -
  from settle_inflight_effect [OF assms] obtain settled msg where
    s: "settled \<noteq> AttemptRunning" "ts \<in> {TaskPending, TaskFailed, TaskStopped}"
    and db': "db_attempts db' = update_where (\<lambda>a. a_job_id a = jid \<and> a_state a = AttemptRunning)
                 (close_attempt now settled msg) (db_attempts db)"
      "db_tasks db' = update_where (\<lambda>t. t_job_id t = jid \<and> t_state t \<in> inflight_task_states)
                 (\<lambda>t. t\<lparr>t_state := ts, t_last_error := (if msg = '''' then t_last_error t else msg),
                        t_updated_at := now\<rparr>) (db_tasks db)"
    by auto
  have "a_job_id a = jid \<longrightarrow> a_state a \<noteq> AttemptRunning" if "a \<in> set (db_attempts db')" for a
  proof -
    from that obtain b where "a = (if a_job_id b = jid \<and> a_state b = AttemptRunning
        then close_attempt now settled msg b else b)"
      unfolding db' update_where_def by (auto simp only: set_map image_iff)
    with s(1) show ?thesis by (auto simp: close_attempt_def)
  qed
  moreover have "t_job_id u = jid \<longrightarrow> t_state u \<notin> inflight_task_states" if "u \<in> set (db_tasks db')" for u
  proof -
    from that obtain b where "u = (if t_job_id b = jid \<and> t_state b \<in> inflight_task_states
        then b\<lparr>t_state := ts, t_last_error := (if msg = [] then t_last_error b else msg),
               t_updated_at := now\<rparr> else b)"
      unfolding db' update_where_def by (auto simp only: set_map image_iff)
    with s(2) show ?thesis by (auto simp: inflight_task_states_def)
  qed
  ultimately show ?thesis by (simp add: settled_job_def list_all_iff)
qed

lemma update_job_row:
  assumes "update_job now jid u db = Inr db'" and "ju_state u = Some st" and "ju_stop_requested u = None"
    and row: "find_job jid (db_jobs db) = Some row"
  shows "\<exists>j. find_job jid (db_jobs db') = Some j \<and> j_state j = st \<and>
    j_stop_requested j = j_stop_requested row \<and>
    (ju_error u \<noteq> None \<longrightarrow> j_error j = the (ju_error u)) \<and>
    db_tasks db' = db_tasks db \<and> db_attempts db' = db_attempts db"
proof -
  have "u \<noteq> no_job_update" using assms(2) by (auto simp: no_job_update_def)
  from update_job_effect [OF assms(1) this] row have
    db': "db' = db\<lparr>db_jobs := update_where (\<lambda>r. j_id r = jid \<and> j_state r = j_state row)
              (apply_job_update now u (override (ju_state u) (j_state row))) (db_jobs db)\<rparr>" by auto
  have "j_id row = jid" using row by (auto dest: job_tab.select_SomeD)
  moreover have "j_id (apply_job_update now u x r) = j_id r" for x r by (simp add: apply_job_update_def)
  ultimately show ?thesis
    using row assms(2,3)
    by (auto simp: db' job_tab.select_update apply_job_update_def override_def split: option.splits)
qed

lemma event_rows:
  "event now jid kind p tid db = Inr (n, db') \<Longrightarrow>
   db_jobs db' = db_jobs db \<and> db_tasks db' = db_tasks db \<and> db_attempts db' = db_attempts db"
  by (auto simp: event_def rbind_Inr_iff insert_event_effect)

lemma emit_rows:
  "emit env jid kind p tid s = (Inr x, t) \<Longrightarrow>
   db_jobs (fst t) = db_jobs (fst s) \<and> db_tasks (fst t) = db_tasks (fst s) \<and>
   db_attempts (fst t) = db_attempts (fst s)"
  unfolding emit_def by (auto elim!: act_bind_InrE dest!: txv_Inr event_rows)

text \<open>The three transactions of a settlement.\<close>

lemma settlement_run:
  assumes "act_then (tx env (\<lambda>now. settle_inflight now jid ts st summary))
      (act_then (tx env (\<lambda>now. update_job now jid u)) (emit env jid kind p tid)) s = (Inr x, t)"
    and u: "ju_state u = Some target" "ju_stop_requested u = None"
    and old: "find_job jid (db_jobs (fst s)) = Some old"
  shows "\<exists>j. find_job jid (db_jobs (fst t)) = Some j \<and> j_state j = target \<and>
    j_stop_requested j = j_stop_requested old \<and>
    (ju_error u \<noteq> None \<longrightarrow> j_error j = the (ju_error u)) \<and> settled_job jid (fst t)"
proof -
  from assms(1) obtain a b s1 s2 where
    a: "tx env (\<lambda>now. settle_inflight now jid ts st summary) s = (Inr a, s1)"
    and b: "tx env (\<lambda>now. update_job now jid u) s1 = (Inr b, s2)"
    and e: "emit env jid kind p tid s2 = (Inr x, t)"
    by (elim act_then_InrE) blast
  from tx_Inr [OF a] obtain now1 where one: "settle_inflight now1 jid ts st summary (fst s) = Inr (fst s1)" ..
  from settle_inflight_effect [OF one] have "db_jobs (fst s1) = db_jobs (fst s)" by auto
  with old have old1: "find_job jid (db_jobs (fst s1)) = Some old" by simp
  from tx_Inr [OF b] obtain now2 where two: "update_job now2 jid u (fst s1) = Inr (fst s2)" ..
  from update_job_row [OF two u old1] obtain j where
    j: "find_job jid (db_jobs (fst s2)) = Some j" "j_state j = target"
      "j_stop_requested j = j_stop_requested old" "ju_error u \<noteq> None \<longrightarrow> j_error j = the (ju_error u)"
      "db_tasks (fst s2) = db_tasks (fst s1)" "db_attempts (fst s2) = db_attempts (fst s1)" by blast
  have "settled_job jid (fst t)"
    using settle_inflight_settles [OF one] emit_rows [OF e] j(5,6) by (simp add: settled_job_def)
  with j emit_rows [OF e] show ?thesis by simp
qed

text \<open>
  C18: The settlement of a failed run: unless acceptance was already journaled (then the job is left
  to the next start of the daemon), the job ends failed with the text of the error, and none of its
  attempts is running and none of its tasks in flight.
\<close>

theorem failed_run_settled:
  assumes "settle_failed env jid err s = (Inr x, t)"
  shows "\<exists>job. find_job jid (db_jobs (fst t)) = Some job \<and>
    (j_acceptance_phase job \<in> {PhaseAccepted, PhaseApplying} \<or>
     j_state job = JobFailed \<and> j_error job = err_text err \<and> settled_job jid (fst t))"
proof -
  let ?u = "no_job_update\<lparr>ju_state := Some JobFailed, ju_error := Some (err_text err)\<rparr>"
  let ?settle = "act_then (tx env (\<lambda>now. settle_inflight now jid TaskFailed ''failed''
                    (''orchestrator failure: '' @ err_text err)))
        (act_then (tx env (\<lambda>now. update_job now jid ?u))
          (emit env jid ''job.failed'' [(''error'', jtext (err_text err))] None))"
  let ?recover = "\<lambda>current. emit env jid ''job.acceptance_recovery_required''
          [(''phase'', jtext (phase_value (j_acceptance_phase current))),
           (''accepted_commit'', jtext (j_accepted_commit current)),
           (''error'', jtext (py_last 4000 (err_text err)))] None"
  from assms obtain w current s1 where
    job: "read_db (get_job jid) s1 = (Inr current, w)"
    and rest: "(if j_acceptance_phase current \<in> {PhaseAccepted, PhaseApplying} then ?recover current
       else ?settle) w = (Inr x, t)"
    unfolding settle_failed_def by (elim act_then_InrE act_bind_InrE) blast
  from job have w: "find_job jid (db_jobs (fst w)) = Some current"
    by (auto simp: read_db_Inr get_job_def lookup_job_def split: option.splits)
  show ?thesis
  proof (cases "j_acceptance_phase current \<in> {PhaseAccepted, PhaseApplying}")
    case True
    with rest have "?recover current w = (Inr x, t)" by simp
    from emit_rows [OF this] w True show ?thesis by (intro exI [of _ current]) simp
  next
    case False
    with rest have "?settle w = (Inr x, t)" by simp
    from settlement_run [OF this _ _ w, of JobFailed] obtain j where
      "find_job jid (db_jobs (fst t)) = Some j" "j_state j = JobFailed" "j_error j = err_text err"
      "settled_job jid (fst t)" by (auto simp: no_job_update_def)
    then show ?thesis by (intro exI [of _ j]) simp
  qed
qed

lemma failed_run_settled_witness:
  "\<exists>job. find_job ''job-1'' (db_jobs (fst (snd (settle_failed (demo_env [] ''+'') ''job-1'' (YoloError ''boom'')
      (demo_db 4, ()))))) = Some job \<and> j_state job = JobFailed \<and> j_error job = ''boom''"
proof -
  let ?run = "settle_failed (demo_env [] ''+'') ''job-1'' (YoloError ''boom'') (demo_db 4, ())"
  have "fst ?run = Inr ()" by code_simp
  then have run: "?run = (Inr (), snd ?run)" by (simp add: prod_eq_iff)
  have "list_all (\<lambda>j. j_acceptance_phase j = PhaseNone) (db_jobs (fst (snd ?run)))" by code_simp
  then have none: "j_acceptance_phase j = PhaseNone" if "find_job ''job-1'' (db_jobs (fst (snd ?run))) = Some j" for j
    using that by (auto simp: list_all_iff dest: job_tab.select_SomeD)
  from failed_run_settled [OF run] obtain job where
    job: "find_job ''job-1'' (db_jobs (fst (snd ?run))) = Some job"
    and rest: "j_acceptance_phase job \<in> {PhaseAccepted, PhaseApplying} \<or>
      j_state job = JobFailed \<and> j_error job = err_text (YoloError ''boom'') \<and>
        settled_job ''job-1'' (fst (snd ?run))" by blast
  from rest none [OF job] job show ?thesis by auto
qed

text \<open>
  C19: The settlement of a cancelled run: a completed job and a journaled acceptance are left as they
  are; otherwise a requested stop leaves the job stopped, and any other interruption leaves it
  queued for the next start, in both cases with no attempt running and no task in flight.
\<close>

theorem cancelled_run_settled:
  assumes "settle_cancelled env jid s = (Inr x, t)"
  shows "\<exists>job. find_job jid (db_jobs (fst t)) = Some job \<and>
    (j_state job = JobCompleted \<or> j_acceptance_phase job \<in> {PhaseAccepted, PhaseApplying} \<or>
     settled_job jid (fst t) \<and>
       j_state job = (if j_stop_requested job then JobStopped else JobQueued))"
proof -
  let ?stop = "act_then (tx env (\<lambda>now. settle_inflight now jid TaskStopped ''cancelled'' ''stopped by user request''))
        (act_then (tx env (\<lambda>now. update_job now jid (no_job_update\<lparr>ju_state := Some JobStopped\<rparr>)))
          (emit env jid ''job.stopped'' [] None))"
  let ?queue = "act_then (tx env (\<lambda>now. settle_inflight now jid TaskPending ''cancelled'' ''orchestrator interrupted''))
        (act_then (tx env (\<lambda>now. update_job now jid (no_job_update\<lparr>ju_state := Some JobQueued\<rparr>)))
          (emit env jid ''job.interrupted'' [] None))"
  let ?recover = "\<lambda>current. emit env jid ''job.acceptance_recovery_required''
          [(''phase'', jtext (phase_value (j_acceptance_phase current))),
           (''reason'', jtext ''orchestrator cancelled'')] None"
  from assms obtain w current s1 where
    job: "read_db (get_job jid) s1 = (Inr current, w)"
    and rest: "(if j_state current = JobCompleted then ret ()
       else if j_acceptance_phase current \<in> {PhaseAccepted, PhaseApplying} then ?recover current
       else if j_stop_requested current then ?stop else ?queue) w = (Inr x, t)"
    unfolding settle_cancelled_def by (elim act_then_InrE act_bind_InrE) blast
  from job have w: "find_job jid (db_jobs (fst w)) = Some current"
    by (auto simp: read_db_Inr get_job_def lookup_job_def split: option.splits)
  have same: "db_jobs (fst t) = db_jobs (fst w)"
    if "j_state current = JobCompleted \<or> j_acceptance_phase current \<in> {PhaseAccepted, PhaseApplying}"
    using rest that by (auto split: if_splits dest: emit_rows)
  show ?thesis
  proof (cases "j_state current = JobCompleted \<or> j_acceptance_phase current \<in> {PhaseAccepted, PhaseApplying}")
    case True
    with same w show ?thesis by (intro exI [of _ current]) auto
  next
    case False
    with rest have "(if j_stop_requested current then ?stop else ?queue) w = (Inr x, t)" by simp
    then obtain j where "find_job jid (db_jobs (fst t)) = Some j" "settled_job jid (fst t)"
      "j_stop_requested j = j_stop_requested current"
      "j_state j = (if j_stop_requested current then JobStopped else JobQueued)"
      using settlement_run [OF _ _ _ w, of env TaskStopped "''cancelled''" "''stopped by user request''"
          "no_job_update\<lparr>ju_state := Some JobStopped\<rparr>" "''job.stopped''" "[]" None x t JobStopped]
        settlement_run [OF _ _ _ w, of env TaskPending "''cancelled''" "''orchestrator interrupted''"
          "no_job_update\<lparr>ju_state := Some JobQueued\<rparr>" "''job.interrupted''" "[]" None x t JobQueued]
      by (cases "j_stop_requested current") (auto simp: no_job_update_def)
    then show ?thesis by (intro exI [of _ j]) simp
  qed
qed

lemma cancelled_run_settled_witness:
  "\<exists>job. find_job ''job-1'' (db_jobs (fst (snd (settle_cancelled (demo_env [] ''+'') ''job-1''
      (demo_db 4, ()))))) = Some job \<and>
    settled_job ''job-1'' (fst (snd (settle_cancelled (demo_env [] ''+'') ''job-1'' (demo_db 4, ()))))"
proof -
  let ?run = "settle_cancelled (demo_env [] ''+'') ''job-1'' (demo_db 4, ())"
  have "fst ?run = Inr ()" by code_simp
  then have run: "?run = (Inr (), snd ?run)" by (simp add: prod_eq_iff)
  have "list_all (\<lambda>j. j_acceptance_phase j = PhaseNone \<and> j_state j = JobQueued) (db_jobs (fst (snd ?run)))"
    by code_simp
  then have none: "j_acceptance_phase j = PhaseNone \<and> j_state j = JobQueued"
    if "find_job ''job-1'' (db_jobs (fst (snd ?run))) = Some j" for j
    using that by (auto simp: list_all_iff dest: job_tab.select_SomeD)
  from cancelled_run_settled [OF run] obtain job where
    job: "find_job ''job-1'' (db_jobs (fst (snd ?run))) = Some job"
    and rest: "j_state job = JobCompleted \<or> j_acceptance_phase job \<in> {PhaseAccepted, PhaseApplying} \<or>
      settled_job ''job-1'' (fst (snd ?run)) \<and>
        j_state job = (if j_stop_requested job then JobStopped else JobQueued)" by blast
  from rest none [OF job] job show ?thesis by auto
qed


section \<open>The source branch\<close>

text \<open>The journal entry that must exist before the source branch is touched.\<close>

definition apply_journaled :: "string \<Rightarrow> string \<Rightarrow> db \<Rightarrow> bool" where
  "apply_journaled jid commit db \<longleftrightarrow>
     (case find_job jid (db_jobs db) of
        None \<Rightarrow> False
      | Some job \<Rightarrow> j_acceptance_phase job \<in> {PhaseApplying, PhasePublished} \<and>
          j_accepted_commit job = commit)"

lemma journaled_stays:
  assumes "db_inv sha db" and "(db_step sha)\<^sup>*\<^sup>* db db'" and "apply_journaled jid commit db"
  shows "apply_journaled jid commit db'"
proof -
  from assms(3) obtain j where j: "find_job jid (db_jobs db) = Some j"
    "j_acceptance_phase j \<in> {PhaseApplying, PhasePublished}" "j_accepted_commit j = commit"
    by (auto simp: apply_journaled_def split: option.splits)
  have "evolves find_job job_kept (db_jobs db) (db_jobs db')"
    using store.run_hist [OF assms(2,1)] by (simp add: kept_def)
  from evolvesD [OF this j(1)] obtain j' where
    j': "find_job jid (db_jobs db') = Some j'" "job_kept j j'" by blast
  from j'(2) j(2) have "j_acceptance_phase j' \<in> {PhaseApplying, PhasePublished}"
    by (cases "j_acceptance_phase j'") (auto simp: job_kept_def less_eq_acceptance_phase_def)
  moreover from j'(2) j(2,3) have "j_accepted_commit j' = commit" by (auto simp: job_kept_def)
  ultimately show ?thesis using j'(1) by (simp add: apply_journaled_def)
qed

lemma ledger_moves:
  "db_last_event_id db' = db_last_event_id db + 1 \<Longrightarrow> db \<noteq> db'"
  by auto

lemma mark_apply_started_journals:
  assumes "mark_apply_started now jid commit db = Inr db'"
  shows "apply_journaled jid commit db'"
proof (cases "db' = db")
  case True
  have "db\<lparr>db_jobs := js, db_events := es, db_last_event_id := db_last_event_id db + 1\<rparr> \<noteq> db" for js es
    by (rule ledger_moves [THEN not_sym]) simp
  with assms True show ?thesis
    by (auto simp: mark_apply_started_def op_simps insert_event_effect apply_journaled_def split: if_splits)
next
  case False
  from mark_apply_started_effect [OF assms this] obtain job where
    job: "find_job jid (db_jobs db) = Some job" "j_acceptance_phase job = PhaseAccepted"
    and db': "db_jobs db' = update_where (\<lambda>r. j_id r = jid \<and> j_acceptance_phase r = PhaseAccepted)
         (\<lambda>r. r\<lparr>j_acceptance_phase := PhaseApplying, j_updated_at := now\<rparr>) (db_jobs db)" by auto
  have "j_accepted_commit job = commit"
    using assms job(1) by (auto simp: mark_apply_started_def op_simps)
  with job show ?thesis
    by (auto simp: apply_journaled_def db' job_tab.select_update dest: job_tab.select_SomeD)
qed

lemma tx_reconcile [simp]: "tx (env\<lparr>x_reconcile := g\<rparr>) f = tx env f"
  by (simp add: tx_def fun_eq_iff)

lemma act_bind_cong_run:
  "(\<And>x u. m s = (Inr x, u) \<Longrightarrow> f x u = f' x u) \<Longrightarrow> act_bind m f s = act_bind m f' s"
  by (auto simp: act_bind_def split: prod.splits sum.splits)

lemma act_then_cong_run:
  "(\<And>x u. m s = (Inr x, u) \<Longrightarrow> n u = n' u) \<Longrightarrow> act_then m n s = act_then m n' s"
  unfolding act_then_def by (rule act_bind_cong_run)

lemma apply_to_source_journaled:
  assumes ok: "env_ok env" and inv: "db_inv (x_sha env) (fst s)"
    and row: "find_job (j_id a) (db_jobs (fst s)) = Some a" "j_acceptance_phase a \<in> {PhaseAccepted, PhaseApplying}"
    and same: "\<And>ib bb bc c u. apply_journaled (j_id a) c (fst u) \<Longrightarrow> g ib bb bc c u = x_reconcile env ib bb bc c u"
  shows "apply_to_source (env\<lparr>x_reconcile := g\<rparr>) a s = apply_to_source env a s"
proof (cases "j_source_apply_intent a")
  case IntentNotRequested
  then show ?thesis by (simp add: apply_to_source_def)
next
  case IntentRequested
  let ?start = "if j_acceptance_phase a = PhaseAccepted
    then act_then (tx env (\<lambda>now. mark_apply_started now (j_id a) (j_accepted_commit a)))
           (read_db (get_job (j_id a)))
    else ret a"
  let ?go = "\<lambda>r (accepted :: job_row). act_then (x_wait env ''repo_lock'')
    (act_bind (r (j_integration_branch accepted) (j_base_branch accepted) (j_base_commit accepted)
       (j_accepted_commit accepted)) (\<lambda>result. ret (accepted, result)))"
  have "?go g b u = ?go (x_reconcile env) b u" if start: "?start s = (Inr b, u)" for b u
  proof -
    have journaled: "apply_journaled (j_id a) (j_accepted_commit b) (fst u)"
    proof (cases "j_acceptance_phase a = PhaseAccepted")
      case True
      with start obtain v where mark: "tx env (\<lambda>now. mark_apply_started now (j_id a) (j_accepted_commit a)) s = (Inr (), v)"
        and get: "read_db (get_job (j_id a)) v = (Inr b, u)" by (auto elim: act_then_InrE)
      from tx_Inr [OF mark] mark_apply_started_journals
      have "apply_journaled (j_id a) (j_accepted_commit a) (fst v)" by blast
      with get show ?thesis
        by (auto simp: apply_journaled_def read_db_Inr get_job_def lookup_job_def split: option.splits)
    next
      case False
      with start row show ?thesis by (auto simp: apply_journaled_def)
    qed
    have "steps (x_sha env) ?start" by (intro steps_intros)
    from act_inv [OF this start inv] have inv_u: "db_inv (x_sha env) (fst u)" .
    show ?thesis
    proof (rule act_then_cong_run)
      fix x v
      assume "x_wait env ''repo_lock'' u = (Inr x, v)"
      from steps_run [OF env_ok_steps(1) [OF ok] this] journaled_stays [OF inv_u _ journaled]
      have "apply_journaled (j_id a) (j_accepted_commit b) (fst v)" by blast
      from same [OF this] show "act_bind (g (j_integration_branch b) (j_base_branch b) (j_base_commit b)
          (j_accepted_commit b)) (\<lambda>result. ret (b, result)) v =
        act_bind (x_reconcile env (j_integration_branch b) (j_base_branch b) (j_base_commit b)
          (j_accepted_commit b)) (\<lambda>result. ret (b, result)) v"
        by (simp add: act_bind_def)
    qed
  qed
  then have same_run: "act_bind ?start (?go g) s = act_bind ?start (?go (x_reconcile env)) s"
    by (rule act_bind_cong_run)
  have env: "x_reconcile (env\<lparr>x_reconcile := g\<rparr>) = g" "x_wait (env\<lparr>x_reconcile := g\<rparr>) = x_wait env"
    by simp_all
  show ?thesis
    unfolding apply_to_source_def IntentRequested apply_intent.case tx_reconcile env by (rule same_run)
qed

text \<open>
  C10: The source branch is touched only behind the journal: in the completion of an accepted job,
  whatever the reconciliation with the source branch would do in a state in which the store does
  not already hold the start of the application with exactly that accepted commit makes no
  difference, since it is never called there.
\<close>

theorem source_touched_only_journaled:
  assumes "env_ok env" and "(db_step (x_sha env))\<^sup>*\<^sup>* empty_db (fst s)"
    and "find_job (j_id accepted) (db_jobs (fst s)) = Some accepted"
    and "\<And>ib bb bc c u. apply_journaled (j_id accepted) c (fst u) \<Longrightarrow> g ib bb bc c u = x_reconcile env ib bb bc c u"
  shows "resume_accepted_job (env\<lparr>x_reconcile := g\<rparr>) accepted s = resume_accepted_job env accepted s"
proof (cases "j_acceptance_phase accepted \<in> {PhaseAccepted, PhaseApplying}")
  case False
  then show ?thesis by (simp add: resume_accepted_job_def)
next
  case True
  have inv: "db_inv (x_sha env) (fst s)" by (rule store.reach_inv [OF assms(2)])
  have "act_bind (apply_to_source (env\<lparr>x_reconcile := g\<rparr>) accepted) f s =
      act_bind (apply_to_source env accepted) f s" for f :: "_ \<Rightarrow> ('a, unit) act"
    by (simp add: act_bind_def apply_to_source_journaled [OF assms(1) inv assms(3) True assms(4)])
  then show ?thesis
    unfolding resume_accepted_job_def
    by (auto simp: read_db_def of_result_def act_bind_def ret_def split: option.splits)
qed

text \<open>A reconciliation that fails wherever the journal entry is missing.\<close>

definition guarded_reconcile :: "string \<Rightarrow> string \<Rightarrow> string \<Rightarrow> string \<Rightarrow> string \<Rightarrow> (unit, string \<times> string) act" where
  "guarded_reconcile jid ib bb bc c = (\<lambda>s.
     if apply_journaled jid c (fst s) then (Inr (''applied'', ''''), s)
     else (Inl (Raised (GitError ''not journaled'')), s))"

lemma source_touched_only_journaled_witness:
  "fst (resume_accepted_job ((demo_env [] ''+'')\<lparr>x_reconcile := guarded_reconcile ''job-1''\<rparr>)
     (hd (db_jobs (demo_db 9))) (demo_db 9, ())) = Inr ()"
proof -
  let ?env = "demo_env [] ''+''" and ?job = "hd (db_jobs (demo_db 9))"
  have sha: "x_sha ?env = demo_sha" and rec: "x_reconcile ?env = (\<lambda>_ _ _ _. ret (''applied'', ''''))"
    by (simp_all add: demo_env_def)
  have id: "j_id ?job = ''job-1''" by code_simp
  have row: "find_job (j_id ?job) (db_jobs (fst (demo_db 9, ()))) = Some ?job"
    using demo_accepted_job(1) id by simp
  have reach: "(db_step (x_sha ?env))\<^sup>*\<^sup>* empty_db (fst (demo_db 9, ()))" using demo_reachable sha by simp
  have "resume_accepted_job (?env\<lparr>x_reconcile := guarded_reconcile ''job-1''\<rparr>) ?job (demo_db 9, ()) =
      resume_accepted_job ?env ?job (demo_db 9, ())"
    by (rule source_touched_only_journaled [OF demo_env_ok reach row])
      (simp add: rec id guarded_reconcile_def ret_def)
  moreover have "fst (resume_accepted_job ?env ?job (demo_db 9, ())) = Inr ()" by code_simp
  ultimately show ?thesis by simp
qed

end
