(* ===== verification/Yolo_Schedule.thy ===== *)
theory Yolo_Schedule
  imports Yolo_Orchestrator_Proofs
begin

text \<open>
  The schedule of the task graph: an accepted plan never stalls, the loop returns only when every
  task is completed, and it returns or raises within as many rounds as there are tasks.
\<close>

section \<open>Progress\<close>

lemma depends_on_finite: "finite (depends_on ps)"
proof -
  have "depends_on ps \<subseteq> (\<Union>t \<in> set ps. {pt_logical_id t} \<times> set (pt_depends_on t))"
    by (auto simp: depends_on_def)
  then show ?thesis by (rule finite_subset) simp
qed

lemma column_index:
  assumes "map f xs = map g ys" and "x \<in> set xs"
  shows "\<exists>i < length ys. x = xs ! i \<and> i < length xs \<and> f x = g (ys ! i)"
proof -
  have len: "length xs = length ys" using assms(1) by (rule map_eq_imp_length_eq)
  from assms(2) obtain i where i: "i < length xs" "x = xs ! i" by (metis in_set_conv_nth)
  then have "map f xs ! i = map g ys ! i" using assms(1) by simp
  with i len show ?thesis by auto
qed

text \<open>
  C13: An accepted plan never stalls: while its tasks are pending or completed, with at least one
  pending and none running, the scheduler starts at least one task (so the branch that blocks the
  remaining tasks is only reached when a task is stopped or blocked from outside).
\<close>

theorem accepted_plan_never_stalls:
  assumes "validate_plan limit ps = Inr ()"
    and "map t_logical_id tasks = map pt_logical_id ps"
    and "map t_dependencies tasks = map pt_depends_on ps"
    and "\<forall>t \<in> set tasks. t_state t = TaskPending \<or> t_state t = TaskCompleted"
    and "t \<in> set tasks" and "t_state t = TaskPending" and "1 \<le> parallel"
  shows "started_tasks parallel tasks [] \<noteq> []"
proof -
  have ok: "plan_ok limit ps" using assms(1) by (simp add: validate_plan_iff)
  then have "acyclic (depends_on ps)" by (simp add: plan_ok_def)
  then have wf: "wf ((depends_on ps)\<inverse>)"
    using depends_on_finite by (rule finite_acyclic_wf_converse [rotated])
  define pending where "pending = {t_logical_id u | u. u \<in> set tasks \<and> t_state u = TaskPending}"
  have "t_logical_id t \<in> pending" using assms(5,6) by (auto simp: pending_def)
  from wfE_min [OF wf this] obtain n where n: "n \<in> pending"
    and least: "\<And>d. (d, n) \<in> (depends_on ps)\<inverse> \<Longrightarrow> d \<notin> pending" by blast
  from n obtain u where u: "u \<in> set tasks" "t_state u = TaskPending" "t_logical_id u = n"
    by (auto simp: pending_def)
  from column_index [OF assms(2) u(1)] obtain i where
    i: "i < length ps" "i < length tasks" "u = tasks ! i" "n = pt_logical_id (ps ! i)" using u(3) by auto
  have "map t_dependencies tasks ! i = map pt_depends_on ps ! i" by (simp add: assms(3))
  then have deps: "t_dependencies u = pt_depends_on (ps ! i)" using i by simp
  have "set (t_dependencies u) \<subseteq> set (completed_names tasks)"
  proof
    fix d
    assume d: "d \<in> set (t_dependencies u)"
    then have "(n, d) \<in> depends_on ps" using deps i by (auto simp: depends_on_def)
    then have "d \<notin> pending" using least by blast
    have "d \<in> pt_logical_id ` set ps"
      using ok d deps i(1) by (auto simp: plan_ok_def task_ok_def)
    then have "d \<in> set (map t_logical_id tasks)" unfolding assms(2) by simp
    then obtain v where v: "v \<in> set tasks" "t_logical_id v = d" by auto
    with \<open>d \<notin> pending\<close> assms(4) have "t_state v = TaskCompleted" by (auto simp: pending_def)
    with v show "d \<in> set (completed_names tasks)" by (auto simp: completed_names_def)
  qed
  with u have "u \<in> set (ready_tasks tasks [])" by (simp add: ready_tasks_def)
  then have "ready_tasks tasks [] \<noteq> []" by auto
  with assms(7) show ?thesis by (cases "ready_tasks tasks []") (auto simp: started_tasks_def)
qed

section \<open>The return of the loop\<close>

definition all_completed :: "string \<Rightarrow> db \<Rightarrow> bool" where
  "all_completed jid db \<longleftrightarrow> list_all (\<lambda>t. t_state t = TaskCompleted) (list_tasks jid db)"

lemma dag_round_None:
  assumes "dag_round env cf jid path active s = (Inr None, t)"
  shows "t = s \<and> all_completed jid (fst t)"
  using assms unfolding dag_round_def Let_def all_completed_def
  by (auto simp: read_db_Inr filter_empty_conv list_all_iff elim!: act_bind_InrE act_then_InrE
      split: if_splits)

lemma execute_dag_completed:
  "execute_dag env cf jid path rounds active s = (Inr True, t) \<Longrightarrow> all_completed jid (fst t)"
proof (induction rounds arbitrary: active s)
  case 0
  then show ?case by simp
next
  case (Suc rounds)
  from Suc.prems obtain r u where r: "dag_round env cf jid path active s = (Inr r, u)"
    and rest: "(case r of None \<Rightarrow> ret True
      | Some active \<Rightarrow> execute_dag env cf jid path rounds active) u = (Inr True, t)"
    by (auto elim: act_bind_InrE)
  show ?case
  proof (cases r)
    case None
    with r rest show ?thesis by (auto dest: dag_round_None)
  next
    case (Some active')
    with rest Suc.IH show ?thesis by simp
  qed
qed


section \<open>The number of rounds\<close>

definition task_ids :: "string \<Rightarrow> db \<Rightarrow> string set" where
  "task_ids jid db = t_id ` {t \<in> set (db_tasks db). t_job_id t = jid}"

text \<open>
  What \<open>asyncio.wait\<close> with \<open>FIRST_COMPLETED\<close> promises for the task coroutines: at least one of them is
  done, and a reported outcome is the outcome of a run of the coroutine with that name, which began
  and ended before. Meanwhile nobody adds tasks to the job.
\<close>

definition join_ok :: "'g env \<Rightarrow> config \<Rightarrow> string \<Rightarrow> string \<Rightarrow> bool" where
  "join_ok env cf jid path \<longleftrightarrow>
     (\<forall>names s results t. names \<noteq> [] \<longrightarrow> (db_step (x_sha env))\<^sup>*\<^sup>* empty_db (fst s) \<longrightarrow>
        x_join env (map (\<lambda>name. (name, run_task env cf jid name path)) names) s = (Inr results, t) \<longrightarrow>
        results \<noteq> [] \<and> task_ids jid (fst t) = task_ids jid (fst s) \<and>
        (\<forall>(name, outcome) \<in> set results. name \<in> set names \<and>
           (\<exists>s' t'. (db_step (x_sha env))\<^sup>*\<^sup>* empty_db (fst s') \<and>
              run_task env cf jid name path s' = (outcome, t') \<and>
              (db_step (x_sha env))\<^sup>*\<^sup>* (fst t') (fst t))))"

lemma collect_results_Inr:
  "collect_results env results s = (Inr x, t) \<Longrightarrow>
   t = s \<and> (\<forall>(name, outcome) \<in> set results. outcome = Inr True)"
proof (induction env results arbitrary: s rule: collect_results.induct)
  case (2 env name outcome rest)
  then show ?case
    by (auto elim!: act_bind_InrE split: sum.splits exc.splits bool.splits)
qed simp

text \<open>The tasks that still have to finish: not completed, or completed with the coroutine not done.\<close>

definition open_tasks :: "string \<Rightarrow> string list \<Rightarrow> db \<Rightarrow> string set" where
  "open_tasks jid active db =
     {i \<in> task_ids jid db. i \<in> set active \<or> stored_state i db \<noteq> Some TaskCompleted}"

lemma open_tasks_finite: "finite (open_tasks jid active db)"
  by (simp add: open_tasks_def task_ids_def)

lemma listed_task:
  assumes "db_inv sha db" and "u \<in> set (list_tasks jid db)"
  shows "t_id u \<in> task_ids jid db \<and> stored_state (t_id u) db = Some (t_state u)"
proof -
  from assms(2) obtain r where r: "r \<in> set (db_tasks db)" "t_job_id r = jid" "u = task_from_row r"
    by (auto simp: list_tasks_def)
  have "distinct (map t_id (db_tasks db))" using assms(1) by (simp add: db_inv_def keys_ok_def)
  from task_tab.select_unique [OF this r(1)] r show ?thesis
    by (auto simp: task_ids_def stored_state_def task_from_row_def)
qed

lemma started_listed:
  "i \<in> set (started_tasks parallel tasks active) \<Longrightarrow>
   \<exists>u \<in> set tasks. t_id u = i \<and> t_state u = TaskPending"
  by (auto simp: started_tasks_def ready_tasks_def dest!: in_set_takeD)

lemma dag_round_Some:
  assumes "dag_round env cf jid path active s = (Inr (Some active'), t)"
  shows "\<exists>running results. running \<noteq> [] \<and>
    running = active @ started_tasks (max_parallel (cf_engine cf)) (list_tasks jid (fst s)) active \<and>
    x_join env (map (\<lambda>name. (name, run_task env cf jid name path)) running) s = (Inr results, t) \<and>
    (\<forall>(name, outcome) \<in> set results. outcome = Inr True) \<and>
    active' = filter (\<lambda>name. name \<notin> fst ` set results) running"
  using assms unfolding dag_round_def Let_def
  by (auto simp: read_db_Inr elim!: act_bind_InrE act_then_InrE dest!: collect_results_Inr
      split: if_splits)


text \<open>A round that goes on has closed at least one task and opened none.\<close>

lemma dag_round_progress:
  assumes ok: "env_ok env" "join_ok env cf jid path"
    and reach: "(db_step (x_sha env))\<^sup>*\<^sup>* empty_db (fst s)"
    and active: "set active \<subseteq> task_ids jid (fst s)"
    and round: "dag_round env cf jid path active s = (Inr (Some active'), t)"
  shows "card (open_tasks jid active' (fst t)) < card (open_tasks jid active (fst s)) \<and>
    set active' \<subseteq> task_ids jid (fst t)"
proof -
  let ?started = "started_tasks (max_parallel (cf_engine cf)) (list_tasks jid (fst s)) active"
  have inv: "db_inv (x_sha env) (fst s)" by (rule store.reach_inv [OF reach])
  from dag_round_Some [OF round] obtain running results where
    running: "running \<noteq> []" "running = active @ ?started"
    and join: "x_join env (map (\<lambda>name. (name, run_task env cf jid name path)) running) s = (Inr results, t)"
    and good: "\<forall>(name, outcome) \<in> set results. outcome = Inr True"
    and active': "active' = filter (\<lambda>name. name \<notin> fst ` set results) running" by blast
  from ok(2) [unfolded join_ok_def, rule_format, OF running(1) reach join] have
    some: "results \<noteq> []" and ids: "task_ids jid (fst t) = task_ids jid (fst s)"
    and ran: "\<And>name outcome. (name, outcome) \<in> set results \<Longrightarrow> name \<in> set running \<and>
      (\<exists>s' t'. (db_step (x_sha env))\<^sup>*\<^sup>* empty_db (fst s') \<and> run_task env cf jid name path s' = (outcome, t') \<and>
        (db_step (x_sha env))\<^sup>*\<^sup>* (fst t') (fst t))" by auto
  have later: "(db_step (x_sha env))\<^sup>*\<^sup>* (fst s) (fst t)"
    using steps_run [OF steps_dag_round [OF ok(1)] round] .
  have closed: "stored_state name (fst t) = Some TaskCompleted" if "(name, outcome) \<in> set results" for name outcome
  proof -
    from ran [OF that] good that obtain s' t' where
      s': "(db_step (x_sha env))\<^sup>*\<^sup>* empty_db (fst s')" "run_task env cf jid name path s' = (Inr True, t')"
        "(db_step (x_sha env))\<^sup>*\<^sup>* (fst t') (fst t)" by auto
    have inv': "db_inv (x_sha env) (fst s')" by (rule store.reach_inv [OF s'(1)])
    from ensuresD [OF ensures_run_task [OF ok(1)] s'(2) inv']
    have "stored_state name (fst t') = Some TaskCompleted" by (auto simp: finished_task_def)
    moreover have "db_inv (x_sha env) (fst t')"
      by (rule act_inv [OF steps_run_task [OF ok(1)] s'(2) inv'])
    ultimately show ?thesis using task_stays_completed [OF _ s'(3)] by (auto simp: stored_state_def)
  qed
  have start: "i \<in> task_ids jid (fst s) \<and> stored_state i (fst s) = Some TaskPending" if "i \<in> set ?started" for i
    using started_listed [OF that] listed_task [OF inv] by metis
  have in_open: "i \<in> open_tasks jid active (fst s)" if "i \<in> set running" for i
    using that active start unfolding running(2) by (auto simp: open_tasks_def)
  from some obtain name outcome where first: "(name, outcome) \<in> set results" by (cases results) auto
  have "open_tasks jid active' (fst t) \<subseteq> open_tasks jid active (fst s) - {name}"
  proof
    fix i
    assume i: "i \<in> open_tasks jid active' (fst t)"
    then have "i \<in> task_ids jid (fst s)" using ids by (simp add: open_tasks_def)
    have "name \<in> fst ` set results" using first by (metis fst_conv imageI)
    with i closed [OF first] have "i \<noteq> name" by (auto simp: open_tasks_def active')
    moreover have "i \<in> open_tasks jid active (fst s)"
    proof (cases "i \<in> set active'")
      case True
      then show ?thesis using in_open by (simp add: active')
    next
      case False
      with i have "stored_state i (fst t) \<noteq> Some TaskCompleted" by (simp add: open_tasks_def)
      then have "stored_state i (fst s) \<noteq> Some TaskCompleted"
        using task_stays_completed [OF inv later] by (auto simp: stored_state_def)
      with \<open>i \<in> task_ids jid (fst s)\<close> show ?thesis by (simp add: open_tasks_def)
    qed
    ultimately show "i \<in> open_tasks jid active (fst s) - {name}" by simp
  qed
  moreover have "name \<in> open_tasks jid active (fst s)" using in_open ran [OF first] by blast
  ultimately have "open_tasks jid active' (fst t) \<subset> open_tasks jid active (fst s)" by blast
  then have "card (open_tasks jid active' (fst t)) < card (open_tasks jid active (fst s))"
    by (rule psubset_card_mono [OF open_tasks_finite])
  moreover have "set active' \<subseteq> task_ids jid (fst t)"
    using in_open unfolding active' ids by (auto simp: open_tasks_def)
  ultimately show ?thesis ..
qed

lemma execute_dag_ends:
  assumes "env_ok env" and "join_ok env cf jid path"
    and "(db_step (x_sha env))\<^sup>*\<^sup>* empty_db (fst s)" and "set active \<subseteq> task_ids jid (fst s)"
    and "card (open_tasks jid active (fst s)) < rounds"
  shows "execute_dag env cf jid path rounds active s \<noteq> (Inr False, t)"
  using assms(3-5)
proof (induction rounds arbitrary: active s)
  case 0
  then show ?case by simp
next
  case (Suc rounds)
  show ?case
  proof
    assume "execute_dag env cf jid path (Suc rounds) active s = (Inr False, t)"
    then obtain r u where r: "dag_round env cf jid path active s = (Inr r, u)"
      and rest: "(case r of None \<Rightarrow> ret True
        | Some active \<Rightarrow> execute_dag env cf jid path rounds active) u = (Inr False, t)"
      by (auto elim: act_bind_InrE)
    from rest obtain active' where a: "r = Some active'"
      and next_round: "execute_dag env cf jid path rounds active' u = (Inr False, t)"
      by (cases r) auto
    from dag_round_progress [OF assms(1,2) Suc.prems(1,2) r [unfolded a]] Suc.prems(3)
    have "set active' \<subseteq> task_ids jid (fst u)" "card (open_tasks jid active' (fst u)) < rounds" by auto
    moreover have "(db_step (x_sha env))\<^sup>*\<^sup>* empty_db (fst u)"
      using Suc.prems(1) steps_run [OF steps_dag_round [OF assms(1)] r] by (rule rtranclp_trans)
    ultimately show False using Suc.IH next_round by blast
  qed
qed

text \<open>
  C12: The loop over the task graph ends within as many rounds as the job has tasks, plus one: it
  raises, or it returns with every task of the job completed in the store.
\<close>

theorem dag_ends_completed:
  assumes "env_ok env" and "join_ok env cf jid path"
    and "(db_step (x_sha env))\<^sup>*\<^sup>* empty_db (fst s)"
    and "length (list_tasks jid (fst s)) < rounds"
    and "execute_dag env cf jid path rounds [] s = (Inr returned, t)"
  shows "returned \<and> all_completed jid (fst t)"
proof -
  have "open_tasks jid [] (fst s) \<subseteq> task_ids jid (fst s)" by (auto simp: open_tasks_def)
  then have "card (open_tasks jid [] (fst s)) \<le> card (task_ids jid (fst s))"
    by (rule card_mono [rotated]) (simp add: task_ids_def)
  also have "task_ids jid (fst s) = set (map t_id (list_tasks jid (fst s)))"
    by (auto simp: task_ids_def list_tasks_def task_from_row_def image_iff)
  also have "card \<dots> \<le> length (list_tasks jid (fst s))" by (metis card_length length_map)
  finally have "card (open_tasks jid [] (fst s)) < rounds" using assms(4) by simp
  with execute_dag_ends [OF assms(1-3), of "[]" rounds t] assms(5) have returned by auto
  with assms(5) show ?thesis by (auto dest: execute_dag_completed)
qed


text \<open>An event loop that runs the first coroutine, and is cancelled if that changed the set of tasks.\<close>

definition run_first_only :: "string \<Rightarrow> (string \<times> ('g, bool) act) list \<Rightarrow> ('g, (string \<times> (exc + bool)) list) act" where
  "run_first_only jid hs = (\<lambda>s. case hs of
     [] \<Rightarrow> (Inr [], s)
   | (name, m) # _ \<Rightarrow> (case m s of (r, t) \<Rightarrow>
       if map t_id (filter (\<lambda>t. t_job_id t = jid) (db_tasks (fst t))) =
          map t_id (filter (\<lambda>t. t_job_id t = jid) (db_tasks (fst s)))
       then (Inr [(name, r)], t) else (Inl Cancelled, t)))"

definition loop_env :: "unit env" where
  "loop_env = (demo_env [] ''+'')\<lparr>x_join := run_first_only ''job-1''\<rparr>"

lemma steps_run_first_only:
  assumes "\<And>h. h \<in> set hs \<Longrightarrow> steps sha (snd h)"
  shows "steps sha (run_first_only jid hs)"
proof (cases hs)
  case Nil
  then show ?thesis by (simp add: steps_def run_first_only_def)
next
  case (Cons h rest)
  with assms have "steps sha (snd h)" by simp
  then show ?thesis unfolding Cons
    by (cases h) (simp add: steps_def run_first_only_def split_beta)
qed

lemma loop_env_ok: "env_ok loop_env"
  by (auto simp: env_ok_def loop_env_def demo_env_def steps_ret intro!: steps_run_first_only)

lemma loop_join_ok: "join_ok loop_env demo_config ''job-1'' path"
  unfolding join_ok_def
proof (intro allI impI)
  fix names s results t
  assume names: "names \<noteq> []" and reach: "(db_step (x_sha loop_env))\<^sup>*\<^sup>* empty_db (fst s)"
    and run: "x_join loop_env (map (\<lambda>name. (name, run_task loop_env demo_config ''job-1'' name path)) names) s =
      (Inr results, t)"
  obtain n ns where ns: "names = n # ns" using names by (cases names) auto
  let ?m = "run_task loop_env demo_config ''job-1'' n path"
  obtain r u where m: "?m s = (r, u)" by (cases "?m s")
  have x: "x_join loop_env = run_first_only ''job-1''" by (simp add: loop_env_def)
  from run m have results: "results = [(n, r)]" "t = u"
    and same: "map t_id (filter (\<lambda>t. t_job_id t = ''job-1'') (db_tasks (fst t))) =
      map t_id (filter (\<lambda>t. t_job_id t = ''job-1'') (db_tasks (fst s)))"
    unfolding x ns by (auto simp: run_first_only_def split: if_splits)
  have ids: "task_ids ''job-1'' db = set (map t_id (filter (\<lambda>t. t_job_id t = ''job-1'') (db_tasks db)))" for db
    by (auto simp: task_ids_def)
  have "task_ids ''job-1'' (fst t) = task_ids ''job-1'' (fst s)" unfolding ids same ..
  moreover have "\<exists>s' t'. (db_step (x_sha loop_env))\<^sup>*\<^sup>* empty_db (fst s') \<and> ?m s' = (r, t') \<and>
      (db_step (x_sha loop_env))\<^sup>*\<^sup>* (fst t') (fst t)"
    using reach m unfolding results(2) by blast
  ultimately show "results \<noteq> [] \<and> task_ids ''job-1'' (fst t) = task_ids ''job-1'' (fst s) \<and>
      (\<forall>(name, outcome) \<in> set results. name \<in> set names \<and>
        (\<exists>s' t'. (db_step (x_sha loop_env))\<^sup>*\<^sup>* empty_db (fst s') \<and>
          run_task loop_env demo_config ''job-1'' name path s' = (outcome, t') \<and>
          (db_step (x_sha loop_env))\<^sup>*\<^sup>* (fst t') (fst t)))"
    unfolding results(1) ns by simp
qed

lemma dag_ends_completed_witness:
  "all_completed ''job-1'' (fst (snd (execute_dag loop_env demo_config ''job-1'' ''/w'' 2 [] (demo_db 2, ()))))"
proof -
  let ?run = "execute_dag loop_env demo_config ''job-1'' ''/w'' 2 [] (demo_db 2, ())"
  have sha: "x_sha loop_env = demo_sha" by (simp add: loop_env_def demo_env_def)
  have "length (list_tasks ''job-1'' (demo_db 2)) = 1" by code_simp
  then have len: "length (list_tasks ''job-1'' (fst (demo_db 2, ()))) < 2" by simp
  have "fst ?run = Inr True" by code_simp
  then have run: "?run = (Inr True, snd ?run)" by (simp add: prod_eq_iff)
  show ?thesis
    using dag_ends_completed [OF loop_env_ok loop_join_ok _ len run] demo_reachable sha by simp
qed

text \<open>Two tasks, the second behind the first.\<close>

definition demo_two :: "planned_task list" where
  "demo_two = map (\<lambda>(n, ds). \<lparr>pt_logical_id = n, pt_title = ''t'', pt_description = ''d'',
     pt_depends_on = ds, pt_acceptance = [], pt_preferred_agent = None, pt_risk = ''low''\<rparr>)
     [(''A'', []), (''B'', [''A''])]"

definition demo_two_rows :: "task_row list" where
  "demo_two_rows = (case add_tasks 1 ''job-1'' [(''i'', demo_two ! 0), (''j'', demo_two ! 1)] (demo_db 1) of
     Inr (rows, _) \<Rightarrow> rows | Inl _ \<Rightarrow> [])"

lemma accepted_plan_never_stalls_witness: "started_tasks 1 demo_two_rows [] \<noteq> []"
proof -
  have v: "validate_plan 8 demo_two = Inr ()" by code_simp
  have l: "map t_logical_id demo_two_rows = map pt_logical_id demo_two" by code_simp
  have d: "map t_dependencies demo_two_rows = map pt_depends_on demo_two" by code_simp
  have "list_all (\<lambda>t. t_state t = TaskPending) demo_two_rows" by code_simp
  then have p: "\<forall>t \<in> set demo_two_rows. t_state t = TaskPending \<or> t_state t = TaskCompleted"
    by (simp add: list_all_iff)
  have "demo_two_rows \<noteq> []" using l by (auto simp: demo_two_def)
  then have h: "hd demo_two_rows \<in> set demo_two_rows" by simp
  with \<open>list_all _ demo_two_rows\<close> have "t_state (hd demo_two_rows) = TaskPending" by (auto simp: list_all_iff)
  from accepted_plan_never_stalls [OF v l d p h this] show ?thesis by simp
qed

end
