(* ===== verification/Yolo_Process.thy ===== *)
theory Yolo_Process
  imports Yolo_Actions
begin

text \<open>
  Child processes: \<open>src/omarchy_yolo/process.py\<close> and what it shares with \<open>gates.py\<close>. The output of a
  child is read in chunks by one coroutine per pipe; a chunk goes to a ring buffer that keeps the
  end of the stream and to a log file of bounded size. What a child does (the chunks in the order
  the coroutines read them, its exit status, whether it ran out of time) is an input, an element
  of \<open>process_answers\<close>. Bytes are numbers below 256.
\<close>

type_synonym bytes = "nat list"

definition encode :: "string \<Rightarrow> bytes" where
  "encode s = utf8_encode (cps s)"

section \<open>The captured end of a stream\<close>

text \<open>\<open>target.extend(chunk)\<close>, then the front is deleted down to the limit.\<close>

definition capture :: "nat \<Rightarrow> bytes \<Rightarrow> bytes \<Rightarrow> bytes" where
  "capture limit chunk target =
     (let t = target @ chunk in if length t > limit then drop (length t - limit) t else t)"

lemma capture_last: "capture limit chunk (py_last limit xs) = py_last limit (xs @ chunk)"
proof (cases "length xs \<le> limit")
  case False
  then have "length xs - limit + length chunk = length xs + length chunk - limit" by simp
  with False show ?thesis by (simp add: capture_def py_last_def Let_def add.commute)
qed (simp add: capture_def py_last_def Let_def)

lemma capture_fold: "fold (capture limit) chunks (py_last limit xs) = py_last limit (xs @ concat chunks)"
  by (induction chunks arbitrary: xs) (simp_all add: capture_last)

section \<open>The bounded log\<close>

record log_file =
  lf_bytes :: bytes
  lf_logged :: nat
  lf_truncated :: bool

definition empty_log :: log_file where
  "empty_log = \<lparr>lf_bytes = [], lf_logged = 0, lf_truncated = False\<rparr>"

definition append_log :: "bytes \<Rightarrow> nat \<Rightarrow> bytes \<Rightarrow> log_file \<Rightarrow> log_file" where
  "append_log marker limit data lf =
     (if lf_logged lf < limit then
        let remaining = limit - lf_logged lf;
            payload_budget = remaining - length marker;
            truncated_now = length data > payload_budget;
            payload = take payload_budget data;
            lf1 = lf\<lparr>lf_bytes := lf_bytes lf @ payload, lf_logged := lf_logged lf + length payload\<rparr>
        in if truncated_now \<and> \<not> lf_truncated lf1
           then let mark = take (limit - lf_logged lf1) marker
                in lf1\<lparr>lf_bytes := lf_bytes lf1 @ mark, lf_logged := lf_logged lf1 + length mark,
                       lf_truncated := True\<rparr>
           else lf1
      else lf\<lparr>lf_truncated := True\<rparr>)"

text \<open>What a log holds after the data \<open>xs\<close>, as one expression.\<close>

definition log_of :: "bytes \<Rightarrow> nat \<Rightarrow> bytes \<Rightarrow> bytes" where
  "log_of marker limit xs =
     (if length xs \<le> limit - length marker then xs
      else take (limit - length marker) xs @ take limit marker)"

lemma length_log_of: "length (log_of marker limit xs) \<le> limit"
  by (auto simp: log_of_def)

definition log_holds :: "bytes \<Rightarrow> nat \<Rightarrow> bytes \<Rightarrow> log_file \<Rightarrow> bool" where
  "log_holds marker limit xs lf \<longleftrightarrow>
     lf_bytes lf = log_of marker limit xs \<and> lf_logged lf = length (lf_bytes lf) \<and>
     (length xs > limit - length marker \<longrightarrow> lf_logged lf = limit) \<and>
     (length xs \<le> limit - length marker \<and> lf_logged lf < limit \<longrightarrow> \<not> lf_truncated lf)"

lemma append_log_holds:
  assumes "log_holds marker limit xs lf" and "0 < length marker"
  shows "log_holds marker limit (xs @ data) (append_log marker limit data lf)"
proof (cases "length xs \<le> limit - length marker")
  case True
  with assms have lf: "lf_bytes lf = xs" "lf_logged lf = length xs" by (simp_all add: log_holds_def log_of_def)
  show ?thesis
  proof (cases "lf_logged lf < limit")
    case less: True
    with assms True have fresh: "\<not> lf_truncated lf" by (simp add: log_holds_def)
    have budget: "limit - length xs - length marker = limit - length marker - length xs" by simp
    show ?thesis
    proof (cases "length data \<le> limit - length xs - length marker")
      case fits: True
      with True have "length xs + length data \<le> limit - length marker" by arith
      with fits less lf fresh show ?thesis
        by (simp add: append_log_def log_holds_def log_of_def Let_def)
    next
      case False
      let ?b = "limit - length xs - length marker"
      have pay: "length (take ?b data) = ?b" using False by simp
      have cut: "take (limit - length marker) (xs @ data) = xs @ take ?b data" using True by (simp add: budget add.commute)
      have mark: "take (limit - (length xs + ?b)) marker = take limit marker \<and>
          length xs + ?b + length (take limit marker) = limit"
        using True by (cases "length marker \<le> limit") auto
      have "append_log marker limit data lf = lf\<lparr>lf_bytes := xs @ take ?b data @ take limit marker,
          lf_logged := length xs + ?b + length (take limit marker), lf_truncated := True\<rparr>"
        using less lf fresh False pay mark by (simp add: append_log_def Let_def)
      moreover have "limit - length marker < length (xs @ data)" using False by simp
      ultimately show ?thesis using mark pay cut by (simp add: log_holds_def log_of_def)
    qed
  next
    case full: False
    with lf True have "length xs \<ge> limit" by simp
    moreover have "0 < length marker" by (rule assms(2))
    ultimately have "limit = 0" "length xs = 0" using True by arith+
    then have "limit = 0" "xs = []" by simp_all
    with full lf show ?thesis by (auto simp: append_log_def log_holds_def log_of_def)
  qed
next
  case False
  then have "length xs > limit - length marker" by simp
  then have full: "lf_logged lf = limit" using assms(1) unfolding log_holds_def by blast
  have "log_of marker limit (xs @ data) = log_of marker limit xs"
    using False by (auto simp: log_of_def)
  moreover have "lf_bytes lf = log_of marker limit xs" "length (log_of marker limit xs) = limit"
    using assms(1) full unfolding log_holds_def by metis+
  moreover have "append_log marker limit data lf = lf\<lparr>lf_truncated := True\<rparr>"
    using full by (simp add: append_log_def)
  ultimately show ?thesis using False full by (simp add: log_holds_def)
qed

lemma append_log_fold:
  assumes "0 < length marker" and "log_holds marker limit xs lf"
  shows "log_holds marker limit (xs @ concat ds) (fold (append_log marker limit) ds lf)"
  using assms(2)
proof (induction ds arbitrary: xs lf)
  case (Cons d ds)
  from Cons.IH [OF append_log_holds [OF Cons.prems assms(1), of d]] show ?case by simp
qed simp

lemma empty_log_holds: "log_holds marker limit [] empty_log"
  by (simp add: log_holds_def empty_log_def log_of_def)

text \<open>Whatever the log held before, appending keeps it within the limit.\<close>

lemma append_log_bound:
  assumes "lf_logged lf = length (lf_bytes lf)" and "length (lf_bytes lf) \<le> limit"
  shows "lf_logged (append_log marker limit data lf) = length (lf_bytes (append_log marker limit data lf)) \<and>
    length (lf_bytes (append_log marker limit data lf)) \<le> limit"
  using assms by (auto simp: append_log_def Let_def)

section \<open>Ending a process group\<close>

text \<open>The calls of \<open>_terminate_process_group\<close>, and what each one finds.\<close>

datatype group_call = KillTerm | WaitLeader | WaitGrace | ProbeGroup | KillKill

record group_answers =
  ga_missing_at_term :: bool
  ga_reaped :: bool
  ga_exits_in_grace :: bool
  ga_probes :: "bool list"
  ga_missing_at_kill :: bool

text \<open>The probes up to the deadline; the second part tells whether one found the group gone.\<close>

fun probe_loop :: "bool list \<Rightarrow> group_call list \<times> bool" where
  "probe_loop [] = ([], False)"
| "probe_loop (gone # rest) =
     (if gone then ([ProbeGroup], True)
      else case probe_loop rest of (calls, found) \<Rightarrow> (ProbeGroup # calls, found))"

definition terminate_group :: "group_answers \<Rightarrow> group_call list" where
  "terminate_group ga =
     KillTerm #
     (if ga_missing_at_term ga then (if ga_reaped ga then [] else [WaitLeader])
      else (if ga_reaped ga then [] else [WaitGrace]) @
        (case probe_loop (ga_probes ga) of (calls, gone) \<Rightarrow>
           calls @
           (if gone then []
            else KillKill #
              (if ga_missing_at_kill ga \<or> ga_reaped ga \<or> ga_exits_in_grace ga then [] else [WaitLeader]))))"

lemma probe_loop_gone: "snd (probe_loop ps) \<longleftrightarrow> True \<in> set ps"
  by (induction ps) (auto split: prod.splits)

lemma probe_loop_calls: "set (fst (probe_loop ps)) \<subseteq> {ProbeGroup}"
  by (induction ps) (auto split: prod.splits)

lemma kill_sent_iff:
  "KillKill \<in> set (terminate_group ga) \<longleftrightarrow> \<not> ga_missing_at_term ga \<and> True \<notin> set (ga_probes ga)"
proof -
  obtain calls gone where p: "probe_loop (ga_probes ga) = (calls, gone)" by (cases "probe_loop (ga_probes ga)")
  have "KillKill \<notin> set calls" using probe_loop_calls [of "ga_probes ga"] p by auto
  then show ?thesis using probe_loop_gone [of "ga_probes ga"] by (simp add: terminate_group_def p)
qed

section \<open>Answers of a child\<close>

datatype stream = Stdout | Stderr

record process_answers =
  pa_chunks :: "(stream \<times> bytes) list"
  pa_pump_error :: "py_error option"
  pa_open_after_exit :: bool
  pa_returncode :: "int option"
  pa_timed_out :: bool
  pa_cancelled :: bool
  pa_duration :: timestamp

definition stream_chunks :: "stream \<Rightarrow> process_answers \<Rightarrow> bytes list" where
  "stream_chunks st ans = map snd (filter (\<lambda>c. fst c = st) (pa_chunks ans))"

text \<open>
  How the wait for a child ends: a cancellation once the pipes are drained, the error of a pump, an
  error when a pipe stayed open (a descendant that outlived its leader), or the exit status.
\<close>

definition process_outcome :: "string \<Rightarrow> process_answers \<Rightarrow> exc + int" where
  "process_outcome open_text ans =
     (if pa_cancelled ans then Inl Cancelled
      else case pa_pump_error ans of
             Some e \<Rightarrow> Inl (Raised e)
           | None \<Rightarrow>
               if pa_open_after_exit ans then Inl (Raised (YoloError open_text))
               else Inr (case pa_returncode ans of None \<Rightarrow> 124 | Some rc \<Rightarrow> rc))"

section \<open>\<open>shlex.join\<close>\<close>

definition shell_safe_char :: "char \<Rightarrow> bool" where
  "shell_safe_char c = (is_ascii_alpha c \<or> is_ascii_digit c \<or> c \<in> set ''_@%+=:,./-'')"

definition shell_quote :: "string \<Rightarrow> string" where
  "shell_quote s =
     (if s = [] then [CHR 0x27, CHR 0x27]
      else if list_all shell_safe_char s then s
      else [CHR 0x27] @
        concat (map (\<lambda>c. if c = CHR 0x27 then [CHR 0x27, CHR 0x22, CHR 0x27, CHR 0x22, CHR 0x27] else [c]) s) @
        [CHR 0x27])"

definition shell_join :: "string list \<Rightarrow> string" where
  "shell_join argv = join_with '' '' (map shell_quote argv)"

section \<open>\<open>ProcessRunner\<close>\<close>

definition process_log_marker :: bytes where
  "process_log_marker = [10] @ encode ''[omarchy-yolo: log output truncated]'' @ [10]"

text \<open>The limits of the runner, at least one byte each.\<close>

record process_limits =
  pl_capture :: int
  pl_log :: int

definition limit_of :: "int \<Rightarrow> nat" where
  "limit_of n = nat (max 1 n)"

definition process_header :: "string list \<Rightarrow> bool \<Rightarrow> bytes" where
  "process_header argv has_prompt =
     encode (''$ '' @ shell_join (argv @ (if has_prompt then [''<PROMPT>''] else []))) @ [10]"

text \<open>A log line of the pump: the prefix of the stream, the chunk, and a line end if it has none.\<close>

definition process_payload :: "stream \<Rightarrow> bytes \<Rightarrow> bytes" where
  "process_payload st chunk =
     encode (case st of Stdout \<Rightarrow> ''[stdout] '' | Stderr \<Rightarrow> ''[stderr] '') @ chunk @
     (if chunk \<noteq> [] \<and> last chunk = 10 then [] else [10])"

definition process_log :: "process_limits \<Rightarrow> bytes \<Rightarrow> (stream \<times> bytes) list \<Rightarrow> log_file" where
  "process_log lims header chunks =
     (let n = limit_of (pl_log lims)
      in fold (\<lambda>(st, chunk). append_log process_log_marker n (process_payload st chunk)) chunks
           \<lparr>lf_bytes = take n header, lf_logged = min (length header) n, lf_truncated = False\<rparr>)"

definition captured :: "int \<Rightarrow> stream \<Rightarrow> process_answers \<Rightarrow> bytes" where
  "captured limit st ans = fold (capture (limit_of limit)) (stream_chunks st ans) []"

text \<open>
  \<open>run\<close>: the result and the log. The child is started with the wrapped command, the prompt being
  its last argument; \<open>exec\<close> is what it does, \<open>decode\<close> reads bytes as text.
\<close>

definition run_process ::
  "(string \<Rightarrow> string option) \<Rightarrow> resource_policy \<Rightarrow> process_limits \<Rightarrow> (bytes \<Rightarrow> string) \<Rightarrow>
   (string list \<Rightarrow> process_answers) \<Rightarrow> string list \<Rightarrow> string option \<Rightarrow> (exc + agent_result) \<times> log_file" where
  "run_process which policy lims decode exec argv prompt =
     (let header = process_header argv (prompt \<noteq> None);
          command = argv @ (case prompt of None \<Rightarrow> [] | Some p \<Rightarrow> [p])
      in case resource_wrap which policy command of
           Inl e \<Rightarrow> (Inl (Raised e), process_log lims header [])
         | Inr wrapped \<Rightarrow>
             let ans = exec wrapped
             in ((case process_outcome ''agent output pipes did not close after command exit'' ans of
                    Inl e \<Rightarrow> Inl e
                  | Inr rc \<Rightarrow>
                      Inr \<lparr>ar_returncode = (if pa_timed_out ans \<and> rc = 0 then 124 else rc),
                           ar_stdout = decode (captured (pl_capture lims) Stdout ans),
                           ar_stderr = decode (captured (pl_capture lims) Stderr ans)\<rparr>),
                 process_log lims header (pa_chunks ans)))"

lemma captured_last: "captured limit st ans = py_last (limit_of limit) (concat (stream_chunks st ans))"
  using capture_fold [of "limit_of limit" "stream_chunks st ans" "[]"] by (simp add: captured_def py_last_def)

text \<open>What is kept of the output of a child: the captured text is the end of the stream, at most
  the limit, however the stream was cut into chunks and interleaved with the other one.\<close>

theorem captured_output_exact:
  "captured limit st ans = py_last (limit_of limit) (concat (stream_chunks st ans)) \<and>
   length (captured limit st ans) \<le> limit_of limit"
  by (simp add: captured_last length_py_last)

lemma process_log_bound:
  "length (lf_bytes (process_log lims header chunks)) \<le> limit_of (pl_log lims)"
proof -
  let ?n = "limit_of (pl_log lims)"
  let ?step = "\<lambda>(st, chunk). append_log process_log_marker ?n (process_payload st chunk)"
  have "lf_logged (fold ?step cs lf) = length (lf_bytes (fold ?step cs lf)) \<and>
      length (lf_bytes (fold ?step cs lf)) \<le> ?n"
    if "lf_logged lf = length (lf_bytes lf)" "length (lf_bytes lf) \<le> ?n" for cs lf
    using that
  proof (induction cs arbitrary: lf)
    case (Cons c cs)
    from append_log_bound [OF Cons.prems, of process_log_marker "process_payload (fst c) (snd c)"] Cons.IH
    show ?case by (simp add: split_beta)
  qed simp
  then show ?thesis by (simp add: process_log_def Let_def min_def)
qed

text \<open>A run of an agent keeps its limits: the log never exceeds its limit, whatever the agent
  prints, an agent that ran out of time is not a success even when its exit status is zero, and
  the log does not depend on the text of the prompt.\<close>

theorem agent_run_bounded:
  assumes "run_process which policy lims decode exec argv prompt = (r, lf)"
  shows "length (lf_bytes lf) \<le> limit_of (pl_log lims) \<and>
    (\<forall>res cmd. r = Inr res \<and>
       resource_wrap which policy (argv @ (case prompt of None \<Rightarrow> [] | Some p \<Rightarrow> [p])) = Inr cmd \<and>
       pa_timed_out (exec cmd) \<longrightarrow> \<not> agent_ok res) \<and>
    (\<exists>chunks. lf = process_log lims (process_header argv (prompt \<noteq> None)) chunks)"
proof -
  let ?command = "argv @ (case prompt of None \<Rightarrow> [] | Some p \<Rightarrow> [p])"
  show ?thesis
  proof (cases "resource_wrap which policy ?command")
    case (Inl e)
    with assms show ?thesis by (auto simp: run_process_def Let_def process_log_bound)
  next
    case (Inr wrapped)
    with assms show ?thesis
      by (auto simp: run_process_def Let_def process_log_bound agent_ok_def split: sum.splits if_splits)
  qed
qed

definition slow_child :: process_answers where
  "slow_child = \<lparr>pa_chunks = [(Stdout, encode ''done'')], pa_pump_error = None, pa_open_after_exit = False,
     pa_returncode = Some 0, pa_timed_out = True, pa_cancelled = False, pa_duration = 60\<rparr>"

definition no_policy :: resource_policy where
  "no_policy = \<lparr>rp_backend = ''none'', rp_memory_max_mib = 0, rp_memory_high_mib = 0, rp_tasks_max = 0,
     rp_cpu_quota_percent = 0, rp_io_weight = 0\<rparr>"


lemma agent_run_bounded_witness:
  "length (lf_bytes (snd (run_process (\<lambda>_. None) no_policy \<lparr>pl_capture = 2, pl_log = 30\<rparr> (map char_of)
     (\<lambda>_. slow_child) [''agent''] (Some ''secret'')))) \<le> 30 \<and>
   \<not> agent_ok \<lparr>ar_returncode = 124, ar_stdout = ''ne'', ar_stderr = []\<rparr>"
proof -
  let ?run = "run_process (\<lambda>_. None) no_policy \<lparr>pl_capture = 2, pl_log = 30\<rparr> (map char_of)
     (\<lambda>_. slow_child) [''agent''] (Some ''secret'')"
  have "fst ?run = Inr \<lparr>ar_returncode = 124, ar_stdout = ''ne'', ar_stderr = []\<rparr>" by code_simp
  then have run: "?run = (Inr \<lparr>ar_returncode = 124, ar_stdout = ''ne'', ar_stderr = []\<rparr>, snd ?run)"
    by (simp add: prod_eq_iff)
  have wrap: "resource_wrap (\<lambda>_. None) no_policy [''agent'', ''secret''] = Inr [''agent'', ''secret'']" by code_simp
  from agent_run_bounded [OF run] wrap show ?thesis
    by (simp add: limit_of_def slow_child_def)
qed

end
