(* ===== verification/Yolo_Git.thy ===== *)
theory Yolo_Git
  imports Yolo_Process Yolo_Integration
begin

text \<open>
  The Git topology of \<open>src/omarchy_yolo/git.py\<close>. The program \<open>git\<close> is not under \<open>src/\<close>: what a command
  answers is a field of the host (\<open>gh_exec\<close>, from the arguments, the environment and the state of
  the world to the answers of the child and the next state), like the few file-system calls the code
  makes. An operation runs commands in order until one fails; the state carries the commands run
  and the trees removed so far (\<open>gs_log\<close>), which the statements about safety are made over.
\<close>

section \<open>Output of a command\<close>

record binary_output =
  bo_returncode :: int
  bo_stdout :: bytes
  bo_stderr :: bytes
  bo_timed_out :: bool
  bo_truncated :: bool

record command_output =
  cm_returncode :: int
  cm_stdout :: string
  cm_stderr :: string
  cm_timed_out :: bool
  cm_truncated :: bool

definition MAX_GIT_STDOUT_BYTES :: int where
  "MAX_GIT_STDOUT_BYTES = 2000000"

definition MAX_GIT_STDERR_BYTES :: int where
  "MAX_GIT_STDERR_BYTES = 256000"

text \<open>The pump of one pipe: it stops reading at the first chunk that does not fit.\<close>

fun git_pump :: "nat \<Rightarrow> bytes list \<Rightarrow> bytes \<Rightarrow> bytes \<times> bool" where
  "git_pump limit [] target = (target, False)"
| "git_pump limit (chunk # chunks) target =
     (let remaining = limit - length target; target' = target @ take remaining chunk
      in if length chunk > remaining then (target', True) else git_pump limit chunks target')"

lemma git_pump_exact:
  assumes "length target \<le> limit"
  shows "git_pump limit chunks target =
    (take limit (target @ concat chunks), length (target @ concat chunks) > limit)"
  using assms
proof (induction limit chunks target rule: git_pump.induct)
  case (2 limit chunk chunks target)
  show ?case
  proof (cases "length chunk > limit - length target")
    case True
    with 2 show ?thesis by (simp add: Let_def)
  next
    case False
    with 2 have "length (target @ chunk) \<le> limit" by simp
    with 2 False show ?thesis by (simp add: Let_def)
  qed
qed simp

section \<open>Operations on the world\<close>

datatype git_event = Ran "string list" binary_output | RemovedTree string

record 'w git_host =
  gh_exec :: "string list \<Rightarrow> (string \<times> string) list \<Rightarrow> int \<Rightarrow> 'w \<Rightarrow> (py_error + process_answers) \<times> 'w"
  gh_exists :: "string \<Rightarrow> 'w \<Rightarrow> bool"
  gh_is_symlink :: "string \<Rightarrow> 'w \<Rightarrow> bool"
  gh_resolve :: "string \<Rightarrow> 'w \<Rightarrow> string"
  gh_rmtree :: "string \<Rightarrow> 'w \<Rightarrow> (py_error + unit) \<times> 'w"
  gh_private_dir :: "string \<Rightarrow> 'w \<Rightarrow> (py_error + unit) \<times> 'w"
  gh_parent :: "string \<Rightarrow> string"
  gh_environ :: "(string \<times> string) list"
  gh_decode :: "bytes \<Rightarrow> string"
  gh_fsdecode :: "bytes \<Rightarrow> string"
  gh_error_name :: "py_error \<Rightarrow> string"

record 'w git_state =
  gs_log :: "git_event list"
  gs_world :: 'w

type_synonym ('w, 'a) git = "'w git_state \<Rightarrow> (py_error + 'a) \<times> 'w git_state"

definition git_ret :: "'a \<Rightarrow> ('w, 'a) git" where
  "git_ret x = (\<lambda>s. (Inr x, s))"

definition git_fail :: "py_error \<Rightarrow> ('w, 'a) git" where
  "git_fail e = (\<lambda>s. (Inl e, s))"

definition git_bind :: "('w, 'a) git \<Rightarrow> ('a \<Rightarrow> ('w, 'b) git) \<Rightarrow> ('w, 'b) git" where
  "git_bind m f = (\<lambda>s. case m s of (Inl e, t) \<Rightarrow> (Inl e, t) | (Inr x, t) \<Rightarrow> f x t)"

definition git_then :: "('w, 'a) git \<Rightarrow> ('w, 'b) git \<Rightarrow> ('w, 'b) git" where
  "git_then m n = git_bind m (\<lambda>_. n)"

definition git_check :: "bool \<Rightarrow> string \<Rightarrow> ('w, unit) git" where
  "git_check ok text = (if ok then git_ret () else git_fail (GitError text))"

definition git_read :: "('w \<Rightarrow> 'a) \<Rightarrow> ('w, 'a) git" where
  "git_read f = (\<lambda>s. (Inr (f (gs_world s)), s))"

definition git_call :: "('w \<Rightarrow> (py_error + 'a) \<times> 'w) \<Rightarrow> ('w, 'a) git" where
  "git_call f = (\<lambda>s. case f (gs_world s) of (r, w) \<Rightarrow> (r, s\<lparr>gs_world := w\<rparr>))"

definition git_note :: "git_event \<Rightarrow> ('w, unit) git" where
  "git_note ev = (\<lambda>s. (Inr (), s\<lparr>gs_log := gs_log s @ [ev]\<rparr>))"

section \<open>The environment of a command\<close>

definition identity_names :: "string list" where
  "identity_names =
     [''GIT_AUTHOR_NAME'', ''GIT_AUTHOR_EMAIL'', ''GIT_COMMITTER_NAME'', ''GIT_COMMITTER_EMAIL'']"

definition forced_environment :: "(string \<times> string) list" where
  "forced_environment =
     [(''GIT_PAGER'', ''cat''), (''GIT_TERMINAL_PROMPT'', ''0''), (''GIT_ASKPASS'', ''/bin/false''),
      (''SSH_ASKPASS'', ''/bin/false''), (''GIT_CONFIG_NOSYSTEM'', ''1''),
      (''GIT_CONFIG_GLOBAL'', ''/dev/null'')]"

definition base_environment :: "(string \<times> string) list \<Rightarrow> (string \<times> string) list" where
  "base_environment effective =
     (let identity = filter (\<lambda>(key, _). key \<in> set identity_names) effective;
          kept = filter (\<lambda>(key, _). \<not> starts_with ''GIT_'' key) effective
      in dict_update (dict_update kept identity) forced_environment)"

definition identity_environment :: "'w git_host \<Rightarrow> git_config \<Rightarrow> (string \<times> string) list" where
  "identity_environment gh cfg =
     dict_update (gh_environ gh)
       [(''GIT_AUTHOR_NAME'', commit_name cfg), (''GIT_AUTHOR_EMAIL'', commit_email cfg),
        (''GIT_COMMITTER_NAME'', commit_name cfg), (''GIT_COMMITTER_EMAIL'', commit_email cfg)]"

lemma map_of_replace:
  "map_of (map (\<lambda>(x, y). if x = k then (k, v) else (x, y)) d) x =
     (if x = k then map_option (\<lambda>_. v) (map_of d k) else map_of d x)"
  by (induction d) auto

lemma map_of_dict_set: "map_of (dict_set k v d) = (map_of d)(k \<mapsto> v)"
proof (cases "map_of d k")
  case None
  then have "k \<notin> fst ` set d" by (simp add: map_of_eq_None_iff)
  with None show ?thesis by (auto simp: dict_set_def fun_eq_iff map_add_def split: option.splits)
next
  case (Some u)
  then have "k \<in> fst ` set d" by (force dest: map_of_SomeD)
  with Some show ?thesis by (auto simp: dict_set_def fun_eq_iff map_of_replace cong: if_cong)
qed

lemma map_of_dict_update: "map_of (dict_update d new) = map_of d ++ map_of (rev new)"
proof (induction new arbitrary: d)
  case (Cons kv new)
  obtain a b where kv: "kv = (a, b)" by (cases kv)
  have "map_of d ++ map_of (rev (kv # new)) = map_of (dict_set a b d) ++ map_of (rev new)"
    by (auto simp: map_add_def fun_eq_iff map_of_dict_set kv split: option.splits)
  with Cons.IH [of "dict_set a b d"] show ?case by (simp add: dict_update_def kv)
qed (simp add: dict_update_def)

text \<open>What a Git command inherits: of the variables that Git reads only the author and the
  committer come from outside, the paging, prompting and configuration of the user and the system
  are switched off, and every other variable is passed on.\<close>

theorem git_environment_scrubbed:
  "map_of (base_environment env) ''GIT_CONFIG_GLOBAL'' = Some ''/dev/null'' \<and>
   map_of (base_environment env) ''GIT_CONFIG_NOSYSTEM'' = Some ''1'' \<and>
   map_of (base_environment env) ''GIT_TERMINAL_PROMPT'' = Some ''0'' \<and>
   map_of (base_environment env) ''GIT_ASKPASS'' = Some ''/bin/false'' \<and>
   {k \<in> dom (map_of (base_environment env)). starts_with ''GIT_'' k} \<subseteq>
     set identity_names \<union> fst ` set forced_environment \<and>
   {k \<in> dom (map_of (base_environment env)). \<not> starts_with ''GIT_'' k} =
     insert ''SSH_ASKPASS'' {k \<in> dom (map_of env). \<not> starts_with ''GIT_'' k}"
proof -
  let ?kept = "filter (\<lambda>(key, _). \<not> starts_with ''GIT_'' key) env"
  let ?id = "filter (\<lambda>(key, _). key \<in> set identity_names) env"
  have m: "map_of (base_environment env) = (map_of ?kept ++ map_of (rev ?id)) ++ map_of (rev forced_environment)"
    by (simp add: base_environment_def map_of_dict_update Let_def)
  have kept: "dom (map_of ?kept) = {k \<in> dom (map_of env). \<not> starts_with ''GIT_'' k}"
    by (auto simp: dom_map_of_conv_image_fst)
  have ids: "dom (map_of (rev ?id)) \<subseteq> set identity_names"
    by (auto simp: dom_map_of_conv_image_fst)
  have git: "starts_with ''GIT_'' k" if "k \<in> set identity_names" for k
    using that by (auto simp: identity_names_def starts_with_def)
  have forced: "dom (map_of (rev forced_environment)) = fst ` set forced_environment"
    by (simp add: dom_map_of_conv_image_fst)
  have fg: "{k \<in> fst ` set forced_environment. \<not> starts_with ''GIT_'' k} = {''SSH_ASKPASS''}"
    by (auto simp: forced_environment_def starts_with_def)
  have "{k \<in> dom (map_of (base_environment env)). starts_with ''GIT_'' k} \<subseteq>
     set identity_names \<union> fst ` set forced_environment"
    unfolding m dom_map_add kept forced using ids by blast
  moreover have "{k \<in> dom (map_of (base_environment env)). \<not> starts_with ''GIT_'' k} =
     insert ''SSH_ASKPASS'' {k \<in> dom (map_of env). \<not> starts_with ''GIT_'' k}"
    unfolding m dom_map_add kept forced using ids git fg by blast
  ultimately show ?thesis
    by (simp add: m forced_environment_def)
qed

section \<open>Running commands\<close>

record git_repo =
  gt_root :: string
  gt_timeout :: int
  gt_allow :: bool

text \<open>\<open>GitRepo(root, ..)\<close>.\<close>

definition open_repo :: "'w git_host \<Rightarrow> string \<Rightarrow> int \<Rightarrow> bool \<Rightarrow> ('w, git_repo) git" where
  "open_repo gh root_path timeout allow =
     git_bind (git_read (gh_resolve gh root_path)) (\<lambda>resolved.
     git_ret \<lparr>gt_root = resolved, gt_timeout = max 1 timeout, gt_allow = allow\<rparr>)"

definition output_of :: "nat \<Rightarrow> nat \<Rightarrow> process_answers \<Rightarrow> binary_output" where
  "output_of max_out max_err ans =
     (let (out, cut_out) = git_pump max_out (stream_chunks Stdout ans) [];
          (err, cut_err) = git_pump max_err (stream_chunks Stderr ans) []
      in \<lparr>bo_returncode = (case pa_returncode ans of None \<Rightarrow> 124 | Some rc \<Rightarrow> rc),
          bo_stdout = out, bo_stderr = err, bo_timed_out = pa_timed_out ans,
          bo_truncated = (cut_out \<or> cut_err)\<rparr>)"

definition run_static_bytes ::
  "'w git_host \<Rightarrow> string list \<Rightarrow> (string \<times> string) list option \<Rightarrow> int \<Rightarrow> int \<Rightarrow> int \<Rightarrow> ('w, binary_output) git" where
  "run_static_bytes gh argv env timeout max_out max_err =
     (if timeout \<le> 0 then git_fail (ValueError ''Git command timeout must be positive'')
      else if max_out < 1 \<or> max_err < 1 then git_fail (ValueError ''Git output limits must be positive'')
      else
        git_bind (git_call (gh_exec gh argv
          (base_environment (case env of None \<Rightarrow> gh_environ gh | Some e \<Rightarrow> e)) timeout)) (\<lambda>ans.
        (case pa_pump_error ans of
           Some e \<Rightarrow>
             if \<not> pa_timed_out ans
             then git_fail (GitError (''cannot capture bounded Git output: '' @ gh_error_name gh e))
             else (let out = output_of (nat max_out) (nat max_err) ans
                   in git_then (git_note (Ran argv out)) (git_ret out))
         | None \<Rightarrow> (let out = output_of (nat max_out) (nat max_err) ans
                    in git_then (git_note (Ran argv out)) (git_ret out)))))"

definition text_output :: "'w git_host \<Rightarrow> binary_output \<Rightarrow> command_output" where
  "text_output gh out =
     \<lparr>cm_returncode = bo_returncode out, cm_stdout = gh_decode gh (bo_stdout out),
      cm_stderr = gh_decode gh (bo_stderr out), cm_timed_out = bo_timed_out out,
      cm_truncated = bo_truncated out\<rparr>"

definition run_static :: "'w git_host \<Rightarrow> string list \<Rightarrow> int \<Rightarrow> ('w, command_output) git" where
  "run_static gh argv timeout =
     git_bind (run_static_bytes gh argv None timeout MAX_GIT_STDOUT_BYTES MAX_GIT_STDERR_BYTES) (\<lambda>out.
     git_ret (text_output gh out))"

definition discover :: "'w git_host \<Rightarrow> string \<Rightarrow> int \<Rightarrow> bool \<Rightarrow> ('w, git_repo) git" where
  "discover gh path timeout allow =
     git_bind (run_static gh [''git'', ''-C'', path, ''rev-parse'', ''--show-toplevel''] timeout) (\<lambda>out.
     git_then (git_check (\<not> cm_timed_out out)
       (''Git repository discovery timed out after '' @ int_str timeout @ ''s''))
     (git_then (git_check (\<not> cm_truncated out) ''Git repository discovery produced oversized output'')
     (git_then (git_check (cm_returncode out = 0)
       (''not a Git repository: '' @ path @ '': '' @ py_strip (cm_stderr out)))
     (open_repo gh (py_strip (cm_stdout out)) timeout allow))))"

fun split_nul :: "bytes \<Rightarrow> bytes \<Rightarrow> bytes list" where
  "split_nul acc [] = [rev acc]"
| "split_nul acc (b # bs) = (if b = 0 then rev acc # split_nul [] bs else split_nul (b # acc) bs)"

text \<open>The value that disables a configured command, for the keys that name one.\<close>

definition override_value :: "string \<Rightarrow> string option" where
  "override_value key =
     (let lower = py_lower key in
      if starts_with ''filter.'' lower \<and> (ends_with ''.clean'' lower \<or> ends_with ''.smudge'' lower)
      then Some ''/usr/bin/cat''
      else if starts_with ''filter.'' lower \<and> ends_with ''.process'' lower then Some []
      else if starts_with ''filter.'' lower \<and> ends_with ''.required'' lower then Some ''false''
      else if starts_with ''merge.'' lower \<and> ends_with ''.driver'' lower then Some ''/usr/bin/false''
      else None)"

definition override_options :: "string list \<Rightarrow> string list" where
  "override_options keys =
     concat (map (\<lambda>key. case override_value key of
                    None \<Rightarrow> []
                  | Some value \<Rightarrow> [''-c'', key @ ''='' @ value]) keys)"

definition command_config_pattern :: string where
  "command_config_pattern =
     (let dot = [CHR 0x5C, CHR ''.'']
      in ''^(filter'' @ dot @ ''.*'' @ dot @ ''(clean|smudge|process|required)|merge'' @ dot @ ''.*'' @ dot @
         ''driver)$'')"

definition command_config_argv :: "string \<Rightarrow> string list" where
  "command_config_argv directory =
     [''git'', ''-C'', directory, ''config'', ''--includes'', ''--name-only'', ''--null'', ''--get-regexp'',
      command_config_pattern]"

definition configured_keys :: "'w git_host \<Rightarrow> bytes \<Rightarrow> string list" where
  "configured_keys gh out = map (gh_fsdecode gh) (filter (\<lambda>raw. raw \<noteq> []) (split_nul [] out))"

definition repository_command_overrides :: "'w git_host \<Rightarrow> git_repo \<Rightarrow> string \<Rightarrow> ('w, string list) git" where
  "repository_command_overrides gh repo directory =
     (if gt_allow repo then git_ret []
      else
        git_bind (run_static_bytes gh (command_config_argv directory) None (gt_timeout repo) 256000 64000) (\<lambda>out.
        git_then (git_check (\<not> bo_timed_out out) ''timed out while inspecting repository command configuration'')
        (git_then (git_check (\<not> bo_truncated out) ''repository command configuration exceeds the safety ceiling'')
        (git_then (git_check (bo_returncode out \<in> {0, 1})
           (''cannot inspect repository command configuration: '' @ py_strip (gh_decode gh (bo_stderr out))))
        (git_ret (override_options (configured_keys gh (bo_stdout out))))))))"

definition hardening_options :: "string list" where
  "hardening_options =
     [''-c'', ''core.hooksPath=/dev/null'', ''-c'', ''core.fsmonitor=false'', ''-c'', ''diff.external='',
      ''-c'', ''interactive.diffFilter='', ''-c'', ''commit.gpgSign=false'', ''-c'', ''core.quotePath=true'']"

text \<open>\<open>run_bytes\<close>; \<open>dir\<close> is the \<open>cwd\<close> argument, \<^term>\<open>None\<close> for the root of the repository.\<close>

definition run_bytes ::
  "'w git_host \<Rightarrow> git_repo \<Rightarrow> string list \<Rightarrow> string option \<Rightarrow> bool \<Rightarrow> (string \<times> string) list option \<Rightarrow>
   int \<Rightarrow> int \<Rightarrow> ('w, binary_output) git" where
  "run_bytes gh repo args dir checked env max_out max_err =
     git_bind (git_read (gh_resolve gh (case dir of None \<Rightarrow> gt_root repo | Some d \<Rightarrow> d))) (\<lambda>directory.
     git_bind (repository_command_overrides gh repo directory) (\<lambda>overrides.
     git_bind (run_static_bytes gh ([''git'', ''-C'', directory] @ hardening_options @ overrides @ args)
                 env (gt_timeout repo) max_out max_err) (\<lambda>out.
     let command = join_with '' '' (take 8 args)
     in git_then (git_check (\<not> (checked \<and> bo_timed_out out))
          (''git '' @ command @ '' timed out after '' @ int_str (gt_timeout repo) @ '' seconds''))
        (git_then (git_check (\<not> (checked \<and> bo_truncated out))
          (''git '' @ command @ '' exceeded the bounded output limit''))
        (git_then (git_check (\<not> (checked \<and> bo_returncode out \<noteq> 0))
          (''git '' @ command @ '' failed: '' @ py_strip (gh_decode gh (bo_stderr out))))
        (git_ret out))))))"

definition run_command ::
  "'w git_host \<Rightarrow> git_repo \<Rightarrow> string list \<Rightarrow> string option \<Rightarrow> bool \<Rightarrow> (string \<times> string) list option \<Rightarrow>
   ('w, command_output) git" where
  "run_command gh repo args dir checked env =
     git_bind (run_bytes gh repo args dir checked env MAX_GIT_STDOUT_BYTES MAX_GIT_STDERR_BYTES) (\<lambda>out.
     git_ret (text_output gh out))"

definition run_stdout_bounded ::
  "'w git_host \<Rightarrow> git_repo \<Rightarrow> string list \<Rightarrow> string \<Rightarrow> int \<Rightarrow> ('w, string \<times> bool) git" where
  "run_stdout_bounded gh repo args dir max_bytes =
     git_bind (run_bytes gh repo args (Some dir) False None max_bytes 64000) (\<lambda>out.
     let command = join_with '' '' (take 8 args)
     in git_then (git_check (\<not> bo_timed_out out)
          (''git '' @ command @ '' timed out after '' @ int_str (gt_timeout repo) @ '' seconds''))
        (git_then (git_check (\<not> (bo_returncode out \<noteq> 0 \<and> \<not> bo_truncated out))
          (''git '' @ command @ '' failed: '' @ py_strip (gh_decode gh (bo_stderr out))))
        (git_ret (gh_decode gh (bo_stdout out), bo_truncated out))))"

section \<open>Worktrees and branches\<close>

definition common_dir :: "'w git_host \<Rightarrow> git_repo \<Rightarrow> string \<Rightarrow> ('w, string) git" where
  "common_dir gh repo cwd =
     git_bind (run_command gh repo [''rev-parse'', ''--git-common-dir''] (Some cwd) True None) (\<lambda>out.
     let text = py_strip (cm_stdout out);
         path = (if starts_with ''/'' text then text else path_join [cwd, text])
     in git_read (gh_resolve gh path))"

definition git_head :: "'w git_host \<Rightarrow> git_repo \<Rightarrow> string option \<Rightarrow> ('w, string) git" where
  "git_head gh repo cwd =
     git_bind (run_command gh repo [''rev-parse'', ''HEAD''] cwd True None) (\<lambda>out.
     git_ret (py_strip (cm_stdout out)))"

definition git_branch :: "'w git_host \<Rightarrow> git_repo \<Rightarrow> string option \<Rightarrow> ('w, string) git" where
  "git_branch gh repo cwd =
     git_bind (run_command gh repo [''symbolic-ref'', ''--quiet'', ''--short'', ''HEAD''] cwd False None) (\<lambda>out.
     git_then (git_check (\<not> cm_timed_out out \<and> \<not> cm_truncated out)
       ''cannot determine current branch within bounded Git limits'')
     (if cm_returncode out = 0 then git_ret (py_strip (cm_stdout out))
      else if cm_returncode out = 1 then git_ret ''HEAD''
      else git_fail (GitError (''cannot determine current branch: '' @ py_strip (cm_stderr out)))))"

text \<open>The message of the last check asks for the branch again.\<close>

definition assert_worktree :: "'w git_host \<Rightarrow> git_repo \<Rightarrow> string \<Rightarrow> string option \<Rightarrow> ('w, unit) git" where
  "assert_worktree gh repo path expected_branch =
     git_bind (git_read (gh_resolve gh path)) (\<lambda>resolved.
     git_bind (run_static gh [''git'', ''-C'', resolved, ''rev-parse'', ''--show-toplevel''] (gt_timeout repo)) (\<lambda>out.
     git_bind (git_read (\<lambda>w. gh_resolve gh (py_strip (cm_stdout out)) w)) (\<lambda>top.
     git_then (git_check (\<not> (cm_timed_out out \<or> cm_truncated out \<or> cm_returncode out \<noteq> 0 \<or> top \<noteq> resolved))
       (''refusing path that is not a Git worktree root: '' @ path))
     (git_bind (common_dir gh repo resolved) (\<lambda>here.
      git_bind (common_dir gh repo (gt_root repo)) (\<lambda>root_dir.
      git_then (git_check (here = root_dir) (''refusing worktree belonging to a different repository: '' @ path))
      (case expected_branch of
         None \<Rightarrow> git_ret ()
       | Some expected \<Rightarrow>
           git_bind (git_branch gh repo (Some resolved)) (\<lambda>branch.
             if branch = expected then git_ret ()
             else git_bind (git_branch gh repo (Some resolved)) (\<lambda>got.
               git_fail (GitError (''worktree branch mismatch at '' @ path @ '': expected '' @ expected @
                 '', got '' @ got)))))))))))"

definition validate_branch_name :: "'w git_host \<Rightarrow> git_repo \<Rightarrow> string \<Rightarrow> ('w, unit) git" where
  "validate_branch_name gh repo branch =
     git_bind (run_command gh repo [''check-ref-format'', ''--branch'', branch] None False None) (\<lambda>out.
     git_check (cm_returncode out = 0) (''invalid Git branch name: '' @ branch))"

definition git_is_clean :: "'w git_host \<Rightarrow> git_repo \<Rightarrow> string option \<Rightarrow> ('w, bool) git" where
  "git_is_clean gh repo cwd =
     git_bind (run_command gh repo [''status'', ''--porcelain=v1''] cwd True None) (\<lambda>out.
     git_ret (py_strip (cm_stdout out) = []))"

definition preflight :: "'w git_host \<Rightarrow> git_repo \<Rightarrow> bool \<Rightarrow> ('w, string \<times> string) git" where
  "preflight gh repo require_clean =
     git_then
       (if require_clean
        then git_bind (git_is_clean gh repo None) (\<lambda>clean. git_check clean
          ''repository has uncommitted changes; commit/stash them or disable require_clean_repo'')
        else git_ret ())
     (git_bind (git_branch gh repo None) (\<lambda>branch.
      git_bind (git_head gh repo None) (\<lambda>head. git_ret (branch, head))))"

definition branch_exists :: "'w git_host \<Rightarrow> git_repo \<Rightarrow> string \<Rightarrow> ('w, bool) git" where
  "branch_exists gh repo branch =
     git_then (validate_branch_name gh repo branch)
     (git_bind (run_command gh repo [''show-ref'', ''--verify'', ''--quiet'', ''refs/heads/'' @ branch] None False None) (\<lambda>out.
      git_then (git_check (\<not> cm_timed_out out \<and> \<not> cm_truncated out)
        ''cannot determine branch existence within bounded Git limits'')
      (git_then (git_check (cm_returncode out \<in> {0, 1})
        (''cannot inspect branch '' @ branch @ '': '' @ py_strip (cm_stderr out)))
      (git_ret (cm_returncode out = 0)))))"

definition remove_worktree :: "'w git_host \<Rightarrow> git_repo \<Rightarrow> string \<Rightarrow> bool \<Rightarrow> ('w, unit) git" where
  "remove_worktree gh repo path force =
     git_bind (git_read (\<lambda>w. (gh_exists gh path w, gh_is_symlink gh path w))) (\<lambda>(present, symlink).
     if \<not> present \<and> \<not> symlink
     then git_then (run_command gh repo [''worktree'', ''prune''] None True None) (git_ret ())
     else
       git_then (git_check (\<not> symlink) (''refusing symlink at worktree path: '' @ path))
       (git_then (assert_worktree gh repo path None)
       (git_bind (run_command gh repo ([''worktree'', ''remove''] @ (if force then [''--force''] else []) @ [''--'', path])
                    None False None) (\<lambda>out.
        git_then (git_check (\<not> cm_timed_out out)
          (''worktree removal timed out after '' @ int_str (gt_timeout repo) @ '' seconds''))
        (git_then (git_check (\<not> cm_truncated out) ''worktree removal produced oversized output'')
        (if cm_returncode out \<noteq> 0 then
           git_then (assert_worktree gh repo path None)
           (git_then (git_note (RemovedTree path))
           (git_then (git_call (gh_rmtree gh path))
           (git_then (run_command gh repo [''worktree'', ''prune''] None True None) (git_ret ()))))
         else git_ret ()))))))"

definition ensure_worktree :: "'w git_host \<Rightarrow> git_repo \<Rightarrow> string \<Rightarrow> string \<Rightarrow> string \<Rightarrow> ('w, unit) git" where
  "ensure_worktree gh repo path branch ref =
     git_then (validate_branch_name gh repo branch)
     (git_then (git_call (gh_private_dir gh (gh_parent gh path)))
     (git_bind (git_read (\<lambda>w. (gh_exists gh path w, gh_is_symlink gh path w))) (\<lambda>(present, symlink).
      git_then
        (if present \<or> symlink
         then git_then (git_check (\<not> symlink) (''refusing symlink at worktree path: '' @ path))
              (git_then (assert_worktree gh repo path None) (remove_worktree gh repo path True))
         else git_ret ())
      (git_bind (branch_exists gh repo branch) (\<lambda>taken.
       git_then (git_check (\<not> taken) (''refusing to overwrite existing branch: '' @ branch))
       (git_then (run_command gh repo [''worktree'', ''add'', ''-b'', branch, path, ref] None True None)
         (assert_worktree gh repo path (Some branch))))))))"

definition ensure_existing_branch_worktree ::
  "'w git_host \<Rightarrow> git_repo \<Rightarrow> string \<Rightarrow> string \<Rightarrow> string \<Rightarrow> ('w, unit) git" where
  "ensure_existing_branch_worktree gh repo path branch ref =
     git_then (validate_branch_name gh repo branch)
     (git_then (git_call (gh_private_dir gh (gh_parent gh path)))
     (git_bind (git_read (\<lambda>w. (gh_exists gh path w, gh_is_symlink gh path w,
                                gh_exists gh (path_join [path, ''.git'']) w))) (\<lambda>(present, symlink, has_git).
      if present \<or> symlink then
        git_then (git_check (\<not> symlink) (''refusing symlink at worktree path: '' @ path))
        (if has_git then assert_worktree gh repo path (Some branch)
         else git_fail (GitError (''refusing to delete unrelated directory at worktree path: '' @ path)))
      else
        git_then (run_command gh repo [''worktree'', ''prune''] None True None)
        (git_bind (branch_exists gh repo branch) (\<lambda>taken.
         git_then (if taken then git_ret ()
                   else git_then (run_command gh repo [''branch'', ''--'', branch, ref] None True None) (git_ret ()))
         (git_then (run_command gh repo [''worktree'', ''add'', path, branch] None True None)
           (assert_worktree gh repo path (Some branch))))))))"

definition delete_branch :: "'w git_host \<Rightarrow> git_repo \<Rightarrow> string \<Rightarrow> ('w, unit) git" where
  "delete_branch gh repo branch =
     git_then (validate_branch_name gh repo branch)
     (git_bind (branch_exists gh repo branch) (\<lambda>there.
      if there then git_then (run_command gh repo [''branch'', ''-D'', ''--'', branch] None True None) (git_ret ())
      else git_ret ()))"

section \<open>Commits, differences and merges\<close>

definition no_hooks :: "string list" where
  "no_hooks = [''-c'', ''core.hooksPath=/dev/null'']"

definition commit_all :: "'w git_host \<Rightarrow> git_repo \<Rightarrow> string \<Rightarrow> string \<Rightarrow> git_config \<Rightarrow> ('w, string) git" where
  "commit_all gh repo cwd message cfg =
     git_then (assert_worktree gh repo cwd None)
     (git_bind (git_is_clean gh repo (Some cwd)) (\<lambda>clean.
      if clean then git_head gh repo (Some cwd)
      else
        git_then (run_command gh repo [''add'', ''-A''] (Some cwd) True None)
        (git_then (run_command gh repo (no_hooks @ [''commit'', ''--no-gpg-sign'', ''-m'', message])
                     (Some cwd) True (Some (identity_environment gh cfg)))
          (git_head gh repo (Some cwd)))))"

text \<open>\<open>diff\<close>; \<open>width\<close> is the length of a text in UTF-8.\<close>

definition git_diff ::
  "'w git_host \<Rightarrow> git_repo \<Rightarrow> (string \<Rightarrow> int) \<Rightarrow> string \<Rightarrow> string \<Rightarrow> int \<Rightarrow> ('w, string) git" where
  "git_diff gh repo width cwd base max_bytes =
     git_then (assert_worktree gh repo cwd None)
     (let max_bytes = min 80000 (max 1000 max_bytes) in
      git_bind (run_stdout_bounded gh repo [''diff'', ''--stat'', ''--stat-count=100'', base @ ''..HEAD'']
                  cwd (min 10000 (max_bytes div 5))) (\<lambda>(stat, stat_truncated).
      let remaining = max 1000 (max_bytes - width stat - 32) in
      git_bind (run_stdout_bounded gh repo
                  [''diff'', ''--no-ext-diff'', ''--no-textconv'', ''--find-renames'', ''--find-copies'', base @ ''..HEAD'']
                  cwd remaining) (\<lambda>(patch, patch_truncated).
      git_ret (''DIFF STAT'' @ newline @ stat @ newline @ ''PATCH'' @ newline @ patch @
        (if stat_truncated \<or> patch_truncated then newline @ ''...[diff truncated]...'' @ newline else [])))))"

definition git_changed_files :: "'w git_host \<Rightarrow> git_repo \<Rightarrow> string \<Rightarrow> string \<Rightarrow> ('w, string list) git" where
  "git_changed_files gh repo cwd base =
     git_then (assert_worktree gh repo cwd None)
     (git_bind (run_bytes gh repo [''diff'', ''--name-only'', ''-z'', base @ ''..HEAD''] (Some cwd) True None
                  MAX_GIT_STDOUT_BYTES MAX_GIT_STDERR_BYTES) (\<lambda>out.
      git_ret (configured_keys gh (bo_stdout out))))"

definition unresolved_files :: "'w git_host \<Rightarrow> git_repo \<Rightarrow> string \<Rightarrow> ('w, string list) git" where
  "unresolved_files gh repo cwd =
     git_then (assert_worktree gh repo cwd None)
     (git_bind (run_bytes gh repo [''diff'', ''--name-only'', ''--diff-filter=U'', ''-z''] (Some cwd) True None
                  MAX_GIT_STDOUT_BYTES MAX_GIT_STDERR_BYTES) (\<lambda>out.
      git_ret (configured_keys gh (bo_stdout out))))"

definition git_merge :: "'w git_host \<Rightarrow> git_repo \<Rightarrow> string \<Rightarrow> string \<Rightarrow> git_config \<Rightarrow> ('w, unit) git" where
  "git_merge gh repo integration_cwd branch cfg =
     git_then (assert_worktree gh repo integration_cwd None)
     (git_then (validate_branch_name gh repo branch)
     (git_bind (run_command gh repo
        (no_hooks @ [''merge'', ''--no-ff'', ''--no-edit'', ''--no-gpg-sign'', ''--'', branch])
        (Some integration_cwd) False (Some (identity_environment gh cfg))) (\<lambda>out.
      git_then (git_check (\<not> cm_timed_out out)
        (''integration merge timed out after '' @ int_str (gt_timeout repo) @ '' seconds''))
      (git_then (git_check (\<not> cm_truncated out) ''integration merge produced oversized output'')
      (if cm_returncode out \<noteq> 0 then
         git_bind (unresolved_files gh repo integration_cwd) (\<lambda>unresolved.
           if unresolved \<noteq> []
           then git_fail (MergeConflict (''merge conflict: '' @ join_with '', '' unresolved))
           else git_fail (GitError (''merge failed: '' @ py_strip (cm_stderr out))))
       else git_ret ())))))"

definition merge_in_progress :: "'w git_host \<Rightarrow> git_repo \<Rightarrow> string \<Rightarrow> ('w, bool) git" where
  "merge_in_progress gh repo cwd =
     git_then (assert_worktree gh repo cwd None)
     (git_bind (run_command gh repo [''rev-parse'', ''--git-path'', ''MERGE_HEAD''] (Some cwd) True None) (\<lambda>out.
      let text = py_strip (cm_stdout out)
      in git_read (gh_exists gh (if starts_with ''/'' text then text else path_join [cwd, text]))))"

definition finish_merge :: "'w git_host \<Rightarrow> git_repo \<Rightarrow> string \<Rightarrow> git_config \<Rightarrow> ('w, unit) git" where
  "finish_merge gh repo cwd cfg =
     git_then (assert_worktree gh repo cwd None)
     (git_bind (unresolved_files gh repo cwd) (\<lambda>unresolved.
      if unresolved \<noteq> []
      then git_fail (MergeConflict (''unresolved merge files remain: '' @ join_with '', '' unresolved))
      else
        git_then (run_command gh repo [''add'', ''-A''] (Some cwd) True None)
        (git_bind (merge_in_progress gh repo cwd) (\<lambda>merging.
         if merging then
           git_then (run_command gh repo (no_hooks @ [''commit'', ''--no-gpg-sign'', ''--no-edit'']) (Some cwd) True
             (Some (identity_environment gh cfg))) (git_ret ())
         else git_bind (git_is_clean gh repo (Some cwd)) (\<lambda>clean.
           if clean then git_ret ()
           else git_then (commit_all gh repo cwd ''yolo: resolve integration'' cfg) (git_ret ()))))))"

definition abort_merge :: "'w git_host \<Rightarrow> git_repo \<Rightarrow> string \<Rightarrow> ('w, unit) git" where
  "abort_merge gh repo cwd =
     git_then (assert_worktree gh repo cwd None)
     (git_bind (merge_in_progress gh repo cwd) (\<lambda>merging.
      if merging then git_then (run_command gh repo [''merge'', ''--abort''] (Some cwd) True None) (git_ret ())
      else git_ret ()))"

definition reset_hard :: "'w git_host \<Rightarrow> git_repo \<Rightarrow> string \<Rightarrow> string \<Rightarrow> ('w, unit) git" where
  "reset_hard gh repo cwd commit =
     git_then (assert_worktree gh repo cwd None)
     (git_then (run_command gh repo [''reset'', ''--hard'', commit] (Some cwd) True None)
     (git_then (run_command gh repo [''clean'', ''-ffdx''] (Some cwd) True None) (git_ret ())))"

definition resolve_branch_commit :: "'w git_host \<Rightarrow> git_repo \<Rightarrow> string \<Rightarrow> ('w, string) git" where
  "resolve_branch_commit gh repo branch =
     git_then (validate_branch_name gh repo branch)
     (git_bind (run_command gh repo [''rev-parse'', ''--verify'', ''refs/heads/'' @ branch @ ''^{commit}''] None True None) (\<lambda>out.
      let commit = py_strip (cm_stdout out)
      in git_then (git_check (commit \<noteq> []) (''cannot resolve branch commit: '' @ branch)) (git_ret commit)))"

section \<open>The source branch\<close>

definition can_fast_forward_source ::
  "'w git_host \<Rightarrow> git_repo \<Rightarrow> string \<Rightarrow> string \<Rightarrow> ('w, bool \<times> string) git" where
  "can_fast_forward_source gh repo base_branch base_commit =
     (if base_branch = ''HEAD'' then git_ret (False, ''source checkout was detached'')
      else git_bind (git_branch gh repo None) (\<lambda>current.
        if current \<noteq> base_branch
        then git_ret (False, ''source worktree is now on '' @ current @ '', not '' @ base_branch)
        else git_bind (git_is_clean gh repo None) (\<lambda>clean.
          if \<not> clean then git_ret (False, ''source worktree is dirty'')
          else git_bind (git_head gh repo None) (\<lambda>head.
            if head \<noteq> base_commit then git_ret (False, ''source branch moved since job creation'')
            else git_ret (True, ''ok'')))))"

text \<open>The ancestry check and the fast-forward, for a source that is not at the accepted commit.\<close>

definition fast_forward_to ::
  "'w git_host \<Rightarrow> git_repo \<Rightarrow> string \<Rightarrow> string \<Rightarrow> string \<Rightarrow> ('w, string \<times> string) git" where
  "fast_forward_to gh repo base_commit accepted_commit current_head =
     git_bind (run_command gh repo [''merge-base'', ''--is-ancestor'', accepted_commit, current_head] None False None) (\<lambda>out.
     git_then (git_check (\<not> cm_timed_out out) ''timed out while checking accepted source ancestry'')
     (git_then (git_check (\<not> cm_truncated out) ''accepted source ancestry check produced oversized output'')
     (if cm_returncode out = 0 then git_ret (''applied'', ''source already contains accepted commit'')
      else
        git_then (git_check (cm_returncode out = 1)
          (''cannot check accepted source ancestry: '' @ py_strip (cm_stderr out)))
        (if current_head \<noteq> base_commit then git_ret (''skipped'', ''source branch moved since job creation'')
         else
           git_then (run_command gh repo (no_hooks @ [''merge'', ''--ff-only'', ''--'', accepted_commit]) None True None)
           (git_bind (git_head gh repo None) (\<lambda>final_head.
            git_then (git_check (final_head = accepted_commit)
              (''source fast-forward completed at unexpected commit: expected '' @ accepted_commit @
               '', got '' @ final_head))
            (git_ret (''applied'', ''source fast-forwarded to accepted commit''))))))))"

definition reconcile_fast_forward_source ::
  "'w git_host \<Rightarrow> git_repo \<Rightarrow> string \<Rightarrow> string \<Rightarrow> string \<Rightarrow> string \<Rightarrow> ('w, string \<times> string) git" where
  "reconcile_fast_forward_source gh repo integration_branch base_branch base_commit accepted_commit =
     git_bind (resolve_branch_commit gh repo integration_branch) (\<lambda>integration_commit.
     git_then (git_check (integration_commit = accepted_commit)
       (''accepted integration branch moved after acceptance: expected '' @ accepted_commit @
        '', got '' @ integration_commit))
     (if base_branch = ''HEAD'' then git_ret (''skipped'', ''source checkout was detached'')
      else git_bind (git_branch gh repo None) (\<lambda>current_branch.
        if current_branch \<noteq> base_branch
        then git_ret (''skipped'', ''source worktree is now on '' @ current_branch @ '', not '' @ base_branch)
        else git_bind (git_is_clean gh repo None) (\<lambda>clean.
          if \<not> clean then git_ret (''skipped'', ''source worktree is dirty'')
          else git_bind (git_head gh repo None) (\<lambda>current_head.
            if current_head = accepted_commit then git_ret (''applied'', ''source already at accepted commit'')
            else fast_forward_to gh repo base_commit accepted_commit current_head)))))"

definition fast_forward_source ::
  "'w git_host \<Rightarrow> git_repo \<Rightarrow> string \<Rightarrow> string \<Rightarrow> string \<Rightarrow> ('w, unit) git" where
  "fast_forward_source gh repo integration_branch base_branch base_commit =
     git_bind (resolve_branch_commit gh repo integration_branch) (\<lambda>accepted_commit.
     git_bind (reconcile_fast_forward_source gh repo integration_branch base_branch base_commit accepted_commit)
       (\<lambda>(outcome, reason). git_check (outcome = ''applied'') (''automatic apply refused: '' @ reason)))"

end
