(* ===== verification/Yolo_Git_Proofs.thy ===== *)
theory Yolo_Git_Proofs
  imports Yolo_Git
begin

text \<open>
  What the Git operations do to a repository, over the log of the commands they run: the options
  every command is given and the evidence in front of every command that moves the source branch.
  All facts hold for every host, that is, whatever Git answers.
\<close>

named_theorems git_steps \<open>what the operations log\<close>

section \<open>Reading a command line\<close>

text \<open>The options in front of the Git command, which come in pairs.\<close>

fun skip_options :: "string list \<Rightarrow> string list" where
  "skip_options (opt # value # rest) =
     (if opt \<in> {''-C'', ''-c''} then skip_options rest else opt # value # rest)"
| "skip_options rest = rest"

definition git_args :: "string list \<Rightarrow> string list" where
  "git_args argv = (case argv of [] \<Rightarrow> [] | program # rest \<Rightarrow> skip_options rest)"

fun event_args :: "git_event \<Rightarrow> string list" where
  "event_args (Ran argv out) = git_args argv"
| "event_args (RemovedTree path) = [''rmtree'', path]"

definition config_args :: "string list" where
  "config_args = drop 3 (command_config_argv [])"

lemma skip_overrides: "skip_options (override_options keys @ args) = skip_options args"
  by (induction keys) (auto simp: override_options_def split: option.splits)

lemma git_args_hardened:
  "git_args (''git'' # ''-C'' # dir # hardening_options @ override_options keys @ args) = skip_options args"
  by (simp add: git_args_def hardening_options_def skip_overrides)

lemma git_args_plain: "git_args [''git'', ''-C'', dir, a, b] = skip_options [a, b]"
  by (simp add: git_args_def)

lemma git_args_config: "git_args (command_config_argv dir) = config_args"
  by (simp add: git_args_def command_config_argv_def config_args_def)

section \<open>What an operation logs\<close>

definition git_logs :: "('w, 'a) git \<Rightarrow> (git_event list \<Rightarrow> py_error + 'a \<Rightarrow> bool) \<Rightarrow> bool" where
  "git_logs m Q \<longleftrightarrow> (\<forall>s r t. m s = (r, t) \<longrightarrow> (\<exists>cmds. gs_log t = gs_log s @ cmds \<and> Q cmds r))"

lemma git_logsD: "git_logs m Q \<Longrightarrow> m s = (r, t) \<Longrightarrow> \<exists>cmds. gs_log t = gs_log s @ cmds \<and> Q cmds r"
  by (simp add: git_logs_def)

lemma git_logs_mono: "git_logs m P \<Longrightarrow> (\<And>cmds r. P cmds r \<Longrightarrow> Q cmds r) \<Longrightarrow> git_logs m Q"
  unfolding git_logs_def by blast

lemma git_logs_ret: "Q [] (Inr x) \<Longrightarrow> git_logs (git_ret x) Q"
  by (simp add: git_logs_def git_ret_def)

lemma git_logs_fail: "Q [] (Inl e) \<Longrightarrow> git_logs (git_fail e) Q"
  by (simp add: git_logs_def git_fail_def)

lemma git_logs_check:
  assumes "ok \<Longrightarrow> Q [] (Inr ())" and "\<And>e. \<not> ok \<Longrightarrow> Q [] (Inl e)"
  shows "git_logs (git_check ok text) Q"
  using assms by (simp add: git_check_def git_logs_ret git_logs_fail)

lemma git_logs_read: "(\<And>w. Q [] (Inr (f w))) \<Longrightarrow> git_logs (git_read f) Q"
  by (simp add: git_logs_def git_read_def)

lemma git_logs_call: "(\<And>r. Q [] r) \<Longrightarrow> git_logs (git_call f) Q"
  by (auto simp: git_logs_def git_call_def split: prod.splits)

lemma git_logs_note: "Q [ev] (Inr ()) \<Longrightarrow> git_logs (git_note ev) Q"
  by (auto simp: git_logs_def git_note_def)

lemma git_logs_bind:
  assumes m: "git_logs m P" and f: "\<And>c x. P c (Inr x) \<Longrightarrow> git_logs (f x) (R x)"
    and err: "\<And>cs e. P cs (Inl e) \<Longrightarrow> Q cs (Inl e)"
    and ok: "\<And>c1 c2 x r. P c1 (Inr x) \<Longrightarrow> R x c2 r \<Longrightarrow> Q (c1 @ c2) r"
  shows "git_logs (git_bind m f) Q"
  unfolding git_logs_def
proof (intro allI impI)
  fix s r t assume run: "git_bind m f s = (r, t)"
  obtain r1 u where u: "m s = (r1, u)" by (cases "m s")
  obtain c1 where c1: "gs_log u = gs_log s @ c1" "P c1 r1" using git_logsD [OF m u] by blast
  show "\<exists>cmds. gs_log t = gs_log s @ cmds \<and> Q cmds r"
  proof (cases r1)
    case (Inl e)
    with run u c1 err show ?thesis by (auto simp: git_bind_def)
  next
    case (Inr x)
    with run u have "f x u = (r, t)" by (simp add: git_bind_def)
    from git_logsD [OF f this] c1 Inr obtain c2 where "gs_log t = gs_log u @ c2" "R x c2 r" by blast
    with c1 Inr ok show ?thesis by auto
  qed
qed

text \<open>
  The shape all reading operations have: they log commands of a given set only, and a value that
  is returned satisfies \<open>R\<close> of what was logged.
\<close>

definition only_logs :: "string list set \<Rightarrow> ('w, 'a) git \<Rightarrow> (git_event list \<Rightarrow> 'a \<Rightarrow> bool) \<Rightarrow> bool" where
  "only_logs A m R \<longleftrightarrow>
     git_logs m (\<lambda>cmds r. event_args ` set cmds \<subseteq> A \<and> (\<forall>x. r = Inr x \<longrightarrow> R cmds x))"

lemma only_logs_bind:
  assumes "only_logs A m P" and "\<And>c x. P c x \<Longrightarrow> only_logs B (f x) (R x)" and "A \<union> B \<subseteq> C"
    and "\<And>c1 c2 x y. P c1 x \<Longrightarrow> R x c2 y \<Longrightarrow> Q (c1 @ c2) y"
  shows "only_logs C (git_bind m f) Q"
  unfolding only_logs_def
proof (rule git_logs_bind [OF assms(1) [unfolded only_logs_def]])
  fix c x assume "event_args ` set c \<subseteq> A \<and> (\<forall>y. Inr x = Inr y \<longrightarrow> P c y)"
  then show "git_logs (f x) (\<lambda>cmds r. event_args ` set cmds \<subseteq> B \<and> (\<forall>y. r = Inr y \<longrightarrow> R x cmds y))"
    using assms(2) [unfolded only_logs_def] by blast
qed (use assms(3,4) in \<open>auto 0 4\<close>)

lemma only_logs_then:
  assumes "only_logs A m P" and "only_logs B n R" and "A \<union> B \<subseteq> C"
    and "\<And>c1 c2 x y. P c1 x \<Longrightarrow> R c2 y \<Longrightarrow> Q (c1 @ c2) y"
  shows "only_logs C (git_then m n) Q"
  unfolding git_then_def by (rule only_logs_bind [OF assms(1) assms(2) assms(3)]) (rule assms(4))

lemma only_logs_mono:
  "only_logs A m P \<Longrightarrow> A \<subseteq> B \<Longrightarrow> (\<And>cmds x. P cmds x \<Longrightarrow> Q cmds x) \<Longrightarrow> only_logs B m Q"
  unfolding only_logs_def by (erule git_logs_mono) auto

lemma only_logs_ret: "Q [] x \<Longrightarrow> only_logs A (git_ret x) Q"
  by (simp add: only_logs_def git_logs_ret)

lemma only_logs_fail: "only_logs A (git_fail e) Q"
  by (simp add: only_logs_def git_logs_fail)

lemma only_logs_check: "(ok \<Longrightarrow> Q [] ()) \<Longrightarrow> only_logs A (git_check ok text) Q"
  by (simp add: only_logs_def git_logs_check)

lemma only_logs_read: "(\<And>w. Q [] (f w)) \<Longrightarrow> only_logs A (git_read f) Q"
  by (simp add: only_logs_def git_logs_read)

lemma only_logs_call: "(\<And>x. Q [] x) \<Longrightarrow> only_logs A (git_call f) Q"
  by (simp add: only_logs_def git_logs_call)

section \<open>Evidence in the log\<close>

definition answered :: "git_event list \<Rightarrow> string list \<Rightarrow> binary_output \<Rightarrow> bool" where
  "answered cmds args out \<longleftrightarrow> (\<exists>argv. Ran argv out \<in> set cmds \<and> git_args argv = args)"

definition said :: "'w git_host \<Rightarrow> git_event list \<Rightarrow> string list \<Rightarrow> string \<Rightarrow> bool" where
  "said gh cmds args text \<longleftrightarrow>
     (\<exists>out. answered cmds args out \<and> bo_returncode out = 0 \<and> py_strip (gh_decode gh (bo_stdout out)) = text)"

lemma answered_append: "answered (c1 @ c2) args out \<longleftrightarrow> answered c1 args out \<or> answered c2 args out"
  by (auto simp: answered_def)

lemma said_append: "said gh (c1 @ c2) args text \<longleftrightarrow> said gh c1 args text \<or> said gh c2 args text"
  by (auto simp: said_def answered_append)

lemmas evidence_append = answered_append said_append

lemma run_static_bytes_logs:
  "only_logs {git_args argv} (run_static_bytes gh argv env timeout mo me) (\<lambda>cmds out. cmds = [Ran argv out])"
proof -
  have note_ret: "only_logs {git_args argv} (git_then (git_note (Ran argv out)) (git_ret out))
      (\<lambda>cmds x. cmds = [Ran argv x])" for out
    by (rule only_logs_then [where A = "{git_args argv}" and P = "\<lambda>c _. c = [Ran argv out]" and B = "{}"
          and R = "\<lambda>c x. c = [] \<and> x = out"])
      (auto simp: only_logs_def intro!: git_logs_note git_logs_ret)
  show ?thesis
    unfolding run_static_bytes_def
    by (auto intro!: only_logs_fail only_logs_bind [where A = "{}" and P = "\<lambda>c _. c = []"
          and B = "{git_args argv}" and R = "\<lambda>_ c x. c = [Ran argv x]"] only_logs_call note_ret
        simp: Let_def split: option.splits)
qed

lemma run_static_logs:
  "only_logs {git_args argv} (run_static gh argv timeout)
     (\<lambda>cmds out. \<exists>b. answered cmds (git_args argv) b \<and> out = text_output gh b)"
  unfolding run_static_def
  by (rule only_logs_bind [OF run_static_bytes_logs, where B = "{}" and R = "\<lambda>b c x. c = [] \<and> x = text_output gh b"])
    (auto simp: answered_def intro: only_logs_ret)

lemma repository_command_overrides_logs:
  "only_logs {config_args} (repository_command_overrides gh repo dir)
     (\<lambda>cmds opts. \<exists>keys. opts = override_options keys)"
proof (cases "gt_allow repo")
  case True
  then show ?thesis
    by (auto simp: repository_command_overrides_def override_options_def intro!: only_logs_ret exI [where x = "[]"])
next
  case False
  have rest: "only_logs {} (git_then (git_check a x) (git_then (git_check b y) (git_then (git_check c z)
      (git_ret (override_options keys))))) (\<lambda>cmds opts. opts = override_options keys)" for a b c x y z keys
    by (intro only_logs_then [where A = "{}" and B = "{}" and P = "\<lambda>_ _. True"
          and R = "\<lambda>_ opts. opts = override_options keys"] only_logs_check only_logs_ret) auto
  show ?thesis
    using False unfolding repository_command_overrides_def
    by (simp, intro only_logs_bind [OF run_static_bytes_logs rest]) (auto simp: git_args_config)
qed

lemma run_bytes_logs:
  "only_logs {config_args, skip_options args} (run_bytes gh repo args dir checked env mo me)
     (\<lambda>cmds out. answered cmds (skip_options args) out \<and> (checked \<longrightarrow> bo_returncode out = 0))"
proof -
  let ?argv = "\<lambda>d keys. [''git'', ''-C'', d] @ hardening_options @ override_options keys @ args"
  have last: "only_logs {} (git_then (git_check a x) (git_then (git_check b y)
      (git_then (git_check (\<not> (checked \<and> bo_returncode out \<noteq> 0)) z) (git_ret out))))
      (\<lambda>cmds o'. o' = out \<and> (checked \<longrightarrow> bo_returncode out = 0))" for a b x y z out
    by (intro only_logs_then [where A = "{}" and B = "{}" and P = "\<lambda>_ _. True"
          and R = "\<lambda>_ o'. o' = out \<and> (checked \<longrightarrow> bo_returncode out = 0)"]
        only_logs_then [where A = "{}" and B = "{}" and P = "\<lambda>_ _. checked \<longrightarrow> bo_returncode out = 0"
          and R = "\<lambda>_ o'. o' = out"] only_logs_check only_logs_ret) auto
  have cmd: "only_logs {skip_options args} (git_bind (run_static_bytes gh (?argv d keys) env t mo me) (\<lambda>out.
      git_then (git_check (a out) (x out)) (git_then (git_check (b out) (y out))
      (git_then (git_check (\<not> (checked \<and> bo_returncode out \<noteq> 0)) (z out)) (git_ret out)))))
      (\<lambda>cmds out. answered cmds (skip_options args) out \<and> (checked \<longrightarrow> bo_returncode out = 0))"
    for d keys t a b x y z
    by (rule only_logs_bind [OF run_static_bytes_logs last])
      (auto simp: git_args_hardened answered_def)
  show ?thesis
    unfolding run_bytes_def Let_def
  proof (rule only_logs_bind [where A = "{}" and P = "\<lambda>_ _. True" and B = "{config_args, skip_options args}"
        and R = "\<lambda>_ cmds out. answered cmds (skip_options args) out \<and> (checked \<longrightarrow> bo_returncode out = 0)"])
    fix d
    show "only_logs {config_args, skip_options args}
        (git_bind (repository_command_overrides gh repo d) (\<lambda>overrides.
         git_bind (run_static_bytes gh ([''git'', ''-C'', d] @ hardening_options @ overrides @ args) env
           (gt_timeout repo) mo me) (\<lambda>out.
         git_then (git_check (\<not> (checked \<and> bo_timed_out out))
           (''git '' @ join_with '' '' (take 8 args) @ '' timed out after '' @ int_str (gt_timeout repo) @ '' seconds''))
         (git_then (git_check (\<not> (checked \<and> bo_truncated out))
           (''git '' @ join_with '' '' (take 8 args) @ '' exceeded the bounded output limit''))
         (git_then (git_check (\<not> (checked \<and> bo_returncode out \<noteq> 0))
           (''git '' @ join_with '' '' (take 8 args) @ '' failed: '' @ py_strip (gh_decode gh (bo_stderr out))))
         (git_ret out))))))
        (\<lambda>cmds out. answered cmds (skip_options args) out \<and> (checked \<longrightarrow> bo_returncode out = 0))"
      by (rule only_logs_bind [OF repository_command_overrides_logs, where B = "{skip_options args}"
            and R = "\<lambda>_ cmds out. answered cmds (skip_options args) out \<and> (checked \<longrightarrow> bo_returncode out = 0)"])
        (elim exE, simp only:, rule cmd, auto simp: answered_append)
  qed (auto simp: answered_append intro: only_logs_read)
qed

section \<open>The reading operations\<close>

lemma git_then_simps [simp]:
  "git_then (git_ret x) m = m" "git_then (git_fail e) m = git_fail e" "git_bind (git_ret y) f = f y"
  "git_bind (git_fail e) f = git_fail e"
  by (simp_all add: git_then_def git_bind_def git_ret_def git_fail_def fun_eq_iff)

lemma only_logs_check_then:
  "(ok \<Longrightarrow> only_logs A m Q) \<Longrightarrow> only_logs A (git_then (git_check ok text) m) Q"
  by (cases ok) (simp_all add: git_check_def only_logs_fail)

lemma git_logs_check_then:
  "(ok \<Longrightarrow> git_logs m Q) \<Longrightarrow> (\<And>e. Q [] (Inl e)) \<Longrightarrow> git_logs (git_then (git_check ok text) m) Q"
  by (cases ok) (simp_all add: git_check_def git_logs_fail)

lemma git_logs_seq:
  assumes "git_logs m P" and "\<And>c x. P c (Inr x) \<Longrightarrow> git_logs (f x) (\<lambda>c2 r. Q (c @ c2) r)"
    and "\<And>c e. P c (Inl e) \<Longrightarrow> Q c (Inl e)"
  shows "git_logs (git_bind m f) Q"
  unfolding git_logs_def
proof (intro allI impI)
  fix s r t assume run: "git_bind m f s = (r, t)"
  obtain r1 u where u: "m s = (r1, u)" by (cases "m s")
  obtain c1 where c1: "gs_log u = gs_log s @ c1" "P c1 r1" using git_logsD [OF assms(1) u] by blast
  show "\<exists>cmds. gs_log t = gs_log s @ cmds \<and> Q cmds r"
  proof (cases r1)
    case (Inl e)
    with run u c1 assms(3) show ?thesis by (auto simp: git_bind_def)
  next
    case (Inr x)
    with run u have "f x u = (r, t)" by (simp add: git_bind_def)
    from git_logsD [OF assms(2) this] c1 Inr obtain c2 where "gs_log t = gs_log u @ c2" "Q (c1 @ c2) r" by blast
    with c1 show ?thesis by auto
  qed
qed

lemma run_command_logs:
  "only_logs {config_args, skip_options args} (run_command gh repo args dir checked env)
     (\<lambda>cmds c. \<exists>b. c = text_output gh b \<and> answered cmds (skip_options args) b \<and>
        (checked \<longrightarrow> bo_returncode b = 0))"
  unfolding run_command_def
  by (rule only_logs_bind [OF run_bytes_logs, where B = "{}" and R = "\<lambda>b _ c. c = text_output gh b"])
    (auto simp: answered_append intro: only_logs_ret)

text \<open>A command whose result is turned into a value at once.\<close>

lemma command_value_logs:
  assumes "\<And>b cmds. answered cmds (skip_options args) b \<Longrightarrow> (checked \<Longrightarrow> bo_returncode b = 0) \<Longrightarrow>
      only_logs {} (f (text_output gh b)) (\<lambda>_ x. Q cmds x)"
    and "\<And>c1 c2 x. Q c1 x \<Longrightarrow> Q (c1 @ c2) x"
  shows "only_logs {config_args, skip_options args}
    (git_bind (run_command gh repo args dir checked env) f) Q"
  unfolding only_logs_def
proof (rule git_logs_seq [OF run_command_logs [unfolded only_logs_def]])
  fix c x
  assume "event_args ` set c \<subseteq> {config_args, skip_options args} \<and> (\<forall>y. Inr x = Inr y \<longrightarrow>
    (\<exists>b. y = text_output gh b \<and> answered c (skip_options args) b \<and> (checked \<longrightarrow> bo_returncode b = 0)))"
  then obtain b where b: "x = text_output gh b" "answered c (skip_options args) b" "checked \<Longrightarrow> bo_returncode b = 0"
    and sub: "event_args ` set c \<subseteq> {config_args, skip_options args}" by auto
  from assms(1) [OF b(2,3)] show "git_logs (f x) (\<lambda>c2 r. event_args ` set (c @ c2) \<subseteq> {config_args, skip_options args} \<and>
      (\<forall>y. r = Inr y \<longrightarrow> Q (c @ c2) y))"
    unfolding only_logs_def b(1) by (rule git_logs_mono) (use sub assms(2) in auto)
qed auto

lemma text_output_simps [simp]:
  "cm_returncode (text_output gh b) = bo_returncode b" "cm_stdout (text_output gh b) = gh_decode gh (bo_stdout b)"
  "cm_timed_out (text_output gh b) = bo_timed_out b" "cm_truncated (text_output gh b) = bo_truncated b"
  by (simp_all add: text_output_def)

definition head_args :: "string list" where
  "head_args = [''rev-parse'', ''HEAD'']"

definition branch_args :: "string list" where
  "branch_args = [''symbolic-ref'', ''--quiet'', ''--short'', ''HEAD'']"

definition status_args :: "string list" where
  "status_args = [''status'', ''--porcelain=v1'']"

definition commit_args :: "string \<Rightarrow> string list" where
  "commit_args branch = [''rev-parse'', ''--verify'', ''refs/heads/'' @ branch @ ''^{commit}'']"

definition ancestor_args :: "string \<Rightarrow> string \<Rightarrow> string list" where
  "ancestor_args a b = [''merge-base'', ''--is-ancestor'', a, b]"

definition format_args :: "string \<Rightarrow> string list" where
  "format_args branch = [''check-ref-format'', ''--branch'', branch]"

lemma skip_plain: "a \<notin> {''-C'', ''-c''} \<Longrightarrow> skip_options (a # rest) = a # rest"
  by (cases rest) auto

lemmas args_simps = head_args_def branch_args_def status_args_def commit_args_def ancestor_args_def format_args_def

lemma git_head_logs:
  "only_logs {config_args, head_args} (git_head gh repo cwd) (\<lambda>cmds h. said gh cmds head_args h)"
proof -
  have "only_logs {config_args, skip_options head_args} (git_head gh repo cwd) (\<lambda>cmds h. said gh cmds head_args h)"
    unfolding git_head_def head_args_def [symmetric]
    by (rule command_value_logs) (auto simp: said_def answered_append skip_plain args_simps intro!: only_logs_ret)
  then show ?thesis by (simp add: head_args_def)
qed

lemma git_is_clean_logs:
  "only_logs {config_args, status_args} (git_is_clean gh repo cwd) (\<lambda>cmds c. c \<longrightarrow> said gh cmds status_args [])"
proof -
  have "only_logs {config_args, skip_options status_args} (git_is_clean gh repo cwd) (\<lambda>cmds c. c \<longrightarrow> said gh cmds status_args [])"
    unfolding git_is_clean_def status_args_def [symmetric]
    by (rule command_value_logs) (auto simp: said_def answered_append skip_plain args_simps intro!: only_logs_ret)
  then show ?thesis by (simp add: status_args_def)
qed

lemma git_branch_logs:
  "only_logs {config_args, branch_args} (git_branch gh repo cwd)
     (\<lambda>cmds b. b \<noteq> ''HEAD'' \<longrightarrow> said gh cmds branch_args b)"
proof -
  have "only_logs {config_args, skip_options branch_args} (git_branch gh repo cwd)
      (\<lambda>cmds b. b \<noteq> ''HEAD'' \<longrightarrow> said gh cmds branch_args b)"
    unfolding git_branch_def branch_args_def [symmetric]
    by (rule command_value_logs)
      (auto simp: said_def answered_append skip_plain args_simps intro!: only_logs_check_then only_logs_ret only_logs_fail)
  then show ?thesis by (simp add: branch_args_def)
qed

lemma validate_branch_name_logs:
  "only_logs {config_args, format_args branch} (validate_branch_name gh repo branch) (\<lambda>_ _. True)"
proof -
  have "only_logs {config_args, skip_options (format_args branch)} (validate_branch_name gh repo branch) (\<lambda>_ _. True)"
    unfolding validate_branch_name_def format_args_def [symmetric]
    by (rule command_value_logs) (auto intro: only_logs_check)
  then show ?thesis by (simp add: format_args_def skip_plain)
qed

lemma resolve_branch_commit_logs:
  "only_logs {config_args, format_args branch, commit_args branch} (resolve_branch_commit gh repo branch)
     (\<lambda>cmds c. said gh cmds (commit_args branch) c)"
proof -
  have *: "only_logs {config_args, skip_options (commit_args branch)}
     (git_bind (run_command gh repo (commit_args branch) None True None) (\<lambda>out.
      let commit = py_strip (cm_stdout out)
      in git_then (git_check (commit \<noteq> []) (''cannot resolve branch commit: '' @ branch)) (git_ret commit)))
     (\<lambda>cmds c. said gh cmds (commit_args branch) c)"
    by (rule command_value_logs)
      (auto simp: said_def answered_append skip_plain args_simps Let_def intro!: only_logs_check_then only_logs_ret)
  have plain: "skip_options (commit_args branch) = commit_args branch" by (simp add: commit_args_def skip_plain)
  show ?thesis
    unfolding resolve_branch_commit_def commit_args_def [symmetric]
    by (rule only_logs_then [OF validate_branch_name_logs * [unfolded plain]]) (auto simp: said_append)
qed

section \<open>The source branch is moved only behind the evidence\<close>

text \<open>The Git commands that only read.\<close>

definition reading_commands :: "string set" where
  "reading_commands =
     {''config'', ''rev-parse'', ''symbolic-ref'', ''status'', ''merge-base'', ''check-ref-format'', ''show-ref'', ''diff''}"

definition reads_only :: "git_event \<Rightarrow> bool" where
  "reads_only ev \<longleftrightarrow> (case event_args ev of [] \<Rightarrow> False | command # _ \<Rightarrow> command \<in> reading_commands)"

definition ff_args :: "string \<Rightarrow> string list" where
  "ff_args commit = [''merge'', ''--ff-only'', ''--'', commit]"

text \<open>What was seen of the repository before the merge.\<close>

definition source_evidence ::
  "'w git_host \<Rightarrow> git_event list \<Rightarrow> string \<Rightarrow> string \<Rightarrow> string \<Rightarrow> string \<Rightarrow> bool" where
  "source_evidence gh cmds integration_branch base_branch base_commit accepted \<longleftrightarrow>
     base_branch \<noteq> ''HEAD'' \<and> said gh cmds (commit_args integration_branch) accepted \<and>
     said gh cmds branch_args base_branch \<and> said gh cmds status_args [] \<and> said gh cmds head_args base_commit \<and>
     (\<exists>out. answered cmds (ancestor_args accepted base_commit) out \<and> bo_returncode out = 1)"

definition applied_evidence :: "'w git_host \<Rightarrow> git_event list \<Rightarrow> string \<Rightarrow> bool" where
  "applied_evidence gh cmds accepted \<longleftrightarrow>
     said gh cmds head_args accepted \<or>
     (\<exists>h out. said gh cmds head_args h \<and> answered cmds (ancestor_args accepted h) out \<and> bo_returncode out = 0)"

definition reconcile_ok ::
  "'w git_host \<Rightarrow> string \<Rightarrow> string \<Rightarrow> string \<Rightarrow> string \<Rightarrow> git_event list \<Rightarrow> py_error + string \<times> string \<Rightarrow> bool" where
  "reconcile_ok gh ib bb bc ac cmds r \<longleftrightarrow>
     (\<forall>ev \<in> set cmds. reads_only ev \<or> event_args ev = ff_args ac \<and> source_evidence gh cmds ib bb bc ac) \<and>
     (\<forall>reason. r = Inr (''applied'', reason) \<longrightarrow> applied_evidence gh cmds ac)"

lemma source_evidence_append:
  "source_evidence gh c1 ib bb bc ac \<Longrightarrow> source_evidence gh (c1 @ c2) ib bb bc ac"
  by (auto simp: source_evidence_def evidence_append)

lemma reads_only_subset:
  "event_args ` set c \<subseteq> A \<Longrightarrow> (\<And>args. args \<in> A \<Longrightarrow> args \<noteq> [] \<and> hd args \<in> reading_commands) \<Longrightarrow>
   ev \<in> set c \<Longrightarrow> reads_only ev"
  by (auto simp: reads_only_def split: list.splits) force+

lemma reading_args [simp]:
  "hd config_args \<in> reading_commands" "config_args \<noteq> []"
  "hd head_args \<in> reading_commands" "head_args \<noteq> []" "hd branch_args \<in> reading_commands" "branch_args \<noteq> []"
  "hd status_args \<in> reading_commands" "status_args \<noteq> []" "hd (commit_args b) \<in> reading_commands" "commit_args b \<noteq> []"
  "hd (format_args b) \<in> reading_commands" "format_args b \<noteq> []"
  "hd (ancestor_args x y) \<in> reading_commands" "ancestor_args x y \<noteq> []"
  by (simp_all add: args_simps config_args_def command_config_argv_def reading_commands_def)

text \<open>A reading operation in front of the rest.\<close>

lemma reconcile_seq:
  assumes "only_logs A m P" and "\<And>args. args \<in> A \<Longrightarrow> args \<noteq> [] \<and> hd args \<in> reading_commands"
    and "\<And>c x. (\<forall>ev \<in> set c. reads_only ev) \<Longrightarrow> P c x \<Longrightarrow>
      git_logs (f x) (\<lambda>c2 r. reconcile_ok gh ib bb bc ac (c0 @ c @ c2) r)"
    and "\<forall>ev \<in> set c0. reads_only ev"
  shows "git_logs (git_bind m f) (\<lambda>c r. reconcile_ok gh ib bb bc ac (c0 @ c) r)"
proof (rule git_logs_seq [OF assms(1) [unfolded only_logs_def]])
  fix c x
  assume c: "event_args ` set c \<subseteq> A \<and> (\<forall>y. Inr x = Inr y \<longrightarrow> P c y)"
  then have "\<forall>ev \<in> set c. reads_only ev" using reads_only_subset [OF _ assms(2)] by blast
  with c assms(3) show "git_logs (f x) (\<lambda>c2 r. reconcile_ok gh ib bb bc ac (c0 @ c @ c2) r)" by blast
next
  fix c and e :: py_error
  assume "event_args ` set c \<subseteq> A \<and> (\<forall>y. Inl e = Inr y \<longrightarrow> P c y)"
  then have "\<forall>ev \<in> set c. reads_only ev" using reads_only_subset [OF _ assms(2)] by blast
  with assms(4) show "reconcile_ok gh ib bb bc ac (c0 @ c) (Inl e)" by (auto simp: reconcile_ok_def)
qed

lemma reconcile_quiet:
  "(\<forall>ev \<in> set c. reads_only ev) \<Longrightarrow> (\<And>reason. r = Inr (''applied'', reason) \<Longrightarrow> applied_evidence gh c ac) \<Longrightarrow>
   reconcile_ok gh ib bb bc ac c r"
  by (auto simp: reconcile_ok_def)

lemma fast_forward_to_logs:
  assumes quiet: "\<forall>ev \<in> set c0. reads_only ev" and head: "said gh c0 head_args h"
    and before: "bb \<noteq> ''HEAD''" "said gh c0 (commit_args ib) ac" "said gh c0 branch_args bb" "said gh c0 status_args []"
  shows "git_logs (fast_forward_to gh repo base_commit ac h) (\<lambda>c r. reconcile_ok gh ib bb base_commit ac (c0 @ c) r)"
  unfolding fast_forward_to_def ancestor_args_def [symmetric]
proof (rule reconcile_seq [OF run_command_logs _ _ quiet])
  fix args assume "args \<in> {config_args, skip_options (ancestor_args ac h)}"
  moreover have "skip_options (ancestor_args ac h) = ancestor_args ac h" by (simp add: ancestor_args_def skip_plain)
  ultimately show "args \<noteq> [] \<and> hd args \<in> reading_commands" by auto
next
  fix c out
  assume c: "\<forall>ev \<in> set c. reads_only ev" and "\<exists>b. out = text_output gh b \<and>
    answered c (skip_options (ancestor_args ac h)) b \<and> (False \<longrightarrow> bo_returncode b = 0)"
  then obtain b where b: "out = text_output gh b" "answered c (ancestor_args ac h) b"
    by (auto simp: ancestor_args_def skip_plain)
  have all: "\<forall>ev \<in> set (c0 @ c). reads_only ev" using quiet c by auto
  let ?Q = "\<lambda>c2 r. reconcile_ok gh ib bb base_commit ac (c0 @ c @ c2) r"
  have stop: "?Q [] (Inl e)" for e using all by (auto intro: reconcile_quiet)
  have contains: "bo_returncode b = 0 \<Longrightarrow> applied_evidence gh (c0 @ c) ac"
    using b(2) head unfolding applied_evidence_def evidence_append by blast
  let ?ff = "git_then (run_command gh repo (no_hooks @ [''merge'', ''--ff-only'', ''--'', ac]) None True None)
     (git_bind (git_head gh repo None) (\<lambda>final_head.
      git_then (git_check (final_head = ac) (''source fast-forward completed at unexpected commit: expected '' @
         ac @ '', got '' @ final_head))
      (git_ret (''applied'', ''source fast-forwarded to accepted commit''))))"
  have ff: "git_logs ?ff ?Q" if rc: "bo_returncode b = 1" and base: "h = base_commit"
  proof -
    have ev: "source_evidence gh (c0 @ c @ c2) ib bb base_commit ac" for c2
      using before head b(2) rc base by (auto simp: source_evidence_def evidence_append)
    have args: "skip_options (no_hooks @ [''merge'', ''--ff-only'', ''--'', ac]) = ff_args ac"
      by (simp add: no_hooks_def ff_args_def)
    have good: "?Q (c2 @ c3) r"
      if "event_args ` set c2 \<subseteq> {config_args, ff_args ac}" "event_args ` set c3 \<subseteq> {config_args, head_args}"
        "\<And>reason. r = Inr (''applied'', reason) \<Longrightarrow> said gh c3 head_args ac" for c2 c3 r
    proof -
      have "reads_only e \<or> event_args e = ff_args ac" if "e \<in> set (c2 @ c3)" for e
        using that \<open>event_args ` set c2 \<subseteq> _\<close> \<open>event_args ` set c3 \<subseteq> _\<close>
        by (auto simp: reads_only_def split: list.splits)
           (metis reading_args imageI insertE list.sel(1) singletonD subsetD)+
      with all ev that(3) show ?thesis
        by (auto simp: reconcile_ok_def applied_evidence_def said_append)
    qed
    show ?thesis
      unfolding git_then_def [of "run_command gh repo _ _ _ _"]
    proof (rule git_logs_seq [OF run_command_logs [unfolded only_logs_def args]], goal_cases)
      case (1 c2 x)
      then have c2: "event_args ` set c2 \<subseteq> {config_args, ff_args ac}" using args by simp
      show ?case
      proof (rule git_logs_seq [OF git_head_logs [unfolded only_logs_def]], goal_cases)
        case (1 c3 final)
        then have c3: "event_args ` set c3 \<subseteq> {config_args, head_args}" "said gh c3 head_args final" by auto
        show ?case
          by (rule git_logs_check_then; (rule git_logs_ret)?) (use good [OF c2 c3(1)] c3(2) in auto)
      next
        case (2 c3 e)
        with good [OF c2, of c3 "Inl e"] show ?case by auto
      qed
    next
      case (2 c2 e)
      with good [of c2 "[]" "Inl e"] args show ?case by auto
    qed
  qed
  show "git_logs
     (git_then (git_check (\<not> cm_timed_out out) ''timed out while checking accepted source ancestry'')
       (git_then (git_check (\<not> cm_truncated out) ''accepted source ancestry check produced oversized output'')
         (if cm_returncode out = 0 then git_ret (''applied'', ''source already contains accepted commit'')
          else git_then (git_check (cm_returncode out = 1)
                 (''cannot check accepted source ancestry: '' @ py_strip (cm_stderr out)))
               (if h \<noteq> base_commit then git_ret (''skipped'', ''source branch moved since job creation'') else ?ff)))) ?Q"
    using stop ff all contains unfolding b(1) text_output_simps
    by (auto intro!: git_logs_check_then git_logs_ret reconcile_quiet)
qed

text \<open>The stages of the reconciliation, from the last one to the first.\<close>

lemma head_stage:
  assumes quiet: "\<forall>ev \<in> set c0. reads_only ev" and bb: "bb \<noteq> ''HEAD''"
    and seen: "said gh c0 (commit_args ib) ac" "said gh c0 branch_args bb" "said gh c0 status_args []"
  shows "git_logs (git_bind (git_head gh repo None) (\<lambda>current_head.
      if current_head = ac then git_ret (''applied'', ''source already at accepted commit'')
      else fast_forward_to gh repo bc ac current_head))
    (\<lambda>c r. reconcile_ok gh ib bb bc ac (c0 @ c) r)"
proof (rule reconcile_seq [OF git_head_logs _ _ quiet], goal_cases)
  case (2 c h)
  have all: "\<forall>ev \<in> set (c0 @ c). reads_only ev" using quiet 2(1) by auto
  have "git_logs (fast_forward_to gh repo bc ac h) (\<lambda>c2 r. reconcile_ok gh ib bb bc ac ((c0 @ c) @ c2) r)"
    by (rule fast_forward_to_logs [OF all]) (use bb seen 2(2) in \<open>auto simp: said_append\<close>)
  with all 2(2) show ?case
    by (auto intro!: git_logs_ret reconcile_quiet simp: applied_evidence_def said_append)
qed auto

lemma clean_stage:
  assumes quiet: "\<forall>ev \<in> set c0. reads_only ev" and bb: "bb \<noteq> ''HEAD''"
    and seen: "said gh c0 (commit_args ib) ac" "said gh c0 branch_args bb"
  shows "git_logs (git_bind (git_is_clean gh repo None) (\<lambda>clean.
      if \<not> clean then git_ret (''skipped'', ''source worktree is dirty'')
      else git_bind (git_head gh repo None) (\<lambda>current_head.
        if current_head = ac then git_ret (''applied'', ''source already at accepted commit'')
        else fast_forward_to gh repo bc ac current_head)))
    (\<lambda>c r. reconcile_ok gh ib bb bc ac (c0 @ c) r)"
proof (rule reconcile_seq [OF git_is_clean_logs _ _ quiet], goal_cases)
  case (2 c clean)
  have all: "\<forall>ev \<in> set (c0 @ c). reads_only ev" using quiet 2(1) by auto
  show ?case
  proof (cases clean)
    case True
    with head_stage [OF all bb, of gh ib ac repo bc] seen 2(2) show ?thesis by (simp add: said_append)
  next
    case False
    with all show ?thesis by (auto intro!: git_logs_ret reconcile_quiet)
  qed
qed auto

lemma branch_stage:
  assumes quiet: "\<forall>ev \<in> set c0. reads_only ev" and bb: "bb \<noteq> ''HEAD''"
    and seen: "said gh c0 (commit_args ib) ac"
  shows "git_logs (git_bind (git_branch gh repo None) (\<lambda>current_branch.
      if current_branch \<noteq> bb
      then git_ret (''skipped'', ''source worktree is now on '' @ current_branch @ '', not '' @ bb)
      else git_bind (git_is_clean gh repo None) (\<lambda>clean.
        if \<not> clean then git_ret (''skipped'', ''source worktree is dirty'')
        else git_bind (git_head gh repo None) (\<lambda>current_head.
          if current_head = ac then git_ret (''applied'', ''source already at accepted commit'')
          else fast_forward_to gh repo bc ac current_head))))
    (\<lambda>c r. reconcile_ok gh ib bb bc ac (c0 @ c) r)"
proof (rule reconcile_seq [OF git_branch_logs _ _ quiet], goal_cases)
  case (2 c branch)
  have all: "\<forall>ev \<in> set (c0 @ c). reads_only ev" using quiet 2(1) by auto
  show ?case
  proof (cases "branch = bb")
    case True
    with clean_stage [OF all bb, of gh ib ac repo bc] seen 2(2) bb show ?thesis by (simp add: said_append)
  next
    case False
    with all show ?thesis by (auto intro!: git_logs_ret reconcile_quiet)
  qed
qed auto

lemma reconcile_logs:
  "git_logs (reconcile_fast_forward_source gh repo ib bb bc ac) (\<lambda>c r. reconcile_ok gh ib bb bc ac ([] @ c) r)"
  unfolding reconcile_fast_forward_source_def
proof (rule reconcile_seq [OF resolve_branch_commit_logs], goal_cases)
  case (2 c integration)
  show ?case
  proof (rule git_logs_check_then, goal_cases)
    case 1
    with branch_stage [OF 2(1), of bb gh ib ac repo bc] 2 show ?case
      by (auto intro!: git_logs_ret reconcile_quiet)
  next
    case (2 e)
    with \<open>\<forall>ev \<in> set c. reads_only ev\<close> show ?case by (auto intro: reconcile_quiet)
  qed
qed auto

text \<open>C25: The source branch moves only behind the evidence. Whatever Git answers, the reconciliation
  runs reading commands and at most a fast-forward of the accepted commit, and that only after it
  saw that the accepted branch still is at the accepted commit, that the source is on its branch,
  clean and at the base commit, and that it does not contain the accepted commit yet. It reports
  an application only when it saw the source at the accepted commit or ahead of it.\<close>

theorem source_moves_behind_evidence:
  assumes "reconcile_fast_forward_source gh repo ib bb bc ac s = (r, t)"
  shows "\<exists>cmds. gs_log t = gs_log s @ cmds \<and>
    (\<forall>ev \<in> set cmds. reads_only ev \<or> event_args ev = ff_args ac \<and> source_evidence gh cmds ib bb bc ac) \<and>
    (\<forall>reason. r = Inr (''applied'', reason) \<longrightarrow> applied_evidence gh cmds ac)"
  using git_logsD [OF reconcile_logs assms] by (simp add: reconcile_ok_def)

text \<open>A host whose source is clean, on its branch and at the base commit.\<close>

definition demo_answer :: "bool \<Rightarrow> string list \<Rightarrow> process_answers" where
  "demo_answer merged args =
     (let text = (if args = head_args then (if merged then ''accepted'' else ''base'')
                  else if args = commit_args ''candidate'' then ''accepted''
                  else if args = branch_args then ''main'' else [])
      in slow_child\<lparr>pa_timed_out := False, pa_chunks := [(Stdout, cps text)],
           pa_returncode := Some (if args = ancestor_args ''accepted'' ''base'' then 1 else 0)\<rparr>)"

definition demo_git_host :: "bool git_host" where
  "demo_git_host =
     \<lparr>gh_exec = (\<lambda>argv env timeout merged.
        (Inr (demo_answer merged (git_args argv)), merged \<or> git_args argv = ff_args ''accepted'')),
      gh_exists = (\<lambda>_ _. True), gh_is_symlink = (\<lambda>_ _. False), gh_resolve = (\<lambda>p _. p),
      gh_rmtree = (\<lambda>_ w. (Inr (), w)), gh_private_dir = (\<lambda>_ w. (Inr (), w)), gh_parent = (\<lambda>p. p),
      gh_environ = [], gh_decode = map char_of, gh_fsdecode = map char_of, gh_error_name = (\<lambda>_. [])\<rparr>"

definition demo_git_repo :: git_repo where
  "demo_git_repo = \<lparr>gt_root = ''/repo'', gt_timeout = 9, gt_allow = True\<rparr>"

definition demo_reconcile :: "(py_error + string \<times> string) \<times> bool git_state" where
  "demo_reconcile = reconcile_fast_forward_source demo_git_host demo_git_repo ''candidate'' ''main'' ''base''
     ''accepted'' \<lparr>gs_log = [], gs_world = False\<rparr>"

lemma cps_back: "map char_of (cps s) = s" "length (cps s) = length s"
  by (simp_all add: cps_def o_def)

definition demo_argv :: "string list \<Rightarrow> string list" where
  "demo_argv args = [''git'', ''-C'', ''/repo''] @ hardening_options @ args"

definition demo_output :: "bool \<Rightarrow> string list \<Rightarrow> binary_output" where
  "demo_output merged args = output_of (nat MAX_GIT_STDOUT_BYTES) (nat MAX_GIT_STDERR_BYTES) (demo_answer merged args)"

lemma demo_run_bytes:
  fixes args :: "string list"
  defines "args_seen \<equiv> skip_options args"
  assumes "checked \<Longrightarrow> bo_returncode (demo_output w args_seen) = 0"
  shows "run_bytes demo_git_host demo_git_repo args None checked None MAX_GIT_STDOUT_BYTES MAX_GIT_STDERR_BYTES
      \<lparr>gs_log = l, gs_world = w\<rparr> =
    (Inr (demo_output w args_seen), \<lparr>gs_log = l @ [Ran (demo_argv args) (demo_output w args_seen)],
       gs_world = w \<or> args_seen = ff_args ''accepted''\<rparr>)"
proof -
  have argv: "git_args (demo_argv args) = args_seen"
    by (simp add: args_seen_def demo_argv_def git_args_def hardening_options_def)
  have a: "demo_argv args = ''git'' # ''-C'' # ''/repo'' # (hardening_options @ args)" by (simp add: demo_argv_def)
  have ans: "pa_pump_error (demo_answer w args_seen) = None" by (simp add: demo_answer_def slow_child_def Let_def)
  have out: "output_of (nat MAX_GIT_STDOUT_BYTES) (nat MAX_GIT_STDERR_BYTES) (demo_answer w args_seen) = demo_output w args_seen"
    by (simp add: demo_output_def)
  have lims: "\<not> MAX_GIT_STDOUT_BYTES < 1" "\<not> MAX_GIT_STDERR_BYTES < 1"
    by (simp_all add: MAX_GIT_STDOUT_BYTES_def MAX_GIT_STDERR_BYTES_def)
  have shape: "\<not> bo_timed_out (demo_output w args_seen)" "\<not> bo_truncated (demo_output w args_seen)"
    by (simp_all add: demo_output_def output_of_def demo_answer_def slow_child_def stream_chunks_def cps_back Let_def git_pump_exact
        MAX_GIT_STDOUT_BYTES_def split: prod.splits)
  show ?thesis
    using assms(2) shape lims
    by (simp add: run_bytes_def demo_git_repo_def repository_command_overrides_def run_static_bytes_def git_bind_def
        git_then_def git_check_def git_ret_def git_read_def git_call_def git_note_def demo_git_host_def
        a [symmetric] argv ans out Let_def)
qed


lemma demo_output_simps:
  "bo_returncode (demo_output w args) = (if args = ancestor_args ''accepted'' ''base'' then 1 else 0)"
  "\<not> bo_timed_out (demo_output w args)" "\<not> bo_truncated (demo_output w args)"
  "map char_of (bo_stdout (demo_output w args)) =
     (if args = head_args then (if w then ''accepted'' else ''base'')
      else if args = commit_args ''candidate'' then ''accepted'' else if args = branch_args then ''main'' else [])"
  by (simp_all add: demo_output_def output_of_def demo_answer_def slow_child_def stream_chunks_def cps_back Let_def
      git_pump_exact MAX_GIT_STDOUT_BYTES_def split: prod.splits)



lemma demo_run_command:
  assumes "checked \<Longrightarrow> skip_options args \<noteq> ancestor_args ''accepted'' ''base''"
  shows "run_command demo_git_host demo_git_repo args None checked None \<lparr>gs_log = l, gs_world = w\<rparr> =
    (Inr (text_output demo_git_host (demo_output w (skip_options args))),
     \<lparr>gs_log = l @ [Ran (demo_argv args) (demo_output w (skip_options args))],
       gs_world = w \<or> skip_options args = ff_args ''accepted''\<rparr>)"
  using demo_run_bytes [of checked w args l] assms
  by (simp add: run_command_def git_bind_def git_ret_def demo_output_simps)

lemma demo_decode: "gh_decode demo_git_host = map char_of"
  by (simp add: demo_git_host_def)

lemma demo_strip: "py_strip ''accepted'' = ''accepted''" "py_strip ''base'' = ''base''" "py_strip ''main'' = ''main''"
  by code_simp+

lemmas demo_runs = demo_run_command demo_decode demo_output_simps demo_strip args_simps ff_args_def git_bind_def git_ret_def git_then_def
  git_check_def

lemma demo_head: "git_head demo_git_host demo_git_repo None \<lparr>gs_log = l, gs_world = w\<rparr> =
   (Inr (if w then ''accepted'' else ''base''),
    \<lparr>gs_log = l @ [Ran (demo_argv head_args) (demo_output w head_args)], gs_world = w\<rparr>)"
  by (simp add: git_head_def demo_runs)

lemma demo_branch: "git_branch demo_git_host demo_git_repo None \<lparr>gs_log = l, gs_world = w\<rparr> =
   (Inr ''main'', \<lparr>gs_log = l @ [Ran (demo_argv branch_args) (demo_output w branch_args)], gs_world = w\<rparr>)"
  by (simp add: git_branch_def demo_runs)

lemma demo_clean: "git_is_clean demo_git_host demo_git_repo None \<lparr>gs_log = l, gs_world = w\<rparr> =
   (Inr True, \<lparr>gs_log = l @ [Ran (demo_argv status_args) (demo_output w status_args)], gs_world = w\<rparr>)"
  by (simp add: git_is_clean_def demo_runs)

lemma demo_resolve: "\<exists>c. resolve_branch_commit demo_git_host demo_git_repo ''candidate'' \<lparr>gs_log = [], gs_world = w\<rparr> =
   (Inr ''accepted'', \<lparr>gs_log = c, gs_world = w\<rparr>)"
  by (simp add: resolve_branch_commit_def validate_branch_name_def Let_def demo_runs)

lemma demo_fast_forward_to:
  "fast_forward_to demo_git_host demo_git_repo ''base'' ''accepted'' ''base'' \<lparr>gs_log = l, gs_world = False\<rparr> =
   (Inr (''applied'', ''source fast-forwarded to accepted commit''),
    \<lparr>gs_log = l @ [Ran (demo_argv (ancestor_args ''accepted'' ''base'')) (demo_output False (ancestor_args ''accepted'' ''base'')),
       Ran (demo_argv (no_hooks @ ff_args ''accepted'')) (demo_output False (ff_args ''accepted'')),
       Ran (demo_argv head_args) (demo_output True head_args)], gs_world = True\<rparr>)"
  by (simp add: fast_forward_to_def demo_head demo_runs no_hooks_def)

lemma demo_reconcile_run:
  "\<exists>l out. demo_reconcile = (Inr (''applied'', ''source fast-forwarded to accepted commit''),
     \<lparr>gs_log = l, gs_world = True\<rparr>) \<and> Ran (demo_argv (no_hooks @ ff_args ''accepted'')) out \<in> set l"
proof -
  obtain c where "resolve_branch_commit demo_git_host demo_git_repo ''candidate'' \<lparr>gs_log = [], gs_world = False\<rparr> =
     (Inr ''accepted'', \<lparr>gs_log = c, gs_world = False\<rparr>)"
    using demo_resolve by blast
  then show ?thesis
    by (simp add: demo_reconcile_def reconcile_fast_forward_source_def git_bind_def git_then_def git_check_def git_ret_def
        demo_branch demo_clean demo_head demo_fast_forward_to del: append.simps append_assoc) auto
qed

lemma demo_fast_forward: "event_args (Ran (demo_argv (no_hooks @ ff_args ''accepted'')) out) = ff_args ''accepted''"
  by (simp add: demo_argv_def git_args_def hardening_options_def no_hooks_def ff_args_def)

lemma source_moves_behind_evidence_witness:
  "list_ex (\<lambda>ev. event_args ev = ff_args ''accepted'') (gs_log (snd demo_reconcile)) \<and>
   source_evidence demo_git_host (gs_log (snd demo_reconcile)) ''candidate'' ''main'' ''base'' ''accepted'' \<and>
   applied_evidence demo_git_host (gs_log (snd demo_reconcile)) ''accepted''"
proof -
  obtain l out where demo: "demo_reconcile = (Inr (''applied'', ''source fast-forwarded to accepted commit''),
      \<lparr>gs_log = l, gs_world = True\<rparr>)" "Ran (demo_argv (no_hooks @ ff_args ''accepted'')) out \<in> set l"
    using demo_reconcile_run by blast
  have run: "reconcile_fast_forward_source demo_git_host demo_git_repo ''candidate'' ''main'' ''base'' ''accepted''
      \<lparr>gs_log = [], gs_world = False\<rparr> = (fst demo_reconcile, snd demo_reconcile)"
    unfolding demo_reconcile_def by (rule prod.collapse [symmetric])
  obtain cmds where log: "gs_log (snd demo_reconcile) = gs_log \<lparr>gs_log = [], gs_world = False\<rparr> @ cmds"
    and behind: "\<forall>ev \<in> set cmds. reads_only ev \<or> event_args ev = ff_args ''accepted'' \<and>
         source_evidence demo_git_host cmds ''candidate'' ''main'' ''base'' ''accepted''"
    and applied: "\<forall>reason. fst demo_reconcile = Inr (''applied'', reason) \<longrightarrow>
         applied_evidence demo_git_host cmds ''accepted''"
    using source_moves_behind_evidence [OF run] by blast
  have cmds: "gs_log (snd demo_reconcile) = cmds" using log by (simp only: git_state.select_convs append_Nil)
  have "applied_evidence demo_git_host cmds ''accepted''" using applied unfolding demo(1) fst_conv by blast
  moreover have "gs_log (snd demo_reconcile) = l" unfolding demo(1) by (simp only: snd_conv git_state.select_convs)
  with cmds demo(2) demo_fast_forward obtain ev where ev: "ev \<in> set cmds" "event_args ev = ff_args ''accepted''"
    by blast
  have "\<not> reads_only ev" using ev(2) by (simp add: reads_only_def ff_args_def reading_commands_def)
  with ev(1) behind have "source_evidence demo_git_host cmds ''candidate'' ''main'' ''base'' ''accepted''" by blast
  ultimately show ?thesis using ev unfolding cmds list_ex_iff by blast
qed

section \<open>Commands a repository configures\<close>

lemma git_bind_read: "git_bind (git_read f) g s = g (f (gs_world s)) s"
  by (simp add: git_bind_def git_read_def)

lemma git_bind_Inr: "m s = (Inr x, u) \<Longrightarrow> git_bind m f s = f x u"
  by (simp add: git_bind_def)

lemma git_bind_InrE: "git_bind m f s = (Inr y, t) \<Longrightarrow> (\<And>x u. m s = (Inr x, u) \<Longrightarrow> P) \<Longrightarrow> P"
  by (auto simp: git_bind_def split: prod.splits sum.splits)


text \<open>A repository that configures a clean filter.\<close>

definition demo_filter_host :: "bool git_host" where
  "demo_filter_host = demo_git_host\<lparr>gh_exec := (\<lambda>argv env timeout merged.
     (Inr (slow_child\<lparr>pa_timed_out := False, pa_chunks :=
        (if git_args argv = config_args then [(Stdout, cps ''filter.lfs.clean'' @ [0])] else [])\<rparr>), merged))\<rparr>"

definition demo_filtered :: "(py_error + binary_output) \<times> bool git_state" where
  "demo_filtered = run_bytes demo_filter_host (demo_git_repo\<lparr>gt_allow := False\<rparr>) [''status''] None True None 100 100
     \<lparr>gs_log = [], gs_world = False\<rparr>"


text \<open>
  Git reads the name of a \<open>-c\<close> option up to the first equals sign, so an override reaches the
  configured key only if the key has none: a filter whose name contains one keeps its command.
\<close>

lemma override_names_key:
  "takeWhile (\<lambda>c. c \<noteq> CHR ''='') (key @ ''='' @ value) = key \<longleftrightarrow> CHR ''='' \<notin> set key"
proof
  assume "takeWhile (\<lambda>c. c \<noteq> CHR ''='') (key @ ''='' @ value) = key"
  then show "CHR ''='' \<notin> set key" by (metis set_takeWhileD)
next
  assume "CHR ''='' \<notin> set key"
  then have "\<And>c. c \<in> set key \<Longrightarrow> c \<noteq> CHR ''=''" by auto
  then show "takeWhile (\<lambda>c. c \<noteq> CHR ''='') (key @ ''='' @ value) = key"
    by (simp add: takeWhile_append2)
qed

end
