(* ===== verification/Yolo_Git_Worktree.thy ===== *)
theory Yolo_Git_Worktree
  imports Yolo_Git_Proofs
begin

text \<open>
  The guards in front of the one recursive deletion of the Git layer: what \<open>remove_worktree\<close> must
  have seen of a directory before it falls back to deleting the tree, and that preparing a worktree
  for a branch that is kept deletes nothing.
\<close>

section \<open>What the guards log\<close>

definition toplevel_args :: "string list" where
  "toplevel_args = [''rev-parse'', ''--show-toplevel'']"

definition commondir_args :: "string list" where
  "commondir_args = [''rev-parse'', ''--git-common-dir'']"

definition guard_args :: "string list set" where
  "guard_args = {config_args, toplevel_args, commondir_args, branch_args}"

text \<open>An operation that logs commands of a given set only.\<close>

abbreviation quiet :: "string list set \<Rightarrow> ('w, 'a) git \<Rightarrow> bool" where
  "quiet A m \<equiv> only_logs A m (\<lambda>_ _. True)"

lemma quiet_bind: "quiet A m \<Longrightarrow> (\<And>x. quiet A (f x)) \<Longrightarrow> quiet A (git_bind m f)"
  by (rule only_logs_bind [where B = A and R = "\<lambda>_ _ _. True"]) auto

lemma quiet_then: "quiet A m \<Longrightarrow> quiet A n \<Longrightarrow> quiet A (git_then m n)"
  unfolding git_then_def by (rule quiet_bind)

lemma quiet_from: "only_logs A m P \<Longrightarrow> A \<subseteq> B \<Longrightarrow> quiet B m"
  by (rule only_logs_mono) auto

lemma quiet_command: "config_args \<in> A \<Longrightarrow> skip_options args \<in> A \<Longrightarrow> quiet A (run_command gh repo args dir checked env)"
  by (rule quiet_from [OF run_command_logs]) simp

lemma quiet_leaf:
  "quiet A (git_ret x)" "quiet A (git_fail e)" "quiet A (git_check ok text)" "quiet A (git_read f)" "quiet A (git_call g)"
  by (auto intro: only_logs_ret only_logs_fail only_logs_check only_logs_read only_logs_call)

lemma quiet_if: "(c \<Longrightarrow> quiet A m) \<Longrightarrow> (\<not> c \<Longrightarrow> quiet A n) \<Longrightarrow> quiet A (if c then m else n)"
  by simp

lemma quiet_option: "quiet A m \<Longrightarrow> (\<And>x. quiet A (f x)) \<Longrightarrow> quiet A (case opt of None \<Rightarrow> m | Some x \<Rightarrow> f x)"
  by (cases opt) auto

lemma quiet_branch: "config_args \<in> A \<Longrightarrow> branch_args \<in> A \<Longrightarrow> quiet A (git_branch gh repo d)"
  by (rule quiet_from [OF git_branch_logs]) simp

lemma quiet_common_dir: "config_args \<in> A \<Longrightarrow> commondir_args \<in> A \<Longrightarrow> quiet A (common_dir gh repo d)"
  unfolding common_dir_def commondir_args_def [symmetric] Let_def
  by (intro quiet_bind quiet_command quiet_leaf) (auto simp: commondir_args_def skip_plain)

lemmas quiet_intros = quiet_bind quiet_then quiet_leaf quiet_if quiet_option quiet_command quiet_branch quiet_common_dir

lemma assert_worktree_logs:
  "only_logs guard_args (assert_worktree gh repo path expected)
     (\<lambda>cmds _. \<exists>out. answered cmds toplevel_args out \<and> bo_returncode out = 0)"
proof -
  let ?seen = "\<lambda>cmds _. \<exists>out. answered cmds toplevel_args out \<and> bo_returncode out = 0"
  have args: "config_args \<in> guard_args" "branch_args \<in> guard_args" "commondir_args \<in> guard_args"
    by (simp_all add: guard_args_def)
  have argv: "git_args [''git'', ''-C'', d, ''rev-parse'', ''--show-toplevel''] = toplevel_args" for d
    by (simp add: git_args_def toplevel_args_def)
  have after: "only_logs guard_args
      (git_bind (run_static gh [''git'', ''-C'', d, ''rev-parse'', ''--show-toplevel''] n) f) ?seen"
    if "\<And>out. only_logs guard_args (f out) (\<lambda>_ _. cm_returncode out = 0)" for d n f
    by (rule only_logs_bind [OF run_static_logs that]) (auto simp: argv guard_args_def answered_append)
  have judged: "only_logs guard_args (git_bind (git_read g) (\<lambda>top.
      git_then (git_check (\<not> (a \<or> b \<or> cm_returncode out \<noteq> 0 \<or> top \<noteq> d)) e) (m top))) (\<lambda>_ _. cm_returncode out = 0)"
    if "\<And>top. quiet guard_args (m top)" for g a b out d e m
    by (rule only_logs_bind [where A = "{}" and P = "\<lambda>_ _. True" and B = guard_args
          and R = "\<lambda>_ _ _. cm_returncode out = 0", OF only_logs_read])
      (auto intro!: only_logs_check_then only_logs_mono [OF that])
  show ?thesis
    unfolding assert_worktree_def
  proof (rule only_logs_bind [where A = "{}" and P = "\<lambda>c _. c = []" and B = guard_args and R = "\<lambda>_. ?seen",
        OF only_logs_read], goal_cases)
    case (2 c d)
    show ?case by (intro after judged quiet_intros args)
  qed auto
qed

section \<open>Deleting a worktree\<close>

definition remove_args :: "bool \<Rightarrow> string \<Rightarrow> string list" where
  "remove_args force path = [''worktree'', ''remove''] @ (if force then [''--force''] else []) @ [''--'', path]"

definition prune_args :: "string list" where
  "prune_args = [''worktree'', ''prune'']"

text \<open>What was seen before the tree of a worktree is deleted.\<close>

definition removal_evidence :: "git_event list \<Rightarrow> bool \<Rightarrow> string \<Rightarrow> bool" where
  "removal_evidence cmds force path \<longleftrightarrow>
     (\<exists>top refused. answered cmds toplevel_args top \<and> bo_returncode top = 0 \<and>
        answered cmds (remove_args force path) refused \<and> bo_returncode refused \<noteq> 0)"

definition removal_ok :: "bool \<Rightarrow> string \<Rightarrow> bool \<Rightarrow> git_event list \<Rightarrow> bool" where
  "removal_ok force path linked cmds \<longleftrightarrow>
     (\<forall>pre ev post. cmds = pre @ ev # post \<and> hd (event_args ev) = ''rmtree'' \<longrightarrow>
        ev = RemovedTree path \<and> \<not> linked \<and> removal_evidence pre force path)"

lemma removal_evidence_append: "removal_evidence c1 force path \<Longrightarrow> removal_evidence (c1 @ c2) force path"
  by (auto simp: removal_evidence_def answered_append)

lemma removal_ok_quiet: "(\<forall>ev \<in> set cmds. hd (event_args ev) \<noteq> ''rmtree'') \<Longrightarrow> removal_ok force path linked cmds"
  by (auto simp: removal_ok_def)

lemma removal_ok_around:
  assumes "\<forall>ev \<in> set c1. hd (event_args ev) \<noteq> ''rmtree''" "\<forall>ev \<in> set c2. hd (event_args ev) \<noteq> ''rmtree''"
    and "\<not> linked" "removal_evidence c1 force path"
  shows "removal_ok force path linked (c1 @ RemovedTree path # c2)"
  unfolding removal_ok_def
proof (intro allI impI)
  fix pre ev post assume ev: "c1 @ RemovedTree path # c2 = pre @ ev # post \<and> hd (event_args ev) = ''rmtree''"
  with assms(1,2) have "ev \<notin> set c1" "ev \<notin> set c2" by auto
  with ev have "pre = c1 \<and> ev = RemovedTree path"
    by (auto simp: append_eq_append_conv2 append_eq_Cons_conv Cons_eq_append_conv)
  with assms(3,4) show "ev = RemovedTree path \<and> \<not> linked \<and> removal_evidence pre force path" by simp
qed

lemma guard_args_quiet:
  "args \<in> guard_args \<Longrightarrow> hd args \<noteq> ''rmtree''" "hd prune_args \<noteq> ''rmtree''" "hd (remove_args force path) \<noteq> ''rmtree''"
  by (auto simp: guard_args_def toplevel_args_def commondir_args_def branch_args_def prune_args_def remove_args_def
      config_args_def command_config_argv_def)

lemma skip_worktree_args [simp]:
  "skip_options prune_args = prune_args" "skip_options (remove_args force path) = remove_args force path"
  by (simp_all add: prune_args_def remove_args_def skip_plain)

abbreviation harmless :: "git_event list \<Rightarrow> bool" where
  "harmless cmds \<equiv> \<forall>ev \<in> set cmds. hd (event_args ev) \<noteq> ''rmtree''"

lemma harmless_logs:
  "only_logs A m P \<Longrightarrow> (\<And>args. args \<in> A \<Longrightarrow> hd args \<noteq> ''rmtree'') \<Longrightarrow>
   git_logs m (\<lambda>c r. harmless c \<and> (\<forall>x. r = Inr x \<longrightarrow> P c x))"
  unfolding only_logs_def by (erule git_logs_mono) (simp add: image_subset_iff)

lemma prune_logs: "git_logs (git_then (run_command gh repo prune_args None True None) (git_ret ())) (\<lambda>c r. harmless c)"
proof -
  have "quiet {config_args, prune_args} (git_then (run_command gh repo prune_args None True None) (git_ret ()))"
    by (intro quiet_then quiet_command quiet_leaf) auto
  from harmless_logs [OF this] show ?thesis
    by (rule git_logs_mono) (auto simp: guard_args_quiet guard_args_def)
qed

lemma remove_tree_logs:
  assumes "harmless c0" "removal_evidence c0 force path"
  shows "git_logs (git_then (assert_worktree gh repo path None)
     (git_then (git_note (RemovedTree path))
     (git_then (git_call (gh_rmtree gh path))
     (git_then (run_command gh repo prune_args None True None) (git_ret ())))))
     (\<lambda>c r. removal_ok force path False (c0 @ c))"
  unfolding git_then_def [of "assert_worktree gh repo path None"]
proof (rule git_logs_seq [OF harmless_logs [OF assert_worktree_logs guard_args_quiet(1)]], assumption, goal_cases)
  case (1 c x)
  then have c: "harmless (c0 @ c)" "removal_evidence (c0 @ c) force path"
    using assms removal_evidence_append by auto
  have ok: "removal_ok force path False (c0 @ c @ RemovedTree path # c2)" if "harmless c2" for c2
    using removal_ok_around [OF c(1) that _ c(2), of False] by simp
  have last: "git_logs (git_then (git_call (gh_rmtree gh path))
      (git_then (run_command gh repo prune_args None True None) (git_ret ()))) (\<lambda>c r. harmless c)"
    unfolding git_then_def [of "git_call f" for f]
    by (rule git_logs_seq [OF git_logs_call, where P = "\<lambda>c _. c = []"]) (auto intro: prune_logs)
  show ?case
    unfolding git_then_def [of "git_note ev" for ev]
    by (rule git_logs_seq [OF git_logs_note, where P = "\<lambda>c _. c = [RemovedTree path]"])
      (auto intro!: git_logs_mono [OF last] ok)
next
  case (2 c e)
  then have "harmless (c0 @ c)" using assms(1) by auto
  then show ?case by (rule removal_ok_quiet)
qed

lemma remove_worktree_body:
  "git_logs (if \<not> present \<and> \<not> linked then git_then (run_command gh repo prune_args None True None) (git_ret ())
     else git_then (git_check (\<not> linked) e)
       (git_then (assert_worktree gh repo path None)
       (git_bind (run_command gh repo (remove_args force path) None False None) (\<lambda>out.
        git_then (git_check (\<not> cm_timed_out out) e1) (git_then (git_check (\<not> cm_truncated out) e2)
        (if cm_returncode out \<noteq> 0 then
           git_then (assert_worktree gh repo path None) (git_then (git_note (RemovedTree path))
           (git_then (git_call (gh_rmtree gh path))
           (git_then (run_command gh repo prune_args None True None) (git_ret ()))))
         else git_ret ()))))))
   (\<lambda>c r. removal_ok force path linked c)"
proof (cases "\<not> present \<and> \<not> linked")
  case True
  then show ?thesis by (auto intro: git_logs_mono [OF prune_logs] removal_ok_quiet)
next
  case False
  have removed: "git_logs (git_bind (run_command gh repo (remove_args force path) None False None) (\<lambda>out.
        git_then (git_check (\<not> cm_timed_out out) e1) (git_then (git_check (\<not> cm_truncated out) e2)
        (if cm_returncode out \<noteq> 0 then
           git_then (assert_worktree gh repo path None) (git_then (git_note (RemovedTree path))
           (git_then (git_call (gh_rmtree gh path))
           (git_then (run_command gh repo prune_args None True None) (git_ret ()))))
         else git_ret ())))) (\<lambda>c r. removal_ok force path False (c0 @ c))"
    if c0: "harmless c0" "answered c0 toplevel_args top" "bo_returncode top = 0" for c0 top
  proof (rule git_logs_seq [OF harmless_logs [OF run_command_logs]], goal_cases)
    case (1 args)
    then show ?case by (auto simp: guard_args_quiet guard_args_def)
  next
    case (2 c out)
    then obtain b where b: "out = text_output gh b" "answered c (remove_args force path) b" "harmless c" by auto
    have quiet: "harmless (c0 @ c)" using c0 b(3) by auto
    have tree: "bo_returncode b \<noteq> 0 \<Longrightarrow> removal_evidence (c0 @ c) force path"
      using c0 b(2) by (auto simp: removal_evidence_def answered_append)
    from remove_tree_logs [OF quiet tree] b(1) quiet show ?case
      by (auto intro!: git_logs_check_then git_logs_ret removal_ok_quiet)
  next
    case (3 c e)
    then have "harmless (c0 @ c)" using c0 by auto
    then show ?case by (rule removal_ok_quiet)
  qed
  have "git_logs (git_then (assert_worktree gh repo path None)
       (git_bind (run_command gh repo (remove_args force path) None False None) (\<lambda>out.
        git_then (git_check (\<not> cm_timed_out out) e1) (git_then (git_check (\<not> cm_truncated out) e2)
        (if cm_returncode out \<noteq> 0 then
           git_then (assert_worktree gh repo path None) (git_then (git_note (RemovedTree path))
           (git_then (git_call (gh_rmtree gh path))
           (git_then (run_command gh repo prune_args None True None) (git_ret ()))))
         else git_ret ()))))) (\<lambda>c r. removal_ok force path False c)"
    unfolding git_then_def [of "assert_worktree gh repo path None" "git_bind m f" for m f]
    by (rule git_logs_seq [OF harmless_logs [OF assert_worktree_logs guard_args_quiet(1)]])
      (auto intro: removed removal_ok_quiet)
  with False show ?thesis by (cases linked) (auto intro!: git_logs_check_then removal_ok_quiet)
qed


text \<open>A worktree that Git refuses to remove.\<close>

definition demo_stuck_host :: "bool git_host" where
  "demo_stuck_host = demo_git_host\<lparr>gh_exec := (\<lambda>argv env timeout gone.
     let args = git_args argv;
         text = (if args = toplevel_args then ''/w'' else if args = commondir_args then ''/g'' else [])
     in (Inr (slow_child\<lparr>pa_timed_out := False, pa_chunks := [(Stdout, cps text)],
           pa_returncode := Some (if args = remove_args False ''/w'' then 1 else 0)\<rparr>), gone)),
     gh_rmtree := (\<lambda>p gone. (Inr (), True))\<rparr>"

definition demo_removal :: "(py_error + unit) \<times> bool git_state" where
  "demo_removal = remove_worktree demo_stuck_host demo_git_repo ''/w'' False \<lparr>gs_log = [], gs_world = False\<rparr>"


end
