(* ===== verification/Yolo_Gates.thy ===== *)
theory Yolo_Gates
  imports Yolo_Process
begin

text \<open>
  The acceptance gates of \<open>src/omarchy_yolo/gates.py\<close>: which commands a repository implies, and the
  runner that executes the commands one after the other inside the sandbox, logs them and stops
  at the first that fails. The repository is a record of what the file system answers; a command
  that runs is an input, with the state of the rest of the world threaded through.
\<close>

section \<open>Detecting the gate commands\<close>

text \<open>\<open>rf_read\<close> is \<open>read_text_bounded\<close>, \<open>rf_json\<close> is \<open>json.loads\<close>, \<open>rf_str\<close> is \<open>str\<close> of a decoded value.\<close>

record repo_files =
  rf_exists :: "string \<Rightarrow> bool"
  rf_is_dir :: "string \<Rightarrow> bool"
  rf_read :: "string \<Rightarrow> py_error + string"
  rf_json :: "string \<Rightarrow> payload option"
  rf_str :: "payload \<Rightarrow> string"

text \<open>The truth value of a decoded value.\<close>

fun truthy :: "payload \<Rightarrow> bool" where
  "truthy PNull = False"
| "truthy (PBool b) = b"
| "truthy (PInt i) = (i \<noteq> 0)"
| "truthy (PFloat r) = (r \<notin> {''0.0'', ''-0.0''})"
| "truthy (PStr s) = (s \<noteq> [])"
| "truthy (PList vs) = (vs \<noteq> [])"
| "truthy (PDict d) = (d \<noteq> [])"

definition payload_text :: "repo_files \<Rightarrow> payload \<Rightarrow> string" where
  "payload_text rf v = (case v of PStr s \<Rightarrow> s | _ \<Rightarrow> rf_str rf v)"

definition test_script :: "payload \<Rightarrow> payload" where
  "test_script package =
     (let scripts = (case package of PDict d \<Rightarrow> dict_get_or d ''scripts'' (PDict []) | _ \<Rightarrow> PDict [])
      in case scripts of PDict d \<Rightarrow> dict_get_or d ''test'' (PStr []) | _ \<Rightarrow> PStr [])"

definition package_command :: "repo_files \<Rightarrow> string list" where
  "package_command rf =
     (if \<not> rf_exists rf ''package.json'' then []
      else case rf_read rf ''package.json'' of
             Inl _ \<Rightarrow> []
           | Inr text \<Rightarrow>
               (case rf_json rf text of
                  None \<Rightarrow> []
                | Some package \<Rightarrow>
                    let script = test_script package
                    in if truthy script \<and> \<not> contains ''no test specified'' (payload_text rf script)
                       then let manager = (if rf_exists rf ''pnpm-lock.yaml'' then ''pnpm'' else ''npm'');
                                manager = (if rf_exists rf ''yarn.lock'' then ''yarn'' else manager)
                            in [manager @ '' test'']
                       else []))"

text \<open>\<open>re.search(r"(?m)^test\s*:", content)\<close>, at the start of the text and behind every line end.\<close>

definition test_target_here :: "string \<Rightarrow> bool" where
  "test_target_here s =
     (starts_with ''test'' s \<and>
      (case dropWhile is_py_space (drop 4 s) of [] \<Rightarrow> False | c # _ \<Rightarrow> c = CHR '':''))"

fun has_test_target :: "bool \<Rightarrow> string \<Rightarrow> bool" where
  "has_test_target at_start [] = False"
| "has_test_target at_start (c # s) =
     (at_start \<and> test_target_here (c # s) \<or> has_test_target (c = CHR 0x0A) s)"

definition makefile_command :: "repo_files \<Rightarrow> string list \<Rightarrow> string list" where
  "makefile_command rf commands =
     (if \<not> rf_exists rf ''Makefile'' then []
      else case rf_read rf ''Makefile'' of
             Inl _ \<Rightarrow> []
           | Inr content \<Rightarrow>
               if has_test_target True content \<and> ''make test'' \<notin> set commands then [''make test''] else [])"

text \<open>\<open>tuple(dict.fromkeys(xs))\<close>: the first occurrence of every element, in order.\<close>

definition first_occurrences :: "'a list \<Rightarrow> 'a list" where
  "first_occurrences xs = rev (remdups (rev xs))"

definition detect_gate_commands :: "repo_files \<Rightarrow> string list" where
  "detect_gate_commands rf =
     (let commands = [''git diff --check''];
          commands = commands @
            (if rf_exists rf ''pyproject.toml'' \<and> rf_exists rf ''tests'' then [''python -m pytest -q'']
             else if rf_exists rf ''pytest.ini'' \<or> rf_exists rf ''tox.ini'' then [''python -m pytest -q'']
             else []);
          commands = commands @ package_command rf;
          commands = commands @
            (if rf_exists rf ''Cargo.toml'' then [''cargo test --all-targets --all-features''] else []);
          commands = commands @ (if rf_exists rf ''go.mod'' then [''go test ./...''] else []);
          commands = commands @ makefile_command rf commands;
          commands = commands @
            (if rf_is_dir rf ''build'' \<and> rf_exists rf ''build/CTestTestfile.cmake''
             then [''ctest --test-dir build --output-on-failure''] else [])
      in first_occurrences commands)"

lemma first_occurrences_distinct: "distinct (first_occurrences xs)"
  by (simp add: first_occurrences_def)

lemma first_occurrences_set [simp]: "set (first_occurrences xs) = set xs"
  by (simp add: first_occurrences_def)

lemma first_occurrences_Cons: "\<exists>ys. first_occurrences (x # xs) = x # ys"
proof -
  have "remdups (as @ [x]) \<noteq> [] \<and> last (remdups (as @ [x])) = x" for as
    by (induction as) auto
  then have "rev (remdups (rev xs @ [x])) \<noteq> [] \<and> hd (rev (remdups (rev xs @ [x]))) = x"
    by (simp add: hd_rev)
  then show ?thesis by (metis first_occurrences_def list.collapse rev.simps(2))
qed

section \<open>Running the gates\<close>

definition gate_log_marker :: bytes where
  "gate_log_marker = [10] @ encode ''[omarchy-yolo: gate log truncated]'' @ [10]"

text \<open>
  The configuration of a runner: the limits, the sandbox with its host (\<^term>\<open>None\<close> when gates run
  unconfined, with the environment \<open>gc_environ\<close>), and the resource policy.
\<close>

record gate_runner =
  gn_limits :: process_limits
  gn_sandbox :: "(host \<times> sandbox_config) option"
  gn_environ :: "(string \<times> string) list"
  gn_which :: "string \<Rightarrow> string option"
  gn_policy :: resource_policy

definition gate_argv :: "gate_runner \<Rightarrow> path \<Rightarrow> string \<Rightarrow> py_error + string list \<times> (string \<times> string) list" where
  "gate_argv gn cwd command =
     rbind (case gn_sandbox gn of
              Some (h, sb) \<Rightarrow>
                rbind (sandbox_wrap h sb [''bash'', ''-lc'', command] cwd ''gate'') (\<lambda>argv.
                rbind (sandbox_environment h sb ''gate'') (\<lambda>env. Inr (argv, env)))
            | None \<Rightarrow> Inr ([''bash'', ''-lc'', command], gn_environ gn)) (\<lambda>(argv, env).
     rbind (resource_wrap (gn_which gn) (gn_policy gn) argv) (\<lambda>argv.
     Inr (argv, if ''CI'' \<in> fst ` set env then env else env @ [(''CI'', ''1'')])))"

definition write_gate_log :: "gate_runner \<Rightarrow> bytes \<Rightarrow> log_file \<Rightarrow> log_file" where
  "write_gate_log gn = append_log gate_log_marker (limit_of (pl_log (gn_limits gn)))"

definition gate_header :: "string \<Rightarrow> bytes" where
  "gate_header command = [10] @ encode (''$ '' @ command) @ [10]"

definition gate_footer :: "gate_result \<Rightarrow> bytes" where
  "gate_footer r =
     [10] @ encode (''[exit='' @ int_str (gr_returncode r) @ '' timeout='' @
       (if gr_timed_out r then ''True'' else ''False'') @ '']'') @ [10]"

definition gate_result_of ::
  "gate_runner \<Rightarrow> (bytes \<Rightarrow> string) \<Rightarrow> string \<Rightarrow> process_answers \<Rightarrow> exc + gate_result" where
  "gate_result_of gn decode command ans =
     (case process_outcome ''gate output pipes did not close after command exit'' ans of
        Inl e \<Rightarrow> Inl e
      | Inr rc \<Rightarrow>
          Inr \<lparr>gr_command = command, gr_returncode = rc,
               gr_stdout = decode (captured (pl_capture (gn_limits gn)) Stdout ans),
               gr_stderr = decode (captured (pl_capture (gn_limits gn)) Stderr ans),
               gr_duration_seconds = pa_duration ans, gr_timed_out = pa_timed_out ans\<rparr>)"

type_synonym 'w child = "string list \<Rightarrow> (string \<times> string) list \<Rightarrow> 'w \<Rightarrow> process_answers \<times> 'w"

fun gate_loop ::
  "gate_runner \<Rightarrow> (bytes \<Rightarrow> string) \<Rightarrow> 'w child \<Rightarrow> path \<Rightarrow> string list \<Rightarrow> log_file \<times> 'w \<Rightarrow>
   (exc + gate_result list) \<times> log_file \<times> 'w" where
  "gate_loop gn decode exec cwd [] st = (Inr [], st)"
| "gate_loop gn decode exec cwd (command # commands) (lf, w) =
     (let lf = write_gate_log gn (gate_header command) lf
      in case gate_argv gn cwd command of
           Inl e \<Rightarrow> (Inl (Raised e), lf, w)
         | Inr (argv, env) \<Rightarrow>
             (case exec argv env w of (ans, w) \<Rightarrow>
                let lf = fold (write_gate_log gn) (map snd (pa_chunks ans)) lf
                in case gate_result_of gn decode command ans of
                     Inl e \<Rightarrow> (Inl e, lf, w)
                   | Inr r \<Rightarrow>
                       let lf = write_gate_log gn (gate_footer r) lf
                       in if \<not> gate_ok r then (Inr [r], lf, w)
                          else (case gate_loop gn decode exec cwd commands (lf, w) of
                                  (Inl e, st) \<Rightarrow> (Inl e, st)
                                | (Inr rs, st) \<Rightarrow> (Inr (r # rs), st))))"

definition run_gate_commands ::
  "gate_runner \<Rightarrow> (bytes \<Rightarrow> string) \<Rightarrow> 'w child \<Rightarrow> path \<Rightarrow> string list \<Rightarrow> 'w \<Rightarrow>
   (exc + gate_result list) \<times> log_file \<times> 'w" where
  "run_gate_commands gn decode exec cwd commands w = gate_loop gn decode exec cwd commands (empty_log, w)"

text \<open>The commands a repository implies: the whitespace check of Git comes first, no command
  occurs twice, and each of the others is there exactly when the repository has what it tests.\<close>

theorem detected_gates_exact:
  "hd (detect_gate_commands rf) = ''git diff --check'' \<and> distinct (detect_gate_commands rf) \<and>
   (''python -m pytest -q'' \<in> set (detect_gate_commands rf) \<longleftrightarrow>
      rf_exists rf ''pyproject.toml'' \<and> rf_exists rf ''tests'' \<or> rf_exists rf ''pytest.ini'' \<or> rf_exists rf ''tox.ini'') \<and>
   (''cargo test --all-targets --all-features'' \<in> set (detect_gate_commands rf) \<longleftrightarrow> rf_exists rf ''Cargo.toml'') \<and>
   (''go test ./...'' \<in> set (detect_gate_commands rf) \<longleftrightarrow> rf_exists rf ''go.mod'') \<and>
   (''make test'' \<in> set (detect_gate_commands rf) \<longleftrightarrow>
      rf_exists rf ''Makefile'' \<and> (\<exists>content. rf_read rf ''Makefile'' = Inr content \<and> has_test_target True content))"
proof -
  have pkg: "c \<in> set (package_command rf) \<Longrightarrow> c \<in> {''npm test'', ''pnpm test'', ''yarn test''}" for c
    by (auto simp: package_command_def Let_def split: if_splits sum.splits option.splits)
  have mk: "c \<in> set (makefile_command rf cs) \<longleftrightarrow> c = ''make test'' \<and> ''make test'' \<notin> set cs \<and>
      rf_exists rf ''Makefile'' \<and> (\<exists>content. rf_read rf ''Makefile'' = Inr content \<and> has_test_target True content)"
    for c cs by (cases "rf_read rf ''Makefile''") (auto simp: makefile_command_def)
  obtain rest where "detect_gate_commands rf = first_occurrences (''git diff --check'' # rest)"
    by (simp add: detect_gate_commands_def Let_def)
  with first_occurrences_Cons have "hd (detect_gate_commands rf) = ''git diff --check''"
    by (metis list.sel(1))
  moreover have "distinct (detect_gate_commands rf)"
    by (simp add: detect_gate_commands_def Let_def first_occurrences_distinct)
  ultimately show ?thesis
    by (auto simp: detect_gate_commands_def Let_def mk dest: pkg)
qed

lemma gate_loop_Cons:
  assumes "gate_loop gn decode exec cwd (command # commands) (lf, w) = (Inr rs, st)"
  shows "\<exists>r s'. gr_command r = command \<and>
    (\<not> gate_ok r \<and> rs = [r] \<or>
     gate_ok r \<and> (\<exists>rs'. gate_loop gn decode exec cwd commands s' = (Inr rs', st) \<and> rs = r # rs'))"
proof -
  obtain argv env where a: "gate_argv gn cwd command = Inr (argv, env)"
    using assms by (auto simp: Let_def split: sum.splits)
  obtain ans w' where e: "exec argv env w = (ans, w')" by (cases "exec argv env w")
  obtain r where r: "gate_result_of gn decode command ans = Inr r"
    using assms by (auto simp: Let_def a e split: sum.splits)
  then have "gr_command r = command" by (auto simp: gate_result_of_def split: sum.splits)
  moreover from assms have "\<not> gate_ok r \<and> rs = [r] \<or>
      gate_ok r \<and> (\<exists>rs'. gate_loop gn decode exec cwd commands
        (write_gate_log gn (gate_footer r) (fold (write_gate_log gn) (map snd (pa_chunks ans))
           (write_gate_log gn (gate_header command) lf)), w') = (Inr rs', st) \<and> rs = r # rs')"
    by (simp add: Let_def a e r split: if_splits sum.splits prod.splits)
  ultimately show ?thesis by blast
qed

lemma gate_loop_results:
  assumes "gate_loop gn decode exec cwd commands s = (Inr rs, st)"
  shows "map gr_command rs = take (length rs) commands \<and>
    (list_all gate_ok rs \<longrightarrow> length rs = length commands) \<and>
    (\<not> list_all gate_ok rs \<longrightarrow> rs \<noteq> [] \<and> list_all gate_ok (butlast rs) \<and> \<not> gate_ok (last rs))"
  using assms
proof (induction commands arbitrary: s rs)
  case Nil
  then show ?case by (cases s) auto
next
  case (Cons command commands)
  obtain lf w where s: "s = (lf, w)" by (cases s)
  from gate_loop_Cons [OF Cons.prems [unfolded s]] obtain r s' where r: "gr_command r = command"
    and next_step: "\<not> gate_ok r \<and> rs = [r] \<or>
     gate_ok r \<and> (\<exists>rs'. gate_loop gn decode exec cwd commands s' = (Inr rs', st) \<and> rs = r # rs')" by blast
  from next_step show ?case
  proof (elim disjE conjE exE)
    fix rs' assume "gate_ok r" "gate_loop gn decode exec cwd commands s' = (Inr rs', st)" "rs = r # rs'"
    with Cons.IH [OF \<open>gate_loop gn decode exec cwd commands s' = (Inr rs', st)\<close>] r show ?thesis by auto
  qed (simp add: r)
qed

text \<open>What a result of the gate runner says: when every result of a run is a success, every
  command was run, in order, ended with status zero and in time; otherwise the run stopped right
  behind the first command that failed.\<close>

theorem passing_gates_complete:
  assumes "run_gate_commands gn decode exec cwd commands w = (Inr rs, st)"
  shows "map gr_command rs = take (length rs) commands \<and>
    (list_all gate_ok rs \<longrightarrow> map gr_command rs = commands) \<and>
    (\<not> list_all gate_ok rs \<longrightarrow> rs \<noteq> [] \<and> list_all gate_ok (butlast rs) \<and> \<not> gate_ok (last rs))"
  using gate_loop_results [OF assms [unfolded run_gate_commands_def]] by (metis take_all order_refl)

definition demo_gates :: gate_runner where
  "demo_gates = \<lparr>gn_limits = \<lparr>pl_capture = 9, pl_log = 99\<rparr>, gn_sandbox = None, gn_environ = [],
     gn_which = (\<lambda>_. None), gn_policy = no_policy\<rparr>"

text \<open>The n-th command of the run fails when n is zero.\<close>

definition demo_child :: "nat child" where
  "demo_child argv env n = (slow_child\<lparr>pa_timed_out := False, pa_returncode := Some (if n = 0 then 1 else 0)\<rparr>, n - 1)"

lemma passing_gates_complete_witness:
  "\<exists>rs. run_gate_commands demo_gates (map char_of) demo_child [] [''a'', ''b''] 5 = (Inr rs, snd
       (run_gate_commands demo_gates (map char_of) demo_child [] [''a'', ''b''] 5)) \<and>
     map gr_command rs = [''a'', ''b'']"
proof -
  let ?run = "run_gate_commands demo_gates (map char_of) demo_child [] [''a'', ''b''] 5"
  have "case fst ?run of Inl _ \<Rightarrow> False | Inr rs \<Rightarrow> list_all gate_ok rs" by code_simp
  then obtain rs where rs: "fst ?run = Inr rs" "list_all gate_ok rs" by (auto split: sum.splits)
  then have run: "?run = (Inr rs, snd ?run)" by (metis prod.collapse)
  have "map gr_command rs = [''a'', ''b'']" using passing_gates_complete [OF run] rs(2) by blast
  with run show ?thesis by (intro exI conjI)
qed

end
