(* ===== verification/Yolo_Rpc.thy ===== *)
theory Yolo_Rpc
  imports Yolo_Json
begin

text \<open>
  The line protocol between the client (\<open>src/omarchy_yolo/rpc.py\<close>) and the daemon
  (\<open>_handle_client\<close> of \<open>src/omarchy_yolo/daemon.py\<close>): one JSON object per line, bounded in length.
  All texts are ASCII (\<open>json.dumps\<close> escapes the rest), so a code point is a byte. The JSON reader
  is an argument, and so is what the daemon does with a request.
\<close>

section \<open>Compact JSON\<close>

text \<open>\<open>json.dumps(value, separators=(",", ":"))\<close>: escaped, in the order of insertion.\<close>

fun compact_json :: "json \<Rightarrow> code_points" where
  "compact_json JNull = cps ''null''"
| "compact_json (JBool b) = (if b then cps ''true'' else cps ''false'')"
| "compact_json (JInt i) = int_text i"
| "compact_json (JFloat r) = r"
| "compact_json (JStr s) = json_quote True s"
| "compact_json (JArr vs) = cps ''['' @ join_with (cps '','') (map compact_json vs) @ cps '']''"
| "compact_json (JObj kvs) =
     cps ''{'' @
     join_with (cps '','') (map (\<lambda>(k, t). json_quote True k @ cps '':'' @ t) (map (\<lambda>(k, v). (k, compact_json v)) kvs))
     @ cps ''}''"

definition MAX_RPC_MESSAGE_BYTES :: nat where
  "MAX_RPC_MESSAGE_BYTES = 1048576"

definition obj_get :: "(code_points \<times> json) list \<Rightarrow> string \<Rightarrow> json option" where
  "obj_get obj key = map_of obj (cps key)"

fun json_truthy :: "json \<Rightarrow> bool" where
  "json_truthy JNull = False"
| "json_truthy (JBool b) = b"
| "json_truthy (JInt i) = (i \<noteq> 0)"
| "json_truthy (JFloat r) = (r \<notin> {cps ''0.0'', cps ''-0.0''})"
| "json_truthy (JStr s) = (s \<noteq> [])"
| "json_truthy (JArr vs) = (vs \<noteq> [])"
| "json_truthy (JObj kvs) = (kvs \<noteq> [])"

section \<open>The client\<close>

datatype rpc_error = RpcError string | RpcUnavailable string | RpcRemoteError code_points | RpcTimeout

text \<open>What reading a line gives: the bytes (none at the end of the stream), or a line over the limit of the reader.\<close>

datatype line_read = ReadLine code_points | ReadTooLong | ReadTimeout

definition rpc_request :: "code_points \<Rightarrow> code_points \<Rightarrow> json \<Rightarrow> rpc_error + code_points" where
  "rpc_request request_id verb params =
     (let encoded = compact_json (JObj [(cps ''id'', JStr request_id), (cps ''method'', JStr verb),
                                        (cps ''params'', params)]) @ [10]
      in if length encoded > MAX_RPC_MESSAGE_BYTES
         then Inl (RpcError ''RPC request exceeds the maximum message size'') else Inr encoded)"

definition rpc_response ::
  "(code_points \<Rightarrow> json option) \<Rightarrow> (json \<Rightarrow> code_points) \<Rightarrow> code_points \<Rightarrow> line_read \<Rightarrow> rpc_error + json" where
  "rpc_response loads render request_id line =
     (case line of
        ReadTimeout \<Rightarrow> Inl RpcTimeout
      | ReadTooLong \<Rightarrow> Inl (RpcError ''daemon RPC response exceeded the maximum message size'')
      | ReadLine raw \<Rightarrow>
          if raw = [] then Inl (RpcUnavailable ''daemon closed RPC connection without a response'')
          else if length raw > MAX_RPC_MESSAGE_BYTES
          then Inl (RpcError ''daemon RPC response exceeded the maximum message size'')
          else case loads raw of
                 None \<Rightarrow> Inl (RpcError ''daemon returned invalid JSON'')
               | Some (JObj response) \<Rightarrow>
                   if obj_get response ''id'' \<noteq> Some (JStr request_id)
                   then Inl (RpcError ''daemon returned a mismatched RPC response'')
                   else if \<not> (case obj_get response ''ok'' of None \<Rightarrow> False | Some ok \<Rightarrow> json_truthy ok)
                   then Inl (RpcRemoteError
                     (case obj_get response ''error'' of
                        None \<Rightarrow> cps ''unknown daemon error'' | Some (JStr s) \<Rightarrow> s | Some v \<Rightarrow> render v))
                   else Inr (case obj_get response ''result'' of None \<Rightarrow> JNull | Some v \<Rightarrow> v)
               | Some _ \<Rightarrow> Inl (RpcError ''daemon returned an invalid RPC envelope''))"

text \<open>\<open>rpc_call\<close>: \<open>connect\<close> is the connection, the exchange of the request for a line with it.\<close>

definition rpc_call ::
  "(code_points \<Rightarrow> json option) \<Rightarrow> (json \<Rightarrow> code_points) \<Rightarrow> (code_points \<Rightarrow> line_read) option \<Rightarrow> string \<Rightarrow>
   code_points \<Rightarrow> code_points \<Rightarrow> json \<Rightarrow> rpc_error + json" where
  "rpc_call loads render connect socket_path request_id verb params =
     (case connect of
        None \<Rightarrow> Inl (RpcUnavailable (''daemon unavailable at '' @ socket_path))
      | Some exchange \<Rightarrow>
          (case rpc_request request_id verb params of
             Inl e \<Rightarrow> Inl e
           | Inr encoded \<Rightarrow> rpc_response loads render request_id (exchange encoded)))"

section \<open>The daemon\<close>

definition oversize_text :: code_points where
  "oversize_text = cps ''RPC response exceeds the maximum message size''"

definition fallback_reply :: "json \<Rightarrow> code_points" where
  "fallback_reply request_id =
     compact_json (JObj [(cps ''id'', request_id), (cps ''ok'', JBool False), (cps ''error'', JStr oversize_text)]) @ [10]"

definition encode_reply :: "json \<Rightarrow> code_points + json \<Rightarrow> code_points" where
  "encode_reply request_id outcome =
     (let response = JObj (case outcome of
            Inr result \<Rightarrow> [(cps ''id'', request_id), (cps ''ok'', JBool True), (cps ''result'', result)]
          | Inl text \<Rightarrow> [(cps ''id'', request_id), (cps ''ok'', JBool False), (cps ''error'', JStr text)]);
          encoded = compact_json response @ [10]
      in if length encoded > MAX_RPC_MESSAGE_BYTES then fallback_reply request_id else encoded)"

text \<open>
  \<open>_handle_client\<close>: the reply, or the connection is closed without one. \<open>dispatch\<close> is the request
  handler over the state of the daemon, its error being the text of the exception.
\<close>

definition handle_client ::
  "(code_points \<Rightarrow> json option) \<Rightarrow> (code_points \<Rightarrow> (code_points \<times> json) list \<Rightarrow> 's \<Rightarrow> (code_points + json) \<times> 's) \<Rightarrow>
   line_read \<Rightarrow> 's \<Rightarrow> code_points option \<times> 's" where
  "handle_client loads dispatch line s =
     (case line of
        ReadLine raw \<Rightarrow>
          if raw = [] \<or> length raw > MAX_RPC_MESSAGE_BYTES then (None, s)
          else (case loads raw of
                  Some (JObj request) \<Rightarrow>
                    let request_id = (case obj_get request ''id'' of None \<Rightarrow> JNull | Some v \<Rightarrow> v);
                        params = (case obj_get request ''params'' of None \<Rightarrow> JObj [] | Some v \<Rightarrow> v)
                    in (case (obj_get request ''method'', params) of
                          (Some (JStr verb), JObj args) \<Rightarrow>
                            if verb = [] then (None, s)
                            else (case dispatch verb args s of
                                    (outcome, s') \<Rightarrow> (Some (encode_reply request_id outcome), s'))
                        | _ \<Rightarrow> (None, s))
                | _ \<Rightarrow> (None, s))
      | _ \<Rightarrow> (None, s))"

section \<open>Framing\<close>

text \<open>The text of a float has no line break.\<close>

fun floats_plain :: "json \<Rightarrow> bool" where
  "floats_plain (JFloat r) = (10 \<notin> set r)"
| "floats_plain (JArr vs) = list_all floats_plain vs"
| "floats_plain (JObj kvs) = list_all (\<lambda>v. v) (map (\<lambda>(k, v). floats_plain v) kvs)"
| "floats_plain v = True"

lemma set_join_with: "set (join_with sep xs) \<subseteq> set sep \<union> \<Union> (set ` set xs)"
  by (induction sep xs rule: join_with.induct) auto

lemma nat_digits_ge: "x \<in> set (nat_digits n) \<Longrightarrow> 48 \<le> x"
proof (induction n rule: nat_digits.induct)
  case (1 n)
  show ?case
  proof (cases "n < 10")
    case True
    with "1.prems" show ?thesis by (simp add: nat_digits.simps [of n])
  next
    case False
    have "set (nat_digits n) = set (nat_digits (n div 10)) \<union> {48 + n mod 10}"
      using False by (subst nat_digits.simps) simp
    with "1.prems" have "x \<in> set (nat_digits (n div 10)) \<or> x = 48 + n mod 10" by blast
    with "1.IH" [OF False] show ?thesis by auto
  qed
qed

lemma nat_digits_one_line: "10 \<notin> set (nat_digits n)"
proof
  assume "10 \<in> set (nat_digits n)"
  from nat_digits_ge [OF this] show False by simp
qed

lemma int_text_one_line: "10 \<notin> set (int_text i)"
  by (simp add: int_text_def nat_digits_one_line)

text \<open>The fixed parts of the texts.\<close>

lemma json_marks [simp]:
  "cps '','' = [44]" "cps ''['' = [91]" "cps '']'' = [93]" "cps '':'' = [58]" "cps ''{'' = [123]" "cps ''}'' = [125]"
  "10 \<notin> set (cps ''null'')" "10 \<notin> set (cps ''true'')" "10 \<notin> set (cps ''false'')"
  by code_simp+

lemma json_quote_one_line: "10 \<notin> set (json_quote True s)"
  using json_quote_printable [of 10 s] by auto

lemma join_one_line: "10 \<notin> set sep \<Longrightarrow> (\<And>x. x \<in> set xs \<Longrightarrow> 10 \<notin> set x) \<Longrightarrow> 10 \<notin> set (join_with sep xs)"
  using set_join_with [of sep xs] by auto

lemma joined_one_line: "(\<And>x. x \<in> set xs \<Longrightarrow> 10 \<notin> set x) \<Longrightarrow> 10 \<notin> set (join_with (cps '','') xs)"
  by (rule join_one_line) simp_all

lemma compact_json_one_line: "floats_plain v \<Longrightarrow> 10 \<notin> set (compact_json v)"
proof (induction v)
  case (JArr vs)
  then have "\<And>x. x \<in> set (map compact_json vs) \<Longrightarrow> 10 \<notin> set x" by (auto simp: list_all_iff)
  then have "10 \<notin> set (join_with (cps '','') (map compact_json vs))"
    by (rule joined_one_line)
  then show ?case by simp
next
  case (JObj kvs)
  let ?parts = "map (\<lambda>(k, t). json_quote True k @ cps '':'' @ t) (map (\<lambda>(k, v). (k, compact_json v)) kvs)"
  have "10 \<notin> set x" if "x \<in> set ?parts" for x
  proof -
    from that obtain k v where kv: "(k, v) \<in> set kvs" "x = json_quote True k @ cps '':'' @ compact_json v" by auto
    with JObj.prems have "floats_plain v" by (auto simp: list_all_iff)
    with JObj.IH [of "(k, v)" v] kv(1) have "10 \<notin> set (compact_json v)" by (auto simp: snds.simps)
    with kv(2) json_quote_one_line show ?thesis by simp
  qed
  then have "10 \<notin> set (join_with (cps '','') ?parts)" by (rule joined_one_line)
  then show ?case by simp
qed (auto simp: int_text_one_line json_quote_one_line)

section \<open>What the protocol guarantees\<close>

lemma encode_reply_cases:
  "encode_reply request_id outcome = fallback_reply request_id \<or>
   length (encode_reply request_id outcome) \<le> MAX_RPC_MESSAGE_BYTES \<and>
   (\<exists>fields. encode_reply request_id outcome =
      compact_json (JObj ((cps ''id'', request_id) # fields)) @ [10] \<and>
      fields = (case outcome of Inr result \<Rightarrow> [(cps ''ok'', JBool True), (cps ''result'', result)]
                | Inl text \<Rightarrow> [(cps ''ok'', JBool False), (cps ''error'', JStr text)]))"
  by (cases outcome) (simp_all add: encode_reply_def Let_def)

lemma length_fallback: "length (fallback_reply request_id) = length (compact_json request_id) + 75"
  by (simp add: fallback_reply_def) code_simp

text \<open>A reply is one line. Whatever the handler answers, the text the daemon writes ends in its
  only line break, so a client that reads a line reads the whole reply and nothing of another one;
  and it is within the size limit as soon as the identifier of the request is.\<close>

theorem reply_is_one_bounded_line:
  assumes "handle_client loads dispatch line s = (Some reply, t)"
  shows "\<exists>body request_id verb params outcome. reply = body @ [10] \<and>
     dispatch verb params s = (outcome, t) \<and> reply = encode_reply request_id outcome \<and>
     length reply \<le> max MAX_RPC_MESSAGE_BYTES (length (compact_json request_id) + 75) \<and>
     (floats_plain request_id \<and> (\<forall>result. outcome = Inr result \<longrightarrow> floats_plain result) \<longrightarrow> 10 \<notin> set body)"
proof -
  from assms obtain request_id verb params outcome where
    run: "dispatch verb params s = (outcome, t)" "reply = encode_reply request_id outcome"
    by (auto simp: handle_client_def Let_def split: line_read.splits if_splits option.splits json.splits prod.splits)
  from encode_reply_cases [of request_id outcome] show ?thesis
  proof
    assume fb: "encode_reply request_id outcome = fallback_reply request_id"
    let ?body = "compact_json (JObj [(cps ''id'', request_id), (cps ''ok'', JBool False), (cps ''error'', JStr oversize_text)])"
    have "floats_plain request_id \<Longrightarrow> 10 \<notin> set ?body" by (rule compact_json_one_line) simp
    with fb run length_fallback show ?thesis
      by (intro exI [where x = ?body] exI [where x = request_id] exI [where x = verb] exI [where x = params]
          exI [where x = outcome]) (simp add: fallback_reply_def)
  next
    let ?fields = "case outcome of Inr result \<Rightarrow> [(cps ''ok'', JBool True), (cps ''result'', result)]
                | Inl text \<Rightarrow> [(cps ''ok'', JBool False), (cps ''error'', JStr text)]"
    let ?body = "compact_json (JObj ((cps ''id'', request_id) # ?fields))"
    assume "length (encode_reply request_id outcome) \<le> MAX_RPC_MESSAGE_BYTES \<and>
      (\<exists>fields. encode_reply request_id outcome = compact_json (JObj ((cps ''id'', request_id) # fields)) @ [10] \<and>
        fields = ?fields)"
    then have enc: "encode_reply request_id outcome = ?body @ [10]" "length (?body @ [10]) \<le> MAX_RPC_MESSAGE_BYTES"
      by auto
    have "floats_plain request_id \<and> (\<forall>result. outcome = Inr result \<longrightarrow> floats_plain result) \<Longrightarrow> 10 \<notin> set ?body"
      by (rule compact_json_one_line) (cases outcome; simp)
    with enc run show ?thesis
      by (intro exI [where x = ?body] exI [where x = request_id] exI [where x = verb] exI [where x = params]
          exI [where x = outcome]) (auto simp: max_def)
  qed
qed

text \<open>The answer of a daemon to a short request.\<close>

definition demo_dispatch :: "code_points \<Rightarrow> (code_points \<times> json) list \<Rightarrow> unit \<Rightarrow> (code_points + json) \<times> unit" where
  "demo_dispatch verb params s = (if verb = cps ''ping'' then Inr (JInt 7) else Inl (cps ''unknown''), s)"

definition demo_loads :: "code_points \<Rightarrow> json option" where
  "demo_loads raw =
     (if raw = cps ''ask'' then Some (JObj [(cps ''id'', JStr (cps ''a'')), (cps ''method'', JStr (cps ''ping''))]) else None)"

lemma reply_is_one_bounded_line_witness:
  "\<exists>reply body. fst (handle_client demo_loads demo_dispatch (ReadLine (cps ''ask'')) ()) = Some reply \<and>
     reply = body @ [10] \<and> length reply \<le> MAX_RPC_MESSAGE_BYTES"
proof -
  let ?reply = "compact_json (JObj [(cps ''id'', JStr (cps ''a'')), (cps ''ok'', JBool True), (cps ''result'', JInt 7)]) @ [10]"
  have len: "length ?reply = 32" by code_simp
  then have short: "\<not> length ?reply > MAX_RPC_MESSAGE_BYTES" by (simp add: MAX_RPC_MESSAGE_BYTES_def)
  have enc: "encode_reply (JStr (cps ''a'')) (Inr (JInt 7)) = ?reply"
    using short by (simp only: encode_reply_def sum.case Let_def if_False)
  have ask: "length (cps ''ask'') = 3" "cps ''ask'' \<noteq> []" by code_simp+
  have req: "demo_loads (cps ''ask'') = Some (JObj [(cps ''id'', JStr (cps ''a'')), (cps ''method'', JStr (cps ''ping''))])"
    by (simp add: demo_loads_def)
  have gets: "obj_get [(cps ''id'', JStr (cps ''a'')), (cps ''method'', JStr (cps ''ping''))] ''id'' = Some (JStr (cps ''a''))"
    "obj_get [(cps ''id'', JStr (cps ''a'')), (cps ''method'', JStr (cps ''ping''))] ''params'' = None"
    "obj_get [(cps ''id'', JStr (cps ''a'')), (cps ''method'', JStr (cps ''ping''))] ''method'' = Some (JStr (cps ''ping''))"
    "cps ''ping'' \<noteq> []" by code_simp+
  have run: "handle_client demo_loads demo_dispatch (ReadLine (cps ''ask'')) () = (Some ?reply, ())"
    using ask gets by (simp add: handle_client_def req demo_dispatch_def enc MAX_RPC_MESSAGE_BYTES_def del: compact_json.simps)
  have "length ?reply \<le> MAX_RPC_MESSAGE_BYTES" using short by simp
  with reply_is_one_bounded_line [OF run] run show ?thesis by auto
qed

text \<open>The reply that replaces an oversized one repeats the identifier of the request, so it can
  itself be over the limit: there is a request within the limit, refused as an unknown method, whose
  reply the client must reject as too long.\<close>

theorem replacement_reply_oversized:
  "\<exists>request_id. length (compact_json (JObj [(cps ''id'', request_id), (cps ''method'', JStr (cps ''x''))]) @ [10])
       \<le> MAX_RPC_MESSAGE_BYTES \<and>
     length (encode_reply request_id (Inl (cps ''unknown RPC method: x''))) > MAX_RPC_MESSAGE_BYTES"
proof -
  let ?id = "JStr (replicate (1048576 - 40) 97)"
  have id: "length (compact_json ?id) = 1048576 - 38"
    by (simp add: json_quote_def json_escape_char_def length_concat comp_def sum_list_replicate)
  have "length (compact_json (JObj [(cps ''id'', ?id), (cps ''method'', JStr (cps ''x''))]) @ [10])
      = length (compact_json ?id) + length (compact_json (JObj [(cps ''id'', JArr []), (cps ''method'', JStr (cps ''x''))]) @ [10]) - 2"
    by simp
  also have "length (compact_json (JObj [(cps ''id'', JArr []), (cps ''method'', JStr (cps ''x''))]) @ [10]) = 23"
    by code_simp
  finally have "length (compact_json (JObj [(cps ''id'', ?id), (cps ''method'', JStr (cps ''x''))]) @ [10])
      \<le> MAX_RPC_MESSAGE_BYTES" using id by (simp add: MAX_RPC_MESSAGE_BYTES_def)
  moreover have "length (encode_reply ?id (Inl (cps ''unknown RPC method: x''))) > MAX_RPC_MESSAGE_BYTES"
  proof -
    have "length (compact_json (JObj [(cps ''id'', ?id), (cps ''ok'', JBool False), (cps ''error'', JStr (cps ''unknown RPC method: x''))]) @ [10])
      = length (compact_json ?id) + length (compact_json (JObj [(cps ''id'', JArr []), (cps ''ok'', JBool False), (cps ''error'', JStr (cps ''unknown RPC method: x''))]) @ [10]) - 2"
      by simp
    also have "length (compact_json (JObj [(cps ''id'', JArr []), (cps ''ok'', JBool False), (cps ''error'', JStr (cps ''unknown RPC method: x''))]) @ [10]) = 53"
      by code_simp
    finally have "length (compact_json (JObj [(cps ''id'', ?id), (cps ''ok'', JBool False), (cps ''error'', JStr (cps ''unknown RPC method: x''))]) @ [10])
      > MAX_RPC_MESSAGE_BYTES" using id by (simp add: MAX_RPC_MESSAGE_BYTES_def)
    then show ?thesis using length_fallback [of ?id] id
      by (simp only: encode_reply_def sum.case Let_def if_True) (simp add: MAX_RPC_MESSAGE_BYTES_def)
  qed
  ultimately show ?thesis by blast
qed

end
