(* ===== verification/Yolo_Runtime.thy ===== *)
theory Yolo_Runtime
  imports Yolo_Json "HOL-Library.AList"
begin

text \<open>
  The resource coordinator of \<open>src/omarchy_yolo/runtime.py\<close>: the worker slots (a semaphore) and
  one lock per repository, both shared by all jobs of the daemon. A client is one use of a
  context manager by a coroutine. Between two \<open>await\<close>s a coroutine runs alone, so each part of the
  code from one suspension to the next is one step: entering (with the lock free, or to wait),
  being woken, being cancelled while waiting, and leaving. The queues and the hand-over are those
  of \<open>asyncio.Semaphore\<close> and \<open>asyncio.Lock\<close>, which serve their waiters in order. The lock objects
  live in a heap, since the dictionary and the waiting coroutines share them by reference.
\<close>

type_synonym client = nat

section \<open>Worker slots\<close>

text \<open>
  \<open>sl_free\<close> and \<open>sl_queue\<close> are the value and the waiters of the semaphore, with the time each began
  to wait; \<open>sl_held\<close> are the coroutines inside the section, with the time they got the slot (their
  local variables). The rest are the counters of the class.
\<close>

record slots =
  sl_max :: nat
  sl_free :: nat
  sl_queue :: "(client \<times> timestamp) list"
  sl_held :: "(client \<times> timestamp) list"
  sl_active :: int
  sl_waiting :: int
  sl_acquisitions :: int
  sl_cancelled :: int
  sl_wait_seconds :: timestamp
  sl_busy_seconds :: timestamp
  sl_peak :: int

definition init_slots :: "int \<Rightarrow> py_error + slots" where
  "init_slots n =
     (if n < 1 then Inl (ValueError ''max_workers must be positive'')
      else Inr \<lparr>sl_max = nat n, sl_free = nat n, sl_queue = [], sl_held = [], sl_active = 0,
                sl_waiting = 0, sl_acquisitions = 0, sl_cancelled = 0, sl_wait_seconds = 0,
                sl_busy_seconds = 0, sl_peak = 0\<rparr>)"

text \<open>What runs once \<open>acquire\<close> has returned, up to the body.\<close>

definition slot_acquired :: "timestamp \<Rightarrow> timestamp \<Rightarrow> client \<Rightarrow> slots \<Rightarrow> slots" where
  "slot_acquired now queued_at c s =
     (let s1 = s\<lparr>sl_waiting := sl_waiting s - 1,
                sl_wait_seconds := sl_wait_seconds s + (now - queued_at),
                sl_acquisitions := sl_acquisitions s + 1,
                sl_active := sl_active s + 1\<rparr>
      in s1\<lparr>sl_peak := max (sl_peak s1) (sl_active s1), sl_held := (c, now) # sl_held s1\<rparr>)"

definition slot_enter :: "timestamp \<Rightarrow> timestamp \<Rightarrow> client \<Rightarrow> slots \<Rightarrow> slots" where
  "slot_enter now now' c s =
     (let s1 = s\<lparr>sl_waiting := sl_waiting s + 1\<rparr>
      in if sl_free s1 > 0 \<and> sl_queue s1 = []
         then slot_acquired now' now c (s1\<lparr>sl_free := sl_free s1 - 1\<rparr>)
         else s1\<lparr>sl_queue := sl_queue s1 @ [(c, now)]\<rparr>)"

text \<open>The first waiter is woken when a slot is free.\<close>

definition slot_wake :: "timestamp \<Rightarrow> slots \<Rightarrow> slots option" where
  "slot_wake now s =
     (case sl_queue s of
        [] \<Rightarrow> None
      | (c, queued_at) # rest \<Rightarrow>
          if sl_free s > 0
          then Some (slot_acquired now queued_at c (s\<lparr>sl_queue := rest, sl_free := sl_free s - 1\<rparr>))
          else None)"

text \<open>A cancelled waiter runs the outer \<open>finally\<close> with \<open>acquired\<close> false.\<close>

definition slot_cancel :: "timestamp \<Rightarrow> client \<Rightarrow> slots \<Rightarrow> slots option" where
  "slot_cancel now c s =
     (case map_of (sl_queue s) c of
        None \<Rightarrow> None
      | Some queued_at \<Rightarrow>
          Some (s\<lparr>sl_queue := AList.delete c (sl_queue s),
                  sl_waiting := sl_waiting s - 1,
                  sl_wait_seconds := sl_wait_seconds s + (now - queued_at),
                  sl_cancelled := sl_cancelled s + 1\<rparr>))"

text \<open>The inner \<open>finally\<close>, however the body ended.\<close>

definition slot_exit :: "timestamp \<Rightarrow> client \<Rightarrow> slots \<Rightarrow> slots option" where
  "slot_exit now c s =
     (case map_of (sl_held s) c of
        None \<Rightarrow> None
      | Some active_at \<Rightarrow>
          Some (s\<lparr>sl_held := AList.delete c (sl_held s),
                  sl_busy_seconds := sl_busy_seconds s + (now - active_at),
                  sl_active := sl_active s - 1,
                  sl_free := sl_free s + 1\<rparr>))"

inductive slot_step :: "slots \<Rightarrow> slots \<Rightarrow> bool" where
  slot_step_enter:
    "c \<notin> fst ` set (sl_queue s) \<Longrightarrow> c \<notin> fst ` set (sl_held s) \<Longrightarrow> slot_step s (slot_enter now now' c s)"
| slot_step_wake: "slot_wake now s = Some s' \<Longrightarrow> slot_step s s'"
| slot_step_cancel: "slot_cancel now c s = Some s' \<Longrightarrow> slot_step s s'"
| slot_step_exit: "slot_exit now c s = Some s' \<Longrightarrow> slot_step s s'"

definition slots_ok :: "nat \<Rightarrow> slots \<Rightarrow> bool" where
  "slots_ok n s \<longleftrightarrow>
     sl_max s = n \<and> sl_free s + length (sl_held s) = n \<and>
     sl_active s = int (length (sl_held s)) \<and> sl_waiting s = int (length (sl_queue s)) \<and>
     sl_active s \<le> sl_peak s \<and> sl_peak s \<le> int n \<and>
     distinct (map fst (sl_held s)) \<and> distinct (map fst (sl_queue s)) \<and>
     (\<forall>c \<in> fst ` set (sl_held s). c \<notin> fst ` set (sl_queue s))"

lemma init_slots_ok: "init_slots k = Inr s \<Longrightarrow> slots_ok (nat k) s"
  by (auto simp: init_slots_def slots_ok_def split: if_splits)

lemma length_AList_delete:
  "distinct (map fst xs) \<Longrightarrow> map_of xs k = Some v \<Longrightarrow> Suc (length (AList.delete k xs)) = length xs"
proof (induction xs)
  case (Cons x xs)
  show ?case
  proof (cases "fst x = k")
    case True
    with Cons.prems have "k \<notin> fst ` set xs" by simp
    then have "AList.delete k xs = xs" by (simp add: delete_id)
    with True show ?thesis by (cases x) simp
  next
    case False
    with Cons show ?thesis by (cases x) auto
  qed
qed simp

lemma distinct_AList_delete: "distinct (map fst xs) \<Longrightarrow> distinct (map fst (AList.delete k xs))"
  by (simp add: delete_keys distinct_removeAll)

lemma keys_AList_delete: "fst ` set (AList.delete k xs) = fst ` set xs - {k}"
proof -
  have "set (map fst (AList.delete k xs)) = set (map fst xs) - {k}" by (simp add: delete_keys)
  then show ?thesis by simp
qed

lemma slot_step_ok: "slot_step s s' \<Longrightarrow> slots_ok n s \<Longrightarrow> slots_ok n s'"
proof (induction rule: slot_step.induct)
  case (slot_step_enter c s now now')
  then show ?case by (auto simp: slots_ok_def slot_enter_def slot_acquired_def Let_def)
next
  case (slot_step_wake now s s')
  then show ?case
    by (auto simp: slots_ok_def slot_wake_def slot_acquired_def Let_def split: list.splits if_splits) force+
next
  case (slot_step_cancel now c s s')
  then obtain q where q: "map_of (sl_queue s) c = Some q"
    and s': "s' = s\<lparr>sl_queue := AList.delete c (sl_queue s), sl_waiting := sl_waiting s - 1,
      sl_wait_seconds := sl_wait_seconds s + (now - q), sl_cancelled := sl_cancelled s + 1\<rparr>"
    by (auto simp: slot_cancel_def split: option.splits)
  from slot_step_cancel.prems have "distinct (map fst (sl_queue s))" by (simp add: slots_ok_def)
  from length_AList_delete [OF this q] slot_step_cancel.prems show ?case
    by (auto simp: slots_ok_def s' distinct_AList_delete keys_AList_delete)
next
  case (slot_step_exit now c s s')
  then obtain a where a: "map_of (sl_held s) c = Some a"
    and s': "s' = s\<lparr>sl_held := AList.delete c (sl_held s), sl_busy_seconds := sl_busy_seconds s + (now - a),
      sl_active := sl_active s - 1, sl_free := sl_free s + 1\<rparr>"
    by (auto simp: slot_exit_def split: option.splits)
  from slot_step_exit.prems have "distinct (map fst (sl_held s))" by (simp add: slots_ok_def)
  from length_AList_delete [OF this a] slot_step_exit.prems show ?case
    by (auto simp: slots_ok_def s' distinct_AList_delete keys_AList_delete)
qed

lemma slot_run_ok: "slot_step\<^sup>*\<^sup>* s s' \<Longrightarrow> slots_ok n s \<Longrightarrow> slots_ok n s'"
  by (induction rule: rtranclp_induct) (auto intro: slot_step_ok)

section \<open>Repository locks\<close>

text \<open>
  A lock object: the coroutine inside the section, with the time it got the lock, and the waiters
  in order, with the time each began to wait.
\<close>

record repo_lock_object =
  lk_holder :: "(client \<times> timestamp) option"
  lk_queue :: "(client \<times> timestamp) list"

definition fresh_lock :: repo_lock_object where
  "fresh_lock = \<lparr>lk_holder = None, lk_queue = []\<rparr>"

definition lk_locked :: "repo_lock_object \<Rightarrow> bool" where
  "lk_locked lk \<longleftrightarrow> lk_holder lk \<noteq> None"

text \<open>
  \<open>rp_frames\<close> are the local variables \<open>key\<close> and \<open>lock\<close> of the coroutines that are in the context
  manager; \<open>rp_heap\<close> and \<open>rp_next\<close> are the lock objects and the next free reference.
\<close>

record repos =
  rp_locks :: "(string \<times> nat) list"
  rp_waiters :: "(string \<times> int) list"
  rp_active :: "string list"
  rp_acquisitions :: int
  rp_cancelled :: int
  rp_wait_seconds :: timestamp
  rp_busy_seconds :: timestamp
  rp_heap :: "nat \<Rightarrow> repo_lock_object"
  rp_next :: nat
  rp_frames :: "client \<Rightarrow> (string \<times> nat) option"

definition init_repos :: repos where
  "init_repos = \<lparr>rp_locks = [], rp_waiters = [], rp_active = [], rp_acquisitions = 0, rp_cancelled = 0,
     rp_wait_seconds = 0, rp_busy_seconds = 0, rp_heap = (\<lambda>_. fresh_lock), rp_next = 0,
     rp_frames = (\<lambda>_. None)\<rparr>"

definition waiters_of :: "repos \<Rightarrow> string \<Rightarrow> int" where
  "waiters_of rp key = (case map_of (rp_waiters rp) key of None \<Rightarrow> 0 | Some n \<Rightarrow> n)"

text \<open>\<open>self._repo_waiters[key] -= 1\<close>, a \<open>KeyError\<close> when the entry is gone.\<close>

definition drop_waiter :: "string \<Rightarrow> repos \<Rightarrow> py_error + repos" where
  "drop_waiter key rp =
     (case map_of (rp_waiters rp) key of
        None \<Rightarrow> Inl (KeyError key)
      | Some n \<Rightarrow> Inr (rp\<lparr>rp_waiters := AList.update key (n - 1) (rp_waiters rp)\<rparr>))"

definition repo_acquired ::
  "timestamp \<Rightarrow> timestamp \<Rightarrow> client \<Rightarrow> string \<Rightarrow> nat \<Rightarrow> repos \<Rightarrow> py_error + repos" where
  "repo_acquired now queued_at c key ref rp =
     (let rp1 = rp\<lparr>rp_heap := (rp_heap rp)(ref := (rp_heap rp ref)\<lparr>lk_holder := Some (c, now)\<rparr>)\<rparr>
      in rbind (drop_waiter key rp1) (\<lambda>rp2.
         Inr (rp2\<lparr>rp_wait_seconds := rp_wait_seconds rp2 + (now - queued_at),
                  rp_acquisitions := rp_acquisitions rp2 + 1,
                  rp_active := List.insert key (rp_active rp2)\<rparr>)))"

text \<open>\<open>self._repo_locks.setdefault(key, asyncio.Lock())\<close>.\<close>

definition lock_for :: "string \<Rightarrow> repos \<Rightarrow> nat \<times> repos" where
  "lock_for key rp =
     (case map_of (rp_locks rp) key of
        Some ref \<Rightarrow> (ref, rp)
      | None \<Rightarrow> (rp_next rp,
          rp\<lparr>rp_locks := AList.update key (rp_next rp) (rp_locks rp),
             rp_heap := (rp_heap rp)(rp_next rp := fresh_lock), rp_next := rp_next rp + 1\<rparr>))"

definition repo_enter ::
  "timestamp \<Rightarrow> timestamp \<Rightarrow> client \<Rightarrow> string \<Rightarrow> repos \<Rightarrow> py_error + repos" where
  "repo_enter now now' c key rp =
     (case lock_for key rp of (ref, rp1) \<Rightarrow>
        let rp2 = rp1\<lparr>rp_waiters := AList.update key (waiters_of rp1 key + 1) (rp_waiters rp1),
                      rp_frames := (rp_frames rp1)(c \<mapsto> (key, ref))\<rparr>;
            lk = rp_heap rp2 ref
        in if \<not> lk_locked lk \<and> lk_queue lk = []
           then repo_acquired now' now c key ref rp2
           else Inr (rp2\<lparr>rp_heap := (rp_heap rp2)(ref := lk\<lparr>lk_queue := lk_queue lk @ [(c, now)]\<rparr>)\<rparr>))"

text \<open>The waiter \<open>c\<close> is woken: the lock is free and it is the first of the queue.\<close>

definition repo_wake :: "timestamp \<Rightarrow> client \<Rightarrow> repos \<Rightarrow> (py_error + repos) option" where
  "repo_wake now c rp =
     (case rp_frames rp c of
        None \<Rightarrow> None
      | Some (key, ref) \<Rightarrow>
          (case lk_queue (rp_heap rp ref) of
             [] \<Rightarrow> None
           | (d, queued_at) # rest \<Rightarrow>
               if d = c \<and> \<not> lk_locked (rp_heap rp ref)
               then Some (repo_acquired now queued_at c key ref
                      (rp\<lparr>rp_heap := (rp_heap rp)(ref := (rp_heap rp ref)\<lparr>lk_queue := rest\<rparr>)\<rparr>))
               else None))"

text \<open>The end of the outer \<open>finally\<close>: the entries of an idle repository are dropped.\<close>

definition forget_idle :: "string \<Rightarrow> nat \<Rightarrow> repos \<Rightarrow> repos" where
  "forget_idle key ref rp =
     (if map_of (rp_waiters rp) key = Some 0
      then let rp1 = rp\<lparr>rp_waiters := AList.delete key (rp_waiters rp)\<rparr>
           in if lk_locked (rp_heap rp1 ref) then rp1
              else rp1\<lparr>rp_locks := AList.delete key (rp_locks rp1)\<rparr>
      else rp)"

definition repo_exit :: "timestamp \<Rightarrow> client \<Rightarrow> repos \<Rightarrow> repos option" where
  "repo_exit now c rp =
     (case rp_frames rp c of
        None \<Rightarrow> None
      | Some (key, ref) \<Rightarrow>
          (case lk_holder (rp_heap rp ref) of
             None \<Rightarrow> None
           | Some (d, active_at) \<Rightarrow>
               if d = c then
                 Some (forget_idle key ref
                   (rp\<lparr>rp_busy_seconds := rp_busy_seconds rp + (now - active_at),
                       rp_active := removeAll key (rp_active rp),
                       rp_heap := (rp_heap rp)(ref := (rp_heap rp ref)\<lparr>lk_holder := None\<rparr>),
                       rp_frames := (rp_frames rp)(c := None)\<rparr>))
               else None))"

definition repo_cancel :: "timestamp \<Rightarrow> client \<Rightarrow> repos \<Rightarrow> (py_error + repos) option" where
  "repo_cancel now c rp =
     (case rp_frames rp c of
        None \<Rightarrow> None
      | Some (key, ref) \<Rightarrow>
          (case map_of (lk_queue (rp_heap rp ref)) c of
             None \<Rightarrow> None
           | Some queued_at \<Rightarrow>
               Some (rbind (drop_waiter key
                 (rp\<lparr>rp_heap := (rp_heap rp)(ref := (rp_heap rp ref)\<lparr>lk_queue :=
                        AList.delete c (lk_queue (rp_heap rp ref))\<rparr>),
                     rp_frames := (rp_frames rp)(c := None)\<rparr>)) (\<lambda>rp1.
                 Inr (forget_idle key ref
                   (rp1\<lparr>rp_wait_seconds := rp_wait_seconds rp1 + (now - queued_at),
                        rp_cancelled := rp_cancelled rp1 + 1\<rparr>))))))"

inductive repo_step :: "repos \<Rightarrow> repos \<Rightarrow> bool" where
  repo_step_enter:
    "rp_frames rp c = None \<Longrightarrow> repo_enter now now' c key rp = Inr rp' \<Longrightarrow> repo_step rp rp'"
| repo_step_wake: "repo_wake now c rp = Some (Inr rp') \<Longrightarrow> repo_step rp rp'"
| repo_step_cancel: "repo_cancel now c rp = Some (Inr rp') \<Longrightarrow> repo_step rp rp'"
| repo_step_exit: "repo_exit now c rp = Some rp' \<Longrightarrow> repo_step rp rp'"

text \<open>The coroutines at a lock, the one inside first.\<close>

definition lock_clients :: "repo_lock_object \<Rightarrow> client list" where
  "lock_clients lk = (case lk_holder lk of None \<Rightarrow> [] | Some (c, _) \<Rightarrow> [c]) @ map fst (lk_queue lk)"

definition frames_ok :: "repos \<Rightarrow> bool" where
  "frames_ok rp \<longleftrightarrow>
     (\<forall>c key ref. rp_frames rp c = Some (key, ref) \<longleftrightarrow>
        map_of (rp_locks rp) key = Some ref \<and> c \<in> set (lock_clients (rp_heap rp ref)))"

definition locks_ok :: "repos \<Rightarrow> bool" where
  "locks_ok rp \<longleftrightarrow>
     (\<forall>key ref. map_of (rp_locks rp) key = Some ref \<longrightarrow>
        ref < rp_next rp \<and> distinct (lock_clients (rp_heap rp ref)) \<and>
        waiters_of rp key = int (length (lk_queue (rp_heap rp ref))) \<and>
        (key \<in> set (rp_active rp) \<longleftrightarrow> lk_locked (rp_heap rp ref)) \<and>
        (\<forall>key'. map_of (rp_locks rp) key' = Some ref \<longrightarrow> key' = key))"

definition tables_ok :: "repos \<Rightarrow> bool" where
  "tables_ok rp \<longleftrightarrow>
     (\<forall>key. map_of (rp_locks rp) key = None \<longrightarrow>
        map_of (rp_waiters rp) key = None \<and> key \<notin> set (rp_active rp)) \<and>
     distinct (rp_active rp)"

definition repos_ok :: "repos \<Rightarrow> bool" where
  "repos_ok rp \<longleftrightarrow> frames_ok rp \<and> locks_ok rp \<and> tables_ok rp"

lemma init_repos_ok: "repos_ok init_repos"
  by (simp add: repos_ok_def frames_ok_def locks_ok_def tables_ok_def init_repos_def)

text \<open>
  A step works on one key and its lock object: what it has to keep for the invariant. The entry
  of the key either stays, or is dropped together with its counters.
\<close>

definition stays_ok :: "string \<Rightarrow> nat \<Rightarrow> repos \<Rightarrow> bool" where
  "stays_ok key ref rp \<longleftrightarrow>
     map_of (rp_locks rp) key = Some ref \<and> distinct (lock_clients (rp_heap rp ref)) \<and>
     waiters_of rp key = int (length (lk_queue (rp_heap rp ref))) \<and>
     (key \<in> set (rp_active rp) \<longleftrightarrow> lk_locked (rp_heap rp ref))"

definition dropped_ok :: "string \<Rightarrow> nat \<Rightarrow> repos \<Rightarrow> bool" where
  "dropped_ok key ref rp \<longleftrightarrow>
     map_of (rp_locks rp) key = None \<and> map_of (rp_waiters rp) key = None \<and>
     key \<notin> set (rp_active rp) \<and> lock_clients (rp_heap rp ref) = []"

definition same_elsewhere :: "string \<Rightarrow> nat \<Rightarrow> repos \<Rightarrow> repos \<Rightarrow> bool" where
  "same_elsewhere key ref rp rp' \<longleftrightarrow>
     (\<forall>k. k \<noteq> key \<longrightarrow> map_of (rp_locks rp') k = map_of (rp_locks rp) k \<and>
        map_of (rp_waiters rp') k = map_of (rp_waiters rp) k \<and>
        (k \<in> set (rp_active rp') \<longleftrightarrow> k \<in> set (rp_active rp))) \<and>
     (\<forall>r. r \<noteq> ref \<longrightarrow> rp_heap rp' r = rp_heap rp r) \<and> rp_next rp' = rp_next rp \<and>
     (distinct (rp_active rp) \<longrightarrow> distinct (rp_active rp'))"

definition frames_move :: "string \<Rightarrow> nat \<Rightarrow> repos \<Rightarrow> repos \<Rightarrow> bool" where
  "frames_move key ref rp rp' \<longleftrightarrow>
     (\<forall>d. rp_frames rp' d =
        (if d \<in> set (lock_clients (rp_heap rp' ref)) then Some (key, ref)
         else if rp_frames rp d = Some (key, ref) then None else rp_frames rp d)) \<and>
     (\<forall>d \<in> set (lock_clients (rp_heap rp' ref)). rp_frames rp d \<in> {None, Some (key, ref)})"

lemma repos_ok_local:
  assumes ok: "repos_ok rp" and ref: "map_of (rp_locks rp) key = Some ref"
    and same: "same_elsewhere key ref rp rp'" and frames: "frames_move key ref rp rp'"
    and here: "stays_ok key ref rp' \<or> dropped_ok key ref rp'"
  shows "repos_ok rp'"
proof -
  have inj: "map_of (rp_locks rp) k = Some ref \<Longrightarrow> k = key" for k
    using ok ref by (auto simp: repos_ok_def locks_ok_def)
  have other: "map_of (rp_locks rp') k = map_of (rp_locks rp) k" "map_of (rp_waiters rp') k = map_of (rp_waiters rp) k"
    "k \<in> set (rp_active rp') \<longleftrightarrow> k \<in> set (rp_active rp)" if "k \<noteq> key" for k
    using same that by (auto simp: same_elsewhere_def)
  have heap: "rp_heap rp' r = rp_heap rp r" if "r \<noteq> ref" for r using same that by (simp add: same_elsewhere_def)
  have key': "map_of (rp_locks rp') key \<in> {None, Some ref}" using here by (auto simp: stays_ok_def dropped_ok_def)
  have old: "rp_frames rp c = Some (k, r) \<longleftrightarrow> map_of (rp_locks rp) k = Some r \<and> c \<in> set (lock_clients (rp_heap rp r))"
    for c k r using ok by (simp add: repos_ok_def frames_ok_def)
  have "frames_ok rp'"
    unfolding frames_ok_def
  proof (intro allI)
    fix c k r
    show "rp_frames rp' c = Some (k, r) \<longleftrightarrow>
        map_of (rp_locks rp') k = Some r \<and> c \<in> set (lock_clients (rp_heap rp' r))"
    proof (cases "k = key")
      case True
      then show ?thesis
        using frames here key' old [of c key r] ref
        by (auto simp: frames_move_def stays_ok_def dropped_ok_def split: if_splits)
    next
      case False
      then have "map_of (rp_locks rp) k = Some r \<Longrightarrow> r \<noteq> ref" using inj by auto
      then show ?thesis
        using False frames other(1) [OF False] heap [of r] old [of c k r]
        by (auto simp: frames_move_def split: if_splits)
    qed
  qed
  moreover have "locks_ok rp'"
    unfolding locks_ok_def
  proof (intro allI impI)
    fix k r assume k: "map_of (rp_locks rp') k = Some r"
    have lt: "ref < rp_next rp" using ok ref by (auto simp: repos_ok_def locks_ok_def)
    show "r < rp_next rp' \<and> distinct (lock_clients (rp_heap rp' r)) \<and>
        waiters_of rp' k = int (length (lk_queue (rp_heap rp' r))) \<and>
        (k \<in> set (rp_active rp') \<longleftrightarrow> lk_locked (rp_heap rp' r)) \<and>
        (\<forall>key'. map_of (rp_locks rp') key' = Some r \<longrightarrow> key' = k)"
    proof (cases "k = key")
      case True
      with k key' have "r = ref" by auto
      moreover have "map_of (rp_locks rp') k' = Some ref \<Longrightarrow> k' = key" for k'
        using other(1) [of k'] inj [of k'] by (cases "k' = key") auto
      ultimately show ?thesis
        using True k here lt same by (auto simp: stays_ok_def dropped_ok_def same_elsewhere_def)
    next
      case False
      then have k0: "map_of (rp_locks rp) k = Some r" and r: "r \<noteq> ref"
        using k other(1) [OF False] inj [of k] by auto
      have old_r: "r < rp_next rp \<and> distinct (lock_clients (rp_heap rp r)) \<and>
          waiters_of rp k = int (length (lk_queue (rp_heap rp r))) \<and>
          (k \<in> set (rp_active rp) \<longleftrightarrow> lk_locked (rp_heap rp r))"
        and only: "\<And>k'. map_of (rp_locks rp) k' = Some r \<Longrightarrow> k' = k"
        using ok k0 unfolding repos_ok_def locks_ok_def by blast+
      have "map_of (rp_locks rp') k' = Some r \<Longrightarrow> k' = k" for k'
        using other(1) [of k'] key' only [of k'] r by (cases "k' = key") auto
      moreover have "waiters_of rp' k = waiters_of rp k" by (simp add: waiters_of_def other(2) [OF False])
      moreover have "rp_next rp' = rp_next rp" using same by (simp add: same_elsewhere_def)
      ultimately show ?thesis using old_r unfolding heap [OF r] other(3) [OF False] by simp
    qed
  qed
  moreover have "tables_ok rp'"
    unfolding tables_ok_def
  proof (intro conjI allI impI)
    fix k assume none: "map_of (rp_locks rp') k = None"
    have "map_of (rp_waiters rp') k = None \<and> k \<notin> set (rp_active rp')"
    proof (cases "k = key")
      case True
      with none here show ?thesis by (auto simp: stays_ok_def dropped_ok_def)
    next
      case False
      with none other(1) [OF False] ok show ?thesis
        unfolding other(2,3) [OF False] by (simp add: repos_ok_def tables_ok_def)
    qed
    then show "map_of (rp_waiters rp') k = None" "k \<notin> set (rp_active rp')" by auto
  qed (use ok same in \<open>simp add: repos_ok_def tables_ok_def same_elsewhere_def\<close>)
  ultimately show ?thesis by (simp add: repos_ok_def)
qed

lemma lock_for_ok:
  assumes ok: "repos_ok rp" and l: "lock_for key rp = (ref, rp1)"
  shows "repos_ok rp1 \<and> map_of (rp_locks rp1) key = Some ref \<and> rp_frames rp1 = rp_frames rp"
proof (cases "map_of (rp_locks rp) key")
  case (Some r)
  with l ok show ?thesis by (auto simp: lock_for_def)
next
  case None
  with l have ref: "ref = rp_next rp" and rp1: "rp1 = rp\<lparr>rp_locks := AList.update key (rp_next rp) (rp_locks rp),
      rp_heap := (rp_heap rp)(rp_next rp := fresh_lock), rp_next := rp_next rp + 1\<rparr>"
    by (auto simp: lock_for_def)
  have new: "map_of (rp_locks rp) k = Some r \<Longrightarrow> r < rp_next rp" for k r
    using ok by (auto simp: repos_ok_def locks_ok_def)
  have gone: "map_of (rp_waiters rp) key = None" "key \<notin> set (rp_active rp)"
    using ok None by (auto simp: repos_ok_def tables_ok_def)
  have "frames_ok rp1"
    using ok None new unfolding frames_ok_def repos_ok_def rp1
    by (simp add: update_conv' fresh_lock_def lock_clients_def) (metis less_irrefl option.distinct(1))
  moreover have "locks_ok rp1"
    unfolding locks_ok_def
  proof (intro allI impI)
    fix k r assume k: "map_of (rp_locks rp1) k = Some r"
    show "r < rp_next rp1 \<and> distinct (lock_clients (rp_heap rp1 r)) \<and>
        waiters_of rp1 k = int (length (lk_queue (rp_heap rp1 r))) \<and>
        (k \<in> set (rp_active rp1) \<longleftrightarrow> lk_locked (rp_heap rp1 r)) \<and>
        (\<forall>key'. map_of (rp_locks rp1) key' = Some r \<longrightarrow> key' = k)"
    proof (cases "k = key")
      case True
      with k gone show ?thesis
        by (auto simp: rp1 update_conv' fresh_lock_def lock_clients_def lk_locked_def waiters_of_def
            dest: new split: if_splits)
    next
      case False
      with k have k0: "map_of (rp_locks rp) k = Some r" by (simp add: rp1 update_conv')
      from new [OF k0] have r: "r \<noteq> rp_next rp" by simp
      have "r < rp_next rp \<and> distinct (lock_clients (rp_heap rp r)) \<and>
          waiters_of rp k = int (length (lk_queue (rp_heap rp r))) \<and>
          (k \<in> set (rp_active rp) \<longleftrightarrow> lk_locked (rp_heap rp r)) \<and>
          (\<forall>key'. map_of (rp_locks rp) key' = Some r \<longrightarrow> key' = k)"
        using ok k0 unfolding repos_ok_def locks_ok_def by blast
      with r show ?thesis by (auto simp: rp1 update_conv' waiters_of_def)
    qed
  qed
  moreover have "tables_ok rp1"
    using ok gone by (auto simp: tables_ok_def repos_ok_def rp1 update_conv' split: if_splits)
  ultimately show ?thesis by (simp add: repos_ok_def ref rp1 update_conv')
qed

text \<open>What the invariant says about the key of a client.\<close>

lemma repos_okD:
  assumes "repos_ok rp" and "map_of (rp_locks rp) key = Some ref"
  shows "distinct (lock_clients (rp_heap rp ref))"
    "waiters_of rp key = int (length (lk_queue (rp_heap rp ref)))"
    "key \<in> set (rp_active rp) \<longleftrightarrow> lk_locked (rp_heap rp ref)"
    "d \<in> set (lock_clients (rp_heap rp ref)) \<longleftrightarrow> rp_frames rp d = Some (key, ref)"
    "distinct (rp_active rp)"
  using assms by (auto simp: repos_ok_def locks_ok_def frames_ok_def tables_ok_def)

lemma frame_ref: "repos_ok rp \<Longrightarrow> rp_frames rp c = Some (key, ref) \<Longrightarrow> map_of (rp_locks rp) key = Some ref"
  by (simp add: repos_ok_def frames_ok_def)

lemmas repo_local_simps =
  same_elsewhere_def frames_move_def stays_ok_def dropped_ok_def lock_clients_def lk_locked_def
  waiters_of_def update_conv' delete_conv'

lemma repo_enter_ok:
  assumes ok: "repos_ok rp" and c: "rp_frames rp c = None"
  shows "\<exists>rp'. repo_enter now now' c key rp = Inr rp' \<and> repos_ok rp'"
proof -
  obtain ref rp1 where l: "lock_for key rp = (ref, rp1)" by (cases "lock_for key rp")
  from lock_for_ok [OF ok l] c have ok1: "repos_ok rp1" and ref: "map_of (rp_locks rp1) key = Some ref"
    and c1: "rp_frames rp1 c = None" by auto
  note facts = repos_okD [OF ok1 ref]
  have notin: "c \<notin> set (lock_clients (rp_heap rp1 ref))" using facts(4) [of c] c1 by simp
  have frames: "d \<noteq> c \<Longrightarrow> rp_frames rp1 d = Some (key, ref) \<longleftrightarrow> d \<in> set (lock_clients (rp_heap rp1 ref))" for d
    using facts(4) [of d] by simp
  show ?thesis
  proof (cases "\<not> lk_locked (rp_heap rp1 ref) \<and> lk_queue (rp_heap rp1 ref) = []")
    case True
    let ?rp' = "rp1\<lparr>rp_waiters := AList.update key (waiters_of rp1 key) (AList.update key (waiters_of rp1 key + 1) (rp_waiters rp1)),
        rp_frames := (rp_frames rp1)(c \<mapsto> (key, ref)),
        rp_heap := (rp_heap rp1)(ref := (rp_heap rp1 ref)\<lparr>lk_holder := Some (c, now')\<rparr>),
        rp_wait_seconds := rp_wait_seconds rp1 + (now' - now), rp_acquisitions := rp_acquisitions rp1 + 1,
        rp_active := List.insert key (rp_active rp1)\<rparr>"
    have "repo_enter now now' c key rp = Inr ?rp'"
      using True by (simp add: repo_enter_def l Let_def repo_acquired_def drop_waiter_def update_conv')
    moreover have "repos_ok ?rp'"
    proof (rule repos_ok_local [OF ok1 ref])
      have none: "lock_clients (rp_heap rp1 ref) = []" using True by (auto simp: lock_clients_def lk_locked_def split: option.splits)
      show "frames_move key ref rp1 ?rp'"
        using True c1 none facts(4) by (auto simp: frames_move_def lock_clients_def)
    qed (use True facts ref in \<open>auto simp: repo_local_simps simp del: not_None_eq\<close>)
    ultimately show ?thesis by blast
  next
    case False
    let ?rp' = "rp1\<lparr>rp_waiters := AList.update key (waiters_of rp1 key + 1) (rp_waiters rp1),
        rp_frames := (rp_frames rp1)(c \<mapsto> (key, ref)),
        rp_heap := (rp_heap rp1)(ref := (rp_heap rp1 ref)\<lparr>lk_queue := lk_queue (rp_heap rp1 ref) @ [(c, now)]\<rparr>)\<rparr>"
    have "repo_enter now now' c key rp = Inr ?rp'"
      using False by (auto simp: repo_enter_def l Let_def)
    moreover have "repos_ok ?rp'"
    proof (rule repos_ok_local [OF ok1 ref])
      have clients: "lock_clients (rp_heap ?rp' ref) = lock_clients (rp_heap rp1 ref) @ [c]"
        by (simp add: lock_clients_def)
      show "frames_move key ref rp1 ?rp'"
        unfolding frames_move_def clients using c1 facts(4) by auto
      have "distinct (lock_clients (rp_heap ?rp' ref))" unfolding clients using facts(1) notin by simp
      then show "stays_ok key ref ?rp' \<or> dropped_ok key ref ?rp'"
        using facts(2,3) ref by (simp add: stays_ok_def waiters_of_def update_conv' lk_locked_def)
    qed (auto simp: same_elsewhere_def update_conv')
    ultimately show ?thesis by blast
  qed
qed

lemma repo_wake_ok:
  assumes ok: "repos_ok rp" and w: "repo_wake now c rp = Some r"
  shows "\<exists>rp'. r = Inr rp' \<and> repos_ok rp'"
proof -
  from w obtain key ref q rest where f: "rp_frames rp c = Some (key, ref)"
    and queue: "lk_queue (rp_heap rp ref) = (c, q) # rest" and free: "lk_holder (rp_heap rp ref) = None"
    and r: "r = repo_acquired now q c key ref
      (rp\<lparr>rp_heap := (rp_heap rp)(ref := (rp_heap rp ref)\<lparr>lk_queue := rest\<rparr>)\<rparr>)"
    by (auto simp: repo_wake_def lk_locked_def simp del: not_None_eq split: option.splits list.splits if_splits)
  have ref: "map_of (rp_locks rp) key = Some ref" by (rule frame_ref [OF ok f])
  note facts = repos_okD [OF ok ref]
  obtain n where n: "map_of (rp_waiters rp) key = Some n" "n = int (length rest) + 1"
    using facts(2) queue by (cases "map_of (rp_waiters rp) key") (auto simp: waiters_of_def)
  let ?rp' = "rp\<lparr>rp_waiters := AList.update key (n - 1) (rp_waiters rp),
      rp_heap := (rp_heap rp)(ref := (rp_heap rp ref)\<lparr>lk_queue := rest, lk_holder := Some (c, now)\<rparr>),
      rp_wait_seconds := rp_wait_seconds rp + (now - q), rp_acquisitions := rp_acquisitions rp + 1,
      rp_active := List.insert key (rp_active rp)\<rparr>"
  have "r = Inr ?rp'" by (simp add: r repo_acquired_def drop_waiter_def n(1) Let_def)
  moreover have "repos_ok ?rp'"
  proof (rule repos_ok_local [OF ok ref])
    have clients: "lock_clients (rp_heap ?rp' ref) = lock_clients (rp_heap rp ref)"
      by (simp add: lock_clients_def free queue)
    show "frames_move key ref rp ?rp'"
      unfolding frames_move_def clients using facts(4) by auto
    have "distinct (lock_clients (rp_heap ?rp' ref))" unfolding clients by (rule facts(1))
    then show "stays_ok key ref ?rp' \<or> dropped_ok key ref ?rp'"
      using ref n by (simp add: stays_ok_def waiters_of_def update_conv' lk_locked_def)
  qed (use facts(5) in \<open>auto simp: same_elsewhere_def update_conv'\<close>)
  ultimately show ?thesis by blast
qed

text \<open>Leaving: what \<open>forget_idle\<close> does on top of a consistent change.\<close>

lemma forget_idle_ok:
  assumes ok: "repos_ok rp" and ref: "map_of (rp_locks rp) key = Some ref"
    and same: "same_elsewhere key ref rp rp'" and frames: "frames_move key ref rp rp'"
    and stays: "stays_ok key ref rp'"
  shows "repos_ok (forget_idle key ref rp')"
proof (rule repos_ok_local [OF ok ref])
  show "same_elsewhere key ref rp (forget_idle key ref rp')"
    using same by (auto simp: forget_idle_def Let_def same_elsewhere_def delete_conv')
  have "rp_heap (forget_idle key ref rp') = rp_heap rp'" "rp_frames (forget_idle key ref rp') = rp_frames rp'"
    by (simp_all add: forget_idle_def Let_def)
  then show "frames_move key ref rp (forget_idle key ref rp')"
    using frames by (simp add: frames_move_def)
  show "stays_ok key ref (forget_idle key ref rp') \<or> dropped_ok key ref (forget_idle key ref rp')"
    using stays by (auto simp: forget_idle_def Let_def stays_ok_def dropped_ok_def delete_conv' waiters_of_def
        lock_clients_def lk_locked_def split: option.splits)
qed

lemma repo_exit_ok:
  assumes ok: "repos_ok rp" and e: "repo_exit now c rp = Some rp'"
  shows "repos_ok rp'"
proof -
  from e obtain key ref a where f: "rp_frames rp c = Some (key, ref)"
    and held: "lk_holder (rp_heap rp ref) = Some (c, a)"
    and rp': "rp' = forget_idle key ref (rp\<lparr>rp_busy_seconds := rp_busy_seconds rp + (now - a),
      rp_active := removeAll key (rp_active rp),
      rp_heap := (rp_heap rp)(ref := (rp_heap rp ref)\<lparr>lk_holder := None\<rparr>),
      rp_frames := (rp_frames rp)(c := None)\<rparr>)"
    by (auto simp: repo_exit_def split: option.splits if_splits)
  have ref: "map_of (rp_locks rp) key = Some ref" by (rule frame_ref [OF ok f])
  note facts = repos_okD [OF ok ref]
  have clients: "lock_clients (rp_heap rp ref) = c # map fst (lk_queue (rp_heap rp ref))"
    by (simp add: lock_clients_def held)
  show ?thesis
    unfolding rp'
  proof (rule forget_idle_ok [OF ok ref], goal_cases)
    case 2
    show ?case
      using facts(1,4) unfolding clients by (auto simp: frames_move_def lock_clients_def)
  next
    case 3
    show ?case
      using facts(1,2) ref unfolding clients
      by (auto simp: stays_ok_def lock_clients_def lk_locked_def waiters_of_def)
  qed (auto simp: same_elsewhere_def distinct_removeAll)
qed

lemma repo_cancel_ok:
  assumes ok: "repos_ok rp" and e: "repo_cancel now c rp = Some r"
  shows "\<exists>rp'. r = Inr rp' \<and> repos_ok rp'"
proof -
  from e obtain key ref q where f: "rp_frames rp c = Some (key, ref)"
    and waits: "map_of (lk_queue (rp_heap rp ref)) c = Some q"
    and r: "r = rbind (drop_waiter key
       (rp\<lparr>rp_heap := (rp_heap rp)(ref := (rp_heap rp ref)\<lparr>lk_queue := AList.delete c (lk_queue (rp_heap rp ref))\<rparr>),
           rp_frames := (rp_frames rp)(c := None)\<rparr>)) (\<lambda>rp1.
       Inr (forget_idle key ref (rp1\<lparr>rp_wait_seconds := rp_wait_seconds rp1 + (now - q),
                                     rp_cancelled := rp_cancelled rp1 + 1\<rparr>)))"
    by (auto simp: repo_cancel_def split: option.splits)
  have ref: "map_of (rp_locks rp) key = Some ref" by (rule frame_ref [OF ok f])
  note facts = repos_okD [OF ok ref]
  let ?q = "lk_queue (rp_heap rp ref)"
  have dq: "distinct (map fst ?q)" using facts(1) by (simp add: lock_clients_def)
  have len: "Suc (length (AList.delete c ?q)) = length ?q" by (rule length_AList_delete [OF dq waits])
  obtain n where n: "map_of (rp_waiters rp) key = Some n" "n = int (length (AList.delete c ?q)) + 1"
    using facts(2) len by (cases "map_of (rp_waiters rp) key") (auto simp: waiters_of_def)
  let ?rp1 = "rp\<lparr>rp_heap := (rp_heap rp)(ref := (rp_heap rp ref)\<lparr>lk_queue := AList.delete c ?q\<rparr>),
      rp_frames := (rp_frames rp)(c := None), rp_waiters := AList.update key (n - 1) (rp_waiters rp),
      rp_wait_seconds := rp_wait_seconds rp + (now - q), rp_cancelled := rp_cancelled rp + 1\<rparr>"
  have "r = Inr (forget_idle key ref ?rp1)" by (simp add: r drop_waiter_def n(1))
  moreover have "repos_ok (forget_idle key ref ?rp1)"
  proof (rule forget_idle_ok [OF ok ref])
    have mem: "c \<in> fst ` set ?q" using waits by (force dest: map_of_SomeD)
    have clients: "lock_clients (rp_heap ?rp1 ref) = removeAll c (lock_clients (rp_heap rp ref))"
    proof (cases "lk_holder (rp_heap rp ref)")
      case None
      then show ?thesis by (simp add: lock_clients_def delete_keys)
    next
      case (Some h)
      with facts(1) mem have "fst h \<noteq> c" by (auto simp: lock_clients_def split: prod.splits)
      with Some show ?thesis by (cases h) (simp add: lock_clients_def delete_keys)
    qed
    have "rp_frames ?rp1 d = (if d \<in> set (lock_clients (rp_heap rp ref)) \<and> d \<noteq> c then Some (key, ref)
        else if rp_frames rp d = Some (key, ref) then None else rp_frames rp d)" for d
      using f by (simp add: facts(4))
    then show "frames_move key ref rp ?rp1"
      unfolding frames_move_def clients set_removeAll by (simp add: facts(4))
    have "distinct (lock_clients (rp_heap ?rp1 ref))" unfolding clients using facts(1) by (simp add: distinct_removeAll)
    then show "stays_ok key ref ?rp1"
      using ref n facts(3) by (simp add: stays_ok_def waiters_of_def update_conv' lk_locked_def)
  qed (auto simp: same_elsewhere_def update_conv')
  ultimately show ?thesis by blast
qed

lemma repo_step_ok: "repo_step rp rp' \<Longrightarrow> repos_ok rp \<Longrightarrow> repos_ok rp'"
proof (induction rule: repo_step.induct)
  case (repo_step_enter rp c now now' key rp')
  with repo_enter_ok [of rp c now now' key] show ?case by auto
next
  case (repo_step_wake now c rp rp')
  with repo_wake_ok [of rp now c "Inr rp'"] show ?case by auto
next
  case (repo_step_cancel now c rp rp')
  with repo_cancel_ok [of rp now c "Inr rp'"] show ?case by auto
next
  case (repo_step_exit now c rp rp')
  with repo_exit_ok show ?case by blast
qed

lemma repo_run_ok: "repo_step\<^sup>*\<^sup>* rp rp' \<Longrightarrow> repos_ok rp \<Longrightarrow> repos_ok rp'"
  by (induction rule: rtranclp_induct) (auto intro: repo_step_ok)

section \<open>The coordinator\<close>

record coordinator =
  co_slots :: slots
  co_repos :: repos

definition init_coordinator :: "int \<Rightarrow> py_error + coordinator" where
  "init_coordinator max_workers =
     rbind (init_slots max_workers) (\<lambda>s. Inr \<lparr>co_slots = s, co_repos = init_repos\<rparr>)"

text \<open>\<open>snapshot\<close>; \<open>round3\<close> is \<open>round(x, 3)\<close> as the text of the float.\<close>

definition coordinator_snapshot :: "(timestamp \<Rightarrow> code_points) \<Rightarrow> coordinator \<Rightarrow> (string \<times> json) list" where
  "coordinator_snapshot round3 co =
     (let s = co_slots co; r = co_repos co in
      [(''worker_capacity'', JInt (int (sl_max s))),
       (''workers_active'', JInt (sl_active s)),
       (''workers_waiting'', JInt (sl_waiting s)),
       (''repositories_active'', JInt (int (length (rp_active r)))),
       (''repository_waiters'', JInt (sum_list (map snd (rp_waiters r)))),
       (''worker_acquisitions_total'', JInt (sl_acquisitions s)),
       (''worker_cancelled_waits_total'', JInt (sl_cancelled s)),
       (''worker_wait_seconds_total'', JFloat (round3 (sl_wait_seconds s))),
       (''worker_busy_seconds_total'', JFloat (round3 (sl_busy_seconds s))),
       (''worker_peak_active'', JInt (sl_peak s)),
       (''repository_acquisitions_total'', JInt (rp_acquisitions r)),
       (''repository_cancelled_waits_total'', JInt (rp_cancelled r)),
       (''repository_wait_seconds_total'', JFloat (round3 (rp_wait_seconds r))),
       (''repository_busy_seconds_total'', JFloat (round3 (rp_busy_seconds r)))])"

section \<open>What the coordinator guarantees\<close>

text \<open>C32: However entries, wake-ups, cancellations and exits interleave, at most \<open>max_workers\<close>
  coroutines are inside the worker section, every slot is free or held by exactly one of them, the
  published counters are exact, and the peak is a bound that was not exceeded.\<close>

theorem worker_slots_bounded:
  assumes "init_slots n = Inr s0" and "slot_step\<^sup>*\<^sup>* s0 s"
  shows "sl_free s + length (sl_held s) = nat n \<and> sl_active s = int (length (sl_held s)) \<and>
    sl_waiting s = int (length (sl_queue s)) \<and> sl_active s \<le> sl_peak s \<and> sl_peak s \<le> n \<and>
    distinct (map fst (sl_held s))"
proof -
  have "0 < n" using assms(1) by (auto simp: init_slots_def split: if_splits)
  with slot_run_ok [OF assms(2) init_slots_ok [OF assms(1)]] show ?thesis by (simp add: slots_ok_def)
qed

definition demo_slots :: slots where
  "demo_slots = (case init_slots 1 of Inr s \<Rightarrow> slot_enter 3 3 8 (slot_enter 1 2 7 s))"

lemma demo_slots_run: "\<exists>s0. init_slots 1 = Inr s0 \<and> slot_step\<^sup>*\<^sup>* s0 demo_slots"
proof -
  obtain s0 where s0: "init_slots 1 = Inr s0" by (simp add: init_slots_def)
  have "slot_step s0 (slot_enter 1 2 7 s0)"
    using s0 by (intro slot_step_enter) (auto simp: init_slots_def)
  moreover have "slot_step (slot_enter 1 2 7 s0) (slot_enter 3 3 8 (slot_enter 1 2 7 s0))"
    using s0 by (intro slot_step_enter) (auto simp: init_slots_def slot_enter_def slot_acquired_def)
  ultimately have "slot_step\<^sup>*\<^sup>* s0 demo_slots" using s0 by (simp add: demo_slots_def)
  with s0 show ?thesis by blast
qed

lemma worker_slots_bounded_witness:
  "length (sl_held demo_slots) = 1 \<and> length (sl_queue demo_slots) = 1 \<and>
   sl_free demo_slots + length (sl_held demo_slots) = nat 1 \<and> sl_waiting demo_slots = 1"
proof -
  obtain s0 where "init_slots 1 = Inr s0" "slot_step\<^sup>*\<^sup>* s0 demo_slots" using demo_slots_run by blast
  note w = worker_slots_bounded [OF this]
  have "length (sl_queue demo_slots) = 1" by code_simp
  with w show ?thesis by (simp add: demo_slots_def init_slots_def slot_enter_def slot_acquired_def)
qed

text \<open>The coroutine \<open>c\<close> is inside the section of \<open>key\<close>, or waits for it.\<close>

definition in_section :: "repos \<Rightarrow> client \<Rightarrow> string \<Rightarrow> bool" where
  "in_section rp c key =
     (case rp_frames rp c of
        None \<Rightarrow> False
      | Some (k, ref) \<Rightarrow> k = key \<and> map_option fst (lk_holder (rp_heap rp ref)) = Some c)"

definition waits_for :: "repos \<Rightarrow> client \<Rightarrow> string \<Rightarrow> bool" where
  "waits_for rp c key =
     (case rp_frames rp c of
        None \<Rightarrow> False
      | Some (k, ref) \<Rightarrow> k = key \<and> c \<in> set (map fst (lk_queue (rp_heap rp ref))))"

lemma in_section_holder:
  assumes "repos_ok rp" and "in_section rp c key"
  obtains ref t where "map_of (rp_locks rp) key = Some ref" "lk_holder (rp_heap rp ref) = Some (c, t)"
proof -
  from assms(2) obtain ref t where "rp_frames rp c = Some (key, ref)" "lk_holder (rp_heap rp ref) = Some (c, t)"
    by (auto simp: in_section_def split: option.splits)
  with frame_ref [OF assms(1)] that show thesis by blast
qed

text \<open>C33: The repository lock excludes: in every state the coordinator can reach, two coroutines
  inside the section of one repository are the same. All users of a repository share one lock
  object although the dictionary entry is created on demand and dropped when it looks idle.\<close>

theorem repo_lock_exclusive:
  assumes "repo_step\<^sup>*\<^sup>* init_repos rp" and "in_section rp c key" and "in_section rp d key"
  shows "c = d"
proof -
  have ok: "repos_ok rp" by (rule repo_run_ok [OF assms(1) init_repos_ok])
  from in_section_holder [OF ok assms(2)] in_section_holder [OF ok assms(3)] show ?thesis by (metis option.inject prod.inject)
qed


text \<open>One coroutine inside the section of a repository and a second one waiting for it.\<close>

definition demo_repos :: repos where
  "demo_repos =
     (case repo_enter 1 1 1 ''/repo'' init_repos of
        Inl _ \<Rightarrow> init_repos
      | Inr rp \<Rightarrow> (case repo_enter 2 2 2 ''/repo'' rp of Inl _ \<Rightarrow> rp | Inr rp' \<Rightarrow> rp'))"

lemmas repo_eval =
  repo_enter_def lock_for_def init_repos_def fresh_lock_def waiters_of_def lk_locked_def Let_def
  repo_acquired_def drop_waiter_def repo_cancel_def repo_exit_def forget_idle_def

lemma demo_repos_run: "repo_step\<^sup>*\<^sup>* init_repos demo_repos"
proof -
  obtain rp where rp: "repo_enter 1 1 1 ''/repo'' init_repos = Inr rp"
    by (simp add: repo_eval)
  then have one: "repo_step init_repos rp" by (intro repo_step_enter) (simp add: init_repos_def)
  from rp have "rp_frames rp 2 = None" by (auto simp: repo_eval)
  moreover from rp obtain rp' where rp': "repo_enter 2 2 2 ''/repo'' rp = Inr rp'" by (auto simp: repo_eval)
  ultimately have two: "repo_step rp rp'" by (rule repo_step_enter)
  have "demo_repos = rp'" using rp rp' by (simp add: demo_repos_def)
  with one two show ?thesis by simp
qed

lemma repo_lock_exclusive_witness: "{d. in_section demo_repos d ''/repo''} = {1}"
proof -
  have "in_section demo_repos 1 ''/repo''" by code_simp
  with repo_lock_exclusive [OF demo_repos_run] show ?thesis by blast
qed


text \<open>The waiter is cancelled, then the coroutine inside leaves.\<close>

definition idle_repos :: repos where
  "idle_repos =
     (case repo_cancel 3 2 demo_repos of
        Some (Inr rp) \<Rightarrow> (case repo_exit 4 1 rp of Some rp' \<Rightarrow> rp' | None \<Rightarrow> rp)
      | _ \<Rightarrow> demo_repos)"

lemma idle_repos_run: "repo_step\<^sup>*\<^sup>* init_repos idle_repos"
proof -
  have "case repo_cancel 3 2 demo_repos of Some (Inr rp) \<Rightarrow> repo_exit 4 1 rp \<noteq> None | _ \<Rightarrow> False"
    by code_simp
  then obtain rp rp' where c: "repo_cancel 3 2 demo_repos = Some (Inr rp)" and e: "repo_exit 4 1 rp = Some rp'"
    by (auto split: option.splits sum.splits)
  have "repo_step demo_repos rp" "repo_step rp rp'" using repo_step_cancel [OF c] repo_step_exit [OF e] by auto
  with demo_repos_run have "repo_step\<^sup>*\<^sup>* init_repos rp'" by (meson rtranclp.rtrancl_into_rtrancl)
  with c e show ?thesis by (simp add: idle_repos_def)
qed

text \<open>A lock entry can outlive its users: when a waiter is cancelled while another coroutine is
  inside, it drops the waiter count of the repository but not the lock, and the coroutine that
  leaves then finds no count and keeps the lock too, so a repository nobody uses stays in the
  dictionary.\<close>

theorem idle_lock_entry_kept:
  "repo_step\<^sup>*\<^sup>* init_repos idle_repos \<and> rp_frames idle_repos c = None \<and>
   rp_waiters idle_repos = [] \<and> map fst (rp_locks idle_repos) = [''/repo'']"
proof -
  have tables: "rp_waiters idle_repos = [] \<and> map fst (rp_locks idle_repos) = [''/repo'']" by code_simp
  have lock: "map_of (rp_locks idle_repos) k = Some r \<longleftrightarrow> k = ''/repo'' \<and> r = 0" for k r
  proof -
    have "rp_locks idle_repos = [(''/repo'', 0)]" by code_simp
    then show ?thesis by auto
  qed
  have empty: "lock_clients (rp_heap idle_repos 0) = []" by code_simp
  have "rp_frames idle_repos c = Some (k, r) \<longleftrightarrow>
      map_of (rp_locks idle_repos) k = Some r \<and> c \<in> set (lock_clients (rp_heap idle_repos r))" for k r
    using repo_run_ok [OF idle_repos_run init_repos_ok] unfolding repos_ok_def frames_ok_def by blast
  then have "rp_frames idle_repos c \<noteq> Some (k, r)" for k r using empty by (cases "r = 0") (auto simp: lock)
  then have "rp_frames idle_repos c = None" by (cases "rp_frames idle_repos c") auto
  with tables idle_repos_run show ?thesis by blast
qed

end
