(* ===== verification/Yolo_Daemon.thy ===== *)
theory Yolo_Daemon
  imports Yolo_Gates Yolo_Rpc Yolo_Runtime
begin

text \<open>
  The daemon (\<open>src/omarchy_yolo/daemon.py\<close>): the requests it serves over the store, the tasks that
  run jobs, and the bounded replies. A request handler is an action over the store and the world of
  the daemon; it suspends in one place only, where a resume waits for a runner that is stopping, and
  is split there. What is outside (the clock, identifiers, Git, the rendering of numbers) is the host.
\<close>

section \<open>The state of the daemon\<close>

text \<open>
  A runner is the task of a job: its identity, whether it is done and whether it was cancelled.
  \<open>dw_runners\<close> is the dictionary \<open>self.runners\<close>, \<open>dw_tasks\<close> every task that was created.
\<close>

record runner =
  rt_job :: string
  rt_done :: bool
  rt_cancel :: bool

record 'g dworld =
  dw_tasks :: "runner list"
  dw_runners :: "(string \<times> nat) list"
  dw_rest :: 'g

record 'g daemon_host =
  dh_now :: "'g \<Rightarrow> timestamp \<times> 'g"
  dh_fresh :: "'g \<Rightarrow> string \<times> 'g"
  dh_discover :: "string \<Rightarrow> 'g \<Rightarrow> (py_error + string) \<times> 'g"
  dh_preflight :: "string \<Rightarrow> 'g \<Rightarrow> (py_error + string \<times> string) \<times> 'g"
  dh_coordinator :: "'g \<Rightarrow> coordinator"
  dh_contracts :: "'g \<Rightarrow> py_error + (string \<times> agent_contract) list"
  dh_registry :: "'g \<Rightarrow> registry"
  dh_float :: "timestamp \<Rightarrow> code_points"
  dh_str :: "payload \<Rightarrow> string"
  dh_version :: string
  dh_pid :: int

type_synonym ('g, 'a) dact = "('g dworld, 'a) act"

definition runner_done :: "'g dworld \<Rightarrow> nat \<Rightarrow> bool" where
  "runner_done w i = (if i < length (dw_tasks w) then rt_done (dw_tasks w ! i) else True)"

text \<open>\<open>runner = self.runners.get(job_id)\<close>, when it is not done.\<close>

definition active_runner :: "string \<Rightarrow> 'g dworld \<Rightarrow> nat option" where
  "active_runner job_id w =
     (case map_of (dw_runners w) job_id of
        None \<Rightarrow> None
      | Some i \<Rightarrow> if runner_done w i then None else Some i)"

definition spawn_world :: "string \<Rightarrow> 'g dworld \<Rightarrow> 'g dworld" where
  "spawn_world job_id w =
     (if active_runner job_id w \<noteq> None then w
      else w\<lparr>dw_tasks := dw_tasks w @ [\<lparr>rt_job = job_id, rt_done = False, rt_cancel = False\<rparr>],
             dw_runners := AList.update job_id (length (dw_tasks w)) (dw_runners w)\<rparr>)"

definition spawn :: "string \<Rightarrow> ('g, unit) dact" where
  "spawn job_id = (\<lambda>(db, w). (Inr (), db, spawn_world job_id w))"

text \<open>\<open>consume\<close>, the callback of a task that is done.\<close>

definition consume :: "nat \<Rightarrow> 'g dworld \<Rightarrow> 'g dworld" where
  "consume i w =
     (let job_id = rt_job (dw_tasks w ! i)
      in if map_of (dw_runners w) job_id = Some i
         then w\<lparr>dw_runners := AList.delete job_id (dw_runners w)\<rparr> else w)"

definition cancel_runner :: "nat \<Rightarrow> ('g, unit) dact" where
  "cancel_runner i = (\<lambda>(db, w). (Inr (), db, w\<lparr>dw_tasks := (dw_tasks w)[i := (dw_tasks w ! i)\<lparr>rt_cancel := True\<rparr>]\<rparr>))"

section \<open>Transactions and the host\<close>

definition dtx :: "'g daemon_host \<Rightarrow> (timestamp \<Rightarrow> db \<Rightarrow> py_error + db) \<Rightarrow> ('g, unit) dact" where
  "dtx h f = (\<lambda>(db, w). case dh_now h (dw_rest w) of (now, g) \<Rightarrow>
     (case f now db of Inl e \<Rightarrow> (Inl (Raised e), db, w\<lparr>dw_rest := g\<rparr>) | Inr db' \<Rightarrow> (Inr (), db', w\<lparr>dw_rest := g\<rparr>)))"

definition dtxv :: "'g daemon_host \<Rightarrow> (timestamp \<Rightarrow> db \<Rightarrow> py_error + 'a \<times> db) \<Rightarrow> ('g, 'a) dact" where
  "dtxv h f = (\<lambda>(db, w). case dh_now h (dw_rest w) of (now, g) \<Rightarrow>
     (case f now db of Inl e \<Rightarrow> (Inl (Raised e), db, w\<lparr>dw_rest := g\<rparr>)
      | Inr (x, db') \<Rightarrow> (Inr x, db', w\<lparr>dw_rest := g\<rparr>)))"

text \<open>Two transactions in one call (\<open>request_stop\<close>, \<open>prepare_resume\<close>): the first may stay committed.\<close>

definition dtx2 :: "'g daemon_host \<Rightarrow> (timestamp \<Rightarrow> db \<Rightarrow> (py_error + unit) \<times> db) \<Rightarrow> ('g, unit) dact" where
  "dtx2 h f = (\<lambda>(db, w). case dh_now h (dw_rest w) of (now, g) \<Rightarrow>
     (case f now db of (Inl e, db') \<Rightarrow> (Inl (Raised e), db', w\<lparr>dw_rest := g\<rparr>)
      | (Inr _, db') \<Rightarrow> (Inr (), db', w\<lparr>dw_rest := g\<rparr>)))"

definition dnow :: "'g daemon_host \<Rightarrow> ('g, timestamp) dact" where
  "dnow h = (\<lambda>(db, w). case dh_now h (dw_rest w) of (now, g) \<Rightarrow> (Inr now, db, w\<lparr>dw_rest := g\<rparr>))"

definition dfresh :: "'g daemon_host \<Rightarrow> string \<Rightarrow> ('g, string) dact" where
  "dfresh h prefix = (\<lambda>(db, w). case dh_fresh h (dw_rest w) of (hex, g) \<Rightarrow>
     (Inr (new_id hex prefix), db, w\<lparr>dw_rest := g\<rparr>))"

definition dhost :: "('g \<Rightarrow> (py_error + 'a) \<times> 'g) \<Rightarrow> ('g, 'a) dact" where
  "dhost f = (\<lambda>(db, w). case f (dw_rest w) of
     (Inl e, g) \<Rightarrow> (Inl (Raised e), db, w\<lparr>dw_rest := g\<rparr>) | (Inr x, g) \<Rightarrow> (Inr x, db, w\<lparr>dw_rest := g\<rparr>))"

definition dfail :: "string \<Rightarrow> ('g, 'a) dact" where
  "dfail text = raise_exc (Raised (YoloError text))"

definition dcheck :: "bool \<Rightarrow> string \<Rightarrow> ('g, unit) dact" where
  "dcheck ok text = (if ok then ret () else dfail text)"

section \<open>Arguments of a request\<close>

definition MAX_GOAL_CHARS :: nat where "MAX_GOAL_CHARS = 16000"
definition MAX_REPO_PATH_CHARS :: nat where "MAX_REPO_PATH_CHARS = 4096"
definition MAX_STATUS_RESPONSE_BYTES :: nat where
  "MAX_STATUS_RESPONSE_BYTES = MAX_RPC_MESSAGE_BYTES - 65536"

definition arg_int :: "payload option \<Rightarrow> int \<Rightarrow> int \<Rightarrow> int \<Rightarrow> string \<Rightarrow> py_error + int" where
  "arg_int value dflt minimum maximum name =
     (let bad = Inl (YoloError (name @ '' must be an integer''))
      in case value of
           None \<Rightarrow> Inr dflt
         | Some PNull \<Rightarrow> Inr dflt
         | Some (PInt i) \<Rightarrow> Inr (min maximum (max minimum i))
         | Some (PStr s) \<Rightarrow>
             (case int_of_text s of None \<Rightarrow> bad | Some i \<Rightarrow> Inr (min maximum (max minimum i)))
         | Some _ \<Rightarrow> bad)"

text \<open>\<open>str(value)\<close>, and \<open>str(params["job_id"])\<close>.\<close>

definition arg_str :: "'g daemon_host \<Rightarrow> payload \<Rightarrow> string" where
  "arg_str h v = (case v of PStr s \<Rightarrow> s | _ \<Rightarrow> dh_str h v)"

definition job_arg :: "'g daemon_host \<Rightarrow> payload_dict \<Rightarrow> py_error + string" where
  "job_arg h params =
     (case dict_get params ''job_id'' of
        None \<Rightarrow> Inl (KeyError ''job_id'')
      | Some v \<Rightarrow> Inr (arg_str h v))"

section \<open>Replies\<close>

definition jfield :: "string \<Rightarrow> json \<Rightarrow> code_points \<times> json" where
  "jfield k v = (cps k, v)"

text \<open>\<open>asdict(job)\<close>.\<close>

definition job_json :: "(timestamp \<Rightarrow> code_points) \<Rightarrow> job_row \<Rightarrow> json" where
  "job_json fl j = jobj
     [(''id'', jstr (j_id j)), (''repo'', jstr (j_repo j)), (''goal'', jstr (j_goal j)),
      (''state'', jstr (job_state_value (j_state j))), (''base_branch'', jstr (j_base_branch j)),
      (''base_commit'', jstr (j_base_commit j)), (''integration_branch'', jstr (j_integration_branch j)),
      (''integration_path'', jstr (j_integration_path j)), (''auto_apply'', JBool (j_auto_apply j)),
      (''stop_requested'', JBool (j_stop_requested j)), (''created_at'', JFloat (fl (j_created_at j))),
      (''updated_at'', JFloat (fl (j_updated_at j))), (''final_summary'', jstr (j_final_summary j)),
      (''error'', jstr (j_error j)), (''accepted_commit'', jstr (j_accepted_commit j)),
      (''acceptance_phase'', jstr (phase_value (j_acceptance_phase j))),
      (''source_apply_intent'', jstr (apply_intent_value (j_source_apply_intent j))),
      (''source_apply_outcome'', jstr (apply_outcome_value (j_source_apply_outcome j))),
      (''source_apply_reason'', jstr (j_source_apply_reason j))]"

definition job_list_item :: "job_row \<Rightarrow> job_row" where
  "job_list_item j = j\<lparr>j_goal := py_first 500 (j_goal j), j_final_summary := py_first 1000 (j_final_summary j),
     j_error := py_first 1000 (j_error j)\<rparr>"

definition event_json :: "(timestamp \<Rightarrow> code_points) \<Rightarrow> event_row \<Rightarrow> json" where
  "event_json fl e = jobj
     [(''id'', JInt (e_id e)), (''job_id'', jstr (e_job_id e)),
      (''task_id'', case e_task_id e of None \<Rightarrow> JNull | Some t \<Rightarrow> jstr t), (''kind'', jstr (e_kind e)),
      (''payload'', e_payload e), (''created_at'', JFloat (fl (e_created_at e)))]"

definition encoded_size :: "json \<Rightarrow> nat" where
  "encoded_size v = length (compact_json v)"

text \<open>The loop of \<open>_events_bounded\<close>; \<open>result\<close> is what was taken so far, \<open>used\<close> its size.\<close>

fun events_loop :: "(event_row \<Rightarrow> nat) \<Rightarrow> nat \<Rightarrow> event_row list \<Rightarrow> nat \<Rightarrow> event_row list \<Rightarrow> event_row list" where
  "events_loop size_of budget result used [] = result"
| "events_loop size_of budget result used (e # es) =
     (let size = size_of e + 1
      in if result \<noteq> [] \<and> used + size > budget then result
         else if size > budget then events_loop size_of budget result used es
         else events_loop size_of budget (result @ [e]) (used + size) es)"

definition events_bounded :: "(timestamp \<Rightarrow> code_points) \<Rightarrow> event_row list \<Rightarrow> event_row list" where
  "events_bounded fl es = events_loop (\<lambda>e. encoded_size (event_json fl e)) (MAX_RPC_MESSAGE_BYTES - 65536) [] 2 es"

section \<open>The status of a job\<close>

record status_task =
  st_row :: task_row
  st_age :: timestamp
  st_latest :: json

record status =
  ss_job :: job_row
  ss_tasks :: "status_task list"
  ss_counts :: "(string \<times> nat) list"
  ss_events :: "event_row list"
  ss_runtime :: "(string \<times> json) list"
  ss_telemetry :: json
  ss_truncated :: bool

definition status_task_json :: "(timestamp \<Rightarrow> code_points) \<Rightarrow> status_task \<Rightarrow> json" where
  "status_task_json fl st =
     (let t = st_row st in jobj
       [(''id'', jstr (t_id t)), (''job_id'', jstr (t_job_id t)), (''seq'', JInt (t_seq t)),
        (''logical_id'', jstr (t_logical_id t)), (''title'', jstr (t_title t)),
        (''state'', jstr (task_state_value (t_state t))),
        (''preferred_agent'', case t_preferred_agent t of None \<Rightarrow> JNull | Some a \<Rightarrow> jstr a),
        (''attempts'', JInt (t_attempts t)), (''branch'', jstr (t_branch t)), (''worktree'', jstr (t_worktree t)),
        (''last_error'', jstr (t_last_error t)), (''result_summary'', jstr (t_result_summary t)),
        (''created_at'', JFloat (fl (t_created_at t))), (''updated_at'', JFloat (fl (t_updated_at t))),
        (''state_age_seconds'', JFloat (fl (st_age st))), (''latest_attempt'', st_latest st)])"

definition status_json :: "(timestamp \<Rightarrow> code_points) \<Rightarrow> status \<Rightarrow> json" where
  "status_json fl ss = jobj
     ([(''job'', job_json fl (ss_job ss)), (''tasks'', JArr (map (status_task_json fl) (ss_tasks ss))),
       (''counts'', jobj (map (\<lambda>(k, n). (k, JInt (int n))) (ss_counts ss))),
       (''last_events'', JArr (map (event_json fl) (ss_events ss))), (''runtime'', jobj (ss_runtime ss)),
       (''telemetry'', ss_telemetry ss)] @
      (if ss_truncated ss then [(''truncated'', JBool True)] else []))"

text \<open>The three stages of \<open>_bound_status_response\<close>.\<close>

definition map_status_rows :: "(task_row \<Rightarrow> task_row) \<Rightarrow> status \<Rightarrow> status" where
  "map_status_rows f ss = ss\<lparr>ss_tasks := map (\<lambda>st. st\<lparr>st_row := f (st_row st)\<rparr>) (ss_tasks ss)\<rparr>"

definition status_stage1 :: "status \<Rightarrow> status" where
  "status_stage1 ss =
     map_status_rows (\<lambda>t. t\<lparr>t_last_error := py_last 512 (t_last_error t),
                             t_result_summary := py_last 512 (t_result_summary t)\<rparr>)
       (ss\<lparr>ss_truncated := True,
           ss_events := map (\<lambda>e. e\<lparr>e_payload := jobj [(''truncated'', JBool True)]\<rparr>) (ss_events ss)\<rparr>)"

definition status_stage2 :: "status \<Rightarrow> status" where
  "status_stage2 ss =
     map_status_rows (\<lambda>t. t\<lparr>t_branch := [], t_worktree := [], t_last_error := py_last 128 (t_last_error t),
                             t_result_summary := py_last 128 (t_result_summary t)\<rparr>)
       (ss\<lparr>ss_job := (ss_job ss)\<lparr>j_goal := py_first 2000 (j_goal (ss_job ss)),
             j_final_summary := py_last 2000 (j_final_summary (ss_job ss)),
             j_error := py_last 2000 (j_error (ss_job ss))\<rparr>\<rparr>)"

definition status_stage3 :: "status \<Rightarrow> status" where
  "status_stage3 ss =
     map_status_rows (\<lambda>t. t\<lparr>t_title := py_first 80 (t_title t), t_last_error := [], t_result_summary := []\<rparr>)
       (ss\<lparr>ss_events := []\<rparr>)"

definition status_fits :: "(timestamp \<Rightarrow> code_points) \<Rightarrow> status \<Rightarrow> bool" where
  "status_fits fl ss = (encoded_size (status_json fl ss) \<le> MAX_STATUS_RESPONSE_BYTES)"

definition bound_status_response :: "(timestamp \<Rightarrow> code_points) \<Rightarrow> status \<Rightarrow> py_error + status" where
  "bound_status_response fl ss =
     (if status_fits fl ss then Inr ss
      else let s1 = status_stage1 ss
      in if status_fits fl s1 then Inr s1
      else let s2 = status_stage2 s1
      in if status_fits fl s2 then Inr s2
      else let s3 = status_stage3 s2
      in if \<not> status_fits fl s3
         then Inl (YoloError ''status metadata exceeds the bounded RPC response ceiling'')
         else Inr s3)"

definition count_state :: "(string \<times> nat) list \<Rightarrow> task_row \<Rightarrow> (string \<times> nat) list" where
  "count_state counts t =
     (let k = task_state_value (t_state t)
      in AList.update k ((case map_of counts k of None \<Rightarrow> 0 | Some n \<Rightarrow> n) + 1) counts)"

definition attempt_json :: "(timestamp \<Rightarrow> code_points) \<Rightarrow> attempt_row \<Rightarrow> timestamp \<Rightarrow> json" where
  "attempt_json fl a elapsed = jobj
     [(''number'', JInt (a_number a)), (''agent'', jstr (a_agent a)), (''state'', jstr (attempt_state_value (a_state a))),
      (''started_at'', JFloat (fl (a_started_at a))),
      (''finished_at'', case a_finished_at a of None \<Rightarrow> JNull | Some f \<Rightarrow> JFloat (fl f)),
      (''elapsed_seconds'', JFloat (fl elapsed))]"

definition states_json :: "(attempt_state \<times> nat) list \<Rightarrow> (string \<times> json) list" where
  "states_json counts = map (\<lambda>(s, n). (attempt_state_value s, JInt (int n))) counts"

definition metrics_json :: "(timestamp \<Rightarrow> code_points) \<Rightarrow> attempt_metrics \<Rightarrow> (string \<times> json) list" where
  "metrics_json fl m =
     [(''attempts_total'', JInt (int (ax_attempts_total m))), (''states'', jobj (states_json (ax_states m))),
      (''elapsed_seconds_total'', JFloat (fl (ax_elapsed_seconds_total m))),
      (''completed_seconds_total'', JFloat (fl (ax_completed_seconds_total m))),
      (''by_agent'', jobj (map (\<lambda>(agent, am). (agent, jobj
         ([(''attempts'', JInt (int (am_attempts am)))] @ states_json (am_by_state am) @
          [(''elapsed_seconds'', JFloat (fl (am_elapsed_seconds am)))]))) (ax_by_agent m)))]"

definition status_task_of ::
  "(timestamp \<Rightarrow> code_points) \<Rightarrow> timestamp \<Rightarrow> (string \<times> attempt_row \<times> timestamp) list \<Rightarrow> task_row \<Rightarrow> status_task" where
  "status_task_of fl now latest t =
     \<lparr>st_row = t\<lparr>t_title := py_first 240 (t_title t), t_last_error := py_last 2000 (t_last_error t),
                 t_result_summary := py_last 2000 (t_result_summary t)\<rparr>,
      st_age = round3 (max 0 (now - t_updated_at t)),
      st_latest = (case map_of latest (t_id t) of None \<Rightarrow> JNull | Some (a, elapsed) \<Rightarrow> attempt_json fl a elapsed)\<rparr>"

definition status_of_job ::
  "(timestamp \<Rightarrow> code_points) \<Rightarrow> coordinator \<Rightarrow> db \<Rightarrow> job_row \<Rightarrow> timestamp \<Rightarrow> timestamp \<Rightarrow> timestamp \<Rightarrow> status" where
  "status_of_job fl co db job now1 now now2 =
     (let tasks = list_tasks (j_id job) db
      in \<lparr>ss_job = job\<lparr>j_goal := py_first MAX_GOAL_CHARS (j_goal job),
                        j_final_summary := py_last 8000 (j_final_summary job), j_error := py_last 8000 (j_error job)\<rparr>,
          ss_tasks = map (status_task_of fl now (latest_attempts now1 (j_id job) db)) tasks,
          ss_counts = foldl count_state [] tasks,
          ss_events = events_bounded fl (recent_events (j_id job) 12 db),
          ss_runtime = coordinator_snapshot (\<lambda>x. fl (round3 x)) co,
          ss_telemetry = jobj (metrics_json fl (attempt_metrics now2 (j_id job) db) @
            [(''job_elapsed_seconds'', JFloat (fl (round3 (max 0 (now - j_created_at job))))),
             (''state_age_seconds'', JFloat (fl (round3 (max 0 (now - j_updated_at job)))))]),
          ss_truncated = False\<rparr>)"

definition empty_status :: "(timestamp \<Rightarrow> code_points) \<Rightarrow> coordinator \<Rightarrow> json" where
  "empty_status fl co = jobj
     [(''job'', JNull), (''tasks'', JArr []), (''counts'', JObj []),
      (''runtime'', jobj (coordinator_snapshot (\<lambda>x. fl (round3 x)) co)),
      (''telemetry'', jobj [(''attempts_total'', JInt 0), (''states'', JObj []), (''by_agent'', JObj [])])]"

text \<open>\<open>_status\<close>: the job that is asked for (no or an empty identifier means the latest one).\<close>

definition status_reply :: "'g daemon_host \<Rightarrow> string \<Rightarrow> ('g, json) dact" where
  "status_reply h job_id =
     act_bind (read_db (\<lambda>db. if job_id \<noteq> [] then rbind (get_job job_id db) (\<lambda>j. Inr (Some j)) else Inr (latest_job db))) (\<lambda>job.
     act_bind (read_world (\<lambda>w. dh_coordinator h (dw_rest w))) (\<lambda>co.
     case job of
       None \<Rightarrow> ret (empty_status (dh_float h) co)
     | Some job \<Rightarrow>
         act_bind (dnow h) (\<lambda>now1. act_bind (dnow h) (\<lambda>now. act_bind (dnow h) (\<lambda>now2.
         act_bind (read_db (\<lambda>db. bound_status_response (dh_float h) (status_of_job (dh_float h) co db job now1 now now2))) (\<lambda>ss.
         ret (status_json (dh_float h) ss)))))))"

section \<open>Requests\<close>

datatype served = Served json | WaitRunner string nat

definition serve_reply :: "('g, json) dact \<Rightarrow> ('g, served) dact" where
  "serve_reply m = act_bind m (\<lambda>v. ret (Served v))"

definition stop_effect :: "'g daemon_host \<Rightarrow> string \<Rightarrow> ('g, unit) dact" where
  "stop_effect h job_id =
     act_bind (read_db (get_job job_id)) (\<lambda>job.
     act_then (dcheck (j_state job \<noteq> JobCompleted) ''completed jobs are immutable'')
     (if j_state job = JobStopped then ret ()
      else
        act_then (dcheck (j_state job \<noteq> JobFailed) ''failed job is already inactive; use resume to retry it'')
        (act_then (if j_state job \<noteq> JobStopping then dtx2 h (\<lambda>now. request_stop now job_id) else ret ())
        (act_bind (read_world (active_runner job_id)) (\<lambda>runner.
           case runner of
             Some i \<Rightarrow> cancel_runner i
           | None \<Rightarrow>
               act_then (dtx h (\<lambda>now. settle_inflight now job_id TaskStopped ''cancelled'' ''stopped by user request''))
               (act_then (dtx h (\<lambda>now. update_job now job_id (no_job_update\<lparr>ju_state := Some JobStopped\<rparr>)))
               (act_then (dtxv h (\<lambda>now. event now job_id ''job.stopped'' None None)) (ret ()))))))))"

definition stop_request :: "'g daemon_host \<Rightarrow> string \<Rightarrow> ('g, json) dact" where
  "stop_request h job_id = act_then (stop_effect h job_id) (status_reply h job_id)"

text \<open>The part of a resume behind the wait.\<close>

definition resume_effect :: "'g daemon_host \<Rightarrow> string \<Rightarrow> job_state \<Rightarrow> ('g, unit) dact" where
  "resume_effect h job_id state =
     (if state = JobQueued then spawn job_id
      else
        act_then (dcheck (state \<in> {JobFailed, JobStopped, JobStopping})
          (''job in state '' @ quoted (job_state_value state) @ '' cannot be resumed''))
        (act_then (dtx2 h (\<lambda>now. prepare_resume now job_id)) (spawn job_id)))"

definition resume_go :: "'g daemon_host \<Rightarrow> string \<Rightarrow> job_state \<Rightarrow> ('g, json) dact" where
  "resume_go h job_id state = act_then (resume_effect h job_id state) (status_reply h job_id)"

definition resume_request :: "'g daemon_host \<Rightarrow> string \<Rightarrow> ('g, served) dact" where
  "resume_request h job_id =
     act_bind (read_db (get_job job_id)) (\<lambda>job.
     act_then (dcheck (j_state job \<noteq> JobCompleted) ''completed jobs are immutable; submit a new goal instead'')
     (act_bind (read_world (active_runner job_id)) (\<lambda>runner.
      act_then (dcheck (j_state job \<notin> {JobRunning, JobPlanning}) ''job is already active'')
      (case runner of
         Some i \<Rightarrow> if j_state job = JobStopping then ret (WaitRunner job_id i)
                   else dfail ''job still has an active runner''
       | None \<Rightarrow> serve_reply (resume_go h job_id (j_state job))))))"

definition resume_after :: "'g daemon_host \<Rightarrow> string \<Rightarrow> bool \<Rightarrow> ('g, json) dact" where
  "resume_after h job_id timed_out =
     (if timed_out then dfail ''job is still stopping; retry resume shortly''
      else act_bind (read_db (get_job job_id)) (\<lambda>job. resume_go h job_id (j_state job)))"

text \<open>
  \<open>_submit\<close>. Git is asked in a thread and behind the lock of the repository, before the daemon
  changes anything, so the answers are taken as those of one point in time.
\<close>

definition submit_request :: "'g daemon_host \<Rightarrow> config \<Rightarrow> payload_dict \<Rightarrow> ('g, json) dact" where
  "submit_request h cfg params =
     (let goal = py_strip (arg_str h (dict_get_or params ''goal'' (PStr [])));
          repo_value = arg_str h (dict_get_or params ''repo'' (PStr ''.''))
      in act_then (dcheck (goal \<noteq> []) ''goal cannot be empty'')
        (act_then (dcheck (length goal \<le> MAX_GOAL_CHARS) (''goal exceeds '' @ int_str (int MAX_GOAL_CHARS) @ '' characters''))
        (act_then (dcheck (length repo_value \<le> MAX_REPO_PATH_CHARS) ''repository path is too long'')
        (act_bind (dhost (dh_discover h repo_value)) (\<lambda>root.
         act_bind (dhost (dh_preflight h root)) (\<lambda>(base_branch, base_commit).
         act_bind (dfresh h ''run'') (\<lambda>branch_tag.
         act_bind (of_result (case dict_get params ''auto_apply'' of
                 None \<Rightarrow> Inr (auto_apply (cf_engine cfg))
               | Some PNull \<Rightarrow> Inr (auto_apply (cf_engine cfg))
               | Some (PBool b) \<Rightarrow> Inr b
               | Some _ \<Rightarrow> Inl (YoloError ''auto_apply must be true, false, or null''))) (\<lambda>wanted.
         act_bind (dfresh h ''job'') (\<lambda>new_job_id.
         act_bind (dtxv h (\<lambda>now. create_job now new_job_id root goal base_branch base_commit
           (branch_prefix (cf_git cfg) @ ''/'' @ branch_tag @ ''/integration'') wanted)) (\<lambda>job.
         act_then (spawn (j_id job)) (status_reply h (j_id job))))))))))))"

definition agents_reply :: "config \<Rightarrow> registry \<Rightarrow> (string \<times> agent_contract) list \<Rightarrow> json" where
  "agents_reply cfg reg contracts =
     (let names = (\<lambda>role. JArr (map jstr (available_agents reg None (Some role))))
      in jobj
        [(''available'', names RoleWorker), (''review_available'', names RoleReviewer),
         (''role_available'', jobj (map (\<lambda>role. (agent_role_value role, names role)) all_agent_roles)),
         (''configured'', jobj (map (\<lambda>(name, ac).
            let ct = (case map_of contracts name of
                        Some ct \<Rightarrow> ct
                      | None \<Rightarrow> \<lparr>ct_roles = [], ct_executable = [], ct_review_executable = [], ct_review_capability = ''none''\<rparr>)
            in (name, jobj
              [(''enabled'', JBool (ac_enabled ac)), (''command'', JArr (map jstr (ac_command ac))),
               (''review_command'', JArr (map jstr (ac_review_command ac))), (''roles'', JArr (map jstr (ct_roles ct))),
               (''executable'', jstr (ct_executable ct)), (''review_executable'', jstr (ct_review_executable ct)),
               (''review_capability'', jstr (ct_review_capability ct))])) (cf_agents cfg)))])"

definition events_reply :: "'g daemon_host \<Rightarrow> payload_dict \<Rightarrow> ('g, json) dact" where
  "events_reply h params =
     act_bind (of_result (job_arg h params)) (\<lambda>job_id.
     act_bind (of_result (arg_int (dict_get params ''after_id'') 0 0 (2 ^ 63 - 1) ''after_id'')) (\<lambda>after_id.
     act_bind (of_result (arg_int (dict_get params ''limit'') 200 1 MAX_EVENT_LIST_LIMIT ''limit'')) (\<lambda>limit.
     read_db (\<lambda>db. Inr (JArr (map (event_json (dh_float h)) (events_bounded (dh_float h) (events job_id after_id limit db))))))))"

definition jobs_reply :: "'g daemon_host \<Rightarrow> payload_dict \<Rightarrow> ('g, json) dact" where
  "jobs_reply h params =
     act_bind (of_result (arg_int (dict_get params ''limit'') 50 1 MAX_JOB_LIST_LIMIT ''limit'')) (\<lambda>limit.
     read_db (\<lambda>db. Inr (JArr (map (\<lambda>j. job_json (dh_float h) (job_list_item j)) (list_jobs limit db)))))"

definition dispatch :: "'g daemon_host \<Rightarrow> config \<Rightarrow> string \<Rightarrow> payload_dict \<Rightarrow> ('g, served) dact" where
  "dispatch h cfg verb params =
     (if verb = ''ping'' then
        serve_reply (ret (jobj [(''version'', jstr (dh_version h)), (''pid'', JInt (dh_pid h))]))
      else if verb = ''runtime'' then
        serve_reply (read_world (\<lambda>w. jobj (coordinator_snapshot (\<lambda>x. dh_float h (round3 x)) (dh_coordinator h (dw_rest w)))))
      else if verb = ''submit'' then serve_reply (submit_request h cfg params)
      else if verb = ''status'' then
        serve_reply (status_reply h
          (case dict_get params ''job_id'' of None \<Rightarrow> [] | Some v \<Rightarrow> if truthy v then arg_str h v else []))
      else if verb = ''jobs'' then serve_reply (jobs_reply h params)
      else if verb = ''events'' then serve_reply (events_reply h params)
      else if verb = ''stop'' then act_bind (of_result (job_arg h params)) (\<lambda>job_id. serve_reply (stop_request h job_id))
      else if verb = ''resume'' then act_bind (of_result (job_arg h params)) (resume_request h)
      else if verb = ''agents'' then
        act_bind (read_world (\<lambda>w. dh_contracts h (dw_rest w))) (\<lambda>result.
        act_bind (of_result result) (\<lambda>contracts.
        serve_reply (read_world (\<lambda>w. agents_reply cfg (dh_registry h (dw_rest w)) contracts))))
      else dfail (''unknown RPC method: '' @ verb))"

section \<open>Start and the runners\<close>

definition spawn_all :: "string list \<Rightarrow> ('g, unit) dact" where
  "spawn_all ids = (\<lambda>(db, w). (Inr (), db, fold spawn_world ids w))"

text \<open>\<open>start\<close>, behind the singleton lock and the socket: recovery, then a runner for every job it returns.\<close>

definition daemon_start :: "'g daemon_host \<Rightarrow> ('g, unit) dact" where
  "daemon_start h = (\<lambda>(db, w). case dh_now h (dw_rest w) of (now, g) \<Rightarrow>
     (case recover_incomplete now db of
        (Inl e, db') \<Rightarrow> (Inl (Raised e), db', w\<lparr>dw_rest := g\<rparr>)
      | (Inr ids, db') \<Rightarrow> spawn_all ids (db', w\<lparr>dw_rest := g\<rparr>)))"

text \<open>\<open>shutdown\<close>: every runner that is not done is cancelled and awaited, then the dictionary is cleared.\<close>

definition cancel_all :: "'g dworld \<Rightarrow> 'g dworld" where
  "cancel_all w = w\<lparr>dw_tasks := map (\<lambda>r. if rt_done r then r else r\<lparr>rt_cancel := True\<rparr>) (dw_tasks w)\<rparr>"

definition daemon_shutdown :: "'g dworld \<Rightarrow> 'g dworld" where
  "daemon_shutdown w =
     (let w = cancel_all w
      in w\<lparr>dw_tasks := map (\<lambda>r. r\<lparr>rt_done := True\<rparr>) (dw_tasks w), dw_runners := []\<rparr>)"

text \<open>
  How the daemon moves: a request is served, a resume goes on behind its wait, a runner that is not
  done changes the store by its transactions, ends, or has its callback run; other threads and the
  clock change the rest. \<open>sha\<close> is the digest the store checks dossiers with.
\<close>

inductive daemon_step :: "(string \<Rightarrow> string) \<Rightarrow> 'g daemon_host \<Rightarrow> config \<Rightarrow> db \<times> 'g dworld \<Rightarrow> db \<times> 'g dworld \<Rightarrow> bool"
  for sha h cfg where
  serve: "dispatch h cfg verb params s = (r, t) \<Longrightarrow> daemon_step sha h cfg s t"
| serve_after: "resume_after h job_id timed_out s = (r, t) \<Longrightarrow> daemon_step sha h cfg s t"
| work: "i < length (dw_tasks w) \<Longrightarrow> \<not> rt_done (dw_tasks w ! i) \<Longrightarrow> (db_step sha)\<^sup>*\<^sup>* db db' \<Longrightarrow>
    daemon_step sha h cfg (db, w) (db', w)"
| ended: "i < length (dw_tasks w) \<Longrightarrow>
    daemon_step sha h cfg (db, w) (db, w\<lparr>dw_tasks := (dw_tasks w)[i := (dw_tasks w ! i)\<lparr>rt_done := True\<rparr>]\<rparr>)"
| called_back: "i < length (dw_tasks w) \<Longrightarrow> rt_done (dw_tasks w ! i) \<Longrightarrow>
    daemon_step sha h cfg (db, w) (db, consume i w)"
| outside: "daemon_step sha h cfg (db, w) (db, w\<lparr>dw_rest := g\<rparr>)"

end
