(* ===== verification/Yolo_Daemon_Proofs.thy ===== *)
theory Yolo_Daemon_Proofs
  imports Yolo_Daemon Yolo_Orchestrator_Proofs
begin

text \<open>
  What the daemon guarantees: one unfinished runner per job whatever the clients ask for, a store
  that only moves by its transactions, requests that take effect, and replies that fit the protocol
  without losing the identity or state of a task.
\<close>

named_theorems moves_intros \<open>actions whose effect is within a relation of states\<close>

section \<open>Effects of actions\<close>

text \<open>
  An action moves within a relation if, however it ends, the state it leaves is related to the one
  it found. For a reflexive and transitive relation this composes.
\<close>

definition moves :: "(db \<times> 'g dworld \<Rightarrow> db \<times> 'g dworld \<Rightarrow> bool) \<Rightarrow> ('g, 'a) dact \<Rightarrow> bool" where
  "moves R m \<longleftrightarrow> (\<forall>s. R s (snd (m s)))"

lemma movesI: "(\<And>s r t. m s = (r, t) \<Longrightarrow> R s t) \<Longrightarrow> moves R m"
  unfolding moves_def by (metis prod.collapse)

lemma movesD: "moves R m \<Longrightarrow> m s = (r, t) \<Longrightarrow> R s t"
  unfolding moves_def by (metis snd_conv)

lemma moves_if [moves_intros]: "(c \<Longrightarrow> moves R m) \<Longrightarrow> (\<not> c \<Longrightarrow> moves R n) \<Longrightarrow> moves R (if c then m else n)"
  by simp

lemma moves_option [moves_intros]:
  "moves R m \<Longrightarrow> (\<And>x. moves R (f x)) \<Longrightarrow> moves R (case opt of None \<Rightarrow> m | Some x \<Rightarrow> f x)"
  by (cases opt) auto

lemma moves_pair [moves_intros]: "(\<And>a b. moves R (f a b)) \<Longrightarrow> moves R (case p of (a, b) \<Rightarrow> f a b)"
  by (cases p) auto

locale effect =
  fixes R :: "db \<times> 'g dworld \<Rightarrow> db \<times> 'g dworld \<Rightarrow> bool"
  assumes stay: "R s s"
    and chain: "R s t \<Longrightarrow> R t u \<Longrightarrow> R s u"
    and rest: "R (db, w) (db, w\<lparr>dw_rest := g\<rparr>)"
begin

lemma moves_ret [moves_intros]: "moves R (ret x)"
  by (rule movesI) (auto simp: ret_def intro: stay)

lemma moves_raise [moves_intros]: "moves R (raise_exc e)"
  by (rule movesI) (auto simp: raise_exc_def intro: stay)

lemma moves_bind [moves_intros]:
  assumes "moves R m" and "\<And>x. moves R (f x)"
  shows "moves R (act_bind m f)"
proof (rule movesI)
  fix s r t assume run: "act_bind m f s = (r, t)"
  obtain r1 u where m: "m s = (r1, u)" by (cases "m s")
  note k = movesD [OF assms(1) m]
  show "R s t"
  proof (cases r1)
    case (Inl e)
    with run m k show ?thesis by (simp add: act_bind_def)
  next
    case (Inr x)
    with run m have "f x u = (r, t)" by (simp add: act_bind_def)
    from chain [OF k movesD [OF assms(2) this]] show ?thesis .
  qed
qed

lemma moves_then [moves_intros]: "moves R m \<Longrightarrow> moves R n \<Longrightarrow> moves R (act_then m n)"
  unfolding act_then_def by (intro moves_bind)

lemma moves_of_result [moves_intros]: "moves R (of_result r)"
  by (cases r) (simp_all add: of_result_def moves_ret moves_raise)

lemma moves_read_db [moves_intros]: "moves R (read_db f)"
  using movesD [OF moves_of_result] by (intro movesI) (simp add: read_db_def)

lemma moves_read_world [moves_intros]: "moves R (read_world f)"
  by (rule movesI) (auto simp: read_world_def intro: stay)

lemma moves_dhost [moves_intros]: "moves R (dhost f)"
  by (rule movesI) (auto simp: dhost_def rest split: prod.splits sum.splits)

lemma moves_dnow [moves_intros]: "moves R (dnow h)"
  by (rule movesI) (auto simp: dnow_def rest split: prod.splits)

lemma moves_dfresh [moves_intros]: "moves R (dfresh h p)"
  by (rule movesI) (auto simp: dfresh_def rest split: prod.splits)

lemma moves_dfail [moves_intros]: "moves R (dfail text)"
  unfolding dfail_def by (rule moves_raise)

lemma moves_dcheck [moves_intros]: "moves R (dcheck ok text)"
  unfolding dcheck_def by (auto intro: moves_ret moves_dfail)

lemma moves_status [moves_intros]: "moves R (status_reply h job_id)"
  unfolding status_reply_def by (intro moves_intros)

lemma moves_serve_reply [moves_intros]: "moves R m \<Longrightarrow> moves R (serve_reply m)"
  unfolding serve_reply_def by (intro moves_intros)

end

text \<open>Replies leave the store and the runners alone.\<close>

definition only_reads :: "db \<times> 'g dworld \<Rightarrow> db \<times> 'g dworld \<Rightarrow> bool" where
  "only_reads s t \<longleftrightarrow>
     fst t = fst s \<and> dw_tasks (snd t) = dw_tasks (snd s) \<and> dw_runners (snd t) = dw_runners (snd s)"

interpretation reading: effect only_reads
  by unfold_locales (auto simp: only_reads_def)

text \<open>Every unfinished runner is the one the dictionary has for its job.\<close>

definition runners_ok :: "'g dworld \<Rightarrow> bool" where
  "runners_ok w \<longleftrightarrow>
     (\<forall>i < length (dw_tasks w). \<not> rt_done (dw_tasks w ! i) \<longrightarrow>
        map_of (dw_runners w) (rt_job (dw_tasks w ! i)) = Some i) \<and>
     (\<forall>j i. map_of (dw_runners w) j = Some i \<longrightarrow> i < length (dw_tasks w) \<and> rt_job (dw_tasks w ! i) = j)"

definition keeps :: "(string \<Rightarrow> string) \<Rightarrow> db \<times> 'g dworld \<Rightarrow> db \<times> 'g dworld \<Rightarrow> bool" where
  "keeps sha s t \<longleftrightarrow> (db_step sha)\<^sup>*\<^sup>* (fst s) (fst t) \<and> (runners_ok (snd s) \<longrightarrow> runners_ok (snd t))"

lemma runners_ok_rest [simp]: "runners_ok (w\<lparr>dw_rest := g\<rparr>) = runners_ok w"
  by (simp add: runners_ok_def)

interpretation stepping: effect "keeps sha" for sha
  by unfold_locales (auto simp: keeps_def)

lemma keeps_dtx: "(\<And>now db db'. f now db = Inr db' \<Longrightarrow> db_step sha db db') \<Longrightarrow> moves (keeps sha) (dtx h f)"
  by (rule movesI) (auto simp: dtx_def keeps_def split: prod.splits sum.splits)

lemma keeps_dtxv:
  "(\<And>now db x db'. f now db = Inr (x, db') \<Longrightarrow> db_step sha db db') \<Longrightarrow> moves (keeps sha) (dtxv h f)"
  by (rule movesI) (auto simp: dtxv_def keeps_def split: prod.splits sum.splits)

lemma keeps_dtx2:
  "(\<And>now db. (db_step sha)\<^sup>*\<^sup>* db (snd (f now db))) \<Longrightarrow> moves (keeps sha) (dtx2 h f)"
proof (rule movesI)
  fix s r t
  assume steps: "\<And>now db. (db_step sha)\<^sup>*\<^sup>* db (snd (f now db))" and run: "dtx2 h f s = (r, t)"
  obtain now g where now: "dh_now h (dw_rest (snd s)) = (now, g)" by (cases "dh_now h (dw_rest (snd s))")
  from run now have "fst t = snd (f now (fst s)) \<and> snd t = (snd s)\<lparr>dw_rest := g\<rparr>"
    by (auto simp: dtx2_def split: prod.splits sum.splits)
  with steps show "keeps sha s t" by (simp add: keeps_def)
qed

section \<open>The runners\<close>

lemma active_runner_Some:
  "active_runner job_id w = Some i \<longleftrightarrow> map_of (dw_runners w) job_id = Some i \<and> \<not> runner_done w i"
  by (auto simp: active_runner_def split: option.splits)

lemma spawn_world_ok: assumes ok: "runners_ok w" shows "runners_ok (spawn_world job_id w)"
proof (cases "active_runner job_id w = None")
  case False
  with ok show ?thesis by (simp add: spawn_world_def)
next
  case True
  let ?n = "length (dw_tasks w)"
  let ?w = "w\<lparr>dw_tasks := dw_tasks w @ [\<lparr>rt_job = job_id, rt_done = False, rt_cancel = False\<rparr>],
             dw_runners := AList.update job_id ?n (dw_runners w)\<rparr>"
  have other: "rt_job (dw_tasks w ! i) \<noteq> job_id" if "i < ?n" "\<not> rt_done (dw_tasks w ! i)" for i
  proof
    assume "rt_job (dw_tasks w ! i) = job_id"
    with ok that have "map_of (dw_runners w) job_id = Some i" by (auto simp: runners_ok_def)
    with True that show False by (simp add: active_runner_def runner_done_def)
  qed
  have "runners_ok ?w"
    using ok other by (auto simp: runners_ok_def update_conv' nth_append less_Suc_eq)
  with True show ?thesis by (simp add: spawn_world_def)
qed

lemma consume_ok:
  assumes ok: "runners_ok w" and i: "i < length (dw_tasks w)" "rt_done (dw_tasks w ! i)"
  shows "runners_ok (consume i w)"
proof (cases "map_of (dw_runners w) (rt_job (dw_tasks w ! i)) = Some i")
  case True
  let ?job = "rt_job (dw_tasks w ! i)"
  have other: "rt_job (dw_tasks w ! k) \<noteq> ?job" if "k < length (dw_tasks w)" "\<not> rt_done (dw_tasks w ! k)" for k
  proof
    assume "rt_job (dw_tasks w ! k) = ?job"
    with ok that have "map_of (dw_runners w) ?job = Some k" unfolding runners_ok_def by metis
    with True i(2) that(2) show False by simp
  qed
  have "map_of (AList.delete ?job (dw_runners w)) j = (if j = ?job then None else map_of (dw_runners w) j)" for j
    by (simp add: delete_conv')
  with ok other have "runners_ok (w\<lparr>dw_runners := AList.delete ?job (dw_runners w)\<rparr>)"
    unfolding runners_ok_def by simp
  with True show ?thesis by (simp add: consume_def Let_def)
qed (use ok in \<open>simp add: consume_def Let_def\<close>)

lemma nth_update_in: "k < length xs \<Longrightarrow> xs[i := x] ! k = (if k = i then x else xs ! k)"
  by (cases "i < length xs") (auto simp: nth_list_update list_update_beyond)

lemma runners_ok_mark:
  assumes "runners_ok w" and "\<And>r. rt_job (f r) = rt_job r" and "\<And>r. rt_done r \<Longrightarrow> rt_done (f r)"
  shows "runners_ok (w\<lparr>dw_tasks := (dw_tasks w)[i := f (dw_tasks w ! i)]\<rparr>)"
proof -
  have job: "rt_job ((dw_tasks w)[i := f (dw_tasks w ! i)] ! k) = rt_job (dw_tasks w ! k)"
    and undone: "\<not> rt_done ((dw_tasks w)[i := f (dw_tasks w ! i)] ! k) \<Longrightarrow> \<not> rt_done (dw_tasks w ! k)"
    if "k < length (dw_tasks w)" for k
    using assms(2,3) that by (auto simp: nth_update_in split: if_splits)
  with assms(1) show ?thesis unfolding runners_ok_def by simp
qed

lemma mark_done_ok: "runners_ok w \<Longrightarrow> runners_ok (w\<lparr>dw_tasks := (dw_tasks w)[i := (dw_tasks w ! i)\<lparr>rt_done := True\<rparr>]\<rparr>)"
  by (rule runners_ok_mark) simp_all

lemma keeps_cancel [moves_intros]: "moves (keeps sha) (cancel_runner i)"
  by (rule movesI) (auto simp: cancel_runner_def keeps_def intro!: runners_ok_mark)

lemma keeps_spawn [moves_intros]: "moves (keeps sha) (spawn job_id)"
  by (rule movesI) (auto simp: spawn_def keeps_def spawn_world_ok)

section \<open>The requests\<close>

lemma keeps_settle [moves_intros]: "moves (keeps sha) (dtx h (\<lambda>now. settle_inflight now job_id ts st summary))"
  by (rule keeps_dtx) (rule step_settle)

lemma keeps_update_job [moves_intros]: "moves (keeps sha) (dtx h (\<lambda>now. update_job now job_id upd))"
  by (rule keeps_dtx) (rule step_update_job)

lemma keeps_event [moves_intros]: "moves (keeps sha) (dtxv h (\<lambda>now. event now job_id kind p t))"
  by (rule keeps_dtxv) (rule step_event)

lemma keeps_create_job [moves_intros]: "moves (keeps sha) (dtxv h (\<lambda>now. create_job now i repo goal bb bc ib aa))"
  by (rule keeps_dtxv) (rule step_create_job)

lemma keeps_request_stop [moves_intros]: "moves (keeps sha) (dtx2 h (\<lambda>now. request_stop now job_id))"
  by (rule keeps_dtx2) (simp add: request_stop_def update_then_event_run)

lemma keeps_prepare_resume [moves_intros]: "moves (keeps sha) (dtx2 h (\<lambda>now. prepare_resume now job_id))"
  by (rule keeps_dtx2) (rule prepare_resume_run)

lemma keeps_resume_go [moves_intros]: "moves (keeps sha) (resume_go h job_id state)"
  unfolding resume_go_def resume_effect_def by (intro moves_intros)

lemma keeps_stop [moves_intros]: "moves (keeps sha) (stop_request h job_id)"
  unfolding stop_request_def stop_effect_def by (intro moves_intros)

lemma keeps_resume [moves_intros]: "moves (keeps sha) (resume_request h job_id)"
  unfolding resume_request_def by (intro moves_intros)

lemma keeps_resume_after [moves_intros]: "moves (keeps sha) (resume_after h job_id timed_out)"
  unfolding resume_after_def by (intro moves_intros)

lemma keeps_submit [moves_intros]: "moves (keeps sha) (submit_request h cfg params)"
  unfolding submit_request_def Let_def by (intro moves_intros)

lemma keeps_dispatch [moves_intros]: "moves (keeps sha) (dispatch h cfg verb params)"
  unfolding dispatch_def jobs_reply_def events_reply_def by (intro moves_intros)

lemma keeps_start: "moves (keeps sha) (daemon_start h)"
proof (rule movesI)
  fix s r t assume run: "daemon_start h s = (r, t)"
  obtain db w now g where s: "s = (db, w)" and now: "dh_now h (dw_rest w) = (now, g)"
    by (cases s; cases "dh_now h (dw_rest (snd s))") auto
  have "runners_ok (fold spawn_world ids u)" if "runners_ok u" for ids and u :: "'a dworld"
    using that by (induction ids arbitrary: u) (auto simp: spawn_world_ok)
  with run recover_incomplete_run [of sha db now] show "keeps sha s t"
    by (auto simp: s daemon_start_def now spawn_all_def keeps_def split: prod.splits sum.splits)
qed

lemma daemon_step_keeps: "daemon_step sha h cfg s t \<Longrightarrow> keeps sha s t"
proof (induction rule: daemon_step.induct)
  case (serve verb params s r t)
  then show ?case by (rule movesD [OF keeps_dispatch])
next
  case (serve_after job_id timed_out s r t)
  then show ?case by (rule movesD [OF keeps_resume_after])
qed (auto simp: keeps_def mark_done_ok consume_ok)

lemma daemon_run_keeps: "(daemon_step sha h cfg)\<^sup>*\<^sup>* s t \<Longrightarrow> keeps sha s t"
  by (induction rule: rtranclp_induct) (auto intro: stepping.stay stepping.chain daemon_step_keeps)

section \<open>What the daemon guarantees\<close>

text \<open>C28: One runner per job. From the start of a daemon on a sound store, in whatever order clients
  submit, stop and resume, runners work, end and are called back, a job never has two unfinished
  runners, every state of the store satisfies its invariant, and no history is lost.\<close>

theorem one_runner_per_job:
  assumes "db_inv sha db" and "dw_tasks w = []" and "dw_runners w = []"
    and "daemon_start h (db, w) = (r, s0)" and "(daemon_step sha h cfg)\<^sup>*\<^sup>* s0 s"
  shows "db_inv sha (fst s) \<and> kept db (fst s) \<and>
    (\<forall>i k. i < length (dw_tasks (snd s)) \<and> k < length (dw_tasks (snd s)) \<and>
       \<not> rt_done (dw_tasks (snd s) ! i) \<and> \<not> rt_done (dw_tasks (snd s) ! k) \<and>
       rt_job (dw_tasks (snd s) ! i) = rt_job (dw_tasks (snd s) ! k) \<longrightarrow> i = k)"
proof -
  have "keeps sha (db, w) s"
    by (rule stepping.chain [OF movesD [OF keeps_start assms(4)] daemon_run_keeps [OF assms(5)]])
  moreover have "runners_ok w" using assms(2,3) by (simp add: runners_ok_def)
  ultimately have run: "(db_step sha)\<^sup>*\<^sup>* db (fst s)" and ok: "runners_ok (snd s)" by (auto simp: keeps_def)
  from ok have "i = k" if "i < length (dw_tasks (snd s))" "k < length (dw_tasks (snd s))"
      "\<not> rt_done (dw_tasks (snd s) ! i)" "\<not> rt_done (dw_tasks (snd s) ! k)"
      "rt_job (dw_tasks (snd s) ! i) = rt_job (dw_tasks (snd s) ! k)" for i k
    unfolding runners_ok_def using that by (metis option.inject)
  with store.run_inv [OF run assms(1)] store.run_hist [OF run assms(1)] show ?thesis by blast
qed

definition demo_daemon :: "unit daemon_host" where
  "demo_daemon =
     \<lparr>dh_now = (\<lambda>g. (2, g)), dh_fresh = (\<lambda>g. (''0123456789abcdef'', g)), dh_discover = (\<lambda>p g. (Inr ''/repo'', g)),
      dh_preflight = (\<lambda>r g. (Inr (''main'', ''c0''), g)),
      dh_coordinator = (\<lambda>_. \<lparr>co_slots = \<lparr>sl_max = 1, sl_free = 1, sl_queue = [], sl_held = [], sl_active = 0,
        sl_waiting = 0, sl_acquisitions = 0, sl_cancelled = 0, sl_wait_seconds = 0, sl_busy_seconds = 0, sl_peak = 0\<rparr>,
        co_repos = init_repos\<rparr>),
      dh_contracts = (\<lambda>_. Inr []), dh_registry = (\<lambda>_. []), dh_float = (\<lambda>_. [48]), dh_str = (\<lambda>_. []),
      dh_version = ''1'', dh_pid = 1\<rparr>"

definition idle_world :: "unit dworld" where
  "idle_world = \<lparr>dw_tasks = [], dw_runners = [], dw_rest = ()\<rparr>"

definition demo_started :: "(exc + unit) \<times> db \<times> unit dworld" where
  "demo_started = daemon_start demo_daemon (demo_db 4, idle_world)"

lemma one_runner_per_job_witness:
  "dw_runners (snd (snd demo_started)) = [(''job-1'', 0)] \<and>
   db_inv demo_sha (fst (snd demo_started)) \<and> kept (demo_db 4) (fst (snd demo_started))"
proof -
  have start: "daemon_start demo_daemon (demo_db 4, idle_world) = (fst demo_started, snd demo_started)"
    unfolding demo_started_def by (rule prod.collapse [symmetric])
  have inv: "db_inv demo_sha (demo_db 4)" by (rule store.reach_inv [OF demo_reachable])
  have idle: "dw_tasks idle_world = []" "dw_runners idle_world = []" by (simp_all add: idle_world_def)
  have "dw_runners (snd (snd demo_started)) = [(''job-1'', 0)]" by code_simp
  with one_runner_per_job [OF inv idle start rtranclp.rtrancl_refl] show ?thesis by blast
qed

section \<open>Stopping\<close>

lemma dtx_Inr: "dtx h f (db, w) = (Inr x, t) \<Longrightarrow>
    \<exists>now db' g. f now db = Inr db' \<and> t = (db', w\<lparr>dw_rest := g\<rparr>)"
  by (auto simp: dtx_def split: prod.splits sum.splits)

lemma dtxv_Inr: "dtxv h f (db, w) = (Inr x, t) \<Longrightarrow>
    \<exists>now db' g. f now db = Inr (x, db') \<and> t = (db', w\<lparr>dw_rest := g\<rparr>)"
  by (auto simp: dtxv_def split: prod.splits sum.splits)

lemma dtx2_Inr: "dtx2 h f (db, w) = (Inr x, t) \<Longrightarrow>
    \<exists>now db' g. f now db = (Inr (), db') \<and> t = (db', w\<lparr>dw_rest := g\<rparr>)"
  by (auto simp: dtx2_def split: prod.splits sum.splits)

lemma update_job_state:
  assumes "update_job now jid u db = Inr db'" and "ju_state u = Some st"
  shows "\<exists>j. find_job jid (db_jobs db') = Some j \<and> j_state j = st \<and>
    db_tasks db' = db_tasks db \<and> db_attempts db' = db_attempts db"
proof -
  have "u \<noteq> no_job_update" using assms(2) by (auto simp: no_job_update_def)
  from update_job_effect [OF assms(1) this] obtain row where row: "find_job jid (db_jobs db) = Some row"
    and db': "db' = db\<lparr>db_jobs := update_where (\<lambda>r. j_id r = jid \<and> j_state r = j_state row)
              (apply_job_update now u (override (ju_state u) (j_state row))) (db_jobs db)\<rparr>" by auto
  have "j_id row = jid" using row by (auto dest: job_tab.select_SomeD)
  moreover have "j_id (apply_job_update now u x r) = j_id r" for x r by (simp add: apply_job_update_def)
  ultimately show ?thesis
    using row assms(2) by (auto simp: db' job_tab.select_update apply_job_update_def override_def split: option.splits)
qed

lemma request_stop_state:
  assumes "request_stop now jid db = (Inr (), db')"
  shows "\<exists>j. find_job jid (db_jobs db') = Some j \<and> j_state j = JobStopping"
proof -
  let ?u = "no_job_update\<lparr>ju_stop_requested := Some True, ju_state := Some JobStopping\<rparr>"
  from assms obtain db1 n where one: "update_job now jid ?u db = Inr db1"
    and two: "event now jid ''job.stop_requested'' None None db1 = Inr (n, db')"
    by (auto simp: request_stop_def update_then_event_def split: sum.splits prod.splits)
  have "ju_state ?u = Some JobStopping" by simp
  from update_job_state [OF one this] event_rows [OF two] show ?thesis by auto
qed

text \<open>The three transactions of a stop without a runner.\<close>

lemma stop_settles:
  assumes "act_then (dtx h (\<lambda>now. settle_inflight now jid TaskStopped ''cancelled'' summary))
      (act_then (dtx h (\<lambda>now. update_job now jid (no_job_update\<lparr>ju_state := Some JobStopped\<rparr>)))
      (act_then (dtxv h (\<lambda>now. event now jid ''job.stopped'' None None)) (ret ()))) (db, w) = (Inr x, db', w')"
  shows "\<exists>j. find_job jid (db_jobs db') = Some j \<and> j_state j = JobStopped \<and> settled_job jid db'"
proof -
  from assms obtain u1 s1 u2 s2 u3 s3 where
    "dtx h (\<lambda>now. settle_inflight now jid TaskStopped ''cancelled'' summary) (db, w) = (Inr u1, s1)"
    and two: "dtx h (\<lambda>now. update_job now jid (no_job_update\<lparr>ju_state := Some JobStopped\<rparr>)) s1 = (Inr u2, s2)"
    and three: "dtxv h (\<lambda>now. event now jid ''job.stopped'' None None) s2 = (Inr u3, s3)" and last: "(db', w') = s3"
    by (elim act_then_InrE) auto
  from dtx_Inr [OF this(1)] obtain n1 db1 g1 where
    one: "settle_inflight n1 jid TaskStopped ''cancelled'' summary db = Inr db1" "s1 = (db1, w\<lparr>dw_rest := g1\<rparr>)" by blast
  from dtx_Inr [OF two [unfolded one(2)]] obtain n2 db2 g2 where
    upd: "update_job n2 jid (no_job_update\<lparr>ju_state := Some JobStopped\<rparr>) db1 = Inr db2"
      "s2 = (db2, w\<lparr>dw_rest := g1, dw_rest := g2\<rparr>)" by blast
  from dtxv_Inr [OF three [unfolded upd(2)]] last obtain n3 where
    ev: "event n3 jid ''job.stopped'' None None db2 = Inr (u3, db')" by auto
  have "ju_state (no_job_update\<lparr>ju_state := Some JobStopped\<rparr>) = Some JobStopped" by simp
  from update_job_state [OF upd(1) this] settle_inflight_settles [OF one(1)] event_rows [OF ev]
  show ?thesis by (auto simp: settled_job_def)
qed

lemma active_runner_rest [simp]: "active_runner jid (w\<lparr>dw_rest := g\<rparr>) = active_runner jid w"
  by (simp add: active_runner_def runner_done_def split: option.splits)

lemma active_runner_in: "active_runner jid w = Some i \<Longrightarrow> i < length (dw_tasks w) \<and> \<not> rt_done (dw_tasks w ! i)"
  by (auto simp: active_runner_Some runner_done_def split: if_splits)

lemma dcheck_Inr [simp]: "dcheck ok text s = (Inr x, t) \<longleftrightarrow> ok \<and> t = s"
  by (auto simp: dcheck_def dfail_def)

text \<open>C29: A stop takes effect before its reply is made: the job was not finished, and afterwards it is
  stopped with nothing running or in flight, or it is stopping and its unfinished runner was
  cancelled; a job that was already stopped is left alone.\<close>

theorem stop_takes_effect:
  assumes "stop_effect h jid (db, w) = (Inr v, db', w')"
  shows "\<exists>j0 j. find_job jid (db_jobs db) = Some j0 \<and> find_job jid (db_jobs db') = Some j \<and>
    j_state j0 \<notin> {JobCompleted, JobFailed} \<and>
    (j_state j0 = JobStopped \<and> db' = db \<or>
     active_runner jid w = None \<and> j_state j = JobStopped \<and> settled_job jid db' \<or>
     (\<exists>i. active_runner jid w = Some i \<and> j_state j = JobStopping \<and> rt_cancel (dw_tasks w' ! i)))"
proof -
  let ?settle = "act_then (dtx h (\<lambda>now. settle_inflight now jid TaskStopped ''cancelled'' ''stopped by user request''))
    (act_then (dtx h (\<lambda>now. update_job now jid (no_job_update\<lparr>ju_state := Some JobStopped\<rparr>)))
    (act_then (dtxv h (\<lambda>now. event now jid ''job.stopped'' None None)) (ret ())))"
  let ?ask = "dtx2 h (\<lambda>now. request_stop now jid)"
  from assms obtain j0 where j0: "find_job jid (db_jobs db) = Some j0" "j_state j0 \<noteq> JobCompleted"
    and run: "(if j_state j0 = JobStopped then ret ()
      else act_then (dcheck (j_state j0 \<noteq> JobFailed) ''failed job is already inactive; use resume to retry it'')
        (act_then (if j_state j0 \<noteq> JobStopping then ?ask else ret ())
        (act_bind (read_world (active_runner jid)) (\<lambda>runner.
           case runner of Some i \<Rightarrow> cancel_runner i | None \<Rightarrow> ?settle)))) (db, w) = (Inr v, db', w')"
    unfolding stop_effect_def by (elim act_bind_InrE act_then_InrE) (auto simp: read_db_Inr get_job_def lookup_job_def)
  show ?thesis
  proof (cases "j_state j0 = JobStopped")
    case True
    with run j0 show ?thesis by simp
  next
    case False
    with run obtain u1 db1 w1 where nf: "j_state j0 \<noteq> JobFailed"
      and stop: "(if j_state j0 \<noteq> JobStopping then ?ask else ret ()) (db, w) = (Inr u1, db1, w1)"
      and mid: "(case active_runner jid w1 of Some i \<Rightarrow> cancel_runner i | None \<Rightarrow> ?settle) (db1, w1) = (Inr v, db', w')"
      by (auto simp: act_then_Inr act_bind_Inr read_world_def)
    have before: "(\<exists>j. find_job jid (db_jobs db1) = Some j \<and> j_state j = JobStopping) \<and>
        active_runner jid w1 = active_runner jid w \<and> dw_tasks w1 = dw_tasks w"
    proof (cases "j_state j0 = JobStopping")
      case True
      with stop j0 show ?thesis by simp
    next
      case False
      with stop dtx2_Inr [of h "\<lambda>now. request_stop now jid" db w u1 "(db1, w1)"] obtain now g where
        "request_stop now jid db = (Inr (), db1)" "w1 = w\<lparr>dw_rest := g\<rparr>" by auto
      with request_stop_state [of now jid db db1] show ?thesis by simp
    qed
    show ?thesis
    proof (cases "active_runner jid w")
      case None
      with mid before have "\<exists>j. find_job jid (db_jobs db') = Some j \<and> j_state j = JobStopped \<and> settled_job jid db'"
        by (intro stop_settles) simp
      with None j0 nf show ?thesis by auto
    next
      case (Some i)
      with active_runner_in [of jid w i] mid before have "rt_cancel (dw_tasks w' ! i)" "db' = db1"
        by (auto simp: cancel_runner_def)
      with Some before j0 nf show ?thesis by auto
    qed
  qed
qed

lemma stop_takes_effect_witness:
  "\<exists>j. find_job ''job-1'' (db_jobs (fst (snd (stop_effect demo_daemon ''job-1'' (demo_db 4, idle_world))))) = Some j \<and>
     j_state j = JobStopped \<and> settled_job ''job-1'' (fst (snd (stop_effect demo_daemon ''job-1'' (demo_db 4, idle_world))))"
proof -
  let ?run = "stop_effect demo_daemon ''job-1'' (demo_db 4, idle_world)"
  have "fst ?run = Inr ()" by code_simp
  then have run: "?run = (Inr (), fst (snd ?run), snd (snd ?run))" by (simp add: prod_eq_iff)
  have "active_runner ''job-1'' idle_world = None"
    "map_option j_state (find_job ''job-1'' (db_jobs (demo_db 4))) = Some JobRunning" by code_simp+
  with stop_takes_effect [OF run] show ?thesis by auto
qed

section \<open>Resuming\<close>

lemma spawn_world_active:
  assumes "runners_ok w"
  shows "\<exists>i. active_runner jid (spawn_world jid w) = Some i \<and> take (length (dw_tasks w)) (dw_tasks (spawn_world jid w)) = dw_tasks w"
proof (cases "active_runner jid w = None")
  case True
  then show ?thesis
    by (auto simp: spawn_world_def active_runner_def runner_done_def update_conv' split: option.splits)
next
  case False
  then show ?thesis by (auto simp: spawn_world_def)
qed

lemma prepare_resume_queues:
  assumes "prepare_resume now jid db = (Inr (), db')"
  shows "\<exists>j0 j. find_job jid (db_jobs db) = Some j0 \<and> j_state j0 \<in> {JobStopped, JobFailed} \<and>
    find_job jid (db_jobs db') = Some j \<and> j_state j = JobQueued \<and> \<not> j_stop_requested j"
proof -
  from assms obtain db1 n where one: "prepare_resume_tx now jid db = Inr db1"
    and two: "event now jid ''job.resumed'' None None db1 = Inr (n, db')"
    by (auto simp: prepare_resume_def split: sum.splits prod.splits)
  from prepare_resume_tx_effect [OF one] obtain j0 where j0: "find_job jid (db_jobs db) = Some j0"
    "j_acceptance_phase j0 = PhaseNone" "j_state j0 \<in> {JobStopped, JobFailed}"
    and jobs: "db_jobs db1 = update_where (\<lambda>r. j_id r = jid \<and> j_state r = j_state j0 \<and> j_acceptance_phase r = PhaseNone)
                 (\<lambda>r. r\<lparr>j_state := JobQueued, j_stop_requested := False, j_error := '''',
                        j_updated_at := now\<rparr>) (db_jobs db)" by auto
  have "j_id j0 = jid" using j0(1) by (auto dest: job_tab.select_SomeD)
  with j0 have "\<exists>j. find_job jid (db_jobs db1) = Some j \<and> j_state j = JobQueued \<and> \<not> j_stop_requested j"
    by (auto simp: jobs job_tab.select_update)
  with j0 event_rows [OF two] show ?thesis by auto
qed

text \<open>C30: A resume that goes through leaves the job queued (it was stopped or failed, or still queued)
  with an unfinished runner of its own, and no runner that existed before is touched.\<close>

theorem resume_starts_runner:
  assumes "resume_effect h jid state (db, w) = (Inr v, db', w')" and "runners_ok w"
  shows "(\<exists>i. active_runner jid w' = Some i) \<and> take (length (dw_tasks w)) (dw_tasks w') = dw_tasks w \<and>
    (state = JobQueued \<and> db' = db \<or>
     (\<exists>j0 j. find_job jid (db_jobs db) = Some j0 \<and> j_state j0 \<in> {JobStopped, JobFailed} \<and>
        find_job jid (db_jobs db') = Some j \<and> j_state j = JobQueued \<and> \<not> j_stop_requested j))"
proof (cases "state = JobQueued")
  case True
  with assms spawn_world_active [OF assms(2), of jid] show ?thesis by (auto simp: resume_effect_def spawn_def)
next
  case False
  with assms(1) obtain u db1 w1 where res: "dtx2 h (\<lambda>now. prepare_resume now jid) (db, w) = (Inr u, db1, w1)"
    and sp: "spawn jid (db1, w1) = (Inr v, db', w')"
    by (auto simp: resume_effect_def act_then_Inr)
  from dtx2_Inr [OF res] obtain now g where r: "prepare_resume now jid db = (Inr (), db1)" "w1 = w\<lparr>dw_rest := g\<rparr>"
    by auto
  from sp have "db' = db1" "w' = spawn_world jid w1" by (auto simp: spawn_def)
  with r spawn_world_active [of w1 jid] assms(2) prepare_resume_queues [OF r(1)] show ?thesis by auto
qed

definition stopped_demo :: "db \<times> unit dworld" where
  "stopped_demo = snd (stop_effect demo_daemon ''job-1'' (demo_db 4, idle_world))"

lemma resume_starts_runner_witness:
  "active_runner ''job-1'' (snd (snd (resume_effect demo_daemon ''job-1'' JobStopped stopped_demo))) \<noteq> None"
proof -
  let ?run = "resume_effect demo_daemon ''job-1'' JobStopped (fst stopped_demo, snd stopped_demo)"
  have "fst ?run = Inr ()" by code_simp
  then have run: "?run = (Inr (), fst (snd ?run), snd (snd ?run))" by (simp add: prod_eq_iff)
  have "dw_tasks (snd stopped_demo) = []" "dw_runners (snd stopped_demo) = []" by code_simp+
  then have "runners_ok (snd stopped_demo)" by (simp add: runners_ok_def)
  from resume_starts_runner [OF run this] show ?thesis by auto
qed

text \<open>The daemon lets a stopping job without a runner through to \<open>prepare_resume\<close>, which always
  refuses it: such a job has to be stopped again before it can be resumed.\<close>

theorem stopping_job_not_resumable:
  "map_option j_state (find_job jid (db_jobs db)) = Some JobStopping \<longrightarrow>
   (\<exists>e w'. resume_effect h jid JobStopping (db, w) = (Inl e, db, w'))"
proof
  assume "map_option j_state (find_job jid (db_jobs db)) = Some JobStopping"
  then obtain j where j: "find_job jid (db_jobs db) = Some j" "j_state j = JobStopping" by auto
  obtain now g where now: "dh_now h (dw_rest w) = (now, g)" by (cases "dh_now h (dw_rest w)")
  have "\<exists>e. prepare_resume_tx now jid db = Inl e"
  proof (cases "prepare_resume_tx now jid db")
    case (Inr db')
    from prepare_resume_tx_effect [OF this] j show ?thesis by auto
  qed auto
  then obtain e where "prepare_resume now jid db = (Inl e, db)" by (auto simp: prepare_resume_def)
  with now show "\<exists>e w'. resume_effect h jid JobStopping (db, w) = (Inl e, db, w')"
    by (simp add: resume_effect_def act_then_def act_bind_def dtx2_def dcheck_def ret_def)
qed

section \<open>Bounded replies\<close>

definition entry_size :: "('e \<Rightarrow> nat) \<Rightarrow> 'e list \<Rightarrow> nat" where
  "entry_size size_of es = sum_list (map (\<lambda>e. size_of e + 1) es)"

lemma entry_size_simps [simp]:
  "entry_size f [] = 0" "entry_size f (es @ ds) = entry_size f es + entry_size f ds"
  "entry_size f (e # es) = f e + 1 + entry_size f es"
  by (simp_all add: entry_size_def)

lemma events_loop_spec:
  assumes "used = 2 + entry_size f result" and "entry_size f result \<le> budget"
  shows "\<exists>k. events_loop f budget result used es = result @ take k (filter (\<lambda>e. f e + 1 \<le> budget) es) \<and>
    entry_size f (events_loop f budget result used es) \<le> budget \<and>
    (result = [] \<longrightarrow> filter (\<lambda>e. f e + 1 \<le> budget) es \<noteq> [] \<longrightarrow> events_loop f budget result used es \<noteq> [])"
  using assms
proof (induction f budget result used es rule: events_loop.induct)
  case (1 f budget result used)
  then show ?case by simp
next
  case (2 f budget result used e es)
  let ?fits = "\<lambda>e. f e + 1 \<le> budget"
  consider (stop) "result \<noteq> []" "used + (f e + 1) > budget"
    | (skip) "\<not> (result \<noteq> [] \<and> used + (f e + 1) > budget)" "f e + 1 > budget"
    | (more) "\<not> (result \<noteq> [] \<and> used + (f e + 1) > budget)" "?fits e" by linarith
  then show ?case
  proof cases
    case stop
    then have "events_loop f budget result used (e # es) = result @ take 0 (filter ?fits (e # es))" by simp
    with 2(4) stop show ?thesis by (metis append_Nil2 take0)
  next
    case skip
    then have "events_loop f budget result used (e # es) = events_loop f budget result used es" by auto
    moreover have "filter ?fits (e # es) = filter ?fits es" using skip(2) by simp
    ultimately show ?thesis using "2.IH"(1) [OF refl _ _ 2(3,4)] skip by auto
  next
    case more
    have small: "entry_size f (result @ [e]) \<le> budget" using more 2(3) by (cases "result = []") auto
    have step: "events_loop f budget result used (e # es) = events_loop f budget (result @ [e]) (used + (f e + 1)) es"
      using more by auto
    have "\<exists>k. events_loop f budget (result @ [e]) (used + (f e + 1)) es = (result @ [e]) @ take k (filter ?fits es) \<and>
        entry_size f (events_loop f budget (result @ [e]) (used + (f e + 1)) es) \<le> budget"
      using "2.IH"(2) [OF refl] more 2(3) small by auto
    then obtain k where k: "events_loop f budget (result @ [e]) (used + (f e + 1)) es = (result @ [e]) @ take k (filter ?fits es)"
      "entry_size f (events_loop f budget (result @ [e]) (used + (f e + 1)) es) \<le> budget" by blast
    have "(result @ [e]) @ take k (filter ?fits es) = result @ take (Suc k) (filter ?fits (e # es))"
      using more(2) by simp
    with k step show ?thesis by (metis append_is_Nil_conv append_Nil list.discI take_Suc_Cons)
  qed
qed

text \<open>The length of an array.\<close>

lemma length_join: "length (join_with sep xs) = sum_list (map length xs) + (length xs - 1) * length sep"
proof (induction sep xs rule: join_with.induct)
  case (3 sep x y xs)
  then show ?case by (simp add: algebra_simps)
qed simp_all

lemma sum_list_Suc: "(\<Sum>x\<leftarrow>xs. Suc (f x)) = (\<Sum>x\<leftarrow>xs. f x) + length xs"
  by (induction xs) auto

lemma array_size: "encoded_size (JArr (map g es)) = (if es = [] then 2 else 1 + entry_size (\<lambda>e. encoded_size (g e)) es)"
  by (cases es) (simp_all add: encoded_size_def length_join entry_size_def sum_list_Suc comp_def)

text \<open>A page of events is the longest part that fits: of the events the store returned, in order, it
  has the first few that are not oversized by themselves, it is empty only if there is none, and its
  text is below the message limit by a wide margin.\<close>

theorem event_page_fits:
  "(\<exists>k. events_bounded fl es =
      take k (filter (\<lambda>e. encoded_size (event_json fl e) + 1 \<le> MAX_RPC_MESSAGE_BYTES - 65536) es)) \<and>
   (events_bounded fl es = []) =
     (filter (\<lambda>e. encoded_size (event_json fl e) + 1 \<le> MAX_RPC_MESSAGE_BYTES - 65536) es = []) \<and>
   encoded_size (JArr (map (event_json fl) (events_bounded fl es))) \<le> MAX_RPC_MESSAGE_BYTES - 65535"
proof -
  let ?f = "\<lambda>e. encoded_size (event_json fl e)" and ?B = "MAX_RPC_MESSAGE_BYTES - 65536"
  let ?fits = "filter (\<lambda>e. ?f e + 1 \<le> ?B) es"
  have "\<exists>k. events_bounded fl es = [] @ take k ?fits \<and> entry_size ?f (events_bounded fl es) \<le> ?B \<and>
     (([] :: event_row list) = [] \<longrightarrow> ?fits \<noteq> [] \<longrightarrow> events_bounded fl es \<noteq> [])"
    unfolding events_bounded_def by (rule events_loop_spec) simp_all
  then obtain k where k: "events_bounded fl es = take k ?fits" "entry_size ?f (events_bounded fl es) \<le> ?B"
    "?fits \<noteq> [] \<Longrightarrow> events_bounded fl es \<noteq> []" by auto
  have "encoded_size (JArr (map (event_json fl) (events_bounded fl es))) \<le> MAX_RPC_MESSAGE_BYTES - 65535"
    using k(2) by (simp add: array_size MAX_RPC_MESSAGE_BYTES_def)
  moreover have "(events_bounded fl es = []) = (?fits = [])"
  proof
    assume "?fits = []"
    with k(1) show "events_bounded fl es = []" by simp
  qed (use k(3) in blast)
  ultimately show ?thesis using k(1) by blast
qed

text \<open>What of a task and of a job identifies it and tells its state.\<close>

definition task_key :: "status_task \<Rightarrow> string \<times> string \<times> int \<times> string \<times> task_state \<times> int" where
  "task_key st = (t_id (st_row st), t_job_id (st_row st), t_seq (st_row st), t_logical_id (st_row st),
     t_state (st_row st), t_attempts (st_row st))"

definition status_kept :: "status \<Rightarrow> status \<Rightarrow> bool" where
  "status_kept s t \<longleftrightarrow> map task_key (ss_tasks t) = map task_key (ss_tasks s) \<and>
     (j_id (ss_job t), j_state (ss_job t), j_acceptance_phase (ss_job t), j_accepted_commit (ss_job t)) =
     (j_id (ss_job s), j_state (ss_job s), j_acceptance_phase (ss_job s), j_accepted_commit (ss_job s)) \<and>
     ss_counts t = ss_counts s \<and> ss_runtime t = ss_runtime s \<and> ss_telemetry t = ss_telemetry s"

lemma stages_kept: "status_kept s (status_stage1 s)" "status_kept s (status_stage2 s)" "status_kept s (status_stage3 s)"
  by (simp_all add: status_kept_def status_stage1_def status_stage2_def status_stage3_def map_status_rows_def
      task_key_def comp_def)

lemma status_kept_trans: "status_kept s t \<Longrightarrow> status_kept t u \<Longrightarrow> status_kept s u"
  by (simp add: status_kept_def)

text \<open>C31: A status reply fits and stays usable: whatever has to be cut, it is within the bound, it says
  that it was cut, and no task, no identity, no state, no count and no telemetry is lost.\<close>

theorem status_reply_bounded:
  assumes "bound_status_response fl ss = Inr ss'"
  shows "encoded_size (status_json fl ss') \<le> MAX_STATUS_RESPONSE_BYTES \<and> status_kept ss ss' \<and>
    (ss' = ss \<or> ss_truncated ss')"
proof -
  have cut: "ss_truncated (status_stage1 s)" "ss_truncated (status_stage2 s) = ss_truncated s"
    "ss_truncated (status_stage3 s) = ss_truncated s" for s
    by (simp_all add: status_stage1_def status_stage2_def status_stage3_def map_status_rows_def)
  let ?s1 = "status_stage1 ss" let ?s2 = "status_stage2 ?s1" let ?s3 = "status_stage3 ?s2"
  have kept: "status_kept ss ss" "status_kept ss ?s1" "status_kept ss ?s2" "status_kept ss ?s3"
    using stages_kept status_kept_trans by (simp_all only: status_kept_def)
  from assms have "status_fits fl ss' \<and> (ss' = ss \<or> ss' = ?s1 \<or> ss' = ?s2 \<or> ss' = ?s3)"
    unfolding bound_status_response_def Let_def by (simp only: split: if_splits) auto
  with kept cut show ?thesis unfolding status_fits_def by metis
qed

definition demo_status :: status where
  "demo_status = \<lparr>ss_job = hd (db_jobs (demo_db 4)), ss_tasks = [], ss_counts = [], ss_events = [], ss_runtime = [],
     ss_telemetry = JNull, ss_truncated = False\<rparr>"

lemma status_reply_bounded_witness:
  "bound_status_response (\<lambda>_. [48]) demo_status = Inr demo_status \<and>
   encoded_size (status_json (\<lambda>_. [48]) demo_status) \<le> MAX_STATUS_RESPONSE_BYTES"
proof -
  have "encoded_size (status_json (\<lambda>_. [48]) demo_status) = 472" by code_simp
  then have "status_fits (\<lambda>_. [48]) demo_status"
    by (simp add: status_fits_def MAX_STATUS_RESPONSE_BYTES_def MAX_RPC_MESSAGE_BYTES_def)
  then have run: "bound_status_response (\<lambda>_. [48]) demo_status = Inr demo_status"
    by (simp add: bound_status_response_def)
  from status_reply_bounded [OF run] run show ?thesis by blast
qed


end
