(* ===== verification/Yolo_SQL.thy ===== *)
theory Yolo_SQL
  imports Yolo_Json "HOL-Library.AList"
begin

text \<open>
  The part of SQLite that \<open>src/omarchy_yolo/db_core.py\<close> uses to build and migrate its store: tables
  with their columns, keys and rows, named indexes, the user version, and the statements of
  \<open>SCHEMA\<close> and \<open>_MIGRATIONS\<close>. A statement fails with an error or gives the changed database; a
  script keeps the effect of the statements before the one that fails, a transaction does not.

  A row is a function from column names to values. A value keeps the storage class it was written
  with. Row identifiers, page layout, collation, views, triggers and generated columns are outside:
  no statement of the program mentions them. \<open>hidden\<close> of \<open>table_xinfo\<close> is therefore always 0.
\<close>

section \<open>Tables and indexes\<close>

datatype sql_value = SNull | SInt int | SReal rat | SText string

type_synonym sql_row = "string \<Rightarrow> sql_value"

datatype sql_error = SqlError string | SqlConstraint string

record column =
  col_name :: string
  col_type :: string
  col_notnull :: bool
  col_default :: "sql_value option"
  col_pk :: nat
  col_check :: "sql_value list option"

record foreign_key =
  fkey_columns :: "string list"
  fkey_table :: string
  fkey_refs :: "string list"
  fkey_on_delete :: string

record sql_table =
  tbl_columns :: "column list"
  tbl_uniques :: "string list list"
  tbl_fkeys :: "foreign_key list"
  tbl_rows :: "sql_row list"

record sql_index =
  ixd_table :: string
  ixd_columns :: "string list"
  ixd_unique :: bool

record sql_db =
  sdb_tables :: "(string \<times> sql_table) list"
  sdb_indexes :: "(string \<times> sql_index) list"
  sdb_version :: int

definition empty_sql_db :: sql_db where
  "empty_sql_db = \<lparr>sdb_tables = [], sdb_indexes = [], sdb_version = 0\<rparr>"

definition sql_table_of :: "sql_db \<Rightarrow> string \<Rightarrow> sql_table option" where
  "sql_table_of d = map_of (sdb_tables d)"

definition column_names :: "sql_table \<Rightarrow> string list" where
  "column_names t = map col_name (tbl_columns t)"

definition find_column :: "sql_table \<Rightarrow> string \<Rightarrow> column option" where
  "find_column t c = List.find (\<lambda>k. col_name k = c) (tbl_columns t)"

definition has_column :: "sql_db \<Rightarrow> string \<times> string \<Rightarrow> bool" where
  "has_column d tc =
     (case sql_table_of d (fst tc) of None \<Rightarrow> False | Some t \<Rightarrow> snd tc \<in> set (column_names t))"

definition put_table :: "string \<Rightarrow> sql_table \<Rightarrow> sql_db \<Rightarrow> sql_db" where
  "put_table n t d = d\<lparr>sdb_tables := AList.update n t (sdb_tables d)\<rparr>"

text \<open>A NULL is never equal to anything; a key that holds one violates neither a uniqueness nor a
  foreign-key constraint, and passes every CHECK.\<close>

definition sql_eq :: "sql_value \<Rightarrow> sql_value \<Rightarrow> bool" where
  "sql_eq v w \<longleftrightarrow> v = w \<and> v \<noteq> SNull"

definition row_key :: "string list \<Rightarrow> sql_row \<Rightarrow> sql_value list" where
  "row_key cols r = map r cols"

definition unique_on :: "string list \<Rightarrow> sql_row list \<Rightarrow> bool" where
  "unique_on cols rows \<longleftrightarrow>
     distinct (filter (\<lambda>k. SNull \<notin> set k) (map (row_key cols) rows))"

definition value_ok :: "column \<Rightarrow> sql_value \<Rightarrow> bool" where
  "value_ok c v \<longleftrightarrow>
     (col_notnull c \<longrightarrow> v \<noteq> SNull) \<and>
     (case col_check c of None \<Rightarrow> True | Some vs \<Rightarrow> v = SNull \<or> v \<in> set vs)"

definition row_ok :: "sql_table \<Rightarrow> sql_row \<Rightarrow> bool" where
  "row_ok t r \<longleftrightarrow> list_all (\<lambda>c. value_ok c (r (col_name c))) (tbl_columns t)"

definition primary_key :: "sql_table \<Rightarrow> string list" where
  "primary_key t = map col_name (sort_key col_pk (filter (\<lambda>c. 0 < col_pk c) (tbl_columns t)))"

text \<open>The unique indexes over a table: its primary key, its UNIQUE constraints and the named ones.\<close>

definition unique_keys :: "sql_db \<Rightarrow> string \<Rightarrow> sql_table \<Rightarrow> string list list" where
  "unique_keys d n t =
     primary_key t # tbl_uniques t @
     map (ixd_columns \<circ> snd) (filter (\<lambda>(_, i). ixd_table i = n \<and> ixd_unique i) (sdb_indexes d))"

text \<open>A foreign key must point at a unique key of its parent; otherwise every statement that has to
  check it is refused when it is prepared.\<close>

definition fkey_resolves :: "sql_db \<Rightarrow> foreign_key \<Rightarrow> bool" where
  "fkey_resolves d f =
     (case sql_table_of d (fkey_table f) of
        None \<Rightarrow> False
      | Some p \<Rightarrow> list_ex (\<lambda>k. length k = length (fkey_refs f) \<and> set k = set (fkey_refs f))
                   (unique_keys d (fkey_table f) p))"

definition fkey_row_ok :: "sql_db \<Rightarrow> sql_row \<Rightarrow> foreign_key \<Rightarrow> bool" where
  "fkey_row_ok d r f \<longleftrightarrow>
     SNull \<in> set (row_key (fkey_columns f) r) \<or>
     (case sql_table_of d (fkey_table f) of
        None \<Rightarrow> False
      | Some p \<Rightarrow> row_key (fkey_columns f) r \<in> set (map (row_key (fkey_refs f)) (tbl_rows p)))"

section \<open>Statements\<close>

text \<open>
  \<open>Create_Table if_not_exists\<close>, \<open>Create_Index unique\<close> (always IF NOT EXISTS), \<open>Add_Column\<close>,
  \<open>Update_Rows table columns_read assignments condition\<close>, \<open>Insert_Select target source columns\<close>,
  \<open>Drop_Table\<close> and \<open>Rename_Table\<close>.
\<close>

datatype sql_statement =
    Create_Table bool string sql_table
  | Create_Index bool string string "string list"
  | Add_Column string column
  | Update_Rows string "(string \<times> string) list"
      "(string \<times> (sql_db \<Rightarrow> sql_row \<Rightarrow> sql_value)) list" "sql_db \<Rightarrow> sql_row \<Rightarrow> bool"
  | Insert_Select string string "string list"
  | Drop_Table string
  | Rename_Table string string

definition sql_require :: "bool \<Rightarrow> string \<Rightarrow> sql_error + unit" where
  "sql_require b msg = require b (SqlError msg)"

definition sql_constraint :: "bool \<Rightarrow> string \<Rightarrow> sql_error + unit" where
  "sql_constraint b msg = require b (SqlConstraint msg)"

definition with_table :: "sql_db \<Rightarrow> string \<Rightarrow> (sql_table \<Rightarrow> sql_error + 'a) \<Rightarrow> sql_error + 'a" where
  "with_table d n f =
     (case sql_table_of d n of None \<Rightarrow> Inl (SqlError (''no such table: '' @ n)) | Some t \<Rightarrow> f t)"

definition sql_create_table :: "bool \<Rightarrow> string \<Rightarrow> sql_table \<Rightarrow> sql_db \<Rightarrow> sql_error + sql_db" where
  "sql_create_table if_missing n t d =
     (if sql_table_of d n \<noteq> None
      then if if_missing then Inr d
           else Inl (SqlError (''table '' @ n @ '' already exists''))
      else rbind (sql_require (map_of (sdb_indexes d) n = None)
                    (''there is already an index named '' @ n)) (\<lambda>_.
           Inr (put_table n (t\<lparr>tbl_rows := []\<rparr>) d)))"

definition sql_create_index ::
  "bool \<Rightarrow> string \<Rightarrow> string \<Rightarrow> string list \<Rightarrow> sql_db \<Rightarrow> sql_error + sql_db" where
  "sql_create_index unique i n cols d =
     with_table d n (\<lambda>t.
     rbind (sql_require (sql_table_of d i = None) (''there is already a table named '' @ i)) (\<lambda>_.
     if map_of (sdb_indexes d) i \<noteq> None then Inr d
     else
       rbind (sql_require (set cols \<subseteq> set (column_names t)) ''no such column'') (\<lambda>_.
       rbind (sql_constraint (unique \<longrightarrow> unique_on cols (tbl_rows t)) ''UNIQUE constraint failed'') (\<lambda>_.
       Inr (d\<lparr>sdb_indexes := sdb_indexes d @
         [(i, \<lparr>ixd_table = n, ixd_columns = cols, ixd_unique = unique\<rparr>)]\<rparr>)))))"

definition default_value :: "column \<Rightarrow> sql_value" where
  "default_value c = (case col_default c of None \<Rightarrow> SNull | Some v \<Rightarrow> v)"

definition sql_add_column :: "string \<Rightarrow> column \<Rightarrow> sql_db \<Rightarrow> sql_error + sql_db" where
  "sql_add_column n c d =
     with_table d n (\<lambda>t.
     rbind (sql_require (col_name c \<notin> set (column_names t))
              (''duplicate column name: '' @ col_name c)) (\<lambda>_.
     rbind (sql_require (col_pk c = 0) ''Cannot add a PRIMARY KEY column'') (\<lambda>_.
     rbind (sql_constraint (tbl_rows t = [] \<or> value_ok c (default_value c))
              ''constraint failed for the default'') (\<lambda>_.
     Inr (put_table n (t\<lparr>tbl_columns := tbl_columns t @ [c],
       tbl_rows := map (\<lambda>r. r(col_name c := default_value c)) (tbl_rows t)\<rparr>) d)))))"

text \<open>All right-hand sides of an UPDATE see the row before the change; only the assigned columns are
  checked. No statement of the program assigns a column of a key.\<close>

definition assign_row ::
  "sql_db \<Rightarrow> (string \<times> (sql_db \<Rightarrow> sql_row \<Rightarrow> sql_value)) list \<Rightarrow> sql_row \<Rightarrow> sql_row" where
  "assign_row d sets r = (\<lambda>c. case map_of sets c of None \<Rightarrow> r c | Some e \<Rightarrow> e d r)"

definition sql_update ::
  "string \<Rightarrow> (string \<times> string) list \<Rightarrow> (string \<times> (sql_db \<Rightarrow> sql_row \<Rightarrow> sql_value)) list \<Rightarrow>
   (sql_db \<Rightarrow> sql_row \<Rightarrow> bool) \<Rightarrow> sql_db \<Rightarrow> sql_error + sql_db" where
  "sql_update n reads sets cond d =
     with_table d n (\<lambda>t.
     rbind (sql_require (list_all (has_column d) reads \<and>
              list_all (\<lambda>(c, _). c \<in> set (column_names t)) sets) ''no such column'') (\<lambda>_.
     let rows = map (\<lambda>r. if cond d r then assign_row d sets r else r) (tbl_rows t);
         ok = (\<lambda>r. list_all (\<lambda>(c, _). case find_column t c of None \<Rightarrow> True
                                        | Some k \<Rightarrow> value_ok k (assign_row d sets r c)) sets)
     in rbind (sql_constraint (list_all (\<lambda>r. cond d r \<longrightarrow> ok r) (tbl_rows t)) ''constraint failed'') (\<lambda>_.
        Inr (put_table n (t\<lparr>tbl_rows := rows\<rparr>) d))))"

text \<open>INSERT ... SELECT with the same column list on both sides; columns left out take their
  default. Foreign keys are checked against the database after the insertion.\<close>

definition select_row :: "string list \<Rightarrow> sql_table \<Rightarrow> sql_row \<Rightarrow> sql_row" where
  "select_row cols t r =
     (\<lambda>c. if c \<in> set cols then r c
          else case find_column t c of None \<Rightarrow> SNull | Some k \<Rightarrow> default_value k)"

definition sql_insert_select ::
  "string \<Rightarrow> string \<Rightarrow> string list \<Rightarrow> sql_db \<Rightarrow> sql_error + sql_db" where
  "sql_insert_select n src cols d =
     with_table d n (\<lambda>t.
     with_table d src (\<lambda>s.
     rbind (sql_require (set cols \<subseteq> set (column_names t) \<and> set cols \<subseteq> set (column_names s))
              ''no such column'') (\<lambda>_.
     rbind (sql_require (list_all (fkey_resolves d) (tbl_fkeys t)) ''foreign key mismatch'') (\<lambda>_.
     let new = map (select_row cols t) (tbl_rows s);
         t' = t\<lparr>tbl_rows := tbl_rows t @ new\<rparr>;
         d' = put_table n t' d
     in rbind (sql_constraint (list_all (row_ok t) new) ''constraint failed'') (\<lambda>_.
        rbind (sql_constraint (list_all (\<lambda>k. unique_on k (tbl_rows t')) (unique_keys d n t))
                 ''UNIQUE constraint failed'') (\<lambda>_.
        rbind (sql_constraint (list_all (\<lambda>r. list_all (fkey_row_ok d' r) (tbl_fkeys t)) new)
                 ''FOREIGN KEY constraint failed'') (\<lambda>_.
        Inr d')))))))"

text \<open>DROP TABLE removes the indexes of the table. The one table the program drops, \<open>attempts\<close>, is
  the parent of no foreign key of its schemas.\<close>

definition sql_drop_table :: "string \<Rightarrow> sql_db \<Rightarrow> sql_error + sql_db" where
  "sql_drop_table n d =
     with_table d n (\<lambda>_.
     Inr (d\<lparr>sdb_tables := filter (\<lambda>(m, _). m \<noteq> n) (sdb_tables d),
            sdb_indexes := filter (\<lambda>(_, i). ixd_table i \<noteq> n) (sdb_indexes d)\<rparr>))"

definition rename_fkeys :: "string \<Rightarrow> string \<Rightarrow> sql_table \<Rightarrow> sql_table" where
  "rename_fkeys old new t =
     t\<lparr>tbl_fkeys := map (\<lambda>f. if fkey_table f = old then f\<lparr>fkey_table := new\<rparr> else f) (tbl_fkeys t)\<rparr>"

definition sql_rename_table :: "string \<Rightarrow> string \<Rightarrow> sql_db \<Rightarrow> sql_error + sql_db" where
  "sql_rename_table old new d =
     with_table d old (\<lambda>_.
     rbind (sql_require (sql_table_of d new = None \<and> map_of (sdb_indexes d) new = None)
              ''there is already another table or index with this name'') (\<lambda>_.
     Inr (d\<lparr>sdb_tables := map (\<lambda>(m, t). (if m = old then new else m, rename_fkeys old new t)) (sdb_tables d),
            sdb_indexes := map (\<lambda>(i, x). (i, if ixd_table x = old then x\<lparr>ixd_table := new\<rparr> else x))
              (sdb_indexes d)\<rparr>)))"

fun sql_exec :: "sql_statement \<Rightarrow> sql_db \<Rightarrow> sql_error + sql_db" where
  "sql_exec (Create_Table b n t) d = sql_create_table b n t d"
| "sql_exec (Create_Index u i n cols) d = sql_create_index u i n cols d"
| "sql_exec (Add_Column n c) d = sql_add_column n c d"
| "sql_exec (Update_Rows n reads sets cond) d = sql_update n reads sets cond d"
| "sql_exec (Insert_Select n src cols) d = sql_insert_select n src cols d"
| "sql_exec (Drop_Table n) d = sql_drop_table n d"
| "sql_exec (Rename_Table old new) d = sql_rename_table old new d"

text \<open>Statements of a transaction stop at the first error; the caller rolls back. A script
  (\<open>executescript\<close>, each statement committed by itself) leaves what was done before the error.\<close>

fun sql_exec_all :: "sql_statement list \<Rightarrow> sql_db \<Rightarrow> sql_error + sql_db" where
  "sql_exec_all [] d = Inr d"
| "sql_exec_all (s # ss) d = rbind (sql_exec s d) (sql_exec_all ss)"

fun sql_script :: "sql_statement list \<Rightarrow> sql_db \<Rightarrow> sql_error option \<times> sql_db" where
  "sql_script [] d = (None, d)"
| "sql_script (s # ss) d =
     (case sql_exec s d of Inl e \<Rightarrow> (Some e, d) | Inr d' \<Rightarrow> sql_script ss d')"

lemma sql_exec_all_append:
  "sql_exec_all (xs @ ys) d = rbind (sql_exec_all xs d) (sql_exec_all ys)"
  by (induction xs arbitrary: d) (auto simp: rbind_def split: sum.splits)

lemma sql_script_None: "sql_script ss d = (None, d') \<longleftrightarrow> sql_exec_all ss d = Inr d'"
  by (induction ss arbitrary: d) (auto split: sum.splits)

section \<open>The catalogue\<close>

text \<open>What the PRAGMAs read does not depend on the rows. Erasing the rows commutes with every
  statement that succeeds, so facts on the catalogue after a script are computed on empty tables.\<close>

definition no_rows :: "sql_table \<Rightarrow> sql_table" where
  "no_rows t = t\<lparr>tbl_rows := []\<rparr>"

definition catalogue :: "sql_db \<Rightarrow> sql_db" where
  "catalogue d = d\<lparr>sdb_tables := map (\<lambda>(n, t). (n, no_rows t)) (sdb_tables d)\<rparr>"


lemma no_rows_simps [simp]:
  "tbl_columns (no_rows t) = tbl_columns t" "tbl_uniques (no_rows t) = tbl_uniques t"
  "tbl_fkeys (no_rows t) = tbl_fkeys t" "tbl_rows (no_rows t) = []"
  "column_names (no_rows t) = column_names t" "find_column (no_rows t) = find_column t"
  "primary_key (no_rows t) = primary_key t"
  by (auto simp: no_rows_def column_names_def find_column_def primary_key_def)

lemma catalogue_simps [simp]:
  "sdb_indexes (catalogue d) = sdb_indexes d" "sdb_version (catalogue d) = sdb_version d"
  "catalogue (d\<lparr>sdb_indexes := x\<rparr>) = (catalogue d)\<lparr>sdb_indexes := x\<rparr>"
  "catalogue (d\<lparr>sdb_version := v\<rparr>) = (catalogue d)\<lparr>sdb_version := v\<rparr>"
  by (simp_all add: catalogue_def)

lemma map_of_on_values: "map_of (map (\<lambda>(n, t). (n, f t)) xs) n = map_option f (map_of xs n)"
  by (induction xs) auto

lemma sql_table_of_catalogue [simp]:
  "sql_table_of (catalogue d) n = map_option no_rows (sql_table_of d n)"
  by (simp add: sql_table_of_def catalogue_def map_of_on_values)

lemma map_values_update:
  "map (\<lambda>(n, t). (n, f t)) (AList.update n t xs) = AList.update n (f t) (map (\<lambda>(n, t). (n, f t)) xs)"
  by (induction xs) auto

lemma catalogue_put_table [simp]: "catalogue (put_table n t d) = put_table n (no_rows t) (catalogue d)"
  by (simp add: catalogue_def put_table_def map_values_update)

lemma put_table_indexes [simp]:
  "sdb_indexes (put_table n t d) = sdb_indexes d" "sdb_version (put_table n t d) = sdb_version d"
  by (simp_all add: put_table_def)

lemma sql_table_of_put [simp]:
  "sql_table_of (put_table n t d) m = (if m = n then Some t else sql_table_of d m)"
  by (simp add: sql_table_of_def put_table_def update_conv')

lemma has_column_catalogue [simp]: "has_column (catalogue d) = has_column d"
  by (rule ext) (simp add: has_column_def split: option.split)

lemma unique_keys_no_rows [simp]: "unique_keys (catalogue d) n (no_rows t) = unique_keys d n t"
  by (simp add: unique_keys_def)

lemma fkey_resolves_catalogue [simp]: "fkey_resolves (catalogue d) = fkey_resolves d"
  by (rule ext) (simp add: fkey_resolves_def split: option.split)

lemma with_table_Inr:
  "with_table d n f = Inr x \<longleftrightarrow> (\<exists>t. sql_table_of d n = Some t \<and> f t = Inr x)"
  by (simp add: with_table_def split: option.split)

lemmas sql_guards = sql_require_def sql_constraint_def

lemma update_no_rows [simp]:
  "no_rows (t\<lparr>tbl_rows := r\<rparr>) = no_rows t" "(no_rows t)\<lparr>tbl_rows := []\<rparr> = no_rows t"
  "column_names (t\<lparr>tbl_rows := r\<rparr>) = column_names t"
  "no_rows (rename_fkeys old new t) = rename_fkeys old new (no_rows t)"
  by (simp_all add: no_rows_def column_names_def rename_fkeys_def)

lemma catalogue_create_table:
  "sql_create_table b n t d = Inr d' \<Longrightarrow> sql_create_table b n t (catalogue d) = Inr (catalogue d')"
  by (auto simp: sql_create_table_def rbind_Inr_iff sql_guards no_rows_def split: if_splits)

lemma catalogue_create_index:
  "sql_create_index u i n cols d = Inr d' \<Longrightarrow>
   sql_create_index u i n cols (catalogue d) = Inr (catalogue d')"
  by (auto simp: sql_create_index_def with_table_def rbind_Inr_iff sql_guards unique_on_def
      split: if_splits option.splits)

lemma catalogue_add_column:
  "sql_add_column n c d = Inr d' \<Longrightarrow> sql_add_column n c (catalogue d) = Inr (catalogue d')"
  by (auto simp: sql_add_column_def with_table_def rbind_Inr_iff sql_guards no_rows_def
      split: option.splits)

lemma catalogue_update:
  "sql_update n reads sets cond d = Inr d' \<Longrightarrow>
   sql_update n reads sets cond (catalogue d) = Inr (catalogue d')"
  by (auto simp: sql_update_def Let_def with_table_def rbind_Inr_iff sql_guards no_rows_def
      split: option.splits)

lemma catalogue_insert_select:
  "sql_insert_select n src cols d = Inr d' \<Longrightarrow>
   sql_insert_select n src cols (catalogue d) = Inr (catalogue d')"
  by (auto simp: sql_insert_select_def Let_def with_table_def rbind_Inr_iff sql_guards unique_on_def
      list_all_iff split: option.splits)

lemma catalogue_dropped:
  "catalogue (d\<lparr>sdb_tables := filter (\<lambda>(m, _). m \<noteq> n) (sdb_tables d)\<rparr>) =
   (catalogue d)\<lparr>sdb_tables := filter (\<lambda>(m, _). m \<noteq> n) (sdb_tables (catalogue d))\<rparr>"
  by (simp add: catalogue_def filter_map o_def case_prod_unfold)

lemma catalogue_renamed:
  "catalogue (d\<lparr>sdb_tables := map (\<lambda>(m, t). (g m, rename_fkeys old new t)) (sdb_tables d)\<rparr>) =
   (catalogue d)\<lparr>sdb_tables := map (\<lambda>(m, t). (g m, rename_fkeys old new t)) (sdb_tables (catalogue d))\<rparr>"
  by (simp add: catalogue_def o_def case_prod_unfold)

lemma catalogue_drop_table:
  "sql_drop_table n d = Inr d' \<Longrightarrow> sql_drop_table n (catalogue d) = Inr (catalogue d')"
  by (auto simp: sql_drop_table_def with_table_def catalogue_dropped split: option.splits)

lemma catalogue_rename_table:
  "sql_rename_table old new d = Inr d' \<Longrightarrow>
   sql_rename_table old new (catalogue d) = Inr (catalogue d')"
  by (auto simp: sql_rename_table_def with_table_def rbind_Inr_iff sql_guards
      catalogue_renamed split: option.splits)

lemma sql_exec_catalogue:
  "sql_exec s d = Inr d' \<Longrightarrow> sql_exec s (catalogue d) = Inr (catalogue d')"
  by (cases s) (auto intro: catalogue_create_table catalogue_create_index catalogue_add_column
      catalogue_update catalogue_insert_select catalogue_drop_table catalogue_rename_table)

lemma sql_exec_all_catalogue:
  "sql_exec_all ss d = Inr d' \<Longrightarrow> sql_exec_all ss (catalogue d) = Inr (catalogue d')"
proof (induction ss arbitrary: d)
  case (Cons s ss)
  then obtain d1 where "sql_exec s d = Inr d1" "sql_exec_all ss d1 = Inr d'"
    by (auto simp: rbind_Inr_iff)
  with Cons.IH [of d1] show ?case by (simp add: sql_exec_catalogue)
qed simp

end
