(* ===== verification/Yolo_Schema.thy ===== *)
theory Yolo_Schema
  imports Yolo_SQL
begin

text \<open>
  The schema of the store: \<open>SCHEMA\<close> and \<open>_MIGRATIONS\<close> of \<open>src/omarchy_yolo/db_core.py\<close> as
  statements of \<open>Yolo_SQL\<close>, the contract of \<open>src/omarchy_yolo/db_schema_contract.py\<close>, and the
  constructor of \<open>DatabaseCore\<close>, which creates, migrates or checks the file it opens.
\<close>

section \<open>Columns\<close>

definition a_column :: "string \<Rightarrow> string \<Rightarrow> bool \<Rightarrow> sql_value option \<Rightarrow> column" where
  "a_column n ty nn df =
     \<lparr>col_name = n, col_type = ty, col_notnull = nn, col_default = df, col_pk = 0, col_check = None\<rparr>"

definition key_column :: "string \<Rightarrow> string \<Rightarrow> column" where
  "key_column n ty = (a_column n ty False None)\<lparr>col_pk := 1\<rparr>"

definition text_column :: "string \<Rightarrow> column" where
  "text_column n = a_column n ''TEXT'' True None"

definition text_default :: "string \<Rightarrow> string \<Rightarrow> column" where
  "text_default n v = a_column n ''TEXT'' True (Some (SText v))"

definition int_column :: "string \<Rightarrow> column" where
  "int_column n = a_column n ''INTEGER'' True None"

definition int_default :: "string \<Rightarrow> int \<Rightarrow> column" where
  "int_default n v = a_column n ''INTEGER'' True (Some (SInt v))"

definition real_column :: "string \<Rightarrow> column" where
  "real_column n = a_column n ''REAL'' True None"

definition checked :: "column \<Rightarrow> sql_value list \<Rightarrow> column" where
  "checked c vs = c\<lparr>col_check := Some vs\<rparr>"

definition cascade :: "string list \<Rightarrow> string \<Rightarrow> string list \<Rightarrow> foreign_key" where
  "cascade cols n refs =
     \<lparr>fkey_columns = cols, fkey_table = n, fkey_refs = refs, fkey_on_delete = ''CASCADE''\<rparr>"

definition job_reference :: foreign_key where
  "job_reference = cascade [''job_id''] ''jobs'' [''id'']"

definition a_table ::
  "column list \<Rightarrow> string list list \<Rightarrow> foreign_key list \<Rightarrow> sql_table" where
  "a_table cols us fs = \<lparr>tbl_columns = cols, tbl_uniques = us, tbl_fkeys = fs, tbl_rows = []\<rparr>"

lemmas column_defs = a_column_def key_column_def text_column_def text_default_def int_column_def
  int_default_def real_column_def checked_def cascade_def job_reference_def a_table_def

section \<open>SCHEMA\<close>

definition accepted_commit_column :: column where
  "accepted_commit_column = text_default ''accepted_commit'' []"

definition acceptance_phase_column :: column where
  "acceptance_phase_column = checked (text_default ''acceptance_phase'' ''none'')
     [SText ''none'', SText ''accepted'', SText ''applying'', SText ''published'']"

definition source_apply_intent_column :: column where
  "source_apply_intent_column = checked (text_default ''source_apply_intent'' ''not-requested'')
     [SText ''requested'', SText ''not-requested'']"

definition source_apply_outcome_column :: column where
  "source_apply_outcome_column = checked (text_default ''source_apply_outcome'' [])
     [SText [], SText ''applied'', SText ''skipped'', SText ''not-requested'']"

definition source_apply_reason_column :: column where
  "source_apply_reason_column = text_default ''source_apply_reason'' []"

definition base_job_columns :: "column list" where
  "base_job_columns =
     [key_column ''id'' ''TEXT'', text_column ''repo'', text_column ''goal'', text_column ''state'',
      text_column ''base_branch'', text_column ''base_commit'', text_column ''integration_branch'',
      text_default ''integration_path'' [], int_default ''auto_apply'' 0,
      int_default ''stop_requested'' 0, text_default ''final_summary'' [],
      text_default ''error'' [], real_column ''created_at'', real_column ''updated_at'']"

definition jobs_table :: sql_table where
  "jobs_table = a_table
     (base_job_columns @ [accepted_commit_column, acceptance_phase_column,
        source_apply_intent_column, source_apply_outcome_column, source_apply_reason_column]) [] []"

definition tasks_table :: sql_table where
  "tasks_table = a_table
     [key_column ''id'' ''TEXT'', text_column ''job_id'', int_column ''seq'',
      text_column ''logical_id'', text_column ''title'', text_column ''description'',
      text_column ''state'', text_default ''dependencies'' ''[]'',
      text_default ''acceptance'' ''[]'', a_column ''preferred_agent'' ''TEXT'' False None,
      int_default ''attempts'' 0, text_default ''branch'' [], text_default ''worktree'' [],
      text_default ''base_commit'' [], text_default ''last_error'' [],
      text_default ''result_summary'' [], real_column ''created_at'', real_column ''updated_at'']
     [[''job_id'', ''logical_id'']] [job_reference]"

definition attempt_columns :: "column list" where
  "attempt_columns =
     [key_column ''id'' ''TEXT'', text_column ''job_id'', text_column ''task_id'',
      int_column ''number'', text_column ''agent'', text_column ''state'', text_column ''worktree'',
      text_column ''branch'', text_column ''log_path'', real_column ''started_at'',
      a_column ''finished_at'' ''REAL'' False None, a_column ''returncode'' ''INTEGER'' False None,
      text_default ''summary'' []]"

definition attempts_table :: sql_table where
  "attempts_table = a_table attempt_columns [[''task_id'', ''number'']]
     [job_reference, cascade [''job_id'', ''task_id''] ''tasks'' [''job_id'', ''id'']]"

definition events_table :: sql_table where
  "events_table = a_table
     [key_column ''id'' ''INTEGER'', text_column ''job_id'', a_column ''task_id'' ''TEXT'' False None,
      text_column ''kind'', text_default ''payload'' ''{}'', real_column ''created_at''] [] [job_reference]"

definition published_column :: column where
  "published_column = checked (int_default ''published'' 0) [SInt 0, SInt 1]"

definition dossiers_table :: sql_table where
  "dossiers_table = a_table
     [key_column ''job_id'' ''TEXT'', int_column ''schema_version'', text_column ''sha256'',
      text_column ''content'', published_column, real_column ''created_at''] [] [job_reference]"

text \<open>An index column is only a name: DESC changes neither the columns nor the uniqueness.\<close>

definition SCHEMA :: "sql_statement list" where
  "SCHEMA =
     [Create_Table True ''jobs'' jobs_table,
      Create_Table True ''tasks'' tasks_table,
      Create_Index True ''idx_tasks_job_id_id'' ''tasks'' [''job_id'', ''id''],
      Create_Table True ''attempts'' attempts_table,
      Create_Table True ''events'' events_table,
      Create_Table True ''dossiers'' dossiers_table,
      Create_Index False ''idx_tasks_job_state'' ''tasks'' [''job_id'', ''state''],
      Create_Index False ''idx_attempts_job_task'' ''attempts'' [''job_id'', ''task_id'', ''number''],
      Create_Index False ''idx_events_job_id'' ''events'' [''job_id'', ''id''],
      Create_Index False ''idx_jobs_created'' ''jobs'' [''created_at'']]"

section \<open>Migrations\<close>

definition CURRENT_SCHEMA_VERSION :: int where
  "CURRENT_SCHEMA_VERSION = 4"

definition LEGACY_SCHEMA_VERSION :: int where
  "LEGACY_SCHEMA_VERSION = 1"

definition rows_of :: "sql_db \<Rightarrow> string \<Rightarrow> sql_row list" where
  "rows_of d n = (case sql_table_of d n of None \<Rightarrow> [] | Some t \<Rightarrow> tbl_rows t)"

definition migration_1 :: "sql_statement list" where
  "migration_1 =
     [Create_Table True ''dossiers'' (a_table
        [key_column ''job_id'' ''TEXT'', int_column ''schema_version'', text_column ''sha256'',
         text_column ''content'', real_column ''created_at''] [] [job_reference])]"

definition attempts_v2_table :: sql_table where
  "attempts_v2_table = a_table attempt_columns [[''task_id'', ''number'']]
     [job_reference, cascade [''task_id''] ''tasks'' [''id'']]"

definition attempt_names :: "string list" where
  "attempt_names =
     [''id'', ''job_id'', ''task_id'', ''number'', ''agent'', ''state'', ''worktree'', ''branch'',
      ''log_path'', ''started_at'', ''finished_at'', ''returncode'', ''summary'']"

text \<open>\<open>job_id IN (SELECT id FROM jobs WHERE state = 'completed' AND stop_requested = 0)\<close>\<close>

definition dossier_published :: "sql_db \<Rightarrow> sql_row \<Rightarrow> bool" where
  "dossier_published d r \<longleftrightarrow>
     list_ex (\<lambda>j. sql_eq (j ''state'') (SText ''completed'') \<and> sql_eq (j ''stop_requested'') (SInt 0) \<and>
        sql_eq (r ''job_id'') (j ''id'')) (rows_of d ''jobs'')"

definition migration_2 :: "sql_statement list" where
  "migration_2 =
     [Create_Table True ''tasks'' tasks_table,
      Create_Table True ''attempts'' attempts_v2_table,
      Create_Table True ''events'' events_table,
      Create_Index True ''idx_tasks_job_id_id'' ''tasks'' [''job_id'', ''id''],
      Add_Column ''dossiers'' published_column,
      Update_Rows ''dossiers''
        [(''dossiers'', ''job_id''), (''jobs'', ''id''), (''jobs'', ''state''), (''jobs'', ''stop_requested'')]
        [(''published'', \<lambda>_ _. SInt 1)] dossier_published,
      Create_Table False ''attempts_v3'' attempts_table,
      Insert_Select ''attempts_v3'' ''attempts'' attempt_names,
      Drop_Table ''attempts'',
      Rename_Table ''attempts_v3'' ''attempts'',
      Create_Index False ''idx_attempts_job_task'' ''attempts'' [''job_id'', ''task_id'', ''number'']]"

definition job_has_event :: "sql_db \<Rightarrow> string \<Rightarrow> sql_row \<Rightarrow> bool" where
  "job_has_event d kind r =
     list_ex (\<lambda>e. sql_eq (e ''job_id'') (r ''id'') \<and> sql_eq (e ''kind'') (SText kind)) (rows_of d ''events'')"

definition backfill_intent :: "sql_row \<Rightarrow> sql_value" where
  "backfill_intent r =
     SText (if sql_eq (r ''auto_apply'') (SInt 1) then ''requested'' else ''not-requested'')"

definition backfill_outcome :: "sql_db \<Rightarrow> sql_row \<Rightarrow> sql_value" where
  "backfill_outcome d r =
     SText (if job_has_event d ''job.applied'' r then ''applied''
            else if job_has_event d ''job.apply_skipped'' r then ''skipped''
            else if sql_eq (r ''auto_apply'') (SInt 0) then ''not-requested'' else [])"

definition migration_3 :: "sql_statement list" where
  "migration_3 =
     [Add_Column ''jobs'' accepted_commit_column,
      Add_Column ''jobs'' acceptance_phase_column,
      Add_Column ''jobs'' source_apply_intent_column,
      Add_Column ''jobs'' source_apply_outcome_column,
      Add_Column ''jobs'' source_apply_reason_column,
      Update_Rows ''jobs''
        [(''jobs'', ''id''), (''jobs'', ''state''), (''jobs'', ''auto_apply''),
         (''events'', ''job_id''), (''events'', ''kind'')]
        [(''acceptance_phase'', \<lambda>_ _. SText ''published''),
         (''source_apply_intent'', \<lambda>_. backfill_intent),
         (''source_apply_outcome'', backfill_outcome)]
        (\<lambda>_ r. sql_eq (r ''state'') (SText ''completed''))]"

definition MIGRATIONS :: "int \<Rightarrow> sql_statement list option" where
  "MIGRATIONS v =
     (if v = 1 then Some migration_1 else if v = 2 then Some migration_2
      else if v = 3 then Some migration_3 else None)"

section \<open>The contract\<close>

record column_spec =
  cs_type :: string
  cs_not_null :: bool
  cs_default :: "string option"
  cs_pk :: nat
  cs_hidden :: nat

definition col_spec :: "string \<Rightarrow> bool \<Rightarrow> string option \<Rightarrow> column_spec" where
  "col_spec ty nn df = \<lparr>cs_type = ty, cs_not_null = nn, cs_default = df, cs_pk = 0, cs_hidden = 0\<rparr>"

definition key_spec :: "string \<Rightarrow> column_spec" where
  "key_spec ty = (col_spec ty False None)\<lparr>cs_pk := 1\<rparr>"

definition sql_quoted :: "string \<Rightarrow> string" where
  "sql_quoted s = CHR 0x27 # s @ [CHR 0x27]"

definition EXPECTED_COLUMNS :: "(string \<times> (string \<times> column_spec) list) list" where
  "EXPECTED_COLUMNS =
     [(''jobs'',
       [(''id'', key_spec ''TEXT''),
        (''repo'', col_spec ''TEXT'' True None),
        (''goal'', col_spec ''TEXT'' True None),
        (''state'', col_spec ''TEXT'' True None),
        (''base_branch'', col_spec ''TEXT'' True None),
        (''base_commit'', col_spec ''TEXT'' True None),
        (''integration_branch'', col_spec ''TEXT'' True None),
        (''integration_path'', col_spec ''TEXT'' True (Some (sql_quoted []))),
        (''auto_apply'', col_spec ''INTEGER'' True (Some ''0'')),
        (''stop_requested'', col_spec ''INTEGER'' True (Some ''0'')),
        (''final_summary'', col_spec ''TEXT'' True (Some (sql_quoted []))),
        (''error'', col_spec ''TEXT'' True (Some (sql_quoted []))),
        (''accepted_commit'', col_spec ''TEXT'' True (Some (sql_quoted []))),
        (''acceptance_phase'', col_spec ''TEXT'' True (Some (sql_quoted ''none''))),
        (''source_apply_intent'', col_spec ''TEXT'' True (Some (sql_quoted ''not-requested''))),
        (''source_apply_outcome'', col_spec ''TEXT'' True (Some (sql_quoted []))),
        (''source_apply_reason'', col_spec ''TEXT'' True (Some (sql_quoted []))),
        (''created_at'', col_spec ''REAL'' True None),
        (''updated_at'', col_spec ''REAL'' True None)]),
      (''tasks'',
       [(''id'', key_spec ''TEXT''),
        (''job_id'', col_spec ''TEXT'' True None),
        (''seq'', col_spec ''INTEGER'' True None),
        (''logical_id'', col_spec ''TEXT'' True None),
        (''title'', col_spec ''TEXT'' True None),
        (''description'', col_spec ''TEXT'' True None),
        (''state'', col_spec ''TEXT'' True None),
        (''dependencies'', col_spec ''TEXT'' True (Some (sql_quoted ''[]''))),
        (''acceptance'', col_spec ''TEXT'' True (Some (sql_quoted ''[]''))),
        (''preferred_agent'', col_spec ''TEXT'' False None),
        (''attempts'', col_spec ''INTEGER'' True (Some ''0'')),
        (''branch'', col_spec ''TEXT'' True (Some (sql_quoted []))),
        (''worktree'', col_spec ''TEXT'' True (Some (sql_quoted []))),
        (''base_commit'', col_spec ''TEXT'' True (Some (sql_quoted []))),
        (''last_error'', col_spec ''TEXT'' True (Some (sql_quoted []))),
        (''result_summary'', col_spec ''TEXT'' True (Some (sql_quoted []))),
        (''created_at'', col_spec ''REAL'' True None),
        (''updated_at'', col_spec ''REAL'' True None)]),
      (''attempts'',
       [(''id'', key_spec ''TEXT''),
        (''job_id'', col_spec ''TEXT'' True None),
        (''task_id'', col_spec ''TEXT'' True None),
        (''number'', col_spec ''INTEGER'' True None),
        (''agent'', col_spec ''TEXT'' True None),
        (''state'', col_spec ''TEXT'' True None),
        (''worktree'', col_spec ''TEXT'' True None),
        (''branch'', col_spec ''TEXT'' True None),
        (''log_path'', col_spec ''TEXT'' True None),
        (''started_at'', col_spec ''REAL'' True None),
        (''finished_at'', col_spec ''REAL'' False None),
        (''returncode'', col_spec ''INTEGER'' False None),
        (''summary'', col_spec ''TEXT'' True (Some (sql_quoted [])))]),
      (''events'',
       [(''id'', key_spec ''INTEGER''),
        (''job_id'', col_spec ''TEXT'' True None),
        (''task_id'', col_spec ''TEXT'' False None),
        (''kind'', col_spec ''TEXT'' True None),
        (''payload'', col_spec ''TEXT'' True (Some (sql_quoted ''{}''))),
        (''created_at'', col_spec ''REAL'' True None)]),
      (''dossiers'',
       [(''job_id'', key_spec ''TEXT''),
        (''schema_version'', col_spec ''INTEGER'' True None),
        (''sha256'', col_spec ''TEXT'' True None),
        (''content'', col_spec ''TEXT'' True None),
        (''published'', col_spec ''INTEGER'' True (Some ''0'')),
        (''created_at'', col_spec ''REAL'' True None)])]"

definition EXPECTED_INDEXES :: "(string \<times> string \<times> string list \<times> bool) list" where
  "EXPECTED_INDEXES =
     [(''idx_tasks_job_state'', ''tasks'', [''job_id'', ''state''], False),
      (''idx_tasks_job_id_id'', ''tasks'', [''job_id'', ''id''], True),
      (''idx_attempts_job_task'', ''attempts'', [''job_id'', ''task_id'', ''number''], False),
      (''idx_events_job_id'', ''events'', [''job_id'', ''id''], False),
      (''idx_jobs_created'', ''jobs'', [''created_at''], False)]"

definition EXPECTED_UNIQUE_CONSTRAINTS :: "(string \<times> string list list) list" where
  "EXPECTED_UNIQUE_CONSTRAINTS =
     [(''tasks'', [[''job_id'', ''logical_id'']]), (''attempts'', [[''task_id'', ''number'']])]"

text \<open>A pattern stands for the CHECK clause it matches: the column and the listed values, in order.
  SQLite keeps the text of the clauses, also of those that ALTER TABLE added.\<close>

definition EXPECTED_CHECK_PATTERNS :: "(string \<times> (string \<times> sql_value list) list) list" where
  "EXPECTED_CHECK_PATTERNS =
     [(''jobs'',
       [(''acceptance_phase'', [SText ''none'', SText ''accepted'', SText ''applying'', SText ''published'']),
        (''source_apply_intent'', [SText ''requested'', SText ''not-requested'']),
        (''source_apply_outcome'', [SText [], SText ''applied'', SText ''skipped'', SText ''not-requested''])]),
      (''dossiers'', [(''published'', [SInt 0, SInt 1])])]"

text \<open>What the PRAGMAs report. \<open>index_list\<close> names the automatic indexes of the primary key (none for
  a rowid alias) and of the UNIQUE constraints itself.\<close>

definition ascii_upper :: "string \<Rightarrow> string" where
  "ascii_upper = map (\<lambda>c. if CHR ''a'' \<le> c \<and> c \<le> CHR ''z''
     then char_of ((of_char c :: nat) - 32) else c)"

fun sql_literal :: "sql_value \<Rightarrow> string" where
  "sql_literal (SText s) = sql_quoted s"
| "sql_literal (SInt i) = map char_of (int_text i)"
| "sql_literal (SReal r) = ''0.0''"
| "sql_literal SNull = ''NULL''"

definition table_xinfo :: "sql_db \<Rightarrow> string \<Rightarrow> (string \<times> column_spec) list" where
  "table_xinfo d n =
     (case sql_table_of d n of
        None \<Rightarrow> []
      | Some t \<Rightarrow> map (\<lambda>c. (col_name c,
          \<lparr>cs_type = ascii_upper (col_type c), cs_not_null = col_notnull c,
           cs_default = map_option sql_literal (col_default c), cs_pk = col_pk c, cs_hidden = 0\<rparr>))
          (tbl_columns t))"

record index_entry =
  ie_name :: string
  ie_columns :: "string list"
  ie_unique :: bool
  ie_origin :: string

definition rowid_alias :: "sql_table \<Rightarrow> bool" where
  "rowid_alias t \<longleftrightarrow> list_ex (\<lambda>c. primary_key t = [col_name c] \<and> ascii_upper (col_type c) = ''INTEGER'')
     (tbl_columns t)"

definition auto_indexes :: "string \<Rightarrow> sql_table \<Rightarrow> index_entry list" where
  "auto_indexes n t =
     map (\<lambda>(i, origin, cols).
            \<lparr>ie_name = ''sqlite_autoindex_'' @ n @ ''_'' @ map char_of (nat_digits (Suc i)),
             ie_columns = cols, ie_unique = True, ie_origin = origin\<rparr>)
       (enumerate 0
         ((if primary_key t = [] \<or> rowid_alias t then [] else [(''pk'', primary_key t)]) @
          map (\<lambda>u. (''u'', u)) (tbl_uniques t)))"

definition index_list :: "sql_db \<Rightarrow> string \<Rightarrow> index_entry list" where
  "index_list d n =
     (case sql_table_of d n of
        None \<Rightarrow> []
      | Some t \<Rightarrow>
          map (\<lambda>(i, x). \<lparr>ie_name = i, ie_columns = ixd_columns x, ie_unique = ixd_unique x,
                          ie_origin = ''c''\<rparr>)
            (filter (\<lambda>(_, x). ixd_table x = n) (sdb_indexes d)) @ auto_indexes n t)"

definition index_columns :: "sql_db \<Rightarrow> string \<Rightarrow> string list" where
  "index_columns d i =
     (case List.find (\<lambda>e. ie_name e = i) (concat (map (index_list d \<circ> fst) (sdb_tables d))) of
        None \<Rightarrow> [] | Some e \<Rightarrow> ie_columns e)"

definition validate_table_columns :: "sql_db \<Rightarrow> sql_error + unit" where
  "validate_table_columns d =
     each (\<lambda>(n, expected).
       let rows = table_xinfo d n
       in rbind (sql_require (length rows = length expected \<and> set (map fst rows) = set (map fst expected))
                   (''schema contract mismatch for '' @ n)) (\<lambda>_.
          each (\<lambda>(c, s). sql_require (map_of (rev rows) c = Some s)
                   (''schema contract mismatch for '' @ n @ ''.'' @ c)) expected)) EXPECTED_COLUMNS"

definition validate_named_indexes :: "sql_db \<Rightarrow> sql_error + unit" where
  "validate_named_indexes d =
     each (\<lambda>(i, n, cols, unique).
       case List.find (\<lambda>e. ie_name e = i) (index_list d n) of
         None \<Rightarrow> Inl (SqlError (''schema contract missing index '' @ i))
       | Some e \<Rightarrow> sql_require (index_columns d i = cols \<and> ie_unique e = unique)
                    (''schema contract mismatch for index '' @ i)) EXPECTED_INDEXES"

definition validate_unique_constraints :: "sql_db \<Rightarrow> sql_error + unit" where
  "validate_unique_constraints d =
     each (\<lambda>(n, expected).
       let found = map (\<lambda>e. index_columns d (ie_name e))
             (filter (\<lambda>e. ie_unique e \<and> ie_origin e = ''u'') (index_list d n))
       in sql_require (set expected \<subseteq> set found)
            (''schema contract missing UNIQUE constraint(s) for '' @ n)) EXPECTED_UNIQUE_CONSTRAINTS"

definition check_clauses :: "sql_table \<Rightarrow> (string \<times> sql_value list) list" where
  "check_clauses t =
     List.map_filter (\<lambda>c. map_option (\<lambda>vs. (col_name c, vs)) (col_check c)) (tbl_columns t)"

definition validate_check_constraints :: "sql_db \<Rightarrow> sql_error + unit" where
  "validate_check_constraints d =
     each (\<lambda>(n, patterns).
       case sql_table_of d n of
         None \<Rightarrow> Inl (SqlError (''schema contract missing table definition for '' @ n))
       | Some t \<Rightarrow> each (\<lambda>p. sql_require (p \<in> set (check_clauses t))
                     (''schema contract missing required CHECK constraint for '' @ n)) patterns)
       EXPECTED_CHECK_PATTERNS"

text \<open>\<open>PRAGMA foreign_key_list\<close> gives one row per column of a key; the rows of a key share an
  identifier and are put in order again by their sequence number.\<close>

record fkey_info =
  fi_id :: nat
  fi_seq :: nat
  fi_table :: string
  fi_from :: string
  fi_to :: string
  fi_on_delete :: string

definition foreign_key_list :: "sql_db \<Rightarrow> string \<Rightarrow> fkey_info list" where
  "foreign_key_list d n =
     (case sql_table_of d n of
        None \<Rightarrow> []
      | Some t \<Rightarrow> concat (map (\<lambda>(i, f).
          map (\<lambda>(s, a, b). \<lparr>fi_id = i, fi_seq = s, fi_table = fkey_table f, fi_from = a, fi_to = b,
                             fi_on_delete = fkey_on_delete f\<rparr>)
            (enumerate 0 (zip (fkey_columns f) (fkey_refs f)))) (enumerate 0 (tbl_fkeys t))))"

definition foreign_key_signatures ::
  "sql_db \<Rightarrow> string \<Rightarrow> (string \<times> string \<times> (string \<times> string) list) list" where
  "foreign_key_signatures d n =
     (let rows = foreign_key_list d n;
          groups = map (\<lambda>i. sort_key fi_seq (filter (\<lambda>r. fi_id r = i) rows)) (remdups (map fi_id rows))
      in map (\<lambda>g. (fi_table (hd g), ascii_upper (fi_on_delete (hd g)),
                    map (\<lambda>r. (fi_from r, fi_to r)) g)) groups)"

definition EXPECTED_FOREIGN_KEYS ::
  "(string \<times> (string \<times> string \<times> (string \<times> string) list)) list" where
  "EXPECTED_FOREIGN_KEYS =
     [(''tasks'', ''jobs'', ''CASCADE'', [(''job_id'', ''id'')]),
      (''attempts'', ''jobs'', ''CASCADE'', [(''job_id'', ''id'')]),
      (''attempts'', ''tasks'', ''CASCADE'', [(''job_id'', ''job_id''), (''task_id'', ''id'')]),
      (''events'', ''jobs'', ''CASCADE'', [(''job_id'', ''id'')]),
      (''dossiers'', ''jobs'', ''CASCADE'', [(''job_id'', ''id'')])]"

definition validate_schema_contract :: "sql_db \<Rightarrow> sql_error + unit" where
  "validate_schema_contract d =
     rbind (validate_table_columns d) (\<lambda>_.
     rbind (validate_named_indexes d) (\<lambda>_.
     rbind (validate_unique_constraints d) (\<lambda>_.
     rbind (validate_check_constraints d) (\<lambda>_.
     each (\<lambda>(n, key). sql_require (key \<in> set (foreign_key_signatures d n))
       (''schema contract missing foreign key of '' @ n)) EXPECTED_FOREIGN_KEYS))))"

section \<open>Opening the store\<close>

text \<open>\<open>quick_check\<close> looks at the pages (\<open>pages\<close>, the file system's part) and at the NOT NULL and CHECK
  constraints of every row; \<open>foreign_key_check\<close> at every foreign key.\<close>

definition quick_check :: "bool \<Rightarrow> sql_db \<Rightarrow> bool" where
  "quick_check pages d \<longleftrightarrow> pages \<and> list_all (\<lambda>(_, t). list_all (row_ok t) (tbl_rows t)) (sdb_tables d)"

definition foreign_key_check :: "sql_db \<Rightarrow> bool" where
  "foreign_key_check d \<longleftrightarrow>
     list_all (\<lambda>(_, t). list_all (\<lambda>r. list_all (fkey_row_ok d r) (tbl_fkeys t)) (tbl_rows t)) (sdb_tables d)"

definition validate_integrity_and_schema :: "bool \<Rightarrow> sql_db \<Rightarrow> sql_error + unit" where
  "validate_integrity_and_schema pages d =
     rbind (sql_require (quick_check pages d) ''quick_check failed'') (\<lambda>_.
     rbind (sql_require (foreign_key_check d) ''foreign_key_check found relational violations'') (\<lambda>_.
     validate_schema_contract d))"

text \<open>The loop of \<open>_migrate\<close>; every round raises the version by one.\<close>

function migrate_loop :: "int \<Rightarrow> sql_db \<Rightarrow> sql_error + sql_db" where
  "migrate_loop current d =
     (if current < CURRENT_SCHEMA_VERSION
      then case MIGRATIONS current of
             None \<Rightarrow> Inl (SqlError ''no migration path'')
           | Some statements \<Rightarrow>
               (case sql_exec_all statements d of
                  Inl e \<Rightarrow> Inl e
                | Inr d' \<Rightarrow> migrate_loop (current + 1) (d'\<lparr>sdb_version := current + 1\<rparr>))
      else Inr d)"
  by pat_completeness auto

termination by (relation "measure (\<lambda>(v, _). nat (CURRENT_SCHEMA_VERSION - v))")
    (auto simp: CURRENT_SCHEMA_VERSION_def)

declare migrate_loop.simps [simp del]

text \<open>BEGIN IMMEDIATE ... COMMIT: the database after a failed migration is the one before it.\<close>

definition migrate :: "int \<Rightarrow> sql_db \<Rightarrow> sql_error option \<times> sql_db" where
  "migrate version d =
     (case migrate_loop version d of Inl e \<Rightarrow> (Some e, d) | Inr d' \<Rightarrow> (None, d'))"

text \<open>What the file system says: the path is a symbolic link, the name of the backup is taken, the
  pages of the file are sound.\<close>

record open_env =
  oe_symlink :: bool
  oe_backup_exists :: bool
  oe_pages :: bool

text \<open>\<open>executescript(SCHEMA)\<close>, the version and the validation, after which the constructor returns.
  A state is the database and the backup made so far.\<close>

type_synonym opened = "(sql_error + unit) \<times> sql_db \<times> sql_db option"

definition install_schema :: "open_env \<Rightarrow> sql_db option \<Rightarrow> sql_db \<Rightarrow> opened" where
  "install_schema env backup d =
     (case sql_script SCHEMA d of
        (Some e, d1) \<Rightarrow> (Inl e, d1, backup)
      | (None, d1) \<Rightarrow>
          let d2 = d1\<lparr>sdb_version := CURRENT_SCHEMA_VERSION\<rparr>
          in (validate_integrity_and_schema (oe_pages env) d2, d2, backup))"

definition open_checked :: "open_env \<Rightarrow> sql_db \<Rightarrow> opened" where
  "open_checked env d =
     (if sql_table_of d ''jobs'' = None then install_schema env None d
      else
        let version = (if sdb_version d = 0 then LEGACY_SCHEMA_VERSION else sdb_version d)
        in if CURRENT_SCHEMA_VERSION < version
           then (Inl (SqlError ''database schema is newer than supported''), d, None)
           else if version < CURRENT_SCHEMA_VERSION
           then if oe_backup_exists env
                then (Inl (SqlError ''refusing existing migration backup path''), d, None)
                else (case migrate version d of
                        (Some e, d1) \<Rightarrow> (Inl e, d1, Some d)
                      | (None, d1) \<Rightarrow> install_schema env (Some d) d1)
           else (case validate_table_columns d of
                   Inl e \<Rightarrow> (Inl e, d, None)
                 | Inr _ \<Rightarrow> install_schema env None d))"

text \<open>A database error becomes a \<open>YoloError\<close> that names the backup, if one was made.\<close>

fun sql_message :: "sql_error \<Rightarrow> string" where
  "sql_message (SqlError m) = m"
| "sql_message (SqlConstraint m) = m"

definition open_database ::
  "open_env \<Rightarrow> sql_db \<Rightarrow> (py_error + unit) \<times> sql_db \<times> sql_db option" where
  "open_database env d =
     (if oe_symlink env then (Inl (YoloError ''refusing symlink for database path''), d, None)
      else case open_checked env d of
        (Inl e, d', backup) \<Rightarrow>
          (Inl (YoloError (''database initialization/integrity check failed: '' @ sql_message e @
             (if backup = None then [] else ''; pre-migration backup''))), d', backup)
      | (Inr _, d', backup) \<Rightarrow> (Inr (), d', backup))"

end
