(* ===== verification/Yolo_Schema_Proofs.thy ===== *)
theory Yolo_Schema_Proofs
  imports Yolo_Schema
begin

text \<open>
  What opening the store guarantees: a new store and every migrated legacy store meet the contract,
  and an older store is either completely migrated or untouched.
\<close>

section \<open>The contract reads the catalogue only\<close>

lemma table_xinfo_catalogue [simp]: "table_xinfo (catalogue d) = table_xinfo d"
  by (rule ext) (simp add: table_xinfo_def split: option.split)

lemma auto_indexes_no_rows [simp]: "auto_indexes n (no_rows t) = auto_indexes n t"
  by (simp add: auto_indexes_def rowid_alias_def)

lemma index_list_catalogue [simp]: "index_list (catalogue d) = index_list d"
  by (rule ext) (simp add: index_list_def split: option.split)

lemma catalogue_names: "map fst (sdb_tables (catalogue d)) = map fst (sdb_tables d)"
  by (simp add: catalogue_def case_prod_unfold)

lemma index_columns_catalogue [simp]: "index_columns (catalogue d) = index_columns d"
proof -
  have "map (index_list d \<circ> fst) (sdb_tables (catalogue d)) = map (index_list d \<circ> fst) (sdb_tables d)"
    unfolding map_map [symmetric] catalogue_names ..
  then show ?thesis by (simp add: index_columns_def fun_eq_iff)
qed

lemma foreign_key_signatures_catalogue [simp]:
  "foreign_key_signatures (catalogue d) = foreign_key_signatures d"
proof -
  have "foreign_key_list (catalogue d) = foreign_key_list d"
    by (rule ext) (simp add: foreign_key_list_def split: option.split)
  then show ?thesis by (simp add: foreign_key_signatures_def fun_eq_iff)
qed

lemma check_constraints_catalogue [simp]:
  "validate_check_constraints (catalogue d) = validate_check_constraints d"
proof -
  have "check_clauses (no_rows t) = check_clauses t" for t by (simp add: check_clauses_def)
  then show ?thesis
    unfolding validate_check_constraints_def
    by (intro arg_cong2 [where f = each] refl ext) (auto split: option.splits)
qed

lemma validate_catalogue [simp]:
  "validate_schema_contract (catalogue d) = validate_schema_contract d"
  "validate_table_columns (catalogue d) = validate_table_columns d"
  unfolding validate_schema_contract_def validate_table_columns_def validate_named_indexes_def
    validate_unique_constraints_def
  by (simp_all only: table_xinfo_catalogue index_list_catalogue index_columns_catalogue
      foreign_key_signatures_catalogue check_constraints_catalogue)

section \<open>Catalogues of the past\<close>

text \<open>The first stores carried no version. They had the job table and, but for the oldest, the
  tasks, attempts and events with their plain indexes; \<open>migration_1\<close> and \<open>migration_2\<close> lead to the
  catalogues of versions 2 and 3.\<close>

definition catalogue_v1_jobs :: sql_db where
  "catalogue_v1_jobs =
     \<lparr>sdb_tables = [(''jobs'', a_table base_job_columns [] [])], sdb_indexes = [], sdb_version = 0\<rparr>"

definition catalogue_v1 :: sql_db where
  "catalogue_v1 =
     \<lparr>sdb_tables = [(''jobs'', a_table base_job_columns [] []), (''tasks'', tasks_table),
        (''attempts'', attempts_v2_table), (''events'', events_table)],
      sdb_indexes =
        [(''idx_tasks_job_state'', \<lparr>ixd_table = ''tasks'', ixd_columns = [''job_id'', ''state''], ixd_unique = False\<rparr>),
         (''idx_attempts_job_task'', \<lparr>ixd_table = ''attempts'',
            ixd_columns = [''job_id'', ''task_id'', ''number''], ixd_unique = False\<rparr>),
         (''idx_events_job_id'', \<lparr>ixd_table = ''events'', ixd_columns = [''job_id'', ''id''], ixd_unique = False\<rparr>),
         (''idx_jobs_created'', \<lparr>ixd_table = ''jobs'', ixd_columns = [''created_at''], ixd_unique = False\<rparr>)],
      sdb_version = 0\<rparr>"

definition migrated :: "int \<Rightarrow> sql_statement list \<Rightarrow> sql_db \<Rightarrow> sql_db" where
  "migrated v ss d = (case sql_exec_all ss d of Inl _ \<Rightarrow> d | Inr d' \<Rightarrow> d'\<lparr>sdb_version := v\<rparr>)"

definition legacy_catalogues :: "sql_db list" where
  "legacy_catalogues =
     (let v1 = [catalogue_v1_jobs, catalogue_v1];
          v2 = map (migrated 2 migration_1) v1
      in v1 @ v2 @ map (migrated 3 migration_2) v2)"

definition from_version :: "sql_db \<Rightarrow> int" where
  "from_version d = (if sdb_version d = 0 then LEGACY_SCHEMA_VERSION else sdb_version d)"

text \<open>A catalogue that the migrations and \<open>SCHEMA\<close> bring to the contract. The one unique index is
  there before \<open>SCHEMA\<close> runs, so \<open>SCHEMA\<close> has no row to check.\<close>

definition contract_after :: "sql_db \<Rightarrow> bool" where
  "contract_after d =
     (case migrate_loop (from_version d) d of
        Inl _ \<Rightarrow> False
      | Inr d1 \<Rightarrow> map_of (sdb_indexes d1) ''idx_tasks_job_id_id'' \<noteq> None \<and>
          (case sql_exec_all SCHEMA d1 of
             Inl _ \<Rightarrow> False | Inr d2 \<Rightarrow> validate_schema_contract d2 = Inr ()))"

lemma contract_v1: "contract_after catalogue_v1" "contract_after catalogue_v1_jobs"
  by code_simp+

lemma contract_step:
  assumes "contract_after c" "MIGRATIONS (from_version c) = Some ss"
    and "from_version c < CURRENT_SCHEMA_VERSION" "v = from_version c + 1" "0 < v"
  shows "contract_after (migrated v ss c)" "from_version (migrated v ss c) = v"
proof -
  have next_round: "migrate_loop (from_version c) c =
      (case sql_exec_all ss c of Inl e \<Rightarrow> Inl e | Inr d' \<Rightarrow> migrate_loop v (d'\<lparr>sdb_version := v\<rparr>))"
    unfolding assms(4) using assms(2,3) by (subst migrate_loop.simps) simp
  then obtain c' where c': "sql_exec_all ss c = Inr c'"
    using assms(1) by (cases "sql_exec_all ss c") (auto simp: contract_after_def)
  then have m: "migrated v ss c = c'\<lparr>sdb_version := v\<rparr>" by (simp add: migrated_def)
  show v: "from_version (migrated v ss c) = v" using assms(5) by (simp add: m from_version_def)
  show "contract_after (migrated v ss c)"
    using assms(1) next_round by (simp add: contract_after_def v) (simp add: c' m)
qed

lemma legacy_contract: "c \<in> set legacy_catalogues \<Longrightarrow> contract_after c"
proof -
  have v1: "from_version c = 1" if "c \<in> {catalogue_v1_jobs, catalogue_v1}" for c
    using that by (auto simp: from_version_def catalogue_v1_jobs_def catalogue_v1_def
        LEGACY_SCHEMA_VERSION_def)
  have v2: "contract_after (migrated 2 migration_1 c)" "from_version (migrated 2 migration_1 c) = 2"
    if "c \<in> {catalogue_v1_jobs, catalogue_v1}" for c
    using that v1 [OF that] contract_v1 contract_step [of c migration_1 2]
    by (auto simp: MIGRATIONS_def CURRENT_SCHEMA_VERSION_def)
  have v3: "contract_after (migrated 3 migration_2 (migrated 2 migration_1 c))"
    if "c \<in> {catalogue_v1_jobs, catalogue_v1}" for c
    using v2 [OF that] contract_step [of "migrated 2 migration_1 c" migration_2 3]
    by (auto simp: MIGRATIONS_def CURRENT_SCHEMA_VERSION_def)
  assume "c \<in> set legacy_catalogues"
  then show ?thesis using contract_v1 v2(1) v3 by (auto simp: legacy_catalogues_def Let_def)
qed

section \<open>Only rows can stop a migration\<close>

lemma structural_error:
  "sql_exec s d = Inl (SqlError m) \<Longrightarrow> sql_exec s (catalogue d) = Inl (SqlError m)"
proof (cases s)
  case (Insert_Select n src cols)
  assume "sql_exec s d = Inl (SqlError m)"
  then show ?thesis using Insert_Select
    by (auto simp: sql_insert_select_def Let_def with_table_def rbind_Inl_iff sql_guards require_def
        split: option.splits if_splits)
next
  case (Update_Rows n reads sets cond)
  assume "sql_exec s d = Inl (SqlError m)"
  then show ?thesis using Update_Rows
    by (auto simp: sql_update_def Let_def with_table_def rbind_Inl_iff sql_guards require_def
        split: option.splits if_splits)
qed (auto simp: sql_create_table_def sql_create_index_def sql_add_column_def sql_drop_table_def
    sql_rename_table_def with_table_def rbind_Inl_iff sql_guards require_def
    split: option.splits if_splits)

lemma structural_error_all:
  "sql_exec_all ss d = Inl (SqlError m) \<Longrightarrow> sql_exec_all ss (catalogue d) = Inl (SqlError m)"
proof (induction ss arbitrary: d)
  case (Cons s ss)
  then show ?case
    by (cases "sql_exec s d") (auto dest: sql_exec_catalogue structural_error)
qed simp

lemma migrate_loop_catalogue:
  "(\<forall>d'. migrate_loop v d = Inr d' \<longrightarrow> migrate_loop v (catalogue d) = Inr (catalogue d')) \<and>
   (\<forall>m. migrate_loop v d = Inl (SqlError m) \<longrightarrow> migrate_loop v (catalogue d) = Inl (SqlError m))"
proof (induction v d rule: migrate_loop.induct)
  case (1 v d)
  show ?case
  proof (cases "v < CURRENT_SCHEMA_VERSION")
    case False
    then show ?thesis by (simp add: migrate_loop.simps [of v])
  next
    case True
    show ?thesis
    proof (cases "MIGRATIONS v")
      case None
      then show ?thesis using True by (simp add: migrate_loop.simps [of v])
    next
      case (Some ss)
      show ?thesis
      proof (cases "sql_exec_all ss d")
        case (Inl e)
        then show ?thesis using True Some structural_error_all [of ss d]
          by (auto simp: migrate_loop.simps [of v])
      next
        case (Inr d1)
        then have "sql_exec_all ss (catalogue d) = Inr (catalogue d1)"
          by (rule sql_exec_all_catalogue)
        then show ?thesis using True Some Inr "1.IH" [OF True Some Inr]
          by (simp add: migrate_loop.simps [of v])
      qed
    qed
  qed
qed

text \<open>\<open>SCHEMA\<close> has no row to check where its unique index exists already.\<close>

fun row_free :: "sql_db \<Rightarrow> sql_statement \<Rightarrow> bool" where
  "row_free d (Create_Table _ _ _) = True"
| "row_free d (Create_Index unique i _ _) = (unique \<longrightarrow> map_of (sdb_indexes d) i \<noteq> None)"
| "row_free d _ = False"

lemma row_free_error: "row_free d s \<Longrightarrow> sql_exec s d = Inl e \<Longrightarrow> \<exists>m. e = SqlError m"
  by (cases s) (auto simp: sql_create_table_def sql_create_index_def with_table_def rbind_Inl_iff
      sql_guards require_def split: option.splits if_splits)

lemma row_free_mono:
  assumes "row_free d s" "sql_exec s d = Inr d'" "row_free d t"
  shows "row_free d' t"
proof -
  have "map_of (sdb_indexes d) i \<noteq> None \<Longrightarrow> map_of (sdb_indexes d') i \<noteq> None" for i
    using assms(1,2) by (cases s) (auto simp: sql_create_table_def sql_create_index_def
        with_table_def rbind_Inr_iff sql_guards map_add_Some_iff split: option.splits if_splits)
  then show ?thesis using assms(3) by (cases t) auto
qed

lemma row_free_all:
  "list_all (row_free d) ss \<Longrightarrow> sql_exec_all ss d = Inl e \<Longrightarrow> \<exists>m. e = SqlError m"
proof (induction ss arbitrary: d)
  case (Cons s ss)
  show ?case
  proof (cases "sql_exec s d")
    case (Inl e')
    with Cons.prems show ?thesis by (auto dest: row_free_error)
  next
    case (Inr d1)
    with Cons.prems have "list_all (row_free d1) ss" by (auto simp: list_all_iff intro: row_free_mono)
    with Cons Inr show ?thesis by simp
  qed
qed simp

lemma schema_row_free: "map_of (sdb_indexes d) ''idx_tasks_job_id_id'' \<noteq> None \<Longrightarrow> list_all (row_free d) SCHEMA"
  by (simp add: SCHEMA_def)

lemma exec_version: "sql_exec s d = Inr d' \<Longrightarrow> sdb_version d' = sdb_version d"
  by (cases s) (auto simp: sql_create_table_def sql_create_index_def sql_add_column_def sql_update_def
      sql_insert_select_def sql_drop_table_def sql_rename_table_def with_table_def rbind_Inr_iff
      sql_guards Let_def split: option.splits if_splits)

lemma script_version: "sdb_version (snd (sql_script ss d)) = sdb_version d"
proof (induction ss arbitrary: d)
  case (Cons s ss)
  then show ?case by (cases "sql_exec s d") (simp_all add: exec_version)
qed simp

lemma migrate_loop_version:
  "migrate_loop v d = Inr d' \<Longrightarrow> v < CURRENT_SCHEMA_VERSION \<Longrightarrow> sdb_version d' = CURRENT_SCHEMA_VERSION"
proof (induction v d arbitrary: d' rule: migrate_loop.induct)
  case (1 v d)
  from "1.prems" obtain ss d1 where step: "MIGRATIONS v = Some ss" "sql_exec_all ss d = Inr d1"
    "migrate_loop (v + 1) (d1\<lparr>sdb_version := v + 1\<rparr>) = Inr d'"
    by (subst (asm) migrate_loop.simps) (auto split: option.splits sum.splits)
  show ?case
  proof (cases "v + 1 < CURRENT_SCHEMA_VERSION")
    case True
    then show ?thesis using "1.IH" [OF "1.prems"(2) step(1,2) step(3)] by simp
  next
    case False
    then have "d' = d1\<lparr>sdb_version := v + 1\<rparr>" using step(3) by (subst (asm) migrate_loop.simps) auto
    then show ?thesis using False "1.prems"(2) by simp
  qed
qed

section \<open>Opening\<close>

lemma install_schema_cases:
  assumes "install_schema env b d = (r, d', b')"
  shows "b' = b" "sdb_version d = CURRENT_SCHEMA_VERSION \<Longrightarrow> sdb_version d' = CURRENT_SCHEMA_VERSION"
    "r = Inr u \<Longrightarrow> sdb_version d' = CURRENT_SCHEMA_VERSION \<and> foreign_key_check d' \<and>
       quick_check (oe_pages env) d' \<and> validate_schema_contract d' = Inr ()"
proof -
  obtain e d1 where s: "sql_script SCHEMA d = (e, d1)" by fastforce
  have v: "sdb_version d1 = sdb_version d" using script_version [of SCHEMA d] s by simp
  show "b' = b" "sdb_version d = CURRENT_SCHEMA_VERSION \<Longrightarrow> sdb_version d' = CURRENT_SCHEMA_VERSION"
    "r = Inr u \<Longrightarrow> sdb_version d' = CURRENT_SCHEMA_VERSION \<and> foreign_key_check d' \<and>
       quick_check (oe_pages env) d' \<and> validate_schema_contract d' = Inr ()"
    using assms s v by (auto simp: install_schema_def validate_integrity_and_schema_def Let_def
        sql_require_def rbind_Inr_iff split: option.splits)
qed

lemma open_database_checked:
  assumes "open_database env d = (r, d', b)"
  shows "(oe_symlink env \<and> d' = d \<and> b = None \<and> (\<exists>e. r = Inl e)) \<or>
    (\<not> oe_symlink env \<and> (\<exists>r'. open_checked env d = (r', d', b) \<and>
       (r = Inr () \<longleftrightarrow> r' = Inr ())))"
  using assms by (auto simp: open_database_def split: if_splits prod.splits sum.splits)

text \<open>C36: Opening an existing store leaves it exactly as it was or at the current version, never in
  between; an older store changes only behind a backup equal to it; and a store that is handed out
  satisfies the contract and every constraint of its rows.\<close>

theorem opening_all_or_nothing:
  assumes "sql_table_of d ''jobs'' \<noteq> None" and "open_database env d = (r, d', b)"
  shows "(d' = d \<or> sdb_version d' = CURRENT_SCHEMA_VERSION) \<and>
    (b = None \<or> b = Some d) \<and>
    (d' \<noteq> d \<and> from_version d \<noteq> CURRENT_SCHEMA_VERSION \<longrightarrow> b = Some d) \<and>
    (r = Inr () \<longrightarrow> sdb_version d' = CURRENT_SCHEMA_VERSION \<and> foreign_key_check d' \<and>
       quick_check (oe_pages env) d' \<and> validate_schema_contract d' = Inr ())"
proof -
  consider (link) "d' = d" "b = None" "r \<noteq> Inr ()"
    | (run) r' where "open_checked env d = (r', d', b)" "r = Inr () \<longleftrightarrow> r' = Inr ()"
    using open_database_checked [OF assms(2)] by auto
  then show ?thesis
  proof cases
    case link
    then show ?thesis by simp
  next
    case (run r')
    have current: "from_version d = CURRENT_SCHEMA_VERSION \<Longrightarrow> sdb_version d = CURRENT_SCHEMA_VERSION"
      by (auto simp: from_version_def LEGACY_SCHEMA_VERSION_def CURRENT_SCHEMA_VERSION_def split: if_splits)
    consider (stopped) "d' = d" "b = None \<or> b = Some d" "r' \<noteq> Inr ()"
      | (migrated) d1 where "migrate_loop (from_version d) d = Inr d1"
          "from_version d < CURRENT_SCHEMA_VERSION" "install_schema env (Some d) d1 = (r', d', b)"
      | (installed) "from_version d = CURRENT_SCHEMA_VERSION" "install_schema env None d = (r', d', b)"
      using run(1) assms(1) unfolding from_version_def [symmetric] open_checked_def Let_def
      by (auto simp: migrate_def split: if_splits sum.splits option.splits prod.splits;
          metis Inr_Inl_False linorder_neqE)
    then show ?thesis
    proof cases
      case stopped
      then show ?thesis using run(2) by auto
    next
      case migrated
      show ?thesis
        using install_schema_cases [OF migrated(3)] migrate_loop_version [OF migrated(1,2)] run(2) by auto
    next
      case installed
      show ?thesis
        using install_schema_cases [OF installed(2)] current [OF installed(1)] installed(1) run(2) by auto
    qed
  qed
qed

lemma legacy_tables:
  "list_all (\<lambda>c. sql_table_of c ''jobs'' \<noteq> None \<and> from_version c < CURRENT_SCHEMA_VERSION) legacy_catalogues"
  by code_simp

lemma from_version_catalogue [simp]: "from_version (catalogue d) = from_version d"
  by (simp add: from_version_def)

lemma contract_after_schema:
  assumes "contract_after (catalogue d)" and "migrate_loop (from_version d) d = Inr d1"
  obtains d2 where "sql_exec_all SCHEMA d1 = Inr d2" "validate_schema_contract d2 = Inr ()"
proof -
  have run: "migrate_loop (from_version d) (catalogue d) = Inr (catalogue d1)"
    using migrate_loop_catalogue assms(2) by blast
  with assms(1) obtain c2 where c2: "sql_exec_all SCHEMA (catalogue d1) = Inr c2"
    "validate_schema_contract c2 = Inr ()" and
    idx: "map_of (sdb_indexes d1) ''idx_tasks_job_id_id'' \<noteq> None"
    by (auto simp: contract_after_def split: sum.splits)
  show thesis
  proof (cases "sql_exec_all SCHEMA d1")
    case (Inl e)
    then obtain m where "e = SqlError m" using row_free_all [OF schema_row_free [OF idx]] by blast
    with Inl c2(1) show thesis using structural_error_all [of SCHEMA d1] by auto
  next
    case (Inr d2)
    then have "c2 = catalogue d2" using sql_exec_all_catalogue [of SCHEMA d1] c2(1) by auto
    with Inr c2(2) show thesis by (auto intro: that)
  qed
qed


definition demo_sound :: open_env where
  "demo_sound = \<lparr>oe_symlink = False, oe_backup_exists = False, oe_pages = True\<rparr>"

definition demo_job_row :: sql_row where
  "demo_job_row = (\<lambda>c. if c = ''auto_apply'' then SInt 1 else if c = ''stop_requested'' then SInt 0
     else if c = ''created_at'' then SReal 0 else if c = ''updated_at'' then SReal 0
     else if c = ''state'' then SText ''completed'' else SText ''x'')"

definition demo_legacy :: sql_db where
  "demo_legacy = \<lparr>sdb_tables = [(''jobs'', (a_table base_job_columns [] [])\<lparr>tbl_rows := [demo_job_row]\<rparr>)],
     sdb_indexes = [], sdb_version = 0\<rparr>"

lemma demo_legacy_catalogue: "catalogue demo_legacy \<in> set legacy_catalogues"
  by (simp add: legacy_catalogues_def Let_def catalogue_def demo_legacy_def no_rows_def
      catalogue_v1_jobs_def a_table_def)

lemma demo_legacy_opens: "fst (open_database demo_sound demo_legacy) = Inr ()"
  by code_simp


theorem opening_all_or_nothing_witness:
  "\<exists>d' b. open_database demo_sound demo_legacy = (Inr (), d', b) \<and>
     foreign_key_check d' \<and> quick_check True d'"
proof -
  obtain d' b where o: "open_database demo_sound demo_legacy = (Inr (), d', b)"
    using demo_legacy_opens by (cases "open_database demo_sound demo_legacy") auto
  have "sql_table_of demo_legacy ''jobs'' \<noteq> None" by (simp add: demo_legacy_def sql_table_of_def)
  from opening_all_or_nothing [OF this o] o show ?thesis by (auto simp: demo_sound_def)
qed

end
