(* ===== verification/Yolo_Migration.thy ===== *)
theory Yolo_Migration
  imports Yolo_Schema
begin

text \<open>
  What the migrations of \<open>src/omarchy_yolo/db_core.py\<close> do to the rows: \<open>migration_3\<close> keeps every job
  and fills its acceptance journal from the event ledger, so that the rows satisfy the new columns;
  \<open>migration_2\<close> keeps every attempt and succeeds exactly when each one belongs to a task of its job.
\<close>

section \<open>Statements on rows\<close>

lemma put_table_twice [simp]: "put_table n t (put_table n t' d) = put_table n t d"
  by (simp add: put_table_def)

lemma rows_of_put [simp]:
  "rows_of (put_table n t d) m = (if m = n then tbl_rows t else rows_of d m)"
  by (simp add: rows_of_def)

definition extended :: "column \<Rightarrow> sql_table \<Rightarrow> sql_table" where
  "extended c t = t\<lparr>tbl_columns := tbl_columns t @ [c],
     tbl_rows := map (\<lambda>r. r(col_name c := default_value c)) (tbl_rows t)\<rparr>"

lemma add_column_extends:
  assumes "sql_table_of d n = Some t" "col_name c \<notin> set (column_names t)" "col_pk c = 0"
    and "value_ok c (default_value c)"
  shows "sql_exec (Add_Column n c) d = Inr (put_table n (extended c t) d)"
  using assms by (simp add: sql_add_column_def with_table_def sql_guards extended_def)

lemma extended_simps [simp]:
  "column_names (extended c t) = column_names t @ [col_name c]"
  "tbl_rows (extended c t) = map (\<lambda>r. r(col_name c := default_value c)) (tbl_rows t)"
  "tbl_columns (extended c t) = tbl_columns t @ [c]"
  by (simp_all add: extended_def column_names_def)

lemma new_job_columns [simp]:
  "col_name accepted_commit_column = ''accepted_commit''"
  "col_name acceptance_phase_column = ''acceptance_phase''"
  "col_name source_apply_intent_column = ''source_apply_intent''"
  "col_name source_apply_outcome_column = ''source_apply_outcome''"
  "col_name source_apply_reason_column = ''source_apply_reason''"
  "default_value accepted_commit_column = SText []"
  "default_value acceptance_phase_column = SText ''none''"
  "default_value source_apply_intent_column = SText ''not-requested''"
  "default_value source_apply_outcome_column = SText []"
  "default_value source_apply_reason_column = SText []"
  "col_pk accepted_commit_column = 0" "col_pk acceptance_phase_column = 0"
  "col_pk source_apply_intent_column = 0" "col_pk source_apply_outcome_column = 0"
  "col_pk source_apply_reason_column = 0"
  by (simp_all add: accepted_commit_column_def acceptance_phase_column_def default_value_def
      source_apply_intent_column_def source_apply_outcome_column_def source_apply_reason_column_def
      column_defs)

lemma new_job_values [simp]:
  "value_ok accepted_commit_column v \<longleftrightarrow> v \<noteq> SNull"
  "value_ok acceptance_phase_column v \<longleftrightarrow>
     v \<in> {SText ''none'', SText ''accepted'', SText ''applying'', SText ''published''}"
  "value_ok source_apply_intent_column v \<longleftrightarrow> v \<in> {SText ''requested'', SText ''not-requested''}"
  "value_ok source_apply_outcome_column v \<longleftrightarrow>
     v \<in> {SText [], SText ''applied'', SText ''skipped'', SText ''not-requested''}"
  "value_ok source_apply_reason_column v \<longleftrightarrow> v \<noteq> SNull"
  by (auto simp: accepted_commit_column_def acceptance_phase_column_def value_ok_def
      source_apply_intent_column_def source_apply_outcome_column_def source_apply_reason_column_def
      column_defs)

section \<open>The acceptance journal\<close>

definition journal_defaults :: "sql_row \<Rightarrow> sql_row" where
  "journal_defaults r = r(''accepted_commit'' := SText [], ''acceptance_phase'' := SText ''none'',
     ''source_apply_intent'' := SText ''not-requested'', ''source_apply_outcome'' := SText [],
     ''source_apply_reason'' := SText [])"

definition backfilled :: "sql_db \<Rightarrow> sql_row \<Rightarrow> sql_row" where
  "backfilled d r =
     (if sql_eq (r ''state'') (SText ''completed'')
      then (journal_defaults r)(''acceptance_phase'' := SText ''published'',
             ''source_apply_intent'' := backfill_intent r, ''source_apply_outcome'' := backfill_outcome d r)
      else journal_defaults r)"

definition job_columns :: "string list" where
  "job_columns = map col_name base_job_columns"

lemma job_columns_code: "job_columns =
   [''id'', ''repo'', ''goal'', ''state'', ''base_branch'', ''base_commit'', ''integration_branch'',
    ''integration_path'', ''auto_apply'', ''stop_requested'', ''final_summary'', ''error'',
    ''created_at'', ''updated_at'']"
  by (simp add: job_columns_def base_job_columns_def column_defs)

definition journaled_table :: "sql_table \<Rightarrow> sql_table" where
  "journaled_table t = extended source_apply_reason_column (extended source_apply_outcome_column
     (extended source_apply_intent_column (extended acceptance_phase_column
     (extended accepted_commit_column t))))"

lemma journal_columns_added:
  assumes "sql_table_of d ''jobs'' = Some t" "tbl_columns t = base_job_columns"
  shows "sql_exec_all (butlast migration_3) d = Inr (put_table ''jobs'' (journaled_table t) d)"
proof -
  have cols: "column_names t = job_columns" using assms(2) by (simp add: column_names_def job_columns_def)
  show ?thesis
    by (simp add: migration_3_def add_column_extends assms(1) cols job_columns_code journaled_table_def
        del: sql_exec.simps)
qed

lemma journaled_table_simps:
  "tbl_rows (journaled_table t) = map journal_defaults (tbl_rows t)"
  "column_names (journaled_table t) = column_names t @ [''accepted_commit'', ''acceptance_phase'',
     ''source_apply_intent'', ''source_apply_outcome'', ''source_apply_reason'']"
  "tbl_columns (journaled_table t) = tbl_columns t @ [accepted_commit_column, acceptance_phase_column,
     source_apply_intent_column, source_apply_outcome_column, source_apply_reason_column]"
  by (simp_all add: journaled_table_def journal_defaults_def)

definition journal_update :: sql_statement where
  "journal_update = last migration_3"

lemma migration_3_split: "migration_3 = butlast migration_3 @ [journal_update]"
  by (simp add: migration_3_def journal_update_def)

lemma find_new_column:
  assumes "tbl_columns t = base_job_columns"
  shows "find_column (journaled_table t) ''acceptance_phase'' = Some acceptance_phase_column"
    "find_column (journaled_table t) ''source_apply_intent'' = Some source_apply_intent_column"
    "find_column (journaled_table t) ''source_apply_outcome'' = Some source_apply_outcome_column"
  by (simp_all add: find_column_def journaled_table_simps assms base_job_columns_def column_defs
      acceptance_phase_column_def source_apply_intent_column_def source_apply_outcome_column_def
      accepted_commit_column_def source_apply_reason_column_def)

lemma journal_updated:
  assumes "sql_table_of d ''jobs'' = Some t" "tbl_columns t = base_job_columns"
    and "sql_table_of d ''events'' = Some e" "{''job_id'', ''kind''} \<subseteq> set (column_names e)"
  shows "sql_exec journal_update (put_table ''jobs'' (journaled_table t) d) =
    Inr (put_table ''jobs'' ((journaled_table t)\<lparr>tbl_rows := map (backfilled d) (tbl_rows t)\<rparr>) d)"
proof -
  let ?d = "put_table ''jobs'' (journaled_table t) d"
  let ?sets = "[(''acceptance_phase'', \<lambda>_ _. SText ''published''),
      (''source_apply_intent'', \<lambda>_. backfill_intent), (''source_apply_outcome'', backfill_outcome)]"
  let ?cond = "\<lambda>_ r. sql_eq (r ''state'') (SText ''completed'')"
  have cols: "column_names t = job_columns" using assms(2) by (simp add: column_names_def job_columns_def)
  have row: "(if ?cond ?d (journal_defaults r) then assign_row ?d ?sets (journal_defaults r)
              else journal_defaults r) = backfilled d r" for r
    by (auto simp: fun_eq_iff backfilled_def assign_row_def journal_defaults_def backfill_intent_def
        backfill_outcome_def job_has_event_def)
  have ok: "value_ok acceptance_phase_column (SText ''published'')"
    "value_ok source_apply_intent_column (backfill_intent r)"
    "value_ok source_apply_outcome_column (backfill_outcome ?d r)" for r
    by (auto simp: backfill_intent_def backfill_outcome_def)
  have cells: "list_all (has_column ?d)
      [(''jobs'', ''id''), (''jobs'', ''state''), (''jobs'', ''auto_apply''), (''events'', ''job_id''), (''events'', ''kind'')]"
    using assms(3,4) by (simp add: has_column_def journaled_table_simps cols job_columns_code)
  have rows: "map (\<lambda>r. if ?cond ?d r then assign_row ?d ?sets r else r) (map journal_defaults (tbl_rows t)) =
      map (backfilled d) (tbl_rows t)"
    using row by simp
  have checked: "list_all (\<lambda>r. ?cond ?d r \<longrightarrow>
        list_all (\<lambda>(c, _). case find_column (journaled_table t) c of None \<Rightarrow> True
          | Some k \<Rightarrow> value_ok k (assign_row ?d ?sets r c)) ?sets) rs" for rs
    using ok by (simp add: find_new_column [OF assms(2)] assign_row_def list_all_iff)
  have upd: "journal_update = Update_Rows ''jobs''
      [(''jobs'', ''id''), (''jobs'', ''state''), (''jobs'', ''auto_apply''), (''events'', ''job_id''), (''events'', ''kind'')]
      ?sets ?cond"
    by (simp add: journal_update_def migration_3_def)
  show ?thesis
    unfolding upd sql_exec.simps sql_update_def Let_def
    using cells rows checked
    by (simp add: with_table_def sql_guards journaled_table_simps cols del: map_map)
qed

theorem migration_3_result:
  assumes "sql_table_of d ''jobs'' = Some t" "tbl_columns t = base_job_columns"
    and "sql_table_of d ''events'' = Some e" "{''job_id'', ''kind''} \<subseteq> set (column_names e)"
  shows "sql_exec_all migration_3 d =
    Inr (put_table ''jobs'' ((journaled_table t)\<lparr>tbl_rows := map (backfilled d) (tbl_rows t)\<rparr>) d)"
  using journal_columns_added [OF assms(1,2)] journal_updated [OF assms]
  by (subst migration_3_split) (simp add: sql_exec_all_append)

text \<open>The journal a migrated job must have: nothing of the old row is lost; a job that was not
  completed has an empty journal; a completed one is published, with the intent its setting tells
  and the outcome the event ledger tells.\<close>

definition journal_of :: "sql_db \<Rightarrow> sql_row \<Rightarrow> sql_row \<Rightarrow> bool" where
  "journal_of d r r' \<longleftrightarrow>
     (\<forall>c \<in> set job_columns. r' c = r c) \<and>
     r' ''accepted_commit'' = SText [] \<and> r' ''source_apply_reason'' = SText [] \<and>
     (r ''state'' \<noteq> SText ''completed'' \<longrightarrow>
        r' ''acceptance_phase'' = SText ''none'' \<and> r' ''source_apply_intent'' = SText ''not-requested'' \<and>
        r' ''source_apply_outcome'' = SText []) \<and>
     (r ''state'' = SText ''completed'' \<longrightarrow>
        r' ''acceptance_phase'' = SText ''published'' \<and>
        (r' ''source_apply_intent'' = SText ''requested'' \<longleftrightarrow> r ''auto_apply'' = SInt 1) \<and>
        (r' ''source_apply_outcome'' = SText ''applied'' \<longleftrightarrow> job_has_event d ''job.applied'' r) \<and>
        (r' ''source_apply_outcome'' = SText ''skipped'' \<longleftrightarrow>
           \<not> job_has_event d ''job.applied'' r \<and> job_has_event d ''job.apply_skipped'' r))"

lemma backfilled_journal: "journal_of d r (backfilled d r)"
  by (auto simp: journal_of_def backfilled_def journal_defaults_def backfill_intent_def
      backfill_outcome_def sql_eq_def job_columns_code)

lemma backfilled_row_ok:
  assumes "tbl_columns t = base_job_columns" "row_ok t r"
  shows "row_ok ((journaled_table t)\<lparr>tbl_rows := rs\<rparr>) (backfilled d r)"
proof -
  have old: "backfilled d r (col_name c) = r (col_name c)" if "c \<in> set base_job_columns" for c
    using backfilled_journal [of d r] that by (auto simp: journal_of_def job_columns_def)
  have new: "backfilled d r ''accepted_commit'' = SText []" "backfilled d r ''source_apply_reason'' = SText []"
    "value_ok acceptance_phase_column (backfilled d r ''acceptance_phase'')"
    "value_ok source_apply_intent_column (backfilled d r ''source_apply_intent'')"
    "value_ok source_apply_outcome_column (backfilled d r ''source_apply_outcome'')"
    by (auto simp: backfilled_def journal_defaults_def backfill_intent_def backfill_outcome_def)
  show ?thesis
    using assms old new by (simp add: row_ok_def journaled_table_simps list_all_iff del: new_job_values(2-4))
qed


definition demo_old_job :: "string \<Rightarrow> sql_row" where
  "demo_old_job s = (\<lambda>c. if c = ''auto_apply'' then SInt 1 else if c = ''stop_requested'' then SInt 0
     else if c = ''state'' then SText s else if c \<in> {''created_at'', ''updated_at''} then SReal 0
     else if c = ''id'' then SText ''j1'' else SText ''x'')"

definition demo_applied :: sql_row where
  "demo_applied = (\<lambda>c. if c = ''job_id'' then SText ''j1''
     else if c = ''kind'' then SText ''job.applied'' else SNull)"

definition demo_v3 :: sql_db where
  "demo_v3 = \<lparr>sdb_tables =
       [(''jobs'', (a_table base_job_columns [] [])\<lparr>tbl_rows := [demo_old_job ''completed'', demo_old_job ''failed'']\<rparr>),
        (''events'', events_table\<lparr>tbl_rows := [demo_applied]\<rparr>)], sdb_indexes = [], sdb_version = 3\<rparr>"


section \<open>The attempts of version 2\<close>

text \<open>A store of version 2 with arbitrary rows, and what the statements of \<open>migration_2\<close> make of it.\<close>

definition dossiers_v2_table :: sql_table where
  "dossiers_v2_table = a_table
     [key_column ''job_id'' ''TEXT'', int_column ''schema_version'', text_column ''sha256'',
      text_column ''content'', real_column ''created_at''] [] [job_reference]"

definition plain_index :: "string \<Rightarrow> string list \<Rightarrow> sql_index" where
  "plain_index n cols = \<lparr>ixd_table = n, ixd_columns = cols, ixd_unique = False\<rparr>"

definition with_rows :: "sql_table \<Rightarrow> sql_row list \<Rightarrow> sql_table" where
  "with_rows t rows = t\<lparr>tbl_rows := rows\<rparr>"

lemma with_rows_simps [simp]:
  "tbl_rows (with_rows t r) = r" "tbl_columns (with_rows t r) = tbl_columns t"
  "tbl_uniques (with_rows t r) = tbl_uniques t" "tbl_fkeys (with_rows t r) = tbl_fkeys t"
  "column_names (with_rows t r) = column_names t" "find_column (with_rows t r) = find_column t"
  "primary_key (with_rows t r) = primary_key t" "(with_rows t r)\<lparr>tbl_rows := s\<rparr> = with_rows t s"
  "row_ok (with_rows t r) = row_ok t" "select_row cols (with_rows t r) = select_row cols t" "rename_fkeys a b (with_rows t r) = with_rows (rename_fkeys a b t) r"
  by (simp_all add: with_rows_def column_names_def find_column_def primary_key_def fun_eq_iff row_ok_def
      rename_fkeys_def select_row_def)

definition plain_indexes :: "(string \<times> sql_index) list" where
  "plain_indexes =
     [(''idx_tasks_job_state'', plain_index ''tasks'' [''job_id'', ''state'']),
      (''idx_events_job_id'', plain_index ''events'' [''job_id'', ''id'']),
      (''idx_jobs_created'', plain_index ''jobs'' [''created_at''])]"

definition attempts_index :: "string \<times> sql_index" where
  "attempts_index = (''idx_attempts_job_task'', plain_index ''attempts'' [''job_id'', ''task_id'', ''number''])"

definition tasks_key :: "string \<times> sql_index" where
  "tasks_key = (''idx_tasks_job_id_id'',
     \<lparr>ixd_table = ''tasks'', ixd_columns = [''job_id'', ''id''], ixd_unique = True\<rparr>)"

definition store_of ::
  "sql_row list \<Rightarrow> sql_row list \<Rightarrow> (string \<times> sql_table) list \<Rightarrow> sql_row list \<Rightarrow>
   (string \<times> sql_table) list \<Rightarrow> (string \<times> sql_index) list \<Rightarrow> sql_db" where
  "store_of js ts ats es rest idx =
     \<lparr>sdb_tables = (''jobs'', with_rows (a_table base_job_columns [] []) js) #
        (''tasks'', with_rows tasks_table ts) # ats @ (''events'', with_rows events_table es) # rest,
      sdb_indexes = idx, sdb_version = 2\<rparr>"

definition store_v2 ::
  "sql_row list \<Rightarrow> sql_row list \<Rightarrow> sql_row list \<Rightarrow> sql_row list \<Rightarrow> sql_row list \<Rightarrow> sql_db" where
  "store_v2 js ts ats es ds =
     store_of js ts [(''attempts'', with_rows attempts_v2_table ats)] es
       [(''dossiers'', with_rows dossiers_v2_table ds)] (attempts_index # plain_indexes)"

definition published_dossiers_table :: sql_table where
  "published_dossiers_table = dossiers_v2_table\<lparr>tbl_columns := tbl_columns dossiers_v2_table @ [published_column]\<rparr>"

definition publish_row :: "sql_row list \<Rightarrow> sql_row \<Rightarrow> sql_row" where
  "publish_row js r = r(''published'' := SInt (if
     list_ex (\<lambda>j. sql_eq (j ''state'') (SText ''completed'') \<and> sql_eq (j ''stop_requested'') (SInt 0) \<and>
        sql_eq (r ''job_id'') (j ''id'')) js then 1 else 0))"

definition store_published ::
  "sql_row list \<Rightarrow> sql_row list \<Rightarrow> sql_row list \<Rightarrow> sql_row list \<Rightarrow> sql_row list \<Rightarrow>
   (string \<times> sql_table) list \<Rightarrow> sql_db" where
  "store_published js ts ats es ds new =
     store_of js ts [(''attempts'', with_rows attempts_v2_table ats)] es
       ((''dossiers'', with_rows published_dossiers_table (map (publish_row js) ds)) # new)
       (attempts_index # plain_indexes @ [tasks_key])"

definition store_v3 ::
  "sql_row list \<Rightarrow> sql_row list \<Rightarrow> sql_row list \<Rightarrow> sql_row list \<Rightarrow> sql_row list \<Rightarrow> sql_db" where
  "store_v3 js ts ats es ds =
     store_of js ts [] es
       [(''dossiers'', with_rows published_dossiers_table (map (publish_row js) ds)),
        (''attempts'', with_rows attempts_table ats)]
       (plain_indexes @ [tasks_key, attempts_index])"

lemma table_facts:
  "column_names tasks_table = [''id'', ''job_id'', ''seq'', ''logical_id'', ''title'', ''description'',
     ''state'', ''dependencies'', ''acceptance'', ''preferred_agent'', ''attempts'', ''branch'',
     ''worktree'', ''base_commit'', ''last_error'', ''result_summary'', ''created_at'', ''updated_at'']"
  "column_names attempts_table = attempt_names" "column_names attempts_v2_table = attempt_names"
  "column_names dossiers_v2_table = [''job_id'', ''schema_version'', ''sha256'', ''content'', ''created_at'']"
  "primary_key attempts_table = [''id'']" "primary_key tasks_table = [''id'']"
  "primary_key (a_table base_job_columns [] []) = [''id'']"
  "tbl_uniques tasks_table = [[''job_id'', ''logical_id'']]" "tbl_uniques attempts_table = [[''task_id'', ''number'']]"
  "tbl_fkeys attempts_table = [job_reference, cascade [''job_id'', ''task_id''] ''tasks'' [''job_id'', ''id'']]"
  "tbl_uniques (a_table base_job_columns [] []) = []"
  "tbl_rows attempts_table = []" "attempts_table\<lparr>tbl_rows := r\<rparr> = with_rows attempts_table r"
  by (simp_all add: tasks_table_def attempts_table_def attempts_v2_table_def dossiers_v2_table_def
      base_job_columns_def attempt_columns_def attempt_names_def column_names_def primary_key_def column_defs
      with_rows_def)


lemmas store_defs = store_v2_def store_published_def store_v3_def store_of_def sql_table_of_def
  plain_indexes_def attempts_index_def tasks_key_def plain_index_def

lemma published_facts [simp]:
  "col_name published_column = ''published''" "default_value published_column = SInt 0"
  "col_pk published_column = 0" "value_ok published_column (SInt 0)" "value_ok published_column (SInt 1)"
  by (simp_all add: published_column_def column_defs default_value_def value_ok_def)

lemma stage_1:
  assumes "unique_on [''job_id'', ''id''] ts"
  shows "sql_exec_all (take 4 migration_2) (store_v2 js ts ats es ds) =
    Inr ((store_v2 js ts ats es ds)\<lparr>sdb_indexes := attempts_index # plain_indexes @ [tasks_key]\<rparr>)"
  by (simp add: migration_2_def store_defs sql_create_table_def sql_create_index_def
    with_table_def sql_guards table_facts assms)

lemma stage_2:
  "sql_exec_all (take 2 (drop 4 migration_2))
     ((store_v2 js ts ats es ds)\<lparr>sdb_indexes := attempts_index # plain_indexes @ [tasks_key]\<rparr>) =
   Inr (store_published js ts ats es ds [])"
proof -
  let ?d = "(store_v2 js ts ats es ds)\<lparr>sdb_indexes := attempts_index # plain_indexes @ [tasks_key]\<rparr>"
  let ?t = "with_rows dossiers_v2_table ds"
  have t: "sql_table_of ?d ''dossiers'' = Some ?t" "sql_table_of ?d ''jobs'' = Some (with_rows (a_table base_job_columns [] []) js)"
    by (simp_all add: store_defs)
  have add: "sql_exec (Add_Column ''dossiers'' published_column) ?d =
      Inr (put_table ''dossiers'' (extended published_column ?t) ?d)"
    by (rule add_column_extends [OF t(1)]) (simp_all add: table_facts)
  have find: "find_column (extended published_column ?t) ''published'' = Some published_column"
    by (simp add: find_column_def dossiers_v2_table_def column_defs published_column_def)
  have jc: "column_names (a_table base_job_columns [] []) = job_columns"
    by (simp add: column_names_def a_table_def job_columns_def)
  have row: "(if dossier_published (put_table ''dossiers'' (extended published_column ?t) ?d) (r(''published'' := SInt 0))
        then assign_row D [(''published'', \<lambda>_ _. SInt 1)] (r(''published'' := SInt 0))
        else r(''published'' := SInt 0)) = publish_row js r" for r D
    by (auto simp: fun_eq_iff publish_row_def assign_row_def dossier_published_def rows_of_def t)
  have flag: "assign_row D [(''published'', \<lambda>_ _. SInt 1)] r ''published'' = SInt 1" for D r
    by (simp add: assign_row_def)
  have upd: "sql_exec (migration_2 ! 5) (put_table ''dossiers'' (extended published_column ?t) ?d) =
      Inr (put_table ''dossiers'' ((extended published_column ?t)\<lparr>tbl_rows := map (publish_row js) ds\<rparr>) ?d)"
    by (simp add: migration_2_def sql_update_def with_table_def t sql_guards has_column_def table_facts
        jc job_columns_code row find list_all_iff o_def flag)
  have res: "put_table ''dossiers'' ((extended published_column ?t)\<lparr>tbl_rows := map (publish_row js) ds\<rparr>) ?d =
      store_published js ts ats es ds []"
    by (simp add: put_table_def store_defs extended_def published_dossiers_table_def with_rows_def)
  have "take 2 (drop 4 migration_2) = [Add_Column ''dossiers'' published_column, migration_2 ! 5]"
    by (simp add: migration_2_def)
  then show ?thesis using add upd res by simp
qed


text \<open>What the old constraints of \<open>attempts\<close> guarantee, and the ownership the new one asks for.\<close>

definition attempts_valid :: "sql_row list \<Rightarrow> sql_row list \<Rightarrow> bool" where
  "attempts_valid js ats \<longleftrightarrow>
     list_all (row_ok attempts_table) ats \<and> unique_on [''id''] ats \<and> unique_on [''task_id'', ''number''] ats \<and>
     list_all (\<lambda>a. a ''job_id'' \<in> (\<lambda>j. j ''id'') ` set js) ats"

definition owned :: "sql_row list \<Rightarrow> sql_row \<Rightarrow> bool" where
  "owned ts a \<longleftrightarrow> (\<exists>t \<in> set ts. t ''job_id'' = a ''job_id'' \<and> t ''id'' = a ''task_id'')"

definition kept_attempt :: "sql_row \<Rightarrow> sql_row" where
  "kept_attempt = select_row attempt_names attempts_table"

lemma kept_attempt_column [simp]: "c \<in> set attempt_names \<Longrightarrow> kept_attempt a c = a c"
  by (simp add: kept_attempt_def select_row_def)

lemma attempt_column_names:
  "set (map col_name (tbl_columns attempts_table)) = set attempt_names"
  using table_facts(2) by (simp add: column_names_def)

lemma kept_row_ok [simp]: "row_ok attempts_table (kept_attempt a) = row_ok attempts_table a"
proof -
  have "kept_attempt a (col_name c) = a (col_name c)" if "c \<in> set (tbl_columns attempts_table)" for c
    using that attempt_column_names by (auto intro!: kept_attempt_column)
  then show ?thesis by (simp add: row_ok_def list_all_iff)
qed

lemma kept_unique: "set k \<subseteq> set attempt_names \<Longrightarrow> unique_on k (map kept_attempt ats) = unique_on k ats"
proof -
  assume "set k \<subseteq> set attempt_names"
  then have "row_key k (kept_attempt a) = row_key k a" for a by (auto simp: row_key_def)
  then show ?thesis by (simp add: unique_on_def o_def)
qed

lemma row_ok_not_null:
  assumes "row_ok attempts_table a"
  shows "a ''job_id'' \<noteq> SNull" "a ''task_id'' \<noteq> SNull"
  using assms by (simp_all add: row_ok_def attempts_table_def attempt_columns_def column_defs value_ok_def)

lemma stage_3:
  assumes "attempts_valid js ats"
  shows "sql_exec_all (take 2 (drop 6 migration_2)) (store_published js ts ats es ds []) =
    (if list_all (owned ts) ats
     then Inr (store_published js ts ats es ds [(''attempts_v3'', with_rows attempts_table (map kept_attempt ats))])
     else Inl (SqlConstraint ''FOREIGN KEY constraint failed''))"
proof -
  let ?new = "\<lambda>rows. (''attempts_v3'', with_rows attempts_table rows)"
  let ?d = "store_published js ts ats es ds [?new []]"
  let ?d' = "store_published js ts ats es ds [?new (map kept_attempt ats)]"
  have create: "sql_exec (migration_2 ! 6) (store_published js ts ats es ds []) = Inr ?d"
    by (simp add: migration_2_def sql_create_table_def store_defs sql_guards table_facts put_table_def)
  have t: "sql_table_of ?d ''attempts_v3'' = Some (with_rows attempts_table [])"
    "sql_table_of ?d ''attempts'' = Some (with_rows attempts_v2_table ats)"
    "sql_table_of ?d' ''jobs'' = Some (with_rows (a_table base_job_columns [] []) js)"
    "sql_table_of ?d' ''tasks'' = Some (with_rows tasks_table ts)"
    by (simp_all add: store_defs)
  have put: "put_table ''attempts_v3'' (with_rows attempts_table (map kept_attempt ats)) ?d = ?d'"
    by (simp add: put_table_def store_defs)
  have resolves: "list_all (fkey_resolves ?d) (tbl_fkeys attempts_table)"
    by (simp add: table_facts fkey_resolves_def store_defs unique_keys_def job_reference_def cascade_def insert_commute)
  have keys: "unique_keys ?d ''attempts_v3'' (with_rows attempts_table []) = [[''id''], [''task_id'', ''number'']]"
    by (simp add: unique_keys_def table_facts store_defs)
  have fk: "list_all (fkey_row_ok ?d' (kept_attempt a)) (tbl_fkeys attempts_table) \<longleftrightarrow> owned ts a" if "a \<in> set ats" for a
  proof -
    have ok: "row_ok attempts_table a" "a ''job_id'' \<in> (\<lambda>j. j ''id'') ` set js"
      using assms that by (auto simp: attempts_valid_def list_all_iff)
    have cells: "kept_attempt a ''job_id'' = a ''job_id''" "kept_attempt a ''task_id'' = a ''task_id''"
      by (simp_all add: attempt_names_def)
    have "fkey_row_ok ?d' (kept_attempt a) job_reference"
      using ok(2) by (auto simp: fkey_row_ok_def t row_key_def job_reference_def cascade_def cells)
    moreover have "fkey_row_ok ?d' (kept_attempt a) (cascade [''job_id'', ''task_id''] ''tasks'' [''job_id'', ''id'']) \<longleftrightarrow>
        owned ts a"
      using row_ok_not_null [OF ok(1)]
      by (auto simp: fkey_row_ok_def t row_key_def cascade_def cells owned_def intro!: rev_image_eqI)
    ultimately show ?thesis by (simp add: table_facts)
  qed
  have fks: "list_all (\<lambda>r. list_all (fkey_row_ok ?d' r) (tbl_fkeys attempts_table)) (map kept_attempt ats) \<longleftrightarrow>
      list_all (owned ts) ats"
    using fk by (simp add: list_all_iff)
  have valid: "list_all (row_ok attempts_table) (map kept_attempt ats)"
    "unique_on [''id''] (map kept_attempt ats)" "unique_on [''task_id'', ''number''] (map kept_attempt ats)"
    using assms by (auto simp: attempts_valid_def list_all_iff kept_unique attempt_names_def)
  have insert: "sql_exec (migration_2 ! 7) ?d =
      (if list_all (owned ts) ats then Inr ?d' else Inl (SqlConstraint ''FOREIGN KEY constraint failed''))"
  proof -
    have "migration_2 ! 7 = Insert_Select ''attempts_v3'' ''attempts'' attempt_names"
      by (simp add: migration_2_def)
    then show ?thesis
      by (simp add: sql_insert_select_def with_table_def t sql_guards table_facts(2,3) resolves Let_def
          kept_attempt_def [symmetric] put keys valid fks require_def)
  qed
  have "take 2 (drop 6 migration_2) = [migration_2 ! 6, migration_2 ! 7]"
    by (simp add: migration_2_def)
  then show ?thesis using create insert by simp
qed

lemma nothing_to_rename:
  "rename_fkeys ''attempts_v3'' n (a_table base_job_columns [] []) = a_table base_job_columns [] []"
  "rename_fkeys ''attempts_v3'' n tasks_table = tasks_table"
  "rename_fkeys ''attempts_v3'' n events_table = events_table"
  "rename_fkeys ''attempts_v3'' n attempts_table = attempts_table"
  "rename_fkeys ''attempts_v3'' n published_dossiers_table = published_dossiers_table"
  by (simp_all add: rename_fkeys_def a_table_def tasks_table_def events_table_def attempts_table_def
      published_dossiers_table_def dossiers_v2_table_def job_reference_def cascade_def)

lemma stage_4:
  "sql_exec_all (drop 8 migration_2)
     (store_published js ts ats es ds [(''attempts_v3'', with_rows attempts_table rows)]) =
   Inr (store_v3 js ts rows es ds)"
  by (simp add: migration_2_def sql_drop_table_def sql_rename_table_def sql_create_index_def with_table_def
      store_defs sql_guards table_facts nothing_to_rename attempt_names_def)


lemma unique_pair:
  assumes "unique_on [c] rows"
  shows "unique_on [b, c] rows"
  using assms
proof (induction rows)
  case (Cons r rows)
  then have IH: "unique_on [b, c] rows" by (auto simp: unique_on_def split: if_splits)
  have "row_key [b, c] r \<notin> row_key [b, c] ` {x \<in> set rows. SNull \<notin> set (row_key [b, c] x)}"
    if "SNull \<notin> set (row_key [b, c] r)"
    using Cons.prems that by (auto simp: unique_on_def row_key_def image_iff)
  with IH show ?case by (auto simp: unique_on_def image_iff)
qed (simp add: unique_on_def)

text \<open>C39: Migrating version 2: on a store whose rows satisfy the old constraints, the migration goes
  through exactly when every attempt belongs to a task of its own job. It then keeps every row of
  every table (an attempt in each of its columns), marks as published exactly the dossiers of the
  completed jobs that no stop was requested for, and leaves the new catalogue; otherwise it fails on
  the foreign key.\<close>

theorem attempts_migrate_iff_owned:
  assumes "attempts_valid js ats" and "unique_on [''id''] ts"
  shows "sql_exec_all migration_2 (store_v2 js ts ats es ds) =
    (if \<forall>a \<in> set ats. owned ts a then Inr (store_v3 js ts (map kept_attempt ats) es ds)
     else Inl (SqlConstraint ''FOREIGN KEY constraint failed''))"
proof -
  have parts: "migration_2 = take 4 migration_2 @ take 2 (drop 4 migration_2) @
      take 2 (drop 6 migration_2) @ drop 8 migration_2"
    by (simp add: migration_2_def)
  have owned: "list_all (owned ts) ats \<longleftrightarrow> (\<forall>a \<in> set ats. owned ts a)" by (simp add: list_all_iff)
  show ?thesis
    by (subst parts, simp only: sql_exec_all_append stage_1 [OF unique_pair [OF assms(2)]] rbind_simps
        stage_2 stage_3 [OF assms(1)] stage_4 owned split: if_split, auto)
qed

definition demo_row :: "string \<Rightarrow> string \<Rightarrow> sql_row" where
  "demo_row i j = (\<lambda>c. if c = ''id'' then SText i else if c = ''number'' then SInt 1
     else if c = ''started_at'' then SReal 0 else if c = ''task_id'' then SText ''t1'' else SText j)"

theorem attempts_migrate_iff_owned_witness:
  "sql_exec_all migration_2 (store_v2 [demo_row ''j1'' [], demo_row ''j2'' []] [demo_row ''t1'' ''j1'']
     [demo_row ''a1'' ''j1''] [] []) =
   Inr (store_v3 [demo_row ''j1'' [], demo_row ''j2'' []] [demo_row ''t1'' ''j1'']
     [kept_attempt (demo_row ''a1'' ''j1'')] [] []) \<and>
   sql_exec_all migration_2 (store_v2 [demo_row ''j1'' [], demo_row ''j2'' []] [demo_row ''t1'' ''j1'']
     [demo_row ''a1'' ''j2''] [] []) = Inl (SqlConstraint ''FOREIGN KEY constraint failed'')"
proof -
  have v: "attempts_valid [demo_row ''j1'' [], demo_row ''j2'' []] [demo_row ''a1'' j]"
    if "j \<in> {''j1'', ''j2''}" for j
    using that by (auto simp: attempts_valid_def row_ok_def value_ok_def attempts_table_def
        attempt_columns_def column_defs unique_on_def demo_row_def)
  have u: "unique_on [''id''] [demo_row ''t1'' ''j1'']" by (simp add: unique_on_def)
  have o: "owned [demo_row ''t1'' ''j1''] (demo_row ''a1'' ''j1'')"
    "\<not> owned [demo_row ''t1'' ''j1''] (demo_row ''a1'' ''j2'')"
    by (simp_all add: owned_def demo_row_def)
  show ?thesis
    using attempts_migrate_iff_owned [OF v [of "''j1''"] u] attempts_migrate_iff_owned [OF v [of "''j2''"] u] o
    by simp
qed

end
