(* ===== verification/Yolo_Agent_Run.thy ===== *)
theory Yolo_Agent_Run
  imports Yolo_Agents Yolo_Process
begin

text \<open>
  A whole run of an agent: \<open>CommandAgent.run\<close> of \<open>src/omarchy_yolo/agents/base.py\<close>, which puts the
  process of theory \<open>Yolo_Agents\<close> through the runner of theory \<open>Yolo_Process\<close>.
\<close>

definition agent_run ::
  "host \<Rightarrow> sandbox_config \<Rightarrow> resource_policy \<Rightarrow> process_limits \<Rightarrow> (bytes \<Rightarrow> string) \<Rightarrow> (string \<Rightarrow> payload option) \<Rightarrow>
   ((string \<times> string) list \<Rightarrow> string list \<Rightarrow> process_answers) \<Rightarrow> string \<Rightarrow> agent_config \<Rightarrow> code_points \<Rightarrow> path \<Rightarrow> string \<Rightarrow>
   (string \<times> string) list \<Rightarrow> (exc + agent_result) \<times> log_file option" where
  "agent_run h sb policy lims decode loads exec name ac prompt cwd profile extra_env =
     (case agent_process h sb name ac prompt cwd profile extra_env of
        Inl e \<Rightarrow> (Inl (Raised e), None)
      | Inr (argv, env, bounded) \<Rightarrow>
          (case run_process (h_which h) policy lims decode (exec env) argv (Some (map char_of bounded)) of
             (Inl e, lf) \<Rightarrow> (Inl e, Some lf)
           | (Inr raw, lf) \<Rightarrow> (Inr (raw\<lparr>ar_stdout := normalize_stdout loads name (ar_stdout raw)\<rparr>), Some lf)))"

text \<open>An agent that is not available or not fit for the profile starts no process.\<close>

lemma unfit_agent_not_started:
  "\<not> agent_available h ac \<or> \<not> supports_profile h name ac profile \<Longrightarrow>
   \<exists>e. agent_run h sb policy lims decode loads exec name ac prompt cwd profile extra_env = (Inl (Raised (YoloError e)), None)"
  by (auto simp: agent_run_def agent_process_def)

lemma dict_set_lookup: "map_of (dict_set key v d) key = Some v"
proof (induction d)
  case (Cons kv d)
  have "map_of (map (\<lambda>(k, x). if k = key then (k, v) else (k, x)) d) key = Some v" if "key \<in> fst ` set d"
    using that by (induction d) auto
  moreover have "map_of d key = None" if "key \<notin> fst ` set d"
    using that by (simp add: map_of_eq_None_iff)
  ultimately show ?case by (cases kv) (auto simp: dict_set_def map_add_def)
qed (simp add: dict_set_def)

text \<open>What a caller adds to the environment does not override the policy of the profile.\<close>

lemma policy_environment_wins:
  assumes "agent_process h sb name ac prompt cwd profile extra_env = Inr (argv, env, bounded)"
    and "(key, v) \<in> set (environment_for_profile name profile)"
  shows "map_of env key = Some v"
  using assms
  by (auto simp: agent_process_def environment_for_profile_def dict_update_def dict_set_lookup rbind_Inr_iff
      split: if_splits)

end
