(* ===== verification/Yolo_Dossier.thy ===== *)
theory Yolo_Dossier
  imports Yolo_DB_Properties Yolo_Agents "HOL-Library.Multiset"
begin

text \<open>
  The execution dossier (\<open>src/omarchy_yolo/provenance.py\<close>): the digest of the event ledger, the
  compact task and attempt records, the effective configuration, and the bounded canonical JSON text
  with its SHA-256. The hash (\<open>hashlib\<close>, on the text), the text of a float and the resolution of a
  path are parameters; the contracts of the registry are those of \<open>Yolo_Agents\<close>.
\<close>

section \<open>The event ledger\<close>

definition DOSSIER_BOUNDARY_EVENT :: string where
  "DOSSIER_BOUNDARY_EVENT = ''job.dossier_created''"

definition DOSSIER_INPUT_STOP_EVENTS :: "string list" where
  "DOSSIER_INPUT_STOP_EVENTS = [''job.accepted'', DOSSIER_BOUNDARY_EVENT]"

definition MAX_DOSSIER_BYTES :: nat where
  "MAX_DOSSIER_BYTES = 512000"

definition ascii_text :: "code_points \<Rightarrow> string" where
  "ascii_text = map char_of"

text \<open>An event as \<open>provenance_snapshot\<close> reports it.\<close>

definition snapshot_event_json :: "(timestamp \<Rightarrow> code_points) \<Rightarrow> event_row \<Rightarrow> json" where
  "snapshot_event_json fl e = jobj
     [(''id'', JInt (e_id e)), (''task_id'', case e_task_id e of None \<Rightarrow> JNull | Some t \<Rightarrow> jstr t),
      (''kind'', jstr (e_kind e)), (''payload'', e_payload e), (''created_at'', JFloat (fl (e_created_at e)))]"

record ledger_digest =
  ld_hashed :: code_points
  ld_kinds :: "(string \<times> int) list"
  ld_count :: int
  ld_last :: int

fun count_kind :: "string \<Rightarrow> (string \<times> int) list \<Rightarrow> (string \<times> int) list" where
  "count_kind k [] = [(k, 1)]"
| "count_kind k ((x, n) # kinds) = (if x = k then (x, n + 1) # kinds else (x, n) # count_kind k kinds)"

text \<open>The loop of \<open>_event_digest\<close>; the hash is taken over what was fed to it.\<close>

fun event_digest :: "(timestamp \<Rightarrow> code_points) \<Rightarrow> event_row list \<Rightarrow> ledger_digest \<Rightarrow> ledger_digest" where
  "event_digest fl [] ld = ld"
| "event_digest fl (e # es) ld =
     (if e_kind e \<in> set DOSSIER_INPUT_STOP_EVENTS then ld
      else event_digest fl es
        \<lparr>ld_hashed = ld_hashed ld @ canonical_json (snapshot_event_json fl e) @ [10],
         ld_kinds = count_kind (e_kind e) (ld_kinds ld),
         ld_count = ld_count ld + 1, ld_last = e_id e\<rparr>)"

definition empty_digest :: ledger_digest where
  "empty_digest = \<lparr>ld_hashed = [], ld_kinds = [], ld_count = 0, ld_last = 0\<rparr>"

section \<open>The parts of a dossier\<close>

definition dossier_marker :: code_points where
  "dossier_marker = cps ''...[truncated]...''"

definition summary_fingerprint :: "(string \<Rightarrow> string) \<Rightarrow> string \<Rightarrow> json" where
  "summary_fingerprint sha value = jobj
     [(''sha256'', jstr (sha value)), (''preview'', JStr (truncate_utf8 (cps value) 512 dossier_marker))]"

definition jstrs :: "string list \<Rightarrow> json" where
  "jstrs xs = JArr (map jstr xs)"

definition jopt :: "('a \<Rightarrow> json) \<Rightarrow> 'a option \<Rightarrow> json" where
  "jopt f v = (case v of None \<Rightarrow> JNull | Some x \<Rightarrow> f x)"

definition trust_detail :: "config \<Rightarrow> string" where
  "trust_detail c =
     (if trust_posture c = ''hostile-repo''
      then ''bwrap; masked HOME/runtime; filtered env; gate/review network off; repository commands neutralized''
      else if trust_posture c = ''trusted-local''
      then ''trusted repositories only; native execution is not a hostile-code security boundary''
      else ''custom isolation policy; inspect sandbox/network/Git settings before running untrusted code'')"

definition resource_contract :: "resource_policy \<Rightarrow> json" where
  "resource_contract p = jobj
     [(''backend'', jstr (rp_backend p)), (''enabled'', JBool (rp_enabled p)),
      (''memory_max_mib'', JInt (rp_memory_max_mib p)), (''memory_high_mib'', JInt (rp_memory_high_mib p)),
      (''tasks_max'', JInt (rp_tasks_max p)), (''cpu_quota_percent'', JInt (rp_cpu_quota_percent p)),
      (''io_weight'', JInt (rp_io_weight p))]"

definition effective_config :: "config \<Rightarrow> json" where
  "effective_config c =
     (let e = cf_engine c; g = cf_git c; sb = cf_sandbox c in jobj
       [(''safety'', jobj
          [(''preset'', jstr (cf_safety_preset c)), (''effective_posture'', jstr (trust_posture c)),
           (''detail'', jstr (trust_detail c))]),
        (''engine'', jobj
          [(''max_parallel'', JInt (max_parallel e)),
           (''max_global_workers'', JInt (max_global_workers e)),
           (''max_attempts'', JInt (max_attempts e)),
           (''max_final_cycles'', JInt (max_final_cycles e)),
           (''max_tasks'', JInt (max_tasks e)),
           (''agent_timeout_seconds'', JInt (agent_timeout_seconds e)),
           (''gate_timeout_seconds'', JInt (gate_timeout_seconds e)),
           (''planner_agent'', jstr (planner_agent e)),
           (''reviewer_agent'', jstr (reviewer_agent e)),
           (''integrator_agent'', jstr (integrator_agent e)),
           (''worker_agents'', jstrs (worker_agents e)),
           (''auto_apply'', JBool (auto_apply e)),
           (''cleanup_worktrees'', JBool (cleanup_worktrees e)),
           (''execution_profile'', jstr (execution_profile e)),
           (''final_review_chunk_bytes'', JInt (final_review_chunk_bytes e)),
           (''final_review_max_files'', JInt (final_review_max_files e)),
           (''final_review_allow_binary'', JBool (final_review_allow_binary e))]),
        (''git'', jobj
          [(''require_clean_repo'', JBool (require_clean_repo g)),
           (''branch_prefix'', jstr (branch_prefix g)),
           (''command_timeout_seconds'', JInt (command_timeout_seconds g)),
           (''allow_repository_commands'', JBool (allow_repository_commands g))]),
        (''gates'', jobj
          [(''commands'', jstrs (gate_commands (cf_gates c))),
           (''final_commands'', jstrs (final_commands (cf_gates c)))]),
        (''sandbox'', jobj
          [(''backend'', jstr (sb_backend sb)),
           (''network'', JBool (sb_network sb)),
           (''review_network'', jopt JBool (sb_review_network sb)),
           (''gate_network'', jopt JBool (sb_gate_network sb)),
           (''read_only_home'', JBool (sb_read_only_home sb)),
           (''writable_home_paths'', jstrs (sb_writable_home_paths sb)),
           (''hostile_repo_mode'', JBool (sb_hostile_repo_mode sb)),
           (''gate_env_allowlist'', jstrs (sb_gate_env_allowlist sb)),
           (''agent_env_allowlist'', jstrs (sb_agent_env_allowlist sb))]),
        (''resources'', resource_contract (cf_resources c))])"

definition compact_task :: "(string \<Rightarrow> string) \<Rightarrow> task_row \<Rightarrow> json" where
  "compact_task sha t = jobj
     [(''id'', jstr (t_id t)), (''seq'', JInt (t_seq t)), (''logical_id'', jstr (t_logical_id t)),
      (''title'', jstr (t_title t)), (''state'', jstr (task_state_value (t_state t))),
      (''dependencies'', jstrs (t_dependencies t)), (''acceptance'', jstrs (t_acceptance t)),
      (''preferred_agent'', jopt jstr (t_preferred_agent t)), (''attempts'', JInt (t_attempts t)),
      (''branch'', jstr (t_branch t)), (''base_commit'', jstr (t_base_commit t)),
      (''result_summary'', summary_fingerprint sha (t_result_summary t))]"

definition compact_attempt ::
  "(string \<Rightarrow> string) \<Rightarrow> (timestamp \<Rightarrow> code_points) \<Rightarrow> attempt_row \<Rightarrow> json" where
  "compact_attempt sha fl a = jobj
     [(''id'', jstr (a_id a)), (''task_id'', jstr (a_task_id a)), (''number'', JInt (a_number a)),
      (''agent'', jstr (a_agent a)), (''state'', jstr (attempt_state_value (a_state a))),
      (''branch'', jstr (a_branch a)), (''started_at'', JFloat (fl (a_started_at a))),
      (''finished_at'', jopt (\<lambda>t. JFloat (fl t)) (a_finished_at a)),
      (''returncode'', jopt JInt (a_returncode a)), (''summary'', summary_fingerprint sha (a_summary a))]"

definition agent_fingerprint :: "(string \<Rightarrow> string) \<Rightarrow> agent_config \<Rightarrow> json" where
  "agent_fingerprint sha ac = jobj
     [(''command_sha256'', jstr (sha (ascii_text (canonical_json (jstrs (ac_command ac)))))),
      (''review_command_sha256'', jstr (sha (ascii_text (canonical_json (jstrs (ac_review_command ac)))))),
      (''roles'', jstrs (ac_roles ac))]"

definition contract_json :: "agent_contract \<Rightarrow> json" where
  "contract_json ct = jobj
     [(''roles'', jstrs (ct_roles ct)), (''executable'', jstr (ct_executable ct)),
      (''review_executable'', jstr (ct_review_executable ct)),
      (''review_capability'', jstr (ct_review_capability ct))]"

section \<open>The dossier\<close>

text \<open>What the dossier of a job is made of besides the store: the hash, float texts and paths, the
  configuration and the registry.\<close>

record dossier_input =
  di_sha :: "string \<Rightarrow> string"
  di_float :: "timestamp \<Rightarrow> code_points"
  di_resolve :: "string \<Rightarrow> string"
  di_config :: config
  di_registry :: "(agent_view \<times> (py_error + agent_contract) option) list"

definition dossier_job ::
  "dossier_input \<Rightarrow> job_row \<Rightarrow> string \<Rightarrow> string \<Rightarrow> string \<Rightarrow> json" where
  "dossier_job di job final_commit final_summary source_apply_intent = jobj
     [(''id'', jstr (j_id job)), (''repo'', jstr (di_resolve di (j_repo job))),
      (''goal_sha256'', jstr (di_sha di (j_goal job))),
      (''goal_preview'', JStr (truncate_utf8 (cps (j_goal job)) 2000 dossier_marker)),
      (''base_branch'', jstr (j_base_branch job)), (''base_commit'', jstr (j_base_commit job)),
      (''integration_branch'', jstr (j_integration_branch job)), (''final_commit'', jstr final_commit),
      (''auto_apply'', JBool (j_auto_apply job)), (''source_apply_intent'', jstr source_apply_intent),
      (''accepted_state'', jstr (job_state_value JobCompleted)),
      (''created_at'', JFloat (di_float di (j_created_at job))),
      (''accepted_summary'', summary_fingerprint (di_sha di) final_summary)]"

definition dossier_ledger :: "dossier_input \<Rightarrow> event_row list \<Rightarrow> json" where
  "dossier_ledger di es =
     (let ld = event_digest (di_float di) es empty_digest in jobj
       [(''count'', JInt (ld_count ld)), (''sha256'', jstr (di_sha di (ascii_text (ld_hashed ld)))),
        (''kinds'', jobj (map (\<lambda>(k, n). (k, JInt n)) (ld_kinds ld))),
        (''last_event_id'', JInt (ld_last ld)), (''boundary_event'', jstr DOSSIER_BOUNDARY_EVENT)])"

definition dossier_payload ::
  "dossier_input \<Rightarrow> (string \<times> agent_contract) list \<Rightarrow> job_row \<Rightarrow> provenance \<Rightarrow> string \<Rightarrow> string \<Rightarrow> string \<Rightarrow> json" where
  "dossier_payload di contracts job snapshot final_commit final_summary source_apply_intent = jobj
     [(''dossier_schema_version'', JInt 1), (''omarchy_yolo_version'', jstr ''1.4.2''),
      (''job'', dossier_job di job final_commit final_summary source_apply_intent),
      (''effective_config'', effective_config (di_config di)),
      (''agent_contracts'', jobj (map (\<lambda>(n, ct). (n, contract_json ct)) contracts)),
      (''agent_config_fingerprints'',
        jobj (map (\<lambda>(n, ac). (n, agent_fingerprint (di_sha di) ac)) (cf_agents (di_config di)))),
      (''tasks'', JArr (map (compact_task (di_sha di)) (pv_tasks snapshot))),
      (''attempts'', JArr (map (compact_attempt (di_sha di) (di_float di)) (pv_attempts snapshot))),
      (''event_ledger'', dossier_ledger di (pv_events snapshot))]"

text \<open>The text and its SHA-256. The tasks are validated as those of a completed job first.\<close>

definition build_dossier ::
  "dossier_input \<Rightarrow> string \<Rightarrow> string \<Rightarrow> string \<Rightarrow> string \<Rightarrow> db \<Rightarrow> py_error + string \<times> string" where
  "build_dossier di job_id final_commit final_summary source_apply_intent db =
     rbind (lookup_job job_id db) (\<lambda>job.
     let snapshot = provenance_snapshot job_id db in
     rbind (validate_job_snapshot JobCompleted (map t_state (pv_tasks snapshot)) False [] None) (\<lambda>_.
     rbind (registry_contracts (di_registry di)) (\<lambda>contracts.
     let payload = canonical_json
           (dossier_payload di contracts job snapshot final_commit final_summary source_apply_intent);
         content = ascii_text payload
     in rbind (require (utf8_length payload \<le> MAX_DOSSIER_BYTES)
          (YoloError ''execution dossier exceeds the bounded serialization limit'')) (\<lambda>_.
        Inr (content, di_sha di content)))))"

section \<open>A dossier can be built again\<close>

lemma event_digest_stops:
  "e_kind e \<in> set DOSSIER_INPUT_STOP_EVENTS \<Longrightarrow>
   event_digest fl (xs @ e # ys) ld = event_digest fl xs ld"
  by (induction xs arbitrary: ld) auto

lemma sorted_ids: "sorted_wrt (<) (map e_id es) \<Longrightarrow> sort_key e_id (filter P es) = filter P es"
  by (intro sort_key_id_if_sorted)
    (auto simp: sorted_wrt_map intro: sorted_wrt_filter elim!: sorted_wrt_mono_rel [rotated])

lemma snapshot_events:
  "ledger_ok db \<Longrightarrow> pv_events (provenance_snapshot jid db) = filter (\<lambda>e. e_job_id e = jid) (db_events db)"
  by (simp add: provenance_snapshot_def ledger_ok_def sorted_ids)

lemma ledger_of_extension:
  assumes "ledger_ok db" "ledger_ok db'" and "db_events db' = db_events db @ e # es"
    and "e_job_id e = jid" "e_kind e = ''job.accepted''"
  shows "dossier_ledger di (pv_events (provenance_snapshot jid db')) =
    dossier_ledger di (pv_events (provenance_snapshot jid db))"
  using assms event_digest_stops [of e "di_float di"]
  by (simp add: snapshot_events dossier_ledger_def DOSSIER_INPUT_STOP_EVENTS_def)

text \<open>The columns of a job that its dossier quotes.\<close>

definition dossier_columns :: "job_row \<Rightarrow> job_row \<Rightarrow> bool" where
  "dossier_columns j j' \<longleftrightarrow>
     j_id j' = j_id j \<and> j_repo j' = j_repo j \<and> j_goal j' = j_goal j \<and>
     j_base_branch j' = j_base_branch j \<and> j_base_commit j' = j_base_commit j \<and>
     j_integration_branch j' = j_integration_branch j \<and> j_auto_apply j' = j_auto_apply j \<and>
     j_created_at j' = j_created_at j"

lemma build_dossier_cong:
  assumes "find_job jid (db_jobs db) = Some j" "find_job jid (db_jobs db') = Some j'"
    and "dossier_columns j j'"
    and "filter (\<lambda>t. t_job_id t = jid) (db_tasks db') = filter (\<lambda>t. t_job_id t = jid) (db_tasks db)"
    and "filter (\<lambda>a. a_job_id a = jid) (db_attempts db') = filter (\<lambda>a. a_job_id a = jid) (db_attempts db)"
    and "dossier_ledger di (pv_events (provenance_snapshot jid db')) =
      dossier_ledger di (pv_events (provenance_snapshot jid db))"
  shows "build_dossier di jid c s i db' = build_dossier di jid c s i db"
proof -
  have rows: "pv_tasks (provenance_snapshot jid db') = pv_tasks (provenance_snapshot jid db)"
    "pv_attempts (provenance_snapshot jid db') = pv_attempts (provenance_snapshot jid db)"
    using assms(4,5) by (simp_all add: provenance_snapshot_def)
  have job: "dossier_job di j' c s i = dossier_job di j c s i"
    using assms(3) by (simp add: dossier_columns_def dossier_job_def)
  have "dossier_payload di ct j' (provenance_snapshot jid db') c s i =
      dossier_payload di ct j (provenance_snapshot jid db) c s i" for ct
    by (simp add: dossier_payload_def rows job assms(6))
  then show ?thesis
    by (simp add: build_dossier_def lookup_job_def assms(1,2) row_or_def rows Let_def)
qed

lemma find_staged_same: "find_dossier (d_job_id r) (staged r ds) = Some r"
proof (cases "d_job_id r \<in> d_job_id ` set ds")
  case True
  then have "find_dossier (d_job_id r) (update_where (\<lambda>d. d_job_id d = d_job_id r) (\<lambda>_. r) ds) = Some r"
    by (induction ds) (auto simp: find_dossier_def)
  with True show ?thesis by (simp add: staged_def)
next
  case False
  then have "find_dossier (d_job_id r) ds = None" by (simp add: dossier_tab.select_None_iff)
  with False show ?thesis by (simp add: staged_def dossier_tab.select_append find_dossier_def [of _ "[r]"])
qed

lemma built_dossier:
  assumes "build_dossier di jid c s i db = Inr (content, digest)"
  shows "digest = di_sha di content"
    "\<exists>payload. content = ascii_text (canonical_json payload) \<and> utf8_length (canonical_json payload) \<le> MAX_DOSSIER_BYTES"
    "\<forall>t \<in> set (db_tasks db). t_job_id t = jid \<longrightarrow> t_state t = TaskCompleted"
proof -
  have tasks: "list_all (\<lambda>t. t_state t = TaskCompleted) (pv_tasks (provenance_snapshot jid db))"
    using assms by (auto simp: build_dossier_def Let_def rbind_Inr_iff validate_job_snapshot_def
        list_all_iff list_ex_iff)
  then show "\<forall>t \<in> set (db_tasks db). t_job_id t = jid \<longrightarrow> t_state t = TaskCompleted"
    by (auto simp: provenance_snapshot_def list_all_iff)
  show "digest = di_sha di content"
    "\<exists>payload. content = ascii_text (canonical_json payload) \<and> utf8_length (canonical_json payload) \<le> MAX_DOSSIER_BYTES"
    using assms by (auto simp: build_dossier_def Let_def rbind_Inr_iff)
qed

text \<open>C40: The dossier that acceptance journals can be built again, byte for byte, from every later store:
  whatever transactions follow, on this job or on others, the stored text and digest are those of the
  same call on the later store, and the digest is the hash of the text, of a bounded size. The tasks,
  attempts and job columns are frozen, and the ledger digest stops at the acceptance event.\<close>

theorem dossier_reproducible:
  assumes "(db_step sha)\<^sup>*\<^sup>* empty_db db"
    and "build_dossier di jid commit summary intent db = Inr (content, digest)"
    and "prepare_accepted_job sha now jid commit summary intent v digest content db = Inr db1" "db1 \<noteq> db"
    and "(db_step sha)\<^sup>*\<^sup>* db1 db2"
  shows "\<exists>d. get_staged_dossier jid db2 = Some d \<and>
    build_dossier di jid commit summary intent db2 = Inr (d_content d, d_sha256 d) \<and>
    d_content d = content \<and> d_sha256 d = digest \<and> digest = di_sha di content"
proof -
  have reach1: "(db_step sha)\<^sup>*\<^sup>* empty_db db1"
    using assms(1) step_prepare [OF assms(3)] by (rule rtranclp.rtrancl_into_rtrancl)
  have inv: "db_inv sha db" "db_inv sha db1" "db_inv sha db2"
    using store.reach_inv [OF assms(1)] store.reach_inv [OF reach1]
      store.run_inv [OF assms(5) store.reach_inv [OF reach1]] by blast+
  have kept: "kept db1 db2" by (rule store.reach_hist [OF reach1 assms(5)])
  let ?f = "\<lambda>job k r. r\<lparr>j_accepted_commit := commit, j_acceptance_phase := PhaseAccepted,
      j_source_apply_intent := k, j_source_apply_outcome := OutcomeUnset, j_source_apply_reason := '''',
      j_final_summary := summary, j_error := '''', j_stop_requested := False, j_updated_at := now\<rparr>"
  obtain job k p where e: "find_job jid (db_jobs db) = Some job" "j_acceptance_phase job = PhaseNone"
    "db1 = db\<lparr>db_dossiers := staged (staged_row now jid v digest content) (db_dossiers db),
       db_jobs := update_where (\<lambda>r. j_id r = jid \<and> j_acceptance_phase r = PhaseNone \<and> j_state r = j_state job)
         (?f job k) (db_jobs db),
       db_events := db_events db @ [\<lparr>e_id = db_last_event_id db + 1, e_job_id = jid, e_task_id = None,
          e_kind = ''job.accepted'', e_payload = p, e_created_at = now\<rparr>],
       db_last_event_id := db_last_event_id db + 1\<rparr>"
    using prepare_accepted_job_effect [OF assms(3,4)] by blast
  have jid: "j_id job = jid" using e(1) by (auto dest: job_tab.select_SomeD)
  have j1: "find_job jid (db_jobs db1) = Some (?f job k job)"
    using e(1,2) jid by (simp add: e(3) job_tab.select_update)
  obtain j2 where j2: "find_job jid (db_jobs db2) = Some j2" "job_kept (?f job k job) j2"
    using kept j1 unfolding kept_def evolves_def by blast
  have core: "dossier_columns job j2" using j2(2) by (simp add: job_kept_def dossier_columns_def)
  have in1: "?f job k job \<in> set (db_jobs db1)" using j1 by (auto dest: job_tab.select_SomeD)
  have graph: "filter (\<lambda>t. t_job_id t = jid) (db_tasks db2) = filter (\<lambda>t. t_job_id t = jid) (db_tasks db1)"
    "filter (\<lambda>a. a_job_id a = jid) (db_attempts db2) = filter (\<lambda>a. a_job_id a = jid) (db_attempts db1)"
    using kept in1 jid by (auto simp: kept_def graph_kept_def)
  have "find_dossier jid (db_dossiers db1) = Some (staged_row now jid v digest content)"
    using find_staged_same [of "staged_row now jid v digest content"] by (simp add: e(3) staged_row_def)
  then obtain d where d: "find_dossier jid (db_dossiers db2) = Some d"
    "dossier_kept (staged_row now jid v digest content) d"
    using kept in1 jid unfolding kept_def graph_kept_def by fastforce
  obtain es where es: "db_events db2 = db_events db1 @ es" using kept by (auto simp: kept_def)
  have ledger: "dossier_ledger di (pv_events (provenance_snapshot jid db2)) =
      dossier_ledger di (pv_events (provenance_snapshot jid db))"
    by (rule ledger_of_extension) (use inv es in \<open>auto simp: db_inv_def e(3)\<close>)
  have "build_dossier di jid commit summary intent db2 = build_dossier di jid commit summary intent db"
    by (rule build_dossier_cong [OF e(1) j2(1) core _ _ ledger]) (simp_all add: graph e(3))
  then show ?thesis
    using d assms(2) built_dossier(1) [OF assms(2)]
    by (auto simp: get_staged_dossier_def dossier_kept_def staged_row_def)
qed

section \<open>A concrete dossier\<close>

definition demo_dossier_config :: config where
  "demo_dossier_config = \<lparr>cf_state_dir = [], cf_config_path = [],
     cf_engine = \<lparr>max_parallel = 1, max_global_workers = 1, max_attempts = 1, max_final_cycles = 1,
       max_tasks = 1, agent_timeout_seconds = 1, gate_timeout_seconds = 1, planner_agent = [],
       reviewer_agent = [], integrator_agent = [], worker_agents = [], auto_apply = True,
       cleanup_worktrees = True, execution_profile = [], final_review_chunk_bytes = 1,
       final_review_max_files = 1, final_review_allow_binary = False\<rparr>,
     cf_git = \<lparr>require_clean_repo = True, branch_prefix = [], commit_name = [], commit_email = [],
       command_timeout_seconds = 1, allow_repository_commands = True\<rparr>,
     cf_gates = \<lparr>gate_commands = [], final_commands = []\<rparr>,
     cf_sandbox = \<lparr>sb_backend = ''native'', sb_network = True, sb_review_network = None,
       sb_gate_network = None, sb_read_only_home = False, sb_writable_home_paths = [],
       sb_hostile_repo_mode = False, sb_gate_env_allowlist = [], sb_agent_env_allowlist = []\<rparr>,
     cf_resources = \<lparr>rp_backend = ''none'', rp_memory_max_mib = 0, rp_memory_high_mib = 0,
       rp_tasks_max = 0, rp_cpu_quota_percent = 0, rp_io_weight = 0\<rparr>,
     cf_agents = [], cf_safety_preset = ''custom''\<rparr>"

definition demo_dossier_input :: dossier_input where
  "demo_dossier_input = \<lparr>di_sha = demo_sha, di_float = (\<lambda>_. [48]), di_resolve = id,
     di_config = demo_dossier_config, di_registry = []\<rparr>"

text \<open>A bound on the size of a JSON text that needs no text: an escaped character takes at most
  twelve bytes.\<close>

fun json_bound :: "json \<Rightarrow> nat" where
  "json_bound JNull = 4"
| "json_bound (JBool b) = 5"
| "json_bound (JInt i) = length (int_text i)"
| "json_bound (JFloat r) = length r"
| "json_bound (JStr s) = 12 * length s + 2"
| "json_bound (JArr vs) = sum_list (map (\<lambda>v. json_bound v + 1) vs) + 2"
| "json_bound (JObj kvs) = sum_list (map (\<lambda>(k, v). 12 * length k + json_bound v + 4) kvs) + 2"

lemma length_join_with: "length (join_with (cps '','') xs) \<le> sum_list (map (\<lambda>x. length x + 1) xs)"
  by (induction xs rule: induct_list012) (simp_all add: cps_def)

lemma length_json_quote: "length (json_quote ea s) \<le> 12 * length s + 2"
proof -
  have "length (json_escape_char ea c) \<le> 12" for c
    by (simp add: json_escape_char_def json_u_escape_def)
  then have "sum_list (map (length \<circ> json_escape_char ea) s) \<le> sum_list (map (\<lambda>_. 12) s)"
    by (intro sum_list_mono) simp
  then show ?thesis by (simp add: json_quote_def length_concat sum_list_triv)
qed

lemma sum_list_sorted: "sum_list (map f (sort_key k xs)) = sum_list (map f xs)" for f :: "'a \<Rightarrow> nat"
  by (metis mset_map mset_sort sum_mset_sum_list)

lemma length_json_text: "length (json_text ea v) \<le> json_bound v"
proof (induction v)
  case (JStr s)
  then show ?case using length_json_quote by simp
next
  case (JArr vs)
  have "sum_list (map (\<lambda>x. length x + 1) (map (json_text ea) vs)) \<le> sum_list (map (\<lambda>v. json_bound v + 1) vs)"
    using JArr by (simp add: o_def) (intro sum_list_mono, auto)
  then show ?case using length_join_with [of "map (json_text ea) vs"] by (simp add: cps_def)
next
  case (JObj kvs)
  let ?kts = "map (\<lambda>(k, v). (k, json_text ea v)) kvs"
  let ?f = "\<lambda>(k, t). json_quote ea k @ cps '':'' @ t"
  have "sum_list (map (\<lambda>x. length x + 1) (map ?f (sort_key fst ?kts))) =
      sum_list (map (\<lambda>x. length x + 1) (map ?f ?kts))"
    by (simp only: map_map sum_list_sorted o_assoc)
  also have "\<dots> \<le> sum_list (map (\<lambda>(k, v). 12 * length k + json_bound v + 4) kvs)"
    unfolding map_map
  proof (rule sum_list_mono)
    fix kv assume "kv \<in> set kvs"
    obtain k v where kv: "kv = (k, v)" by fastforce
    have "length (json_text ea v) \<le> json_bound v" using JObj [of kv v] \<open>kv \<in> set kvs\<close> kv by simp
    then show "((\<lambda>x. length x + 1) \<circ> (?f \<circ> (\<lambda>(k, v). (k, json_text ea v)))) kv
        \<le> (case kv of (k, v) \<Rightarrow> 12 * length k + json_bound v + 4)"
      using length_json_quote [of ea k] by (simp add: kv cps_def)
  qed
  finally show ?case
    using length_join_with [of "map ?f (sort_key fst ?kts)"] by (simp add: cps_def)
qed (simp_all add: cps_def)


lemma utf8_length_bound: "utf8_length s \<le> 4 * length s"
proof (induction s)
  case (Cons c s)
  then show ?case using utf8_char_length [of c] by simp
qed simp

definition demo_bare :: "(db \<Rightarrow> py_error + db) list" where
  "demo_bare =
    [\<lambda>d. drop_value (create_job 1 ''job-1'' ''/repo'' ''goal'' ''main'' ''c0'' ''yolo/job-1'' True d),
     update_job 1 ''job-1'' (no_job_update\<lparr>ju_state := Some JobRunning\<rparr>)]"

definition demo_bare_job :: job_row where
  "demo_bare_job = \<lparr>j_id = ''job-1'', j_repo = ''/repo'', j_goal = ''goal'', j_state = JobRunning,
     j_base_branch = ''main'', j_base_commit = ''c0'', j_integration_branch = ''yolo/job-1'',
     j_integration_path = [], j_auto_apply = True, j_stop_requested = False, j_created_at = 1,
     j_updated_at = 1, j_final_summary = [], j_error = [], j_accepted_commit = [],
     j_acceptance_phase = PhaseNone, j_source_apply_intent = IntentNotRequested,
     j_source_apply_outcome = OutcomeUnset, j_source_apply_reason = []\<rparr>"

definition demo_created :: event_row where
  "demo_created = \<lparr>e_id = 1, e_job_id = ''job-1'', e_task_id = None, e_kind = ''job.created'',
     e_payload = jobj [(''goal'', jstr ''goal''), (''repo'', jstr ''/repo'')], e_created_at = 1\<rparr>"

definition demo_bare_db :: db where
  "demo_bare_db = empty_db\<lparr>db_jobs := [demo_bare_job], db_events := [demo_created], db_last_event_id := 1\<rparr>"

lemma demo_bare_runs: "after_all demo_bare empty_db = Inr demo_bare_db"
  by code_simp

lemma demo_prepares:
  "\<not> isl (prepare_accepted_job demo_sha 1 ''job-1'' ''c1'' ''done'' ''requested'' 1 (demo_sha content) content demo_bare_db)"
  "db_events (the_db (prepare_accepted_job demo_sha 1 ''job-1'' ''c1'' ''done'' ''requested'' 1 (demo_sha content) content demo_bare_db)) \<noteq> db_events demo_bare_db"
  by code_simp+

lemma demo_snapshot: "provenance_snapshot ''job-1'' demo_bare_db = \<lparr>pv_tasks = [], pv_attempts = [], pv_events = [demo_created]\<rparr>"
  by (simp add: provenance_snapshot_def demo_bare_db_def empty_db_def demo_created_def)

lemma demo_payload_small:
  "json_bound (dossier_payload demo_dossier_input [] demo_bare_job
     \<lparr>pv_tasks = [], pv_attempts = [], pv_events = [demo_created]\<rparr> ''c1'' ''done'' ''requested'') \<le> 128000"
  by (simp add: dossier_payload_def dossier_job_def effective_config_def dossier_ledger_def
      resource_contract_def summary_fingerprint_def jobj_def jstr_def jstrs_def jopt_def cps_def
      trust_detail_def trust_posture_def demo_dossier_input_def demo_dossier_config_def demo_bare_job_def
      demo_sha_def Let_def int_text_def nat_digits.simps rp_enabled_def network_for_def
      demo_created_def DOSSIER_INPUT_STOP_EVENTS_def DOSSIER_BOUNDARY_EVENT_def empty_digest_def truncate_utf8_def
      utf8_char_def)


lemma demo_builds:
  "\<exists>content. build_dossier demo_dossier_input ''job-1'' ''c1'' ''done'' ''requested'' demo_bare_db =
    Inr (content, demo_sha content)"
proof -
  let ?p = "canonical_json (dossier_payload demo_dossier_input [] demo_bare_job
      \<lparr>pv_tasks = [], pv_attempts = [], pv_events = [demo_created]\<rparr> ''c1'' ''done'' ''requested'')"
  have "utf8_length ?p \<le> 4 * length ?p" by (rule utf8_length_bound)
  also have "\<dots> \<le> MAX_DOSSIER_BYTES"
    using demo_payload_small order_trans [OF length_json_text] unfolding canonical_json_def
    by (fastforce simp: MAX_DOSSIER_BYTES_def)
  finally have small: "utf8_length ?p \<le> MAX_DOSSIER_BYTES" .
  have "lookup_job ''job-1'' demo_bare_db = Inr demo_bare_job"
    by (simp add: lookup_job_def demo_bare_db_def find_job_def demo_bare_job_def)
  moreover have "di_registry demo_dossier_input = []" "di_sha demo_dossier_input = demo_sha"
    by (simp_all add: demo_dossier_input_def)
  ultimately show ?thesis
    using small by (simp add: build_dossier_def demo_snapshot Let_def validate_job_snapshot_def registry_contracts_def)
qed

theorem dossier_reproducible_witness:
  "\<exists>content db1 d. prepare_accepted_job demo_sha 1 ''job-1'' ''c1'' ''done'' ''requested'' 1
      (demo_sha content) content demo_bare_db = Inr db1 \<and>
    get_staged_dossier ''job-1'' db1 = Some d \<and> d_content d = content \<and>
    build_dossier demo_dossier_input ''job-1'' ''c1'' ''done'' ''requested'' db1 = Inr (content, demo_sha content)"
proof -
  obtain content where built:
    "build_dossier demo_dossier_input ''job-1'' ''c1'' ''done'' ''requested'' demo_bare_db =
      Inr (content, demo_sha content)" using demo_builds by blast
  let ?r = "prepare_accepted_job demo_sha 1 ''job-1'' ''c1'' ''done'' ''requested'' 1 (demo_sha content) content demo_bare_db"
  obtain db1 where db1: "?r = Inr db1" "db1 \<noteq> demo_bare_db"
    using demo_prepares [of content] by (cases ?r) (auto simp: the_db_def)
  have "(db_step demo_sha)\<^sup>*\<^sup>* empty_db (the_db (after_all demo_bare empty_db))"
  proof (rule after_all_run)
    show "\<not> isl (after_all demo_bare empty_db)" by (simp add: demo_bare_runs)
    show "f \<in> set demo_bare \<Longrightarrow> f d = Inr d' \<Longrightarrow> db_step demo_sha d d'" for f d d'
      by (auto simp: demo_bare_def drop_value_def rbind_Inr_iff intro: step_create_job step_update_job)
  qed
  then have reach: "(db_step demo_sha)\<^sup>*\<^sup>* empty_db demo_bare_db" by (simp add: demo_bare_runs the_db_def)
  from dossier_reproducible [OF reach built db1 rtranclp.rtrancl_refl]
  obtain d where "get_staged_dossier ''job-1'' db1 = Some d" "d_content d = content"
    "build_dossier demo_dossier_input ''job-1'' ''c1'' ''done'' ''requested'' db1 = Inr (content, demo_sha content)"
    by metis
  with db1(1) show ?thesis by blast
qed

end
