(* ===== verification/Yolo_Files.thy ===== *)
theory Yolo_Files
  imports Yolo_Utf8
begin

text \<open>
  The private files and directories of \<open>src/omarchy_yolo/util.py\<close> and the lock that keeps a second
  daemon out (\<open>_acquire_singleton_lock\<close> of \<open>src/omarchy_yolo/daemon.py\<close>). A file system maps normal
  absolute paths to the node at the final component; \<open>lstat\<close> reads it, \<open>O_NOFOLLOW\<close> refuses a link
  there. What another process puts at a path between two system calls is an input.
\<close>

section \<open>Nodes\<close>

datatype node_kind = Regular_File | Directory | Symlink | Special

record fs_node =
  n_kind :: node_kind
  n_uid :: int
  n_nlink :: int
  n_mode :: nat
  n_data :: "nat list"

type_synonym file_system = "string \<Rightarrow> fs_node option"

definition new_node :: "node_kind \<Rightarrow> int \<Rightarrow> nat \<Rightarrow> fs_node" where
  "new_node k uid mode = \<lparr>n_kind = k, n_uid = uid, n_nlink = 1, n_mode = mode, n_data = []\<rparr>"

abbreviation mode_700 :: nat where "mode_700 \<equiv> 7 * 64"
abbreviation mode_755 :: nat where "mode_755 \<equiv> 7 * 64 + 5 * 8 + 5"
abbreviation mode_600 :: nat where "mode_600 \<equiv> 6 * 64"

text \<open>The proper ancestors of a path, outermost first.\<close>

definition ancestors :: "string \<Rightarrow> string list" where
  "ancestors path =
     map (\<lambda>i. take i path) (filter (\<lambda>i. path ! i = CHR ''/'') [1..<length path])"

definition parent_dir :: "string \<Rightarrow> string" where
  "parent_dir path = (if ancestors path = [] then ''/'' else last (ancestors path))"

section \<open>Private directories\<close>

text \<open>\<open>mkdir(parents=True)\<close>: the missing ancestors, with the mode the umask leaves.\<close>

fun make_parents :: "int \<Rightarrow> string list \<Rightarrow> file_system \<Rightarrow> (py_error + unit) \<times> file_system" where
  "make_parents uid [] fs = (Inr (), fs)"
| "make_parents uid (p # ps) fs =
     (case fs p of
        None \<Rightarrow> make_parents uid ps (fs(p \<mapsto> new_node Directory uid mode_755))
      | Some n \<Rightarrow> if n_kind n = Regular_File then (Inl (OtherError ''NotADirectoryError''), fs)
                  else make_parents uid ps fs)"

definition check_private_dir :: "int \<Rightarrow> string \<Rightarrow> file_system \<Rightarrow> (py_error + unit) \<times> file_system" where
  "check_private_dir uid path fs =
     (case fs path of
        None \<Rightarrow> (Inl (OtherError ''FileNotFoundError''), fs)
      | Some n \<Rightarrow>
          if n_kind n = Symlink
          then (Inl (YoloError (''refusing symlink for private directory: '' @ path)), fs)
          else if n_kind n \<noteq> Directory
          then (Inl (YoloError (''private path is not a directory: '' @ path)), fs)
          else if n_uid n \<noteq> uid
          then (Inl (YoloError (''private directory is owned by another uid: '' @ path)), fs)
          else (Inr (), fs(path \<mapsto> n\<lparr>n_mode := mode_700\<rparr>)))"

text \<open>\<open>race\<close> is what another process created at the path after the first \<open>lstat\<close>; the second one sees it.\<close>

definition ensure_private_dir ::
  "int \<Rightarrow> fs_node option \<Rightarrow> string \<Rightarrow> file_system \<Rightarrow> (py_error + unit) \<times> file_system" where
  "ensure_private_dir uid race path fs =
     (case fs path of
        Some _ \<Rightarrow> check_private_dir uid path fs
      | None \<Rightarrow>
          (case make_parents uid (ancestors path) fs of
             (Inl e, fs1) \<Rightarrow> (Inl e, fs1)
           | (Inr _, fs1) \<Rightarrow>
               check_private_dir uid path
                 (fs1(path \<mapsto> (case race of None \<Rightarrow> new_node Directory uid mode_700 | Some n \<Rightarrow> n)))))"

section \<open>Private files\<close>

text \<open>\<open>os.open\<close> with \<open>O_CREAT\<close> and \<open>O_NOFOLLOW\<close>, then \<open>fchmod\<close>. The handle is the path.\<close>

definition open_private_binary ::
  "int \<Rightarrow> fs_node option \<Rightarrow> bool \<Rightarrow> string \<Rightarrow> file_system \<Rightarrow> (py_error + unit) \<times> file_system" where
  "open_private_binary uid race append_mode path fs =
     (case ensure_private_dir uid race (parent_dir path) fs of
        (Inl e, fs1) \<Rightarrow> (Inl e, fs1)
      | (Inr _, fs1) \<Rightarrow>
          (case fs1 path of
             None \<Rightarrow> (Inr (), fs1(path \<mapsto> new_node Regular_File uid mode_600))
           | Some n \<Rightarrow>
               if n_kind n \<in> {Symlink, Directory}
               then (Inl (YoloError (''cannot safely open private file: '' @ path)), fs1)
               else
                 let opened = (if append_mode then n else n\<lparr>n_data := []\<rparr>)
                 in if n_uid n \<noteq> uid then (Inl (OtherError ''PermissionError''), fs1(path \<mapsto> opened))
                    else (Inr (), fs1(path \<mapsto> opened\<lparr>n_mode := mode_600\<rparr>))))"

definition read_text_bounded ::
  "(nat list \<Rightarrow> py_error + string) \<Rightarrow> int \<Rightarrow> string \<Rightarrow> file_system \<Rightarrow> py_error + string" where
  "read_text_bounded decode max_bytes path fs =
     (if max_bytes < 1 then Inl (ValueError ''max_bytes must be positive'')
      else case fs path of
        None \<Rightarrow> Inl (OtherError ''FileNotFoundError'')
      | Some n \<Rightarrow>
          if n_kind n \<noteq> Regular_File
          then Inl (YoloError (''refusing non-regular inspection file: '' @ path))
          else
            let data = take (nat max_bytes + 1) (n_data n)
            in if int (length data) > max_bytes
               then Inl (YoloError (''file exceeds inspection limit: '' @ path))
               else decode data)"

definition tail_of :: "int \<Rightarrow> 'a list \<Rightarrow> 'a list" where
  "tail_of max_bytes data = take (nat max_bytes) (drop (nat (max 0 (int (length data) - max_bytes))) data)"

definition read_tail_bounded ::
  "(nat list \<Rightarrow> string) \<Rightarrow> int \<Rightarrow> string \<Rightarrow> file_system \<Rightarrow> py_error + string" where
  "read_tail_bounded decode max_bytes path fs =
     (if max_bytes < 1 then Inl (ValueError ''max_bytes must be positive'')
      else case fs path of
        None \<Rightarrow> Inl (YoloError (''cannot safely read file: '' @ path))
      | Some n \<Rightarrow>
          if n_kind n = Symlink then Inl (YoloError (''cannot safely read file: '' @ path))
          else if n_kind n \<noteq> Regular_File then Inl (YoloError (''refusing non-regular file: '' @ path))
          else Inr (decode (tail_of max_bytes (n_data n))))"

section \<open>XDG directories\<close>

text \<open>\<open>get\<close> gives \<open>XDG_STATE_HOME\<close> and \<open>XDG_CONFIG_HOME\<close> even when they are empty.\<close>

definition xdg_state_home :: "(string \<Rightarrow> string option) \<Rightarrow> string \<Rightarrow> string" where
  "xdg_state_home getenv home =
     (case getenv ''XDG_STATE_HOME'' of Some p \<Rightarrow> p | None \<Rightarrow> home @ ''/.local/state'')"

definition xdg_config_home :: "(string \<Rightarrow> string option) \<Rightarrow> string \<Rightarrow> string" where
  "xdg_config_home getenv home =
     (case getenv ''XDG_CONFIG_HOME'' of Some p \<Rightarrow> p | None \<Rightarrow> home @ ''/.config'')"

definition xdg_runtime_dir :: "(string \<Rightarrow> string option) \<Rightarrow> string \<Rightarrow> string" where
  "xdg_runtime_dir getenv uid =
     (case getenv ''XDG_RUNTIME_DIR'' of
        Some p \<Rightarrow> if p \<noteq> [] then p else ''/tmp/omarchy-yolo-'' @ uid
      | None \<Rightarrow> ''/tmp/omarchy-yolo-'' @ uid)"

section \<open>The lock of the daemon\<close>

text \<open>The lock file, the process whose open file holds the \<open>flock\<close>, and the daemons that have their
  handle. The file is never removed, so the lock stays on one node.\<close>

record lock_world =
  lw_file :: "fs_node option"
  lw_owner :: "int option"
  lw_handles :: "int list"

definition safe_lock_file :: "int \<Rightarrow> fs_node \<Rightarrow> bool" where
  "safe_lock_file uid n \<longleftrightarrow> n_kind n = Regular_File \<and> n_uid n = uid \<and> n_nlink n = 1"

definition acquire_lock :: "int \<Rightarrow> int \<Rightarrow> lock_world \<Rightarrow> (py_error + unit) \<times> lock_world" where
  "acquire_lock uid pid w =
     (if pid \<in> set (lw_handles w) then (Inr (), w)
      else
        let w1 = (if lw_file w = None then w\<lparr>lw_file := Some (new_node Regular_File uid mode_600)\<rparr> else w);
            n = the (lw_file w1)
        in if n_kind n \<in> {Symlink, Directory} then (Inl (YoloError ''cannot safely open daemon lock''), w1)
           else if \<not> safe_lock_file uid n then (Inl (YoloError ''refusing unsafe daemon lock file''), w1)
           else
             let w2 = w1\<lparr>lw_file := Some (n\<lparr>n_mode := mode_600\<rparr>)\<rparr>
             in if lw_owner w2 \<noteq> None
                then (Inl (YoloError ''another omarchy-yolo daemon is already running''), w2)
                else (Inr (), w2\<lparr>lw_owner := Some pid, lw_handles := pid # lw_handles w2\<rparr>))"

text \<open>Closing the handle, on release or when the process ends, gives the lock back.\<close>

definition release_lock :: "int \<Rightarrow> lock_world \<Rightarrow> lock_world" where
  "release_lock pid w =
     (if pid \<in> set (lw_handles w)
      then w\<lparr>lw_owner := (if lw_owner w = Some pid then None else lw_owner w),
             lw_handles := removeAll pid (lw_handles w)\<rparr>
      else w)"

inductive lock_step :: "int \<Rightarrow> lock_world \<Rightarrow> lock_world \<Rightarrow> bool" for uid where
  lock_acquire: "lock_step uid w (snd (acquire_lock uid pid w))"
| lock_release: "lock_step uid w (release_lock pid w)"

definition lock_ok :: "lock_world \<Rightarrow> bool" where
  "lock_ok w \<longleftrightarrow> lw_handles w = (case lw_owner w of None \<Rightarrow> [] | Some p \<Rightarrow> [p])"

section \<open>What they guarantee\<close>

lemma check_private_dir_ok:
  assumes "check_private_dir uid path fs = (r, fs')"
  shows "r = Inr () \<longleftrightarrow> (\<exists>n. fs path = Some n \<and> n_kind n = Directory \<and> n_uid n = uid)"
    "r = Inr () \<Longrightarrow> \<exists>n. fs' path = Some n \<and> n_kind n = Directory \<and> n_uid n = uid \<and> n_mode n = mode_700"
    "p \<noteq> path \<Longrightarrow> fs' p = fs p"
  using assms by (auto simp: check_private_dir_def split: option.splits if_splits)

lemma make_parents_keeps:
  "fs p = Some n \<Longrightarrow> make_parents uid ps fs = (r, fs') \<Longrightarrow> fs' p = Some n"
proof (induction ps arbitrary: fs)
  case (Cons q qs)
  show ?case
  proof (cases "fs q")
    case None
    with Cons.prems(1) have "(fs(q \<mapsto> new_node Directory uid mode_755)) p = Some n" by auto
    from Cons.IH [of "fs(q \<mapsto> new_node Directory uid mode_755)", OF this] Cons.prems(2) None show ?thesis
      by (simp del: fun_upd_apply)
  next
    case (Some m)
    with Cons show ?thesis by (auto split: if_splits)
  qed
qed simp

text \<open>Whatever another process does between the two looks, a directory that is reported private is a
  directory of the own user with mode 700 and not a link, and no existing node other than it changes.\<close>

theorem private_dir_safe:
  assumes "ensure_private_dir uid race path fs = (Inr (), fs')"
  shows "(\<exists>n. fs' path = Some n \<and> n_kind n = Directory \<and> n_uid n = uid \<and> n_mode n = mode_700) \<and>
    (\<forall>p n. p \<noteq> path \<longrightarrow> fs p = Some n \<longrightarrow> fs' p = Some n) \<and>
    (\<forall>n. fs path = Some n \<longrightarrow> n_kind n = Directory \<and> n_uid n = uid)"
proof (cases "fs path")
  case None
  then obtain fs1 where m: "make_parents uid (ancestors path) fs = (Inr (), fs1)"
    and c: "check_private_dir uid path
      (fs1(path \<mapsto> (case race of None \<Rightarrow> new_node Directory uid mode_700 | Some n \<Rightarrow> n))) = (Inr (), fs')"
    using assms by (auto simp: ensure_private_dir_def split: prod.splits sum.splits)
  show ?thesis
    using check_private_dir_ok(2,3) [OF c] make_parents_keeps [OF _ m] None by auto
next
  case (Some n)
  then have "check_private_dir uid path fs = (Inr (), fs')" using assms by (simp add: ensure_private_dir_def)
  from check_private_dir_ok [OF this] show ?thesis using Some by auto
qed

lemma tail_of_bound: "0 < k \<Longrightarrow> int (length (tail_of k data)) \<le> k"
  by (auto simp: tail_of_def)

lemma tail_of_suffix: "0 < k \<Longrightarrow> \<exists>before. data = before @ tail_of k data"
proof -
  assume "0 < k"
  then have "tail_of k data = drop (nat (max 0 (int (length data) - k))) data"
    unfolding tail_of_def by (intro take_all) auto
  then show ?thesis by (metis append_take_drop_id)
qed

lemma read_text_bound:
  assumes "read_text_bounded decode k path fs = Inr text"
  shows "\<exists>n. fs path = Some n \<and> n_kind n = Regular_File \<and> int (length (n_data n)) \<le> k \<and>
    decode (n_data n) = Inr text"
proof -
  obtain n where n: "fs path = Some n" "n_kind n = Regular_File" "1 \<le> k"
    "\<not> int (length (take (nat k + 1) (n_data n))) > k" "decode (take (nat k + 1) (n_data n)) = Inr text"
    using assms by (auto simp: read_text_bounded_def Let_def split: if_splits option.splits)
  then have "length (n_data n) \<le> nat k" by (auto simp: min_def split: if_splits)
  with n show ?thesis by auto
qed

lemma lock_step_ok: "lock_step uid w w' \<Longrightarrow> lock_ok w \<Longrightarrow> lock_ok w'"
  by (induction rule: lock_step.induct)
    (auto simp: acquire_lock_def release_lock_def lock_ok_def Let_def split: option.splits)

text \<open>However daemons start, stop and die, at most one of them has the lock.\<close>

theorem one_daemon:
  assumes "(lock_step uid)\<^sup>*\<^sup>* w w'" and "lock_ok w"
  shows "lock_ok w' \<and> length (lw_handles w') \<le> 1"
proof -
  from assms have "lock_ok w'" by (induction rule: rtranclp_induct) (auto dest: lock_step_ok)
  then show ?thesis by (auto simp: lock_ok_def split: option.splits)
qed

end
