(* ===== verification/Yolo_Cli.thy ===== *)
theory Yolo_Cli
  imports Yolo_Daemon_Proofs Yolo_Dossier Yolo_Files Yolo_Orchestrator
begin

text \<open>
  The command line: \<open>src/omarchy_yolo/cli.py\<close>, the desktop glue \<open>src/omarchy_yolo/omarchy.py\<close> and
  \<open>src/omarchy_yolo/dossier_cli.py\<close>. What a command prints is a list of lines, each for standard
  output or for standard error, and it keeps what was printed before an error. The answers of the
  daemon are decoded values. The parsing of the arguments is left to the standard library.
\<close>

section \<open>Commands\<close>

datatype line = Out string | Err string

datatype cli_error = Rpc rpc_error | Py py_error | Interrupted

type_synonym ('s, 'a) cli = "'s \<Rightarrow> line list \<times> (cli_error + 'a) \<times> 's"

definition cli_ret :: "'a \<Rightarrow> ('s, 'a) cli" where
  "cli_ret x = (\<lambda>s. ([], Inr x, s))"

definition cli_fail :: "cli_error \<Rightarrow> ('s, 'a) cli" where
  "cli_fail e = (\<lambda>s. ([], Inl e, s))"

definition cli_bind :: "('s, 'a) cli \<Rightarrow> ('a \<Rightarrow> ('s, 'b) cli) \<Rightarrow> ('s, 'b) cli" where
  "cli_bind m f = (\<lambda>s. case m s of
     (ls, Inl e, s1) \<Rightarrow> (ls, Inl e, s1)
   | (ls, Inr x, s1) \<Rightarrow> (case f x s1 of (ms, r, s2) \<Rightarrow> (ls @ ms, r, s2)))"

definition cli_then :: "('s, 'a) cli \<Rightarrow> ('s, 'b) cli \<Rightarrow> ('s, 'b) cli" where
  "cli_then m n = cli_bind m (\<lambda>_. n)"

definition cli_say :: "line list \<Rightarrow> ('s, unit) cli" where
  "cli_say ls = (\<lambda>s. (ls, Inr (), s))"

definition cli_of :: "py_error + 'a \<Rightarrow> ('s, 'a) cli" where
  "cli_of r = (case r of Inl e \<Rightarrow> cli_fail (Py e) | Inr x \<Rightarrow> cli_ret x)"

text \<open>Lines computed one after the other: those before the first error are printed.\<close>

fun cli_lines :: "(py_error + line list) list \<Rightarrow> ('s, unit) cli" where
  "cli_lines [] = cli_ret ()"
| "cli_lines (p # ps) = cli_bind (cli_of p) (\<lambda>ls. cli_then (cli_say ls) (cli_lines ps))"

section \<open>Formatting\<close>

definition pad_right :: "nat \<Rightarrow> string \<Rightarrow> string" where
  "pad_right n s = s @ replicate (n - length s) (CHR '' '')"

definition pad_left :: "nat \<Rightarrow> string \<Rightarrow> string" where
  "pad_left n s = replicate (n - length s) (CHR '' '') @ s"

definition zero_pad :: "nat \<Rightarrow> int \<Rightarrow> string" where
  "zero_pad n i =
     (let digits = int_str \<bar>i\<bar>; sign = (if i < 0 then ''-'' else [])
      in sign @ replicate (n - length sign - length digits) (CHR ''0'') @ digits)"

text \<open>\<open>str(value)\<close>; \<open>render\<close> is the text of a float, a list or a dictionary.\<close>

definition show_value :: "(payload \<Rightarrow> string) \<Rightarrow> payload \<Rightarrow> string" where
  "show_value render v =
     (case v of
        PStr s \<Rightarrow> s
      | PInt i \<Rightarrow> int_str i
      | PBool b \<Rightarrow> if b then ''True'' else ''False''
      | PNull \<Rightarrow> ''None''
      | _ \<Rightarrow> render v)"

text \<open>\<open>f"{value:>6}"\<close> and \<open>f"{value:05d}"\<close>.\<close>

definition format_right :: "nat \<Rightarrow> payload \<Rightarrow> py_error + string" where
  "format_right n v =
     (case v of
        PStr s \<Rightarrow> Inr (pad_left n s)
      | PInt i \<Rightarrow> Inr (pad_left n (int_str i))
      | PBool b \<Rightarrow> Inr (pad_left n (if b then ''1'' else ''0''))
      | PFloat s \<Rightarrow> Inr (pad_left n s)
      | _ \<Rightarrow> Inl (OtherError ''TypeError''))"

definition format_zeros :: "nat \<Rightarrow> payload \<Rightarrow> py_error + string" where
  "format_zeros n v =
     (case v of
        PInt i \<Rightarrow> Inr (zero_pad n i)
      | PBool b \<Rightarrow> Inr (zero_pad n (if b then 1 else 0))
      | PStr _ \<Rightarrow> Inl (ValueError ''Unknown format code'')
      | PFloat _ \<Rightarrow> Inl (ValueError ''Unknown format code'')
      | _ \<Rightarrow> Inl (OtherError ''TypeError''))"

text \<open>\<open>terminal_safe\<close> with \<open>single_line\<close>, and with the default limit.\<close>

definition safe_line :: "string \<Rightarrow> string" where
  "safe_line s = terminal_safe True 20000 s"

definition safe_text :: "string \<Rightarrow> string" where
  "safe_text s = terminal_safe False 20000 s"

text \<open>\<open>json.dumps(value, ensure_ascii=False)\<close>, without and with the compact separators.\<close>

fun payload_json :: "payload \<Rightarrow> json" where
  "payload_json PNull = JNull"
| "payload_json (PBool b) = JBool b"
| "payload_json (PInt i) = JInt i"
| "payload_json (PFloat s) = JFloat (cps s)"
| "payload_json (PStr s) = JStr (cps s)"
| "payload_json (PList vs) = JArr (map payload_json vs)"
| "payload_json (PDict d) = JObj (map (\<lambda>(k, v). (cps k, v)) (map (\<lambda>(k, v). (k, payload_json v)) d))"

definition dumps_spaced :: "payload \<Rightarrow> string" where
  "dumps_spaced v = ascii_text (json_dumps (payload_json v))"

fun dumps_compact :: "payload \<Rightarrow> string" where
  "dumps_compact PNull = ''null''"
| "dumps_compact (PBool b) = (if b then ''true'' else ''false'')"
| "dumps_compact (PInt i) = int_str i"
| "dumps_compact (PFloat s) = s"
| "dumps_compact (PStr s) = ascii_text (json_quote False (cps s))"
| "dumps_compact (PList vs) = ''['' @ join_with '','' (map dumps_compact vs) @ '']''"
| "dumps_compact (PDict d) =
     ''{'' @ join_with '',''
       (map (\<lambda>(k, t). ascii_text (json_quote False (cps k)) @ '':'' @ t) (map (\<lambda>(k, v). (k, dumps_compact v)) d)) @ ''}''"

section \<open>Reading an answer\<close>

text \<open>\<open>value[key]\<close>, \<open>value.get(key)\<close> and \<open>for x in value\<close>, on values of any type.\<close>

definition item :: "payload \<Rightarrow> string \<Rightarrow> py_error + payload" where
  "item v key =
     (case v of
        PDict d \<Rightarrow> (case map_of d key of None \<Rightarrow> Inl (KeyError key) | Some x \<Rightarrow> Inr x)
      | _ \<Rightarrow> Inl (OtherError ''TypeError''))"

definition get_or :: "payload \<Rightarrow> string \<Rightarrow> payload \<Rightarrow> py_error + payload" where
  "get_or v key dflt =
     (case v of PDict d \<Rightarrow> Inr (dict_get_or d key dflt) | _ \<Rightarrow> Inl (OtherError ''AttributeError''))"

definition items_of :: "payload \<Rightarrow> py_error + payload_dict" where
  "items_of v = (case v of PDict d \<Rightarrow> Inr d | _ \<Rightarrow> Inl (OtherError ''AttributeError''))"

definition elements_of :: "payload \<Rightarrow> py_error + payload list" where
  "elements_of v =
     (case v of
        PList vs \<Rightarrow> Inr vs
      | PStr s \<Rightarrow> Inr (map (\<lambda>c. PStr [c]) s)
      | PDict d \<Rightarrow> Inr (map (\<lambda>(k, _). PStr k) d)
      | _ \<Rightarrow> Inl (OtherError ''TypeError''))"

text \<open>\<open>Path(value).name\<close>.\<close>

definition name_of_path :: "payload \<Rightarrow> py_error + string" where
  "name_of_path v = (case v of PStr s \<Rightarrow> Inr (path_name s) | _ \<Rightarrow> Inl (OtherError ''TypeError''))"

section \<open>The status of a job\<close>

definition status_counts :: "payload \<Rightarrow> (payload \<Rightarrow> string) \<Rightarrow> py_error + line list" where
  "status_counts status render =
     rbind (get_or status ''counts'' (PDict [])) (\<lambda>counts.
     if \<not> truthy counts then Inr []
     else rbind (items_of counts) (\<lambda>kvs.
       Inr [Out (''tasks: '' @ join_with ''  ''
              (map (\<lambda>(k, v). k @ ''='' @ show_value render v) (sort_key fst kvs)))]))"

definition status_runtime :: "payload \<Rightarrow> (payload \<Rightarrow> string) \<Rightarrow> py_error + line list" where
  "status_runtime status render =
     rbind (get_or status ''runtime'' (PDict [])) (\<lambda>runtime.
     if \<not> truthy runtime then Inr []
     else rbind (items_of runtime) (\<lambda>d.
       let field = (\<lambda>key. show_value render (dict_get_or d key (PInt 0)))
       in Inr [Out (''runtime: workers='' @ field ''workers_active'' @ ''/'' @ field ''worker_capacity'' @
                    '' waiting='' @ field ''workers_waiting'' @ '' repo-locks='' @ field ''repositories_active'')]))"

definition status_attempts :: "payload \<Rightarrow> (payload \<Rightarrow> string) \<Rightarrow> py_error + line list" where
  "status_attempts status render =
     rbind (get_or status ''telemetry'' (PDict [])) (\<lambda>telemetry.
     rbind (items_of telemetry) (\<lambda>d.
     case dict_get d ''attempts_total'' of
       None \<Rightarrow> Inr []
     | Some n \<Rightarrow>
         if \<not> truthy n then Inr []
         else rbind (items_of (dict_get_or d ''states'' (PDict []))) (\<lambda>states.
           let field = (\<lambda>key. show_value render (dict_get_or states key (PInt 0)))
           in Inr [Out (''attempts: total='' @ show_value render n @ '' passed='' @ field ''passed'' @
                        '' failed='' @ field ''failed'' @ '' running='' @ field ''running'')])))"

definition status_task_line :: "(payload \<Rightarrow> string) \<Rightarrow> payload \<Rightarrow> py_error + line list" where
  "status_task_line render task =
     rbind (get_or task ''preferred_agent'' PNull) (\<lambda>preferred.
     let agent = (if truthy preferred then show_value render preferred else ''auto'')
     in rbind (item task ''logical_id'') (\<lambda>logical_id.
        rbind (item task ''state'') (\<lambda>state.
        rbind (item task ''attempts'') (\<lambda>attempts.
        rbind (item task ''title'') (\<lambda>title.
        Inr [Out (''  '' @ pad_right 8 (safe_line (show_value render logical_id)) @ '' '' @
                  pad_right 12 (safe_line (show_value render state)) @ '' attempts='' @ show_value render attempts @
                  '' agent='' @ safe_line agent @ ''  '' @ safe_line (show_value render title))])))))"

definition optional_line :: "(string \<Rightarrow> line) \<Rightarrow> (payload \<Rightarrow> string) \<Rightarrow> payload \<Rightarrow> string \<Rightarrow> py_error + line list" where
  "optional_line f render job key =
     rbind (get_or job key PNull) (\<lambda>v.
     if truthy v then Inr [f (safe_text (show_value render v))] else Inr [])"

definition status_job_line :: "(payload \<Rightarrow> string) \<Rightarrow> payload \<Rightarrow> py_error + line list" where
  "status_job_line render job =
     rbind (item job ''id'') (\<lambda>job_id.
     rbind (item job ''state'') (\<lambda>state.
     rbind (rbind (item job ''repo'') name_of_path) (\<lambda>repo.
     Inr [Out (safe_line (show_value render job_id) @ ''  '' @ safe_line (show_value render state) @ ''  '' @ safe_line repo)])))"

definition print_status :: "(payload \<Rightarrow> string) \<Rightarrow> payload \<Rightarrow> ('s, unit) cli" where
  "print_status render status =
     cli_bind (cli_of (get_or status ''job'' PNull)) (\<lambda>job.
     if \<not> truthy job then cli_say [Out ''No YOLO jobs yet.'']
     else
       cli_then (cli_lines
         [status_job_line render job,
          rbind (item job ''goal'') (\<lambda>g. Inr [Out (''goal: '' @ safe_text (show_value render g))]),
          rbind (item job ''integration_branch'') (\<lambda>b. Inr [Out (''candidate: '' @ safe_line (show_value render b))]),
          status_counts status render, status_runtime status render, status_attempts status render])
       (cli_bind (cli_of (rbind (get_or status ''tasks'' (PList [])) elements_of)) (\<lambda>tasks.
        cli_then (cli_lines (map (status_task_line render) tasks))
          (cli_lines
            [optional_line (\<lambda>t. Out (''summary: '' @ t)) render job ''final_summary'',
             optional_line (\<lambda>t. Err (''error: '' @ t)) render job ''error'']))))"

section \<open>The daemon behind the command\<close>

text \<open>
  What the command line finds on its host. \<open>ch_call\<close> is one \<open>rpc_call\<close> on the socket, \<open>ch_sleep\<close> a
  pause, \<open>ch_start\<close> the call of \<open>systemctl --user start\<close> whose result is ignored, \<open>ch_spawn\<close> the start
  of a daemon whose output goes to the log file.
\<close>

record 's cli_host =
  ch_config :: "py_error + config"
  ch_call :: "string \<Rightarrow> payload_dict \<Rightarrow> 's \<Rightarrow> (rpc_error + payload) \<times> 's"
  ch_sleep :: "'s \<Rightarrow> 's"
  ch_private_dir :: "string \<Rightarrow> 's \<Rightarrow> (py_error + unit) \<times> 's"
  ch_open_log :: "string \<Rightarrow> 's \<Rightarrow> (py_error + unit) \<times> 's"
  ch_which :: "string \<Rightarrow> string option"
  ch_start :: "string \<Rightarrow> 's \<Rightarrow> 's"
  ch_spawn :: "string \<Rightarrow> 's \<Rightarrow> 's"
  ch_render :: "payload \<Rightarrow> string"

definition cli_call :: "'s cli_host \<Rightarrow> string \<Rightarrow> payload_dict \<Rightarrow> ('s, payload) cli" where
  "cli_call h verb params = (\<lambda>s. case ch_call h verb params s of
     (Inl e, s1) \<Rightarrow> ([], Inl (Rpc e), s1) | (Inr v, s1) \<Rightarrow> ([], Inr v, s1))"

definition cli_host :: "('s \<Rightarrow> (py_error + 'a) \<times> 's) \<Rightarrow> ('s, 'a) cli" where
  "cli_host f = (\<lambda>s. case f s of (Inl e, s1) \<Rightarrow> ([], Inl (Py e), s1) | (Inr x, s1) \<Rightarrow> ([], Inr x, s1))"

definition cli_move :: "('s \<Rightarrow> 's) \<Rightarrow> ('s, unit) cli" where
  "cli_move f = (\<lambda>s. ([], Inr (), f s))"

text \<open>\<open>except RpcError\<close>: a timeout of the exchange is a \<open>TimeoutError\<close>, which is none.\<close>

definition is_rpc_error :: "rpc_error \<Rightarrow> bool" where
  "is_rpc_error e \<longleftrightarrow> e \<noteq> RpcTimeout"

text \<open>A loop of pings, a pause after each that failed: whether the daemon answered.\<close>

fun ping_loop :: "'s cli_host \<Rightarrow> nat \<Rightarrow> ('s, bool) cli" where
  "ping_loop h 0 = cli_ret False"
| "ping_loop h (Suc n) = (\<lambda>s. case ch_call h ''ping'' [] s of
     (Inr _, s1) \<Rightarrow> ([], Inr True, s1)
   | (Inl e, s1) \<Rightarrow> if is_rpc_error e then ping_loop h n (ch_sleep h s1) else ([], Inl (Rpc e), s1))"

definition bootstrap_daemon :: "'s cli_host \<Rightarrow> config \<Rightarrow> ('s, unit) cli" where
  "bootstrap_daemon h cfg =
     (let log_path = logs_dir cfg @ ''/daemon-bootstrap.log''
      in cli_then (cli_host (ch_private_dir h (logs_dir cfg)))
        (cli_then (cli_host (ch_open_log h log_path))
        (cli_then (cli_move (ch_spawn h log_path))
        (cli_bind (ping_loop h 20) (\<lambda>up.
           if up then cli_ret ()
           else cli_fail (Rpc (RpcError (''unable to start daemon; inspect '' @ log_path))))))))"

definition ensure_daemon :: "'s cli_host \<Rightarrow> ('s, unit) cli" where
  "ensure_daemon h =
     cli_bind (cli_of (ch_config h)) (\<lambda>cfg.
     cli_then (cli_host (ch_private_dir h (cf_state_dir cfg)))
       (case ch_which h ''systemctl'' of
          None \<Rightarrow> bootstrap_daemon h cfg
        | Some executable \<Rightarrow>
            cli_then (cli_move (ch_start h executable))
              (cli_bind (ping_loop h 8) (\<lambda>up. if up then cli_ret () else bootstrap_daemon h cfg))))"

definition cli_rpc :: "'s cli_host \<Rightarrow> bool \<Rightarrow> string \<Rightarrow> payload_dict \<Rightarrow> ('s, payload) cli" where
  "cli_rpc h ensure verb params = (\<lambda>s. case ch_call h verb params s of
     (Inl (RpcUnavailable m), s1) \<Rightarrow>
       if ensure then cli_then (ensure_daemon h) (cli_call h verb params) s1
       else ([], Inl (Rpc (RpcUnavailable m)), s1)
   | (Inl e, s1) \<Rightarrow> ([], Inl (Rpc e), s1)
   | (Inr v, s1) \<Rightarrow> ([], Inr v, s1))"

section \<open>Following a job\<close>

definition TERMINAL_STATES :: "string list" where
  "TERMINAL_STATES = [''completed'', ''failed'', ''stopped'']"

text \<open>\<open>int(event["id"])\<close>, the value being a number or a text.\<close>

definition int_value :: "payload \<Rightarrow> py_error + int" where
  "int_value v =
     (case v of
        PInt i \<Rightarrow> Inr i
      | PBool b \<Rightarrow> Inr (if b then 1 else 0)
      | PStr s \<Rightarrow> (case int_of_text s of None \<Rightarrow> Inl (ValueError ''invalid literal for int()'') | Some i \<Rightarrow> Inr i)
      | _ \<Rightarrow> Inl (OtherError ''TypeError''))"

definition watch_line :: "(payload \<Rightarrow> string) \<Rightarrow> payload \<Rightarrow> py_error + line" where
  "watch_line render evt =
     rbind (get_or evt ''payload'' (PDict [])) (\<lambda>payload.
     let suffix = (if truthy payload then '' '' @ safe_line (dumps_spaced payload) else [])
     in rbind (rbind (item evt ''id'') (format_zeros 5)) (\<lambda>number.
        rbind (item evt ''kind'') (\<lambda>kind.
        Inr (Out (''['' @ number @ ''] '' @ safe_line (show_value render kind) @ suffix)))))"

text \<open>The loop over one page: every event moves the cursor and is printed.\<close>

fun watch_page :: "(payload \<Rightarrow> string) \<Rightarrow> int \<Rightarrow> payload list \<Rightarrow> ('s, int) cli" where
  "watch_page render after_id [] = cli_ret after_id"
| "watch_page render after_id (e # es) =
     cli_bind (cli_of (rbind (item e ''id'') int_value)) (\<lambda>i.
     cli_bind (cli_of (watch_line render e)) (\<lambda>l.
     cli_then (cli_say [l]) (watch_page render (max after_id i) es)))"

text \<open>A member of a set is hashed first.\<close>

definition hashable :: "payload \<Rightarrow> py_error + unit" where
  "hashable v = (case v of PList _ \<Rightarrow> Inl (OtherError ''TypeError'') | PDict _ \<Rightarrow> Inl (OtherError ''TypeError'') | _ \<Rightarrow> Inr ())"

definition page_request :: "string \<Rightarrow> int \<Rightarrow> payload_dict" where
  "page_request job_id after_id = [(''job_id'', PStr job_id), (''after_id'', PInt after_id), (''limit'', PInt 200)]"

text \<open>One round: the page, then the status; the exit code when the job is terminal, or the cursor.\<close>

definition watch_round :: "'s cli_host \<Rightarrow> string \<Rightarrow> int \<Rightarrow> ('s, int + int) cli" where
  "watch_round h job_id after_id =
     cli_bind (cli_rpc h True ''events'' (page_request job_id after_id)) (\<lambda>answer.
     cli_bind (cli_of (elements_of answer)) (\<lambda>es.
     cli_bind (watch_page (ch_render h) after_id es) (\<lambda>cursor.
     cli_bind (cli_rpc h True ''status'' [(''job_id'', PStr job_id)]) (\<lambda>status.
     cli_bind (cli_of (rbind (item status ''job'') (\<lambda>job. item job ''state''))) (\<lambda>state.
     cli_then (cli_of (hashable state))
     (if state \<in> PStr ` set TERMINAL_STATES
     then cli_then (print_status (ch_render h) status) (cli_ret (Inl (if state = PStr ''completed'' then 0 else 1)))
      else cli_then (cli_move (ch_sleep h)) (cli_ret (Inr cursor))))))))"

text \<open>The rounds, \<open>n\<close> at most; None when the job is still running after them.\<close>

fun watch :: "'s cli_host \<Rightarrow> string \<Rightarrow> nat \<Rightarrow> int \<Rightarrow> ('s, int option) cli" where
  "watch h job_id 0 after_id = cli_ret None"
| "watch h job_id (Suc n) after_id =
     cli_bind (watch_round h job_id after_id) (\<lambda>r.
     case r of Inl code \<Rightarrow> cli_ret (Some code) | Inr cursor \<Rightarrow> watch h job_id n cursor)"

definition cmd_watch :: "'s cli_host \<Rightarrow> nat \<Rightarrow> string \<Rightarrow> ('s, int option) cli" where
  "cmd_watch h rounds job_id = watch h job_id rounds 0"

section \<open>The commands over the daemon\<close>

definition cmd_run :: "'s cli_host \<Rightarrow> nat \<Rightarrow> string \<Rightarrow> string \<Rightarrow> bool option \<Rightarrow> bool \<Rightarrow> ('s, int option) cli" where
  "cmd_run h rounds goal repo wanted watching =
     cli_bind (cli_rpc h True ''submit''
       [(''goal'', PStr goal), (''repo'', PStr repo),
        (''auto_apply'', case wanted of None \<Rightarrow> PNull | Some b \<Rightarrow> PBool b)]) (\<lambda>status.
     cli_then (print_status (ch_render h) status)
       (cli_bind (cli_of (rbind (item status ''job'') (\<lambda>job. item job ''id''))) (\<lambda>job_id.
        if watching then cmd_watch h rounds (show_value (ch_render h) job_id) else cli_ret (Some 0))))"

definition cmd_status :: "'s cli_host \<Rightarrow> string option \<Rightarrow> bool \<Rightarrow> ('s, int option) cli" where
  "cmd_status h job_id json =
     cli_bind (cli_rpc h True ''status''
       (case job_id of None \<Rightarrow> [] | Some j \<Rightarrow> if j = [] then [] else [(''job_id'', PStr j)])) (\<lambda>status.
     cli_then (if json then cli_say [Out (dumps_compact status)] else print_status (ch_render h) status)
       (cli_ret (Some 0)))"

definition job_list_line :: "(payload \<Rightarrow> string) \<Rightarrow> payload \<Rightarrow> py_error + line list" where
  "job_list_line render job =
     rbind (item job ''id'') (\<lambda>job_id.
     rbind (item job ''state'') (\<lambda>state.
     rbind (rbind (item job ''repo'') name_of_path) (\<lambda>repo.
     rbind (item job ''goal'') (\<lambda>goal.
     Inr [Out (safe_line (show_value render job_id) @ ''  '' @ pad_right 10 (safe_line (show_value render state)) @
               ''  '' @ pad_right 24 (safe_line repo) @ ''  '' @ terminal_safe True 80 (show_value render goal))]))))"

definition cmd_jobs :: "'s cli_host \<Rightarrow> int \<Rightarrow> bool \<Rightarrow> ('s, int option) cli" where
  "cmd_jobs h limit json =
     cli_bind (cli_rpc h True ''jobs'' [(''limit'', PInt limit)]) (\<lambda>jobs.
     cli_then (if json then cli_say [Out (dumps_compact jobs)]
               else cli_bind (cli_of (elements_of jobs)) (\<lambda>js. cli_lines (map (job_list_line (ch_render h)) js)))
       (cli_ret (Some 0)))"

definition event_line :: "(payload \<Rightarrow> string) \<Rightarrow> payload \<Rightarrow> py_error + line list" where
  "event_line render evt =
     rbind (item evt ''payload'') (\<lambda>payload.
     rbind (get_or evt ''task_id'' PNull) (\<lambda>task_id.
     let task = (if truthy task_id then '' task='' @ safe_line (show_value render task_id) else [])
     in rbind (rbind (item evt ''id'') (format_right 6)) (\<lambda>number.
        rbind (item evt ''kind'') (\<lambda>kind.
        Inr [Out (number @ ''  '' @ safe_line (show_value render kind) @ task @ ''  '' @ safe_line (dumps_spaced payload))]))))"

definition cmd_events :: "'s cli_host \<Rightarrow> string \<Rightarrow> int \<Rightarrow> int \<Rightarrow> bool \<Rightarrow> ('s, int option) cli" where
  "cmd_events h job_id after_id limit json =
     cli_bind (cli_rpc h True ''events''
       [(''job_id'', PStr job_id), (''after_id'', PInt after_id), (''limit'', PInt limit)]) (\<lambda>answer.
     cli_then (if json then cli_say [Out (dumps_compact answer)]
               else cli_bind (cli_of (elements_of answer)) (\<lambda>es. cli_lines (map (event_line (ch_render h)) es)))
       (cli_ret (Some 0)))"

definition cmd_stop :: "'s cli_host \<Rightarrow> string \<Rightarrow> ('s, int option) cli" where
  "cmd_stop h job_id =
     cli_bind (cli_rpc h True ''stop'' [(''job_id'', PStr job_id)]) (\<lambda>status.
     cli_then (print_status (ch_render h) status) (cli_ret (Some 0)))"

definition cmd_resume :: "'s cli_host \<Rightarrow> nat \<Rightarrow> string \<Rightarrow> bool \<Rightarrow> ('s, int option) cli" where
  "cmd_resume h rounds job_id watching =
     cli_bind (cli_rpc h True ''resume'' [(''job_id'', PStr job_id)]) (\<lambda>status.
     cli_then (print_status (ch_render h) status)
       (if watching then cmd_watch h rounds job_id else cli_ret (Some 0)))"
section \<open>Agents, doctor, logs and the panel\<close>

text \<open>\<open>set(names)\<close>: every element is hashed; only texts can be the name of an agent.\<close>

definition name_set :: "payload \<Rightarrow> py_error + string list" where
  "name_set v =
     rbind (elements_of v) (\<lambda>vs.
     rbind (map_result hashable vs) (\<lambda>_. Inr (concat (map (\<lambda>x. case as_str x of Some s \<Rightarrow> [s] | None \<Rightarrow> []) vs))))"

definition role_available_names :: "(payload \<Rightarrow> string) \<Rightarrow> payload \<Rightarrow> string list" where
  "role_available_names render v =
     (case v of
        PDict roles \<Rightarrow> concat (map (\<lambda>(_, names). case names of PList vs \<Rightarrow> map (show_value render) vs | _ \<Rightarrow> []) roles)
      | _ \<Rightarrow> [])"

definition join_texts :: "string \<Rightarrow> payload \<Rightarrow> py_error + string" where
  "join_texts sep v =
     rbind (elements_of v) (\<lambda>vs.
     rbind (map_result (\<lambda>x. case as_str x of Some s \<Rightarrow> Inr s | None \<Rightarrow> Inl (OtherError ''TypeError'')) vs) (\<lambda>ss.
     Inr (join_with sep ss)))"

definition agent_line :: "string list \<Rightarrow> string \<times> payload \<Rightarrow> py_error + line list" where
  "agent_line available = (\<lambda>(name, cfg).
     rbind (if name \<in> set available then Inr ''ready''
            else rbind (item cfg ''enabled'') (\<lambda>on. Inr (if \<not> truthy on then ''disabled'' else ''missing''))) (\<lambda>state.
     rbind (rbind (item cfg ''command'') (join_texts '' '')) (\<lambda>command.
     rbind (rbind (get_or cfg ''roles'' (PList [])) (join_texts '','')) (\<lambda>names.
     let roles = safe_line names
     in Inr [Out (pad_right 12 (safe_line name) @ '' '' @ pad_right 9 state @ '' roles='' @
                  pad_right 35 (if roles = [] then ''-'' else roles) @ '' '' @ safe_line command)]))))"

definition cmd_agents :: "'s cli_host \<Rightarrow> bool \<Rightarrow> ('s, int option) cli" where
  "cmd_agents h json =
     cli_bind (cli_rpc h True ''agents'' []) (\<lambda>data.
     cli_then
       (if json then cli_say [Out (dumps_compact data)]
        else
          cli_bind (cli_of (rbind (get_or data ''available'' (PList [])) name_set)) (\<lambda>workers.
          cli_bind (cli_of (rbind (get_or data ''review_available'' (PList [])) name_set)) (\<lambda>reviewers.
          cli_bind (cli_of (get_or data ''role_available'' (PDict []))) (\<lambda>roles.
          cli_bind (cli_of (rbind (item data ''configured'') items_of)) (\<lambda>configured.
          cli_lines (map (agent_line (workers @ reviewers @ role_available_names (ch_render h) roles)) configured))))))
       (cli_ret (Some 0)))"

text \<open>What \<open>doctor\<close> reads of the machine.\<close>

record machine =
  mc_python :: "bool \<times> string"
  mc_platform :: string
  mc_uid :: int
  mc_home :: string
  mc_exists :: "string \<Rightarrow> bool"
  mc_probe :: "string list \<Rightarrow> int \<Rightarrow> probe_run"
  mc_registry :: registry

type_synonym check = "string \<times> bool \<times> string"

definition on_path_check :: "(string \<Rightarrow> string option) \<Rightarrow> string \<Rightarrow> string \<Rightarrow> string \<Rightarrow> check" where
  "on_path_check which name executable missing =
     (case which executable of None \<Rightarrow> (name, False, missing)
      | Some p \<Rightarrow> (name, True, if p = [] then missing else p))"

definition machine_checks :: "(string \<Rightarrow> string option) \<Rightarrow> machine \<Rightarrow> config \<Rightarrow> check list" where
  "machine_checks which mc cfg =
     (let plugin = mc_home mc @ ''/.config/omarchy/plugins/dev.aether.yolo/manifest.json''
      in [(''python'', mc_python mc),
          (''linux'', take 5 (mc_platform mc) = ''linux'', mc_platform mc),
          (''non-root'', mc_uid mc \<noteq> 0, ''uid='' @ int_str (mc_uid mc)),
          on_path_check which ''git'' ''git'' ''missing'',
          (''config'', True, cf_config_path cfg),
          (''state'', True, cf_state_dir cfg),
          (''trust-posture'', True, ''configured='' @ cf_safety_preset cfg @ ''; effective='' @ trust_posture cfg @
             ''; '' @ trust_detail cfg)] @
         (if sb_backend (cf_sandbox cfg) = ''bwrap'' then [on_path_check which ''bubblewrap'' ''bwrap'' ''missing''] else []) @
         (if rp_enabled (cf_resources cfg)
          then [(''resources'', resource_probe which (mc_probe mc) 10 (cf_resources cfg))] else []) @
         [on_path_check which ''omarchy-shell'' ''omarchy-shell'' ''not on PATH'',
          (''shell-plugin'', mc_exists mc plugin, plugin)])"

definition resolved_command :: "(string \<Rightarrow> string option) \<Rightarrow> string list \<Rightarrow> string option" where
  "resolved_command which command =
     (case command of [] \<Rightarrow> None | executable # _ \<Rightarrow> if executable = [] then None else which executable)"

definition agent_check :: "(string \<Rightarrow> string option) \<Rightarrow> string \<times> agent_config \<Rightarrow> check" where
  "agent_check which = (\<lambda>(name, ac).
     let resolved = resolved_command which (ac_command ac);
         review = resolved_command which (ac_review_command ac);
         fallback = (case review of None \<Rightarrow> ''missing'' | Some p \<Rightarrow> ''review-only='' @ p)
     in (''agent:'' @ name, resolved \<noteq> None \<or> review \<noteq> None,
         case resolved of None \<Rightarrow> fallback | Some p \<Rightarrow> if p = [] then fallback else p))"

definition agent_checks :: "(string \<Rightarrow> string option) \<Rightarrow> machine \<Rightarrow> config \<Rightarrow> check list" where
  "agent_checks which mc cfg =
     (let each = map (agent_check which) (filter (\<lambda>(_, ac). ac_enabled ac) (cf_agents cfg));
          n = length (filter (\<lambda>(_, ok, _). ok) each)
      in each @ [(''agent-ready'', n > 0, int_str (int n) @ '' usable agent(s)'')] @
         map (\<lambda>role. let names = available_agents (mc_registry mc) None (Some role)
                in (''role:'' @ agent_role_value role, names \<noteq> [],
                    if names = [] then ''none'' else join_with '', '' names)) all_agent_roles)"

definition REQUIRED_CHECKS :: "string list" where
  "REQUIRED_CHECKS = [''python'', ''linux'', ''non-root'', ''git'', ''agent-ready'', ''resources'']"

definition required_check :: "string \<Rightarrow> bool" where
  "required_check name \<longleftrightarrow> name \<in> set REQUIRED_CHECKS \<or> take 5 name = ''role:''"

definition check_line :: "check \<Rightarrow> line" where
  "check_line = (\<lambda>(name, ok, detail).
     Out (''['' @ (if ok then ''OK'' else ''!!'') @ ''] '' @ pad_right 16 name @ '' '' @ safe_line detail))"

fun report_checks :: "check list \<Rightarrow> bool \<Rightarrow> line list \<times> bool" where
  "report_checks [] ready = ([], ready)"
| "report_checks ((name, ok, detail) # cs) ready =
     (case report_checks cs (if required_check name \<and> \<not> ok then False else ready) of
        (ls, r) \<Rightarrow> (check_line (name, ok, detail) # ls, r))"

definition daemon_check :: "'s cli_host \<Rightarrow> ('s, check) cli" where
  "daemon_check h = (\<lambda>s. case cli_rpc h False ''ping'' [] s of
     (ls, Inl (Rpc e), s1) \<Rightarrow>
       if is_rpc_error e then (ls, Inr (''daemon'', False, ''not running''), s1) else (ls, Inl (Rpc e), s1)
   | (ls, Inl e, s1) \<Rightarrow> (ls, Inl e, s1)
   | (ls, Inr ping, s1) \<Rightarrow>
       cli_bind (cli_of (item ping ''pid'')) (\<lambda>pid.
       cli_bind (cli_of (item ping ''version'')) (\<lambda>version.
       cli_ret (''daemon'', True, ''pid='' @ show_value (ch_render h) pid @ '' version='' @
                show_value (ch_render h) version))) s1)"

definition cmd_doctor :: "'s cli_host \<Rightarrow> machine \<Rightarrow> ('s, int option) cli" where
  "cmd_doctor h mc =
     cli_bind (cli_of (ch_config h)) (\<lambda>cfg.
     cli_bind (daemon_check h) (\<lambda>daemon.
     case report_checks (machine_checks (ch_which h) mc cfg @ [daemon] @ agent_checks (ch_which h) mc cfg) True of
       (ls, ready) \<Rightarrow> cli_then (cli_say ls) (cli_ret (Some (if ready then 0 else 1)))))"

text \<open>\<open>omarchy.py\<close>: a run of an executable, which gives its exit code, or a timeout.\<close>

definition toggle_ui :: "(string \<Rightarrow> string option) \<Rightarrow> (string list \<Rightarrow> int option) \<Rightarrow> bool" where
  "toggle_ui which run =
     (case which ''omarchy-shell'' of
        None \<Rightarrow> False
      | Some executable \<Rightarrow>
          if executable = [] then False
          else (case run [executable, ''dev.aether.yolo'', ''toggle''] of None \<Rightarrow> False | Some code \<Rightarrow> code = 0))"

text \<open>The command line of a notification, when there is one to run; how it ends does not matter.\<close>

definition notify_argv :: "(string \<Rightarrow> string option) \<Rightarrow> string \<Rightarrow> string \<Rightarrow> string list option" where
  "notify_argv which title body =
     (case which ''notify-send'' of
        None \<Rightarrow> None
      | Some executable \<Rightarrow> if executable = [] then None else Some [executable, title, body])"

definition cmd_ui :: "(string \<Rightarrow> string option) \<Rightarrow> (string list \<Rightarrow> int option) \<Rightarrow> ('s, int option) cli" where
  "cmd_ui which run =
     (if \<not> toggle_ui which run
      then cli_then (cli_say [Err ''YOLO Omarchy panel is not loaded. Run ./install.sh or enable dev.aether.yolo.''])
             (cli_ret (Some 1))
      else cli_ret (Some 0))"

text \<open>
  The logs of a job: \<open>files\<close> are the regular \<open>*.log\<close> files below its directory with the time of their
  last change, when the directory exists; \<open>read_tail\<close> reads the end of one.
\<close>

definition cmd_logs ::
  "py_error + config \<Rightarrow> (string \<Rightarrow> (string \<times> rat) list option) \<Rightarrow> (int \<Rightarrow> string \<Rightarrow> py_error + string) \<Rightarrow>
   string \<Rightarrow> bool \<Rightarrow> int \<Rightarrow> bool \<Rightarrow> ('s, int option) cli" where
  "cmd_logs config files read_tail wanted latest max_bytes raw =
     cli_bind (cli_of config) (\<lambda>cfg.
     cli_bind (cli_of (validate_job_id wanted)) (\<lambda>job_id.
     case files (logs_dir cfg @ ''/'' @ job_id) of
       None \<Rightarrow> cli_then (cli_say [Err (''No logs for '' @ job_id)]) (cli_ret (Some 1))
     | Some found \<Rightarrow>
         let paths = map fst (sort_key (\<lambda>(_, mtime). - mtime) found)
         in if latest \<and> paths \<noteq> []
            then cli_bind (cli_of (read_tail (min 2000000 (max 1 max_bytes)) (hd paths))) (\<lambda>text.
                 cli_then (cli_say [Out (if raw then text else terminal_safe False 2000000 text)]) (cli_ret (Some 0)))
            else cli_then (cli_say (map Out paths)) (cli_ret (Some 0))))"

section \<open>The exit code\<close>

text \<open>
  \<open>main\<close>: the exit code with the lines, or the exception that leaves the program with a traceback.
  \<open>YoloError\<close> has the errors of Git, of the state machine and of the protocol below it.
\<close>

fun handled_error :: "cli_error \<Rightarrow> string option" where
  "handled_error (Rpc (RpcError m)) = Some m"
| "handled_error (Rpc (RpcUnavailable m)) = Some m"
| "handled_error (Rpc (RpcRemoteError m)) = Some (ascii_text m)"
| "handled_error (Rpc RpcTimeout) = None"
| "handled_error (Py (YoloError m)) = Some m"
| "handled_error (Py (StateTransitionError m)) = Some m"
| "handled_error (Py (GitError m)) = Some m"
| "handled_error (Py (MergeConflict m)) = Some m"
| "handled_error (Py (KeyError m)) = Some (py_repr m)"
| "handled_error (Py _) = None"
| "handled_error Interrupted = None"

definition cli_main :: "('s, int option) cli \<Rightarrow> 's \<Rightarrow> line list \<times> (cli_error + int option) \<times> 's" where
  "cli_main m s =
     (case m s of
        (ls, Inr code, s1) \<Rightarrow> (ls, Inr code, s1)
      | (ls, Inl e, s1) \<Rightarrow>
          if e = Interrupted then (ls, Inr (Some 130), s1)
          else (case handled_error e of
                  Some m \<Rightarrow> (ls @ [Err (''yolo: '' @ m)], Inr (Some 1), s1)
                | None \<Rightarrow> (ls, Inl e, s1)))"

section \<open>The dossier of a job\<close>

text \<open>
  \<open>run\<close> of \<open>dossier_cli.py\<close>: \<open>open_db\<close> is \<open>Database(config.db_path)\<close>, \<open>write\<close> the export to a private
  file whose path is not a link, with the content it gets.
\<close>

definition published_record ::
  "string \<Rightarrow> db \<Rightarrow> py_error + dossier_row option" where
  "published_record job_id db =
     rbind (get_job job_id db) (\<lambda>job.
     if j_state job \<noteq> JobCompleted \<or> j_stop_requested job
     then Inl (YoloError ''execution dossier is not available until durable job completion'')
     else Inr (get_dossier job_id db))"

definition dossier_cli ::
  "(string \<Rightarrow> string) \<Rightarrow> py_error + config \<Rightarrow> py_error + db \<Rightarrow> (string \<Rightarrow> string \<Rightarrow> py_error + unit) \<Rightarrow>
   string \<Rightarrow> bool \<Rightarrow> string option \<Rightarrow> ('s, int) cli" where
  "dossier_cli sha config open_db write wanted verify_only output =
     cli_bind (cli_of (validate_job_id wanted)) (\<lambda>job_id.
     cli_bind (cli_of config) (\<lambda>cfg.
     cli_bind (cli_of (rbind open_db (published_record job_id))) (\<lambda>found.
     case found of
       None \<Rightarrow> cli_fail (Py (YoloError ''completed job has no published execution dossier''))
     | Some d \<Rightarrow>
         if \<not> verify_dossier sha (d_content d) (d_sha256 d)
         then cli_fail (Py (YoloError ''stored execution dossier failed SHA-256 verification''))
         else if verify_only then cli_then (cli_say [Out (d_sha256 d)]) (cli_ret 0)
         else (case output of
                 None \<Rightarrow> cli_then (cli_say [Out (d_content d)]) (cli_ret 0)
               | Some path \<Rightarrow>
                   if path = [] then cli_then (cli_say [Out (d_content d)]) (cli_ret 0)
                   else cli_then (cli_of (write path (d_content d @ [CHR 0x0A])))
                          (cli_then (cli_say [Out (d_sha256 d @ ''  '' @ path)]) (cli_ret 0))))))"

text \<open>The export behind \<open>--output\<close>, on the file system.\<close>

definition export_dossier ::
  "int \<Rightarrow> fs_node option \<Rightarrow> string \<Rightarrow> string \<Rightarrow> file_system \<Rightarrow> (py_error + unit) \<times> file_system" where
  "export_dossier uid race path content fs =
     (case ensure_private_dir uid race (parent_dir path) fs of
        (Inl e, fs1) \<Rightarrow> (Inl e, fs1)
      | (Inr _, fs1) \<Rightarrow>
          if (case fs1 path of None \<Rightarrow> False | Some n \<Rightarrow> n_kind n = Symlink)
          then (Inl (YoloError (''refusing symlink dossier output: '' @ path)), fs1)
          else (case open_private_binary uid None False path fs1 of
                  (Inl e, fs2) \<Rightarrow> (Inl e, fs2)
                | (Inr _, fs2) \<Rightarrow>
                    (Inr (), (case fs2 path of None \<Rightarrow> fs2 | Some n \<Rightarrow> fs2(path \<mapsto> n\<lparr>n_data := cps content\<rparr>)))))"

end
