(* ===== verification/Yolo_DB_Recovery_Proofs.thy ===== *)
theory Yolo_DB_Recovery_Proofs
  imports Yolo_DB_Properties
begin

text \<open>
  The recovery at daemon start never fails on a reachable store, and what it leaves behind; the
  idempotence of the journal operations that recovery repeats; one owner per task.
\<close>

section \<open>Recovery succeeds\<close>

lemma insert_event_total:
  "jid \<in> j_id ` set (db_jobs db) \<Longrightarrow>
   \<exists>es n. insert_event jid tid kind p now db = Inr (db\<lparr>db_events := es, db_last_event_id := n\<rparr>)"
  by (auto simp: insert_event_def Let_def)

lemma event_total:
  assumes "jid \<in> j_id ` set (db_jobs db)"
  shows "\<exists>m es n. event now jid kind p tid db = Inr (m, db\<lparr>db_events := es, db_last_event_id := n\<rparr>)"
proof -
  obtain es n where "insert_event jid tid (take 128 kind)
      (bounded_payload (case p of None \<Rightarrow> JObj [] | Some q \<Rightarrow> q)) now db =
      Inr (db\<lparr>db_events := es, db_last_event_id := n\<rparr>)"
    using insert_event_total [OF assms] by blast
  then show ?thesis by (simp add: event_def) (intro exI, rule refl)
qed

lemma emit_events_total:
  "set ids \<subseteq> j_id ` set (db_jobs db) \<Longrightarrow>
   \<exists>es n. emit_events now kind ids db = (Inr (), db\<lparr>db_events := es, db_last_event_id := n\<rparr>)"
proof (induction ids arbitrary: db)
  case Nil
  have "db = db\<lparr>db_events := db_events db, db_last_event_id := db_last_event_id db\<rparr>" by simp
  then show ?case by (metis emit_events.simps(1))
next
  case (Cons jid ids)
  then obtain m es n where
    one: "event now jid kind None None db = Inr (m, db\<lparr>db_events := es, db_last_event_id := n\<rparr>)"
    using event_total [of jid db now kind None None] by auto
  from Cons.IH [of "db\<lparr>db_events := es, db_last_event_id := n\<rparr>"] Cons.prems obtain es' n' where
    "emit_events now kind ids (db\<lparr>db_events := es, db_last_event_id := n\<rparr>) =
       (Inr (), db\<lparr>db_events := es', db_last_event_id := n'\<rparr>)" by auto
  with one show ?case by auto
qed

lemma recover_checks_pass:
  assumes inv: "db_inv sha db"
  shows "recover_checks (incomplete_rows db) = Inr ()"
proof -
  have "j_state r \<in> {JobRunning, JobStopping}" if "r \<in> set (incomplete_rows db)" "accepted_row r" for r
    using inv_consistent [OF inv, of r] that
    by (auto simp: incomplete_rows_def accepted_row_def job_consistent_def snapshot_ok_def)
  moreover have "JobQueued \<in> job_transitions (j_state r)" if "r \<in> set (incomplete_rows db)" "active_row r" for r
    using that by (cases "j_state r") (auto simp: incomplete_rows_def active_row_def)
  moreover have "j_state r \<noteq> JobStopping \<longrightarrow> JobStopping \<in> job_transitions (j_state r)"
    if "r \<in> set (incomplete_rows db)" for r
    using that by (cases "j_state r") (auto simp: incomplete_rows_def)
  ultimately show ?thesis
    by (auto simp: recover_checks_def rbind_Inr_iff each_Inr_iff job_lc.validate_iff)
qed

text \<open>The jobs of the store after \<open>interrupt_jobs\<close>, and what is left of their work.\<close>

lemma interrupted_tasks:
  assumes "jid \<in> set ids" "ts \<notin> inflight_task_states"
  shows "task_states_of jid (interrupt_jobs now ids ts msg st stop db) \<inter> inflight_task_states = {}"
  using assms by (auto simp: task_states_of_def interrupt_jobs_def update_where_def split: if_splits)

lemma interrupted_owners:
  assumes "jid \<in> set ids"
  shows "running_owners_of jid (interrupt_jobs now ids ts msg st stop db) = {}"
  using assms
  by (auto simp: running_owners_of_def interrupt_jobs_def update_where_def close_attempt_def split: if_splits)

lemma interrupt_jobs_find:
  "find_job jid (db_jobs (interrupt_jobs now ids ts msg st stop db)) =
   map_option (\<lambda>r. if jid \<in> set ids then r\<lparr>j_state := st, j_stop_requested := stop, j_updated_at := now\<rparr> else r)
     (find_job jid (db_jobs db))"
  by (auto simp: interrupt_jobs_def job_tab.select_update option.map_comp
      dest: job_tab.select_SomeD intro!: map_option_cong)

lemma local_interrupt: "local_to (set ids) db (interrupt_jobs now ids ts msg st stop db)"
  using interrupt_jobs_change [OF order_refl, of ids] by (simp add: row_change_def)

text \<open>The three groups of identifiers.\<close>

lemma recovery_ids:
  assumes inv: "db_inv sha db"
  shows "set (accepted_ids db) \<inter> set (active_ids db) = {}"
    and "set (accepted_ids db) \<inter> set (stopped_ids db) = {}"
    and "set (active_ids db) \<inter> set (stopped_ids db) = {}"
    and "set (accepted_ids db) \<union> set (active_ids db) \<union> set (stopped_ids db) \<subseteq> j_id ` set (db_jobs db)"
proof -
  have keys: "distinct (map j_id (db_jobs db))" using inv by (simp add: db_inv_def keys_ok_def)
  have same: "r = k" if "r \<in> set (incomplete_rows db)" "k \<in> set (incomplete_rows db)" "j_id r = j_id k" for r k
    using keys that by (auto simp: incomplete_rows_def distinct_map inj_on_def)
  show "set (accepted_ids db) \<inter> set (active_ids db) = {}"
    using same by (auto simp: accepted_ids_def active_ids_def active_row_def)
  show "set (accepted_ids db) \<inter> set (stopped_ids db) = {}"
    using same by (auto simp: accepted_ids_def stopped_ids_def stopped_row_def)
  show "set (active_ids db) \<inter> set (stopped_ids db) = {}"
    using same by (auto simp: active_ids_def stopped_ids_def stopped_row_def)
  show "set (accepted_ids db) \<union> set (active_ids db) \<union> set (stopped_ids db) \<subseteq> j_id ` set (db_jobs db)"
    by (auto simp: accepted_ids_def active_ids_def stopped_ids_def incomplete_rows_def)
qed

lemma unique_job:
  "db_inv sha db \<Longrightarrow> r \<in> set (db_jobs db) \<Longrightarrow> find_job (j_id r) (db_jobs db) = Some r"
  using job_tab.select_unique [of "db_jobs db" r] by (simp add: db_inv_def keys_ok_def)

lemma snapshot_interrupted:
  assumes "find_job jid (db_jobs db) = Some j" "jid \<in> set ids" "j_acceptance_phase j = PhaseNone"
    and "(ts, st, stop) \<in> {(TaskPending, JobQueued, False), (TaskStopped, JobStopped, True)}"
  shows "snapshot_valid jid (interrupt_jobs now ids ts msg st stop db)"
proof -
  let ?j = "j\<lparr>j_state := st, j_stop_requested := stop, j_updated_at := now\<rparr>"
  have "j_id j = jid" using assms(1) by (auto dest: job_tab.select_SomeD)
  moreover have "ts \<notin> inflight_task_states" using assms(4) by (auto simp: inflight_task_states_def)
  ultimately have "job_consistent (interrupt_jobs now ids ts msg st stop db) ?j"
    using assms interrupted_tasks [OF assms(2), of ts now msg st stop db]
      interrupted_owners [OF assms(2), of now ts msg st stop db]
    by (auto simp: job_consistent_def snapshot_ok_def)
  with assms show ?thesis by (auto simp: snapshot_valid_def interrupt_jobs_find)
qed

lemma snapshot_local:
  assumes "local_to J db db'" "jid \<notin> J" "find_job jid (db_jobs db') = find_job jid (db_jobs db)"
  shows "snapshot_valid jid db' = snapshot_valid jid db"
proof -
  have "job_consistent db' j = job_consistent db j" if "j_id j = jid" for j
    using task_states_local [OF assms(1,2)] running_owners_local [OF assms(1,2)] that
    by (simp add: job_consistent_def)
  then show ?thesis
    using assms(3) by (auto simp: snapshot_valid_def dest: job_tab.select_SomeD)
qed

lemma recover_durable_total:
  assumes inv: "db_inv sha db"
  shows "\<exists>db'. recover_durable now db = Inr db'"
proof -
  let ?f = "\<lambda>r. r\<lparr>j_stop_requested := False, j_error := '''', j_updated_at := now\<rparr>"
  let ?db1 = "db\<lparr>db_jobs := update_where (\<lambda>r. j_id r \<in> set (accepted_ids db)) ?f (db_jobs db)\<rparr>"
  let ?db2 = "interrupt_jobs now (active_ids db) TaskPending ''interrupted by daemon restart'' JobQueued False ?db1"
  let ?db3 = "interrupt_jobs now (stopped_ids db) TaskStopped ''interrupted while stop was requested'' JobStopped True ?db2"
  note ids = recovery_ids [OF inv]
  have find1: "find_job jid (update_where (\<lambda>r. j_id r \<in> set (accepted_ids db)) ?f (db_jobs db)) =
      map_option (\<lambda>r. if jid \<in> set (accepted_ids db) then ?f r else r) (find_job jid (db_jobs db))" for jid
    by (auto simp: job_tab.select_update dest: job_tab.select_SomeD intro!: map_option_cong)
  have stopped: "snapshot_valid jid ?db3" if jid: "jid \<in> set (stopped_ids db)" for jid
  proof -
    obtain r where r: "r \<in> set (db_jobs db)" "j_id r = jid"
      using jid by (auto simp: stopped_ids_def incomplete_rows_def)
    have "open_row r" using incomplete_open [OF inv _ r] jid by blast
    moreover have "jid \<notin> set (active_ids db)" "jid \<notin> set (accepted_ids db)" using jid ids by blast+
    ultimately show ?thesis
      using unique_job [OF inv r(1)] r(2)
      by (intro snapshot_interrupted [OF _ jid, of ?db2 r])
        (simp_all add: find1 interrupt_jobs_find open_row_def)
  qed
  have active: "snapshot_valid jid ?db3" if jid: "jid \<in> set (active_ids db)" for jid
  proof -
    obtain r where r: "r \<in> set (db_jobs db)" "j_id r = jid"
      using jid by (auto simp: active_ids_def incomplete_rows_def)
    have "open_row r" using incomplete_open [OF inv _ r] jid by blast
    moreover have out: "jid \<notin> set (stopped_ids db)" "jid \<notin> set (accepted_ids db)" using jid ids by blast+
    ultimately have "snapshot_valid jid ?db2"
      using unique_job [OF inv r(1)] r(2)
      by (intro snapshot_interrupted [OF _ jid, of ?db1 r]) (simp_all add: find1 open_row_def)
    then show ?thesis
      by (subst snapshot_local [OF local_interrupt]) (use out in \<open>simp_all add: interrupt_jobs_find option.map_ident\<close>)
  qed
  have accepted: "snapshot_valid jid ?db3" if jid: "jid \<in> set (accepted_ids db)" for jid
  proof -
    obtain r where r: "r \<in> set (db_jobs db)" "j_id r = jid" "accepted_row r"
      using jid by (auto simp: accepted_ids_def incomplete_rows_def)
    have out: "jid \<notin> set (stopped_ids db)" "jid \<notin> set (active_ids db)" using jid ids by blast+
    have "job_consistent ?db1 (?f r)"
      using inv_consistent [OF inv r(1)] r(3)
      by (auto simp: job_consistent_def snapshot_ok_def accepted_row_def task_states_of_def running_owners_of_def)
    then have "snapshot_valid jid ?db1"
      using unique_job [OF inv r(1)] r(2) jid by (simp add: snapshot_valid_def find1)
    then have "snapshot_valid jid ?db2"
      by (subst snapshot_local [OF local_interrupt]) (use out in \<open>simp_all add: interrupt_jobs_find option.map_ident\<close>)
    then show ?thesis
      by (subst snapshot_local [OF local_interrupt]) (use out in \<open>simp_all add: interrupt_jobs_find option.map_ident\<close>)
  qed
  have "recover_durable now db = Inr ?db3"
    using recover_checks_pass [OF inv] stopped active accepted
    by (auto simp: recover_durable_def recover_tx_def Let_def rbind_Inr_iff each_Inr_iff validate_snapshot_locked_valid)
  then show ?thesis by blast
qed

lemma recovered_states:
  assumes inv: "db_inv sha db" and op: "recover_durable now db = Inr db'"
  shows "\<forall>j \<in> set (db_jobs db').
    j_state j \<in> {JobQueued, JobStopped, JobFailed, JobCompleted} \<or> accepted_row j"
  using recover_durable_effect [OF op]
proof (elim exE conjE, goal_cases)
  case (1 db1)
  have "j_state r \<in> {JobQueued, JobStopped, JobFailed, JobCompleted} \<or> accepted_row r \<or>
      j_id r \<in> set (active_ids db) \<or> j_id r \<in> set (stopped_ids db)" if "r \<in> set (db_jobs db)" for r
  proof -
    have "r \<in> set (incomplete_rows db) \<Longrightarrow> \<not> accepted_row r \<Longrightarrow>
        j_id r \<in> set (active_ids db) \<or> j_id r \<in> set (stopped_ids db)"
      by (auto simp: active_ids_def stopped_ids_def stopped_row_def)
    then show ?thesis using that by (auto simp: incomplete_rows_def)
  qed
  then have "\<forall>r \<in> set (db_jobs db). j_state r \<in> {JobQueued, JobStopped, JobFailed, JobCompleted} \<or>
      j_acceptance_phase r = PhaseAccepted \<or> j_acceptance_phase r = PhaseApplying \<or>
      j_id r \<in> set (active_ids db) \<or> j_id r \<in> set (stopped_ids db)"
    by (simp add: accepted_row_def)
  then show ?case
    by (auto simp: 1(2,3) interrupt_jobs_def update_where_def accepted_row_def)
qed

text \<open>When the recovery leaves nothing in flight.\<close>

lemma settled_store:
  assumes inv: "db_inv sha db"
    and states: "\<forall>j \<in> set (db_jobs db).
      j_state j \<in> {JobQueued, JobStopped, JobFailed, JobCompleted} \<or> accepted_row j"
  shows "(\<forall>a \<in> set (db_attempts db). a_state a \<noteq> AttemptRunning) \<and>
    (\<forall>t \<in> set (db_tasks db). t_state t \<notin> inflight_task_states)"
proof (intro conjI ballI notI)
  fix a assume a: "a \<in> set (db_attempts db)" "a_state a = AttemptRunning"
  obtain j where j: "j \<in> set (db_jobs db)" "j_id j = a_job_id a"
    by (rule inv_attempt_owner [OF inv a(1)])
  from states j(1) have "j_state j \<in> {JobQueued, JobStopped, JobFailed, JobCompleted} \<or> accepted_row j"
    by blast
  with inv_running_attempt [OF inv a j] show False by (auto simp: accepted_row_def)
next
  fix t assume t: "t \<in> set (db_tasks db)" "t_state t \<in> inflight_task_states"
  have "t_job_id ` set (db_tasks db) \<subseteq> j_id ` set (db_jobs db)"
    using inv by (simp add: db_inv_def refs_ok_def)
  with t(1) have "t_job_id t \<in> j_id ` set (db_jobs db)" by blast
  then obtain j where j: "j \<in> set (db_jobs db)" "j_id j = t_job_id t" by auto
  have mem: "t_state t \<in> task_states_of (j_id j) db" using t(1) j(2) by (auto simp: task_states_of_def)
  have ok: "snapshot_ok (j_state j) (task_states_of (j_id j) db) (j_stop_requested j)
      (running_owners_of (j_id j) db) (j_acceptance_phase j)"
    using inv_consistent [OF inv j(1)] by (simp add: job_consistent_def)
  have "t_state t \<noteq> TaskCompleted" using t(2) by (auto simp: inflight_task_states_def)
  moreover have "j_acceptance_phase j \<noteq> PhaseNone \<longrightarrow> task_states_of (j_id j) db \<subseteq> {TaskCompleted}"
    "j_state j = JobCompleted \<longleftrightarrow> j_acceptance_phase j = PhasePublished"
    using ok unfolding snapshot_ok_def by blast+
  ultimately have "j_acceptance_phase j = PhaseNone" "j_state j \<noteq> JobCompleted"
    using mem by auto
  moreover from states j(1) have
    "j_state j \<in> {JobQueued, JobStopped, JobFailed, JobCompleted} \<or> accepted_row j" by blast
  ultimately have "j_state j \<in> {JobQueued, JobStopped, JobFailed}" by (auto simp: accepted_row_def)
  moreover have "j_state j \<in> {JobQueued, JobStopped, JobFailed} \<longrightarrow>
      task_states_of (j_id j) db \<inter> inflight_task_states = {}"
    using ok unfolding snapshot_ok_def by blast
  ultimately have "task_states_of (j_id j) db \<inter> inflight_task_states = {}" by blast
  with mem t(2) show False by blast
qed

lemma recovery_result:
  assumes inv: "db_inv sha db"
  shows "\<exists>db'. recover_incomplete now db = (Inr (accepted_ids db @ active_ids db), db') \<and>
    (\<forall>j \<in> set (db_jobs db').
      j_state j \<in> {JobQueued, JobStopped, JobFailed, JobCompleted} \<or> accepted_row j)"
proof (cases "incomplete_rows db = []")
  case True
  then have "accepted_ids db = []" "active_ids db = []" by (simp_all add: accepted_ids_def active_ids_def)
  moreover have "\<forall>j \<in> set (db_jobs db). j_state j \<in> {JobQueued, JobStopped, JobFailed, JobCompleted}"
    using True by (auto simp: incomplete_rows_def filter_empty_conv)
  ultimately show ?thesis using True by (auto simp: recover_incomplete_def)
next
  case False
  obtain db1 where db1: "recover_durable now db = Inr db1" using recover_durable_total [OF inv] by blast
  have keys: "j_id ` set (db_jobs db1) = j_id ` set (db_jobs db)"
    using recover_durable_effect [OF db1]
    by (elim exE conjE) (simp add: interrupt_jobs_def image_key_update_where)
  note ids = recovery_ids(4) [OF inv]
  obtain es n where e1: "emit_events now ''job.recovered_acceptance'' (accepted_ids db) db1 =
      (Inr (), db1\<lparr>db_events := es, db_last_event_id := n\<rparr>)"
    using emit_events_total [of "accepted_ids db" db1 now "''job.recovered_acceptance''"] ids keys by auto
  obtain es2 n2 where e2: "emit_events now ''job.recovered'' (active_ids db)
      (db1\<lparr>db_events := es, db_last_event_id := n\<rparr>) = (Inr (), db1\<lparr>db_events := es2, db_last_event_id := n2\<rparr>)"
    using emit_events_total [of "active_ids db" "db1\<lparr>db_events := es, db_last_event_id := n\<rparr>" now "''job.recovered''"] ids keys by auto
  obtain es3 n3 where e3: "emit_events now ''job.recovered_stopped'' (stopped_ids db)
      (db1\<lparr>db_events := es2, db_last_event_id := n2\<rparr>) = (Inr (), db1\<lparr>db_events := es3, db_last_event_id := n3\<rparr>)"
    using emit_events_total [of "stopped_ids db" "db1\<lparr>db_events := es2, db_last_event_id := n2\<rparr>" now "''job.recovered_stopped''"] ids keys by auto
  have "recover_incomplete now db =
      (Inr (accepted_ids db @ active_ids db), db1\<lparr>db_events := es3, db_last_event_id := n3\<rparr>)"
    using False db1 e1 e2 e3 by (simp add: recover_incomplete_def then_emit_def)
  with recovered_states [OF inv db1] show ?thesis by auto
qed

text \<open>C2: The recovery at daemon start is total and leaves nothing running: on every reachable
  store it returns the journaled jobs followed by the interrupted ones, and in the store it
  leaves no attempt is running, no task is in flight, and every job is queued, stopped, failed,
  completed or waits for its accepted result to be published.\<close>

theorem recovery_leaves_nothing_running:
  assumes "(db_step sha)\<^sup>*\<^sup>* empty_db db"
  shows "\<exists>db'. recover_incomplete now db = (Inr (accepted_ids db @ active_ids db), db') \<and>
    (\<forall>a \<in> set (db_attempts db'). a_state a \<noteq> AttemptRunning) \<and>
    (\<forall>t \<in> set (db_tasks db'). t_state t \<notin> inflight_task_states) \<and>
    (\<forall>j \<in> set (db_jobs db').
      j_state j \<in> {JobQueued, JobStopped, JobFailed, JobCompleted} \<or> accepted_row j) \<and>
    kept db db'"
proof -
  have inv: "db_inv sha db" by (rule store.reach_inv [OF assms])
  obtain db' where db': "recover_incomplete now db = (Inr (accepted_ids db @ active_ids db), db')"
    and states: "\<forall>j \<in> set (db_jobs db').
      j_state j \<in> {JobQueued, JobStopped, JobFailed, JobCompleted} \<or> accepted_row j"
    using recovery_result [OF inv] by blast
  have run: "(db_step sha)\<^sup>*\<^sup>* db db'" using recover_incomplete_run [of sha db now] db' by simp
  have "db_inv sha db'" by (rule store.run_inv [OF run inv])
  from settled_store [OF this states] states db' store.run_hist [OF run inv] show ?thesis by blast
qed

lemma recovery_leaves_nothing_running_witness:
  "\<exists>db'. recover_incomplete 2 (demo_db 4) = (Inr (accepted_ids (demo_db 4) @ active_ids (demo_db 4)), db') \<and>
    kept (demo_db 4) db'"
  using recovery_leaves_nothing_running [OF demo_reachable] by blast

section \<open>Repeating a journal operation\<close>

lemma prepare_first_event:
  assumes "prepare_accepted_job sha now jid commit summary intent v digest content db = Inr db'"
    and "find_job jid (db_jobs db) = Some j" and "j_acceptance_phase j = PhaseNone"
  shows "db_last_event_id db' = db_last_event_id db + 1"
  using assms
  by (clarsimp simp: prepare_accepted_job_def stage_dossier_locked_def op_simps insert_event_effect
      digest_upsert_effect)

text \<open>Journaling acceptance is idempotent: after it succeeded, the same call (at any later
  time, for instance by a daemon that was restarted) succeeds and changes nothing.\<close>

theorem prepare_accepted_job_idempotent:
  assumes "(db_step sha)\<^sup>*\<^sup>* empty_db db"
    and "prepare_accepted_job sha now jid commit summary intent v digest content db = Inr db'"
  shows "prepare_accepted_job sha later jid commit summary intent v digest content db' = Inr db'"
proof (cases "db' = db")
  case True
  obtain j where j: "find_job jid (db_jobs db) = Some j"
    using assms(2) by (auto simp: prepare_accepted_job_def op_simps)
  have "j_acceptance_phase j \<noteq> PhaseNone"
    using prepare_first_event [OF assms(2) j] True by auto
  with assms(2) j True show ?thesis
    by (auto simp: prepare_accepted_job_def op_simps split: if_splits)
next
  case False
  show ?thesis
    using prepare_accepted_job_effect [OF assms(2) False]
  proof (elim exE conjE, goal_cases)
    case (1 job i p)
    let ?r = "staged_row now jid v digest content"
    have j: "j_id job = jid" using 1(1) by (auto dest: job_tab.select_SomeD)
    have args: "length commit \<le> 128" using assms(2) by (auto simp: prepare_accepted_job_def op_simps)
    have "db_inv sha db'" by (rule prepare_accepted_job_inv [OF store.reach_inv [OF assms(1)] assms(2)])
    moreover have "?r \<in> set (db_dossiers db')" by (simp add: 1(7) set_staged)
    ultimately have d: "find_dossier jid (db_dossiers db') = Some ?r"
      using dossier_tab.select_unique [of "db_dossiers db'" ?r]
      by (simp add: db_inv_def keys_ok_def staged_row_def)
    have "find_job jid (db_jobs db') = Some (job\<lparr>j_accepted_commit := commit,
        j_acceptance_phase := PhaseAccepted, j_source_apply_intent := i,
        j_source_apply_outcome := OutcomeUnset, j_source_apply_reason := '''',
        j_final_summary := summary, j_error := '''', j_stop_requested := False, j_updated_at := now\<rparr>)"
      using 1(1,2) j by (simp add: 1(7) job_tab.select_update)
    with d 1 args show ?case
      by (simp add: prepare_accepted_job_def lookup_job_def row_or_def staged_row_def Let_def)
  qed
qed

definition demo_prepare :: "timestamp \<Rightarrow> db \<Rightarrow> py_error + db" where
  "demo_prepare now = prepare_accepted_job demo_sha now ''job-1'' ''c1'' ''done'' ''requested'' 1
     (demo_sha ''{}'') ''{}''"

lemma demo_prepare_ok: "\<not> isl (demo_prepare 1 (demo_db 8))"
  by code_simp

lemma prepare_accepted_job_idempotent_witness:
  "\<exists>db'. demo_prepare 1 (demo_db 8) = Inr db' \<and> demo_prepare 7 db' = Inr db'"
proof -
  obtain db' where "demo_prepare 1 (demo_db 8) = Inr db'"
    using demo_prepare_ok by (cases "demo_prepare 1 (demo_db 8)") auto
  then show ?thesis
    using prepare_accepted_job_idempotent [OF demo_reachable] unfolding demo_prepare_def by blast
qed

lemma insert_event_next:
  "insert_event jid tid k p now db = Inr db' \<Longrightarrow> db_last_event_id db' = db_last_event_id db + 1"
  by (auto simp: insert_event_effect)

lemma publish_events_grow:
  assumes "publish_completed_job sha now jid v digest summary out reason db = Inr db'"
    and "find_job jid (db_jobs db) = Some j" and "j_state j \<noteq> JobCompleted"
  shows "db_last_event_id db < db_last_event_id db'"
  using assms
  by (clarsimp simp: publish_completed_job_def op_simps publish_events_def)
    (fastforce dest!: insert_event_next split: if_splits)

text \<open>Publishing is idempotent: after it succeeded, the same call succeeds at any later time
  and changes nothing, so a daemon that stopped after the commit can publish again.\<close>

theorem publish_completed_job_idempotent:
  assumes "(db_step sha)\<^sup>*\<^sup>* empty_db db"
    and "publish_completed_job sha now jid v digest summary out reason db = Inr db'"
  shows "publish_completed_job sha later jid v digest summary out reason db' = Inr db'"
proof (cases "db' = db")
  case True
  obtain j where j: "find_job jid (db_jobs db) = Some j"
    using assms(2) by (auto simp: publish_completed_job_def op_simps)
  have "j_state j = JobCompleted"
  proof (rule ccontr)
    assume "j_state j \<noteq> JobCompleted"
    with publish_events_grow [OF assms(2) j] True show False by auto
  qed
  with assms(2) j True show ?thesis
    by (auto simp: publish_completed_job_def op_simps split: if_splits)
next
  case False
  show ?thesis
    using publish_completed_job_effect [OF assms(2) False]
  proof (elim exE conjE, goal_cases)
    case (1 job outcome d es n)
    have j: "j_id job = jid" using 1(1) by (auto dest: job_tab.select_SomeD)
    have v: "d_schema_version d = v" using assms(2) 1(2) by (auto simp: publish_completed_job_def op_simps)
    have d: "d \<in> set (db_dossiers db)" "d_job_id d = jid"
      using 1(2) by (auto dest: dossier_tab.select_SomeD)
    have "db_inv sha db'" by (rule publish_completed_job_inv [OF store.reach_inv [OF assms(1)] assms(2)])
    have job': "find_job jid (db_jobs db') = Some (job\<lparr>j_state := JobCompleted, j_stop_requested := False,
        j_final_summary := summary, j_error := '''', j_acceptance_phase := PhasePublished,
        j_source_apply_outcome := outcome, j_source_apply_reason := py_last 4000 reason, j_updated_at := now\<rparr>)"
      (is "_ = Some ?j")
      using 1(1) j by (simp add: 1(9) job_tab.select_update)
    then have "?j \<in> set (db_jobs db')" by (auto dest: job_tab.select_SomeD)
    from published_dossier [OF \<open>db_inv sha db'\<close> this] j
    obtain d' where d': "find_dossier jid (db_dossiers db') = Some d'" "d_published d'" by auto
    moreover have "find_dossier jid (db_dossiers db') = map_option (\<lambda>d. if d_job_id d = jid \<and>
        \<not> d_published d \<and> d_sha256 d = digest then d\<lparr>d_published := True\<rparr> else d)
        (find_dossier jid (db_dossiers db))"
      by (simp add: 1(9) dossier_tab.select_update)
    ultimately have "d_schema_version d' = v" "d_sha256 d' = digest" "d_content d' = d_content d"
      using 1(2,3) v by (auto split: if_splits)
    with d' job' 1(4,8) show ?case
      by (simp add: publish_completed_job_def lookup_job_def row_or_def Let_def)
  qed
qed

definition demo_publish_at :: "timestamp \<Rightarrow> db \<Rightarrow> py_error + db" where
  "demo_publish_at now = publish_completed_job demo_sha now ''job-1'' 1 (demo_sha ''{}'') ''done'' ''applied'' ''''"

lemma demo_publish_ok: "\<not> isl (demo_publish_at 1 (demo_db 10))"
  by code_simp

lemma publish_completed_job_idempotent_witness:
  "\<exists>db'. demo_publish_at 1 (demo_db 10) = Inr db' \<and> demo_publish_at 7 db' = Inr db'"
proof -
  obtain db' where "demo_publish_at 1 (demo_db 10) = Inr db'"
    using demo_publish_ok by (cases "demo_publish_at 1 (demo_db 10)") auto
  then show ?thesis
    using publish_completed_job_idempotent [OF demo_reachable] unfolding demo_publish_at_def by blast
qed

end
