(* ===== verification/Yolo_DB_Queries.thy ===== *)
theory Yolo_DB_Queries
  imports Yolo_DB_Recovery_Proofs "HOL-Library.Multiset"
begin

text \<open>
  Ownership, the only way to completion, and what the queries return: the task list after
  planning and the pages of the event ledger.
\<close>

section \<open>Ownership and completion\<close>

text \<open>In a reachable store a running attempt is the only one of its task, its task is in
  flight, its job is running or stopping with no acceptance, and no other attempt can be started
  on the task.\<close>

theorem running_attempt_exclusive:
  assumes "(db_step sha)\<^sup>*\<^sup>* empty_db db" and "a \<in> set (db_attempts db)"
    and "a_state a = AttemptRunning"
  shows "(\<forall>b \<in> set (db_attempts db). a_state b = AttemptRunning \<longrightarrow> a_task_id b = a_task_id a \<longrightarrow> b = a) \<and>
    (\<exists>t j. find_task (a_task_id a) (db_tasks db) = Some t \<and> t_state t \<in> inflight_task_states \<and>
       find_job (a_job_id a) (db_jobs db) = Some j \<and> t_job_id t = j_id j \<and>
       j_state j \<in> {JobRunning, JobStopping} \<and> j_acceptance_phase j = PhaseNone) \<and>
    (\<exists>e. start_attempt now aid jid (a_task_id a) n agent wt br lp db = Inl e)"
proof -
  have inv: "db_inv sha db" by (rule store.reach_inv [OF assms(1)])
  obtain t j where t: "t \<in> set (db_tasks db)" "t_job_id t = a_job_id a" "t_id t = a_task_id a"
    and j: "find_job (a_job_id a) (db_jobs db) = Some j" "j \<in> set (db_jobs db)" "j_id j = a_job_id a"
    by (rule inv_attempt_owner [OF inv assms(2)])
  have found: "find_task (a_task_id a) (db_tasks db) = Some t"
    using inv t task_tab.select_unique [of "db_tasks db" t] by (simp add: db_inv_def keys_ok_def)
  have own: "t_state t \<in> running_owners_of (j_id j) db"
    using t j assms(2,3) by (auto simp: running_owners_of_def)
  have "running_owners_of (j_id j) db \<noteq> {} \<longrightarrow> running_owners_of (j_id j) db \<subseteq> inflight_task_states"
    using inv_consistent [OF inv j(2)] unfolding job_consistent_def snapshot_ok_def by blast
  with own have "t_state t \<in> inflight_task_states" by blast
  moreover have "\<forall>b \<in> set (db_attempts db). a_state b = AttemptRunning \<longrightarrow> a_task_id b = a_task_id a \<longrightarrow> b = a"
    using inv assms(2,3) unfolding db_inv_def attempts_ok_def by metis
  moreover have "\<nexists>db'. start_attempt now aid jid (a_task_id a) n agent wt br lp db = Inr db'"
    using assms(2,3) start_attempt_effect by blast
  then have "\<exists>e. start_attempt now aid jid (a_task_id a) n agent wt br lp db = Inl e"
    by (cases "start_attempt now aid jid (a_task_id a) n agent wt br lp db") auto
  ultimately show ?thesis
    using found j t inv_running_attempt [OF inv assms(2,3) j(2,3)] by auto
qed

lemma demo_running_attempt:
  "hd (db_attempts (demo_db 4)) \<in> set (db_attempts (demo_db 4))"
  "a_state (hd (db_attempts (demo_db 4))) = AttemptRunning"
proof -
  have "db_attempts (demo_db 4) \<noteq> [] \<and> a_state (hd (db_attempts (demo_db 4))) = AttemptRunning"
    by code_simp
  then show "hd (db_attempts (demo_db 4)) \<in> set (db_attempts (demo_db 4))"
    "a_state (hd (db_attempts (demo_db 4))) = AttemptRunning" by simp_all
qed

lemma running_attempt_exclusive_witness:
  "\<exists>e. start_attempt 2 ''att-2'' ''job-1'' (a_task_id (hd (db_attempts (demo_db 4)))) 2
     ''agent'' ''wt'' ''br'' ''log'' (demo_db 4) = Inl e"
  using running_attempt_exclusive [OF demo_reachable demo_running_attempt] by blast

text \<open>A change of the store in which the job becomes completed, and the transactions that are none.\<close>

definition completes :: "string \<Rightarrow> db \<Rightarrow> db \<Rightarrow> bool" where
  "completes jid db db' \<longleftrightarrow>
     (\<exists>j j'. find_job jid (db_jobs db) = Some j \<and> j_state j \<noteq> JobCompleted \<and>
        find_job jid (db_jobs db') = Some j' \<and> j_state j' = JobCompleted)"

lemma completes_same_jobs: "db_jobs db' = db_jobs db \<Longrightarrow> \<not> completes jid db db'"
  by (auto simp: completes_def)

lemma creation_completes_none:
  assumes "create_job now i repo goal bb bc ib aa db = Inr (k, db')"
  shows "\<not> completes jid db db'"
  using create_job_effect [OF assms]
  by (auto simp: completes_def job_tab.select_append split: option.splits)

lemma planning_completes_none:
  assumes "add_tasks now jd ps db = Inr (ts, db')"
  shows "\<not> completes jid db db'"
  using add_tasks_effect [OF assms] by (auto simp: completes_def dest!: insert_tasks_effect)

lemma job_update_completes_none:
  assumes "update_job now jd u db = Inr db'"
  shows "\<not> completes jid db db'"
proof (cases "u = no_job_update")
  case True
  with assms show ?thesis by (auto simp: completes_def update_job_def split: if_splits)
next
  case False
  from update_job_effect [OF assms this] show ?thesis
    by (auto simp: completes_def job_tab.select_update apply_job_update_def split: if_splits)
qed

lemma task_update_completes_none:
  assumes "update_task now tid tu db = Inr db'"
  shows "\<not> completes jid db db'"
proof (cases "tu = no_task_update")
  case True
  with assms show ?thesis by (auto simp: completes_def update_task_def split: if_splits)
next
  case False
  from update_task_effect [OF assms this] show ?thesis
    by (auto simp: completes_def job_tab.select_update split: if_splits)
qed

lemma attempts_complete_none:
  "start_attempt now aid jd tid n agent wt br lp db = Inr db' \<Longrightarrow> \<not> completes jid db db'"
  "finish_attempt now aid st rc summary db = Inr db' \<Longrightarrow> \<not> completes jid db db'"
  "retry_failed_tasks now jd db = Inr db' \<Longrightarrow> \<not> completes jid db db'"
  "settle_inflight now jd tst st summary db = Inr db' \<Longrightarrow> \<not> completes jid db db'"
  by (auto simp: completes_def dest!: start_attempt_effect finish_attempt_effect retry_failed_tasks_effect
      settle_inflight_effect)

lemma resume_completes_none:
  assumes "prepare_resume_tx now jd db = Inr db'"
  shows "\<not> completes jid db db'"
  using prepare_resume_tx_effect [OF assms]
  by (auto simp: completes_def job_tab.select_update split: if_splits)

lemma recovery_completes_none:
  assumes "recover_durable now db = Inr db'"
  shows "\<not> completes jid db db'"
  using recover_durable_effect [OF assms]
  by (auto simp: completes_def job_tab.select_update interrupt_jobs_find split: if_splits)

lemma staging_completes_none:
  assumes "stage_dossier sha now jd v digest content db = Inr db'"
  shows "\<not> completes jid db db'"
  using stage_dossier_effect [OF assms] by (auto simp: completes_def)

lemma acceptance_completes_none:
  assumes "prepare_accepted_job sha now jd commit summary intent v digest content db = Inr db'"
  shows "\<not> completes jid db db'"
proof (cases "db' = db")
  case False
  from prepare_accepted_job_effect [OF assms this] show ?thesis
    by (auto simp: completes_def job_tab.select_update split: if_splits)
qed (simp add: completes_same_jobs)

lemma apply_start_completes_none:
  assumes "mark_apply_started now jd commit db = Inr db'"
  shows "\<not> completes jid db db'"
proof (cases "db' = db")
  case False
  from mark_apply_started_effect [OF assms this] show ?thesis
    by (auto simp: completes_def job_tab.select_update split: if_splits)
qed (simp add: completes_same_jobs)

lemma publication_completes_its_job:
  assumes "publish_completed_job sha now jd v digest summary out reason db = Inr db'" and "completes jid db db'"
  shows "jd = jid"
proof (rule ccontr)
  assume other: "jd \<noteq> jid"
  have "db' \<noteq> db" using assms(2) completes_same_jobs by blast
  from publish_completed_job_effect [OF assms(1) this] assms(2) other show False
    by (auto simp: completes_def job_tab.select_update dest: job_tab.select_SomeD split: if_splits)
qed

lemma ledger_completes_none:
  "event now jd kind p tido db = Inr (n, db') \<Longrightarrow> \<not> completes jid db db'"
  by (rule completes_same_jobs) (auto simp: event_def rbind_Inr_iff insert_event_effect)

lemmas completes_none = creation_completes_none planning_completes_none job_update_completes_none
  task_update_completes_none attempts_complete_none resume_completes_none recovery_completes_none
  staging_completes_none acceptance_completes_none apply_start_completes_none ledger_completes_none

text \<open>C6: Publication is the only way to completion: a transaction after which a job is completed
  that was not completed before is a successful \<open>publish_completed_job\<close> of that job.\<close>

theorem only_publication_completes:
  assumes "db_step sha db db'" and "find_job jid (db_jobs db) = Some j" and "j_state j \<noteq> JobCompleted"
    and "find_job jid (db_jobs db') = Some j'" and "j_state j' = JobCompleted"
  shows "\<exists>now v digest summary out reason.
    publish_completed_job sha now jid v digest summary out reason db = Inr db'"
proof -
  have "completes jid db db'" using assms(2-5) by (simp add: completes_def)
  with assms(1) show ?thesis
    by (cases rule: db_step.cases) (blast dest: completes_none publication_completes_its_job)+
qed

lemma only_publication_completes_witness:
  "\<exists>now v digest summary out reason.
    publish_completed_job demo_sha now ''job-1'' v digest summary out reason (demo_db 10) =
      Inr (the_db (demo_publish_at 1 (demo_db 10)))"
proof (rule only_publication_completes)
  obtain d where d: "demo_publish_at 1 (demo_db 10) = Inr d"
    using demo_publish_ok by (cases "demo_publish_at 1 (demo_db 10)") auto
  then show "db_step demo_sha (demo_db 10) (the_db (demo_publish_at 1 (demo_db 10)))"
    by (auto simp: the_db_def demo_publish_at_def intro: step_publish)
  show "find_job ''job-1'' (db_jobs (demo_db 10)) = Some (hd (db_jobs (demo_db 10)))"
    by code_simp
  show "j_state (hd (db_jobs (demo_db 10))) \<noteq> JobCompleted" by code_simp
  show "find_job ''job-1'' (db_jobs (the_db (demo_publish_at 1 (demo_db 10)))) =
      Some (hd (db_jobs (the_db (demo_publish_at 1 (demo_db 10)))))"
    by code_simp
  show "j_state (hd (db_jobs (the_db (demo_publish_at 1 (demo_db 10))))) = JobCompleted" by code_simp
qed

section \<open>Queries\<close>

lemma sort_key_sorted: "sorted_wrt (\<lambda>x y. k x < k y) xs \<Longrightarrow> sort_key k xs = xs"
proof -
  assume "sorted_wrt (\<lambda>x y. k x < k y) xs"
  then have "sorted (map k xs)"
    by (auto simp: sorted_wrt_map intro: sorted_wrt_mono_rel [rotated])
  then show ?thesis by (rule sort_key_id_if_sorted)
qed

text \<open>Reading the ledger of a job page after page, the cursor being the last identifier seen.\<close>

fun read_all :: "nat \<Rightarrow> string \<Rightarrow> int \<Rightarrow> int \<Rightarrow> db \<Rightarrow> event_row list" where
  "read_all 0 jid after batch db = []"
| "read_all (Suc n) jid after batch db =
     (let page = events jid after batch db in
      if page = [] then [] else page @ read_all n jid (e_id (last page)) batch db)"

lemma after_page:
  assumes "sorted_wrt (\<lambda>x y. e_id x < e_id y) es" and "es \<noteq> []" and "0 < k"
  shows "filter (\<lambda>e. e_id (last (take k es)) < e_id e) es = drop k es"
  using assms
proof (induction es arbitrary: k)
  case (Cons x xs)
  show ?case
  proof (cases "k = 1 \<or> xs = []")
    case True
    with Cons.prems show ?thesis by (cases k) (auto simp: filter_id_conv)
  next
    case False
    with Cons.prems obtain m where k: "k = Suc m" "0 < m" by (cases k) auto
    have "take m xs \<noteq> []" using False k by simp
    then have "last (take m xs) \<in> set xs" using last_in_set in_set_takeD by fast
    with Cons.prems have "\<not> e_id (last (take m xs)) < e_id x" by auto
    with Cons.IH [of m] Cons.prems False k show ?thesis by auto
  qed
qed simp

lemma ledger_filter_sorted:
  assumes "ledger_ok db"
  shows "sorted_wrt (\<lambda>x y. e_id x < e_id y) (filter P (db_events db))"
  using assms by (auto simp: ledger_ok_def sorted_wrt_map intro: sorted_wrt_filter)

lemma read_all_rest:
  assumes led: "ledger_ok db" and "0 \<le> after"
    and "length (filter (\<lambda>e. e_job_id e = jid \<and> e_id e > after) (db_events db)) \<le> n"
  shows "read_all n jid after batch db = filter (\<lambda>e. e_job_id e = jid \<and> e_id e > after) (db_events db)"
  using assms(2-)
proof (induction n arbitrary: after)
  case 0
  then show ?case by simp
next
  case (Suc n)
  let ?es = "filter (\<lambda>e. e_job_id e = jid \<and> e_id e > after) (db_events db)"
  let ?k = "nat (min MAX_EVENT_LIST_LIMIT (max 1 batch))"
  have k: "0 < ?k" by (auto simp: MAX_EVENT_LIST_LIMIT_def min_def max_def)
  have page: "events jid after batch db = take ?k ?es"
    using Suc.prems(1) by (simp add: events_def sort_key_sorted [OF ledger_filter_sorted [OF led]])
  show ?case
  proof (cases "?es = []")
    case True
    then show ?thesis by (simp add: page)
  next
    case False
    let ?c = "e_id (last (take ?k ?es))"
    have ne: "take ?k ?es \<noteq> []" using False k by (simp del: zero_less_nat_eq)
    then have "last (take ?k ?es) \<in> set ?es" using last_in_set in_set_takeD by fast
    then have c: "after < ?c" by simp
    have "filter (\<lambda>e. e_job_id e = jid \<and> e_id e > ?c) (db_events db) = filter (\<lambda>e. ?c < e_id e) ?es"
      using c by (auto intro!: filter_cong)
    also have "\<dots> = drop ?k ?es"
      by (rule after_page [OF ledger_filter_sorted [OF led] False k])
    finally have rest: "filter (\<lambda>e. e_job_id e = jid \<and> e_id e > ?c) (db_events db) = drop ?k ?es" .
    have len: "length ?es - ?k \<le> n" using Suc.prems(2) k by linarith
    have "read_all n jid ?c batch db = filter (\<lambda>e. e_job_id e = jid \<and> e_id e > ?c) (db_events db)"
    proof (rule Suc.IH)
      show "0 \<le> ?c" using c Suc.prems(1) by linarith
      show "length (filter (\<lambda>e. e_job_id e = jid \<and> e_id e > ?c) (db_events db)) \<le> n"
        unfolding rest using len by simp
    qed
    then have "read_all n jid ?c batch db = drop ?k ?es" unfolding rest .
    then show ?thesis using ne by (simp add: page Let_def)
  qed
qed

text \<open>C8: Paging through the ledger loses and repeats nothing: in a reachable store, reading page
  after page from cursor 0 with any page size returns exactly the events of the job, in the
  order they were written, and no page is longer than the limit.\<close>

theorem event_paging_complete:
  assumes "(db_step sha)\<^sup>*\<^sup>* empty_db db" and "length (db_events db) \<le> n"
  shows "read_all n jid 0 batch db = filter (\<lambda>e. e_job_id e = jid) (db_events db) \<and>
    length (events jid after batch db) \<le> 100"
proof -
  have led: "ledger_ok db" using store.reach_inv [OF assms(1)] by (simp add: db_inv_def)
  have "filter (\<lambda>e. e_job_id e = jid \<and> e_id e > 0) (db_events db) = filter (\<lambda>e. e_job_id e = jid) (db_events db)"
    using led by (auto simp: ledger_ok_def intro!: filter_cong)
  moreover have "length (filter (\<lambda>e. e_job_id e = jid \<and> e_id e > 0) (db_events db)) \<le> n"
    using assms(2) length_filter_le le_trans by blast
  ultimately show ?thesis
    using read_all_rest [OF led, of 0 jid n batch] by (simp add: events_def MAX_EVENT_LIST_LIMIT_def Let_def)
qed

lemma event_paging_complete_witness:
  "read_all 10 ''job-1'' 0 1 (demo_db 11) = filter (\<lambda>e. e_job_id e = ''job-1'') (db_events (demo_db 11)) \<and>
    length (events ''job-1'' 2 1 (demo_db 11)) \<le> 100"
proof (rule event_paging_complete [OF demo_reachable])
  show "length (db_events (demo_db 11)) \<le> 10" by code_simp
qed

text \<open>The rows a plan adds, in order, after the tasks the job has.\<close>

lemma max_seq_upper:
  "t \<in> set (db_tasks db) \<Longrightarrow> t_job_id t = jid \<Longrightarrow> t_seq t \<le> max_seq jid db"
proof -
  assume t: "t \<in> set (db_tasks db)" "t_job_id t = jid"
  show ?thesis
  proof (cases "map t_seq (filter (\<lambda>t. t_job_id t = jid) (db_tasks db))")
    case Nil
    with t show ?thesis by (auto simp: filter_empty_conv)
  next
    case (Cons n ns)
    have "t_seq t \<in> set (map t_seq (filter (\<lambda>t. t_job_id t = jid) (db_tasks db)))" using t by simp
    with Cons have "t_seq t \<in> set (n # ns)" by simp
    then have "t_seq t \<le> Max (set (n # ns))" by (simp del: set_simps)
    then show ?thesis unfolding Max.set_eq_fold by (simp add: max_seq_def Cons)
  qed
qed

lemma new_task_rows_seq:
  "map t_seq (new_task_rows now jid n ps) = map (\<lambda>i. n + int i) [1..<length ps + 1]"
proof (induction now jid n ps rule: new_task_rows.induct)
  case (2 now jid seq i p ps)
  have "[1..<length ((i, p) # ps) + 1] = 1 # map Suc [1..<length ps + 1]"
    by (simp add: upt_conv_Cons map_Suc_upt del: upt_Suc)
  with 2 show ?case by (simp add: new_task_row_def comp_def)
qed simp

lemma sort_key_append_sorted:
  assumes "sorted (map k ys)" and "\<And>x y. x \<in> set xs \<Longrightarrow> y \<in> set ys \<Longrightarrow> k x \<le> k y"
  shows "sort_key k (xs @ ys) = sort_key k xs @ ys"
proof (rule properties_for_sort_key)
  show "mset (sort_key k xs @ ys) = mset (xs @ ys)" by simp
  show "filter (\<lambda>y. k z = k y) (sort_key k xs @ ys) = filter (\<lambda>y. k z = k y) (xs @ ys)" for z
    using sort_key_stable [of k "k z" xs] by (simp add: eq_commute)
  show "sorted (map k (sort_key k xs @ ys))"
    using assms by (auto simp: sorted_append)
qed

text \<open>Planning appends: the task list returned by \<open>add_tasks\<close> is the list before the call
  followed by one pending row per planned task, in the order of the plan and with consecutive
  sequence numbers.\<close>

theorem add_tasks_appends:
  assumes "add_tasks now jid ps db = Inr (ts, db')"
  shows "ts = list_tasks jid db @ map task_from_row (new_task_rows now jid (max_seq jid db) ps) \<and>
    list_tasks jid db' = ts \<and>
    map t_seq (new_task_rows now jid (max_seq jid db) ps) =
      map (\<lambda>i. max_seq jid db + int i) [1..<length ps + 1]"
proof -
  let ?new = "new_task_rows now jid (max_seq jid db) ps"
  from add_tasks_effect [OF assms] have db': "db' = db\<lparr>db_tasks := db_tasks db @ ?new\<rparr>"
    using insert_tasks_effect by blast
  have mine: "filter (\<lambda>t. t_job_id t = jid) ?new = ?new"
    by (auto simp: filter_id_conv dest: new_task_rows_job)
  have "sorted (map t_seq ?new)"
    unfolding new_task_rows_seq sorted_map
    by (rule sorted_wrt_mono_rel [OF _ sorted_wrt_upt]) simp
  moreover have "t_seq x \<le> t_seq y"
    if "x \<in> set (filter (\<lambda>t. t_job_id t = jid) (db_tasks db))" "y \<in> set ?new" for x y
  proof -
    have "t_seq y \<in> set (map t_seq ?new)" using that(2) by simp
    then have "max_seq jid db \<le> t_seq y" unfolding new_task_rows_seq by auto
    with max_seq_upper [of x db jid] that(1) show ?thesis by simp
  qed
  ultimately have "sort_key t_seq (filter (\<lambda>t. t_job_id t = jid) (db_tasks db) @ ?new) =
      sort_key t_seq (filter (\<lambda>t. t_job_id t = jid) (db_tasks db)) @ ?new"
    by (intro sort_key_append_sorted) auto
  then have "list_tasks jid db' = list_tasks jid db @ map task_from_row ?new"
    by (simp add: list_tasks_def db' mine)
  moreover have "ts = list_tasks jid db'" using assms by (auto simp: add_tasks_def op_simps)
  ultimately show ?thesis by (simp add: new_task_rows_seq)
qed

lemma demo_add_ok: "\<not> isl (add_tasks 1 ''job-1'' [(''task-1'', demo_task)] (demo_db 1))"
  by code_simp

lemma add_tasks_appends_witness:
  "\<exists>ts db'. add_tasks 1 ''job-1'' [(''task-1'', demo_task)] (demo_db 1) = Inr (ts, db') \<and>
    list_tasks ''job-1'' db' = ts"
proof -
  obtain ts db' where "add_tasks 1 ''job-1'' [(''task-1'', demo_task)] (demo_db 1) = Inr (ts, db')"
    using demo_add_ok by (cases "add_tasks 1 ''job-1'' [(''task-1'', demo_task)] (demo_db 1)") auto
  with add_tasks_appends [OF this] show ?thesis by blast
qed

end
