(* ===== verification/Yolo_Cli_Proofs.thy ===== *)
theory Yolo_Cli_Proofs
  imports Yolo_Cli Yolo_DB_Queries
begin

text \<open>
  What the command line shows: the interface \<open>event_feed\<close> between the watching command and a server
  whose ledger grows, its interpretation on the dispatcher of the daemon over any history of the
  store, and the theorems about the watch, the start of the daemon, the doctor and the dossier export.
\<close>

section \<open>Events in order\<close>

definition event_id :: "payload \<Rightarrow> int" where
  "event_id e = (case item e ''id'' of Inr (PInt i) \<Rightarrow> i | _ \<Rightarrow> 0)"

definition watch_text :: "(payload \<Rightarrow> string) \<Rightarrow> payload \<Rightarrow> line" where
  "watch_text render e = (case watch_line render e of Inr l \<Rightarrow> l | Inl _ \<Rightarrow> Out [])"

definition between :: "int \<Rightarrow> int \<Rightarrow> payload list \<Rightarrow> payload list" where
  "between a c es = filter (\<lambda>e. a < event_id e \<and> event_id e \<le> c) es"

text \<open>A cursor is the start or the identifier of an event of the ledger.\<close>

definition cursor :: "int \<Rightarrow> payload list \<Rightarrow> bool" where
  "cursor a es \<longleftrightarrow> a = 0 \<or> a \<in> event_id ` set es"

definition ledger_list :: "payload list \<Rightarrow> bool" where
  "ledger_list es \<longleftrightarrow>
     sorted_wrt (<) (map event_id es) \<and> (\<forall>e \<in> set es. 0 < event_id e \<and> item e ''id'' = Inr (PInt (event_id e)))"

lemma take_filter_between:
  assumes "sorted_wrt (<) (map f xs)"
  shows "\<exists>c. (\<forall>x \<in> set (take n (filter (\<lambda>x. (a::int) < f x) xs)). f x \<le> c) \<and> a \<le> c \<and>
    c = foldl max a (map f (take n (filter (\<lambda>x. a < f x) xs))) \<and>
    take n (filter (\<lambda>x. a < f x) xs) = filter (\<lambda>x. a < f x \<and> f x \<le> c) xs \<and>
    (c = a \<or> c \<in> f ` set xs)"
  using assms
proof (induction xs arbitrary: n a)
  case Nil
  then show ?case by simp
next
  case (Cons x xs)
  then have sorted: "sorted_wrt (<) (map f xs)" and above: "\<And>y. y \<in> set xs \<Longrightarrow> f x < f y" by auto
  show ?case
  proof (cases "a < f x \<and> n \<noteq> 0")
    case False
    show ?thesis
    proof (cases "n = 0")
      case True
      then show ?thesis by (intro exI [of _ a]) (auto simp: filter_empty_conv)
    next
      case nz: False
      with False have "\<not> a < f x" by simp
      then show ?thesis using Cons.IH [OF sorted, of n a] by auto
    qed
  next
    case True
    then obtain m where n: "n = Suc m" by (cases n) auto
    have same: "filter (\<lambda>y. a < f y) xs = filter (\<lambda>y. f x < f y) xs"
      by (intro filter_cong) (use above True in fastforce)+
    from Cons.IH [OF sorted, of m "f x"] obtain c where
      c: "\<forall>y \<in> set (take m (filter (\<lambda>y. f x < f y) xs)). f y \<le> c" "f x \<le> c"
        "c = foldl max (f x) (map f (take m (filter (\<lambda>y. f x < f y) xs)))"
        "take m (filter (\<lambda>y. f x < f y) xs) = filter (\<lambda>y. f x < f y \<and> f y \<le> c) xs"
        "c = f x \<or> c \<in> f ` set xs" by blast
    have rest: "filter (\<lambda>y. f x < f y \<and> f y \<le> c) xs = filter (\<lambda>y. a < f y \<and> f y \<le> c) xs"
      by (intro filter_cong) (use above True in fastforce)+
    have page: "take n (filter (\<lambda>y. a < f y) (x # xs)) = x # take m (filter (\<lambda>y. f x < f y) xs)"
      using True n same by simp
    have "take n (filter (\<lambda>y. a < f y) (x # xs)) = filter (\<lambda>y. a < f y \<and> f y \<le> c) (x # xs)"
      unfolding page c(4) rest using True c(2) by simp
    moreover have "c = foldl max a (map f (take n (filter (\<lambda>y. a < f y) (x # xs))))"
      unfolding page using True c(3) by (simp add: max_absorb2)
    moreover have "\<forall>y \<in> set (take n (filter (\<lambda>y. a < f y) (x # xs))). f y \<le> c"
      unfolding page using c(1,2) by simp
    moreover have "a \<le> c" and "c \<in> f ` set (x # xs)" using c(2,5) True by auto
    ultimately show ?thesis by (intro exI [of _ c]) blast
  qed
qed

lemma between_append:
  assumes "ledger_list (es @ later)" and "cursor c es"
  shows "between a c (es @ later) = between a c es"
proof -
  have "c < event_id e" if "e \<in> set later" for e
    using assms that by (auto simp: ledger_list_def cursor_def sorted_wrt_append)
  then have "filter (\<lambda>e. a < event_id e \<and> event_id e \<le> c) later = []" by (fastforce simp: filter_empty_conv)
  then show ?thesis by (simp add: between_def)
qed

lemma between_split:
  assumes "ledger_list es" and "a \<le> b" and "b \<le> c"
  shows "between a b es @ between b c es = between a c es"
  using assms
proof (induction es)
  case (Cons e es)
  then have IH: "between a b es @ between b c es = between a c es" by (simp add: ledger_list_def)
  have "b < event_id e \<Longrightarrow> between a b es = []"
    using Cons.prems(1) by (force simp: ledger_list_def between_def filter_empty_conv)
  with IH Cons.prems show ?case by (auto simp: between_def)
qed (simp add: between_def)

lemma between_prefix:
  assumes "ledger_list es"
  shows "\<exists>k. between 0 c es = take k es"
  using assms
proof (induction es)
  case (Cons e es)
  then obtain k where k: "between 0 c es = take k es" by (auto simp: ledger_list_def)
  show ?case
  proof (cases "event_id e \<le> c")
    case True
    with Cons.prems k have "between 0 c (e # es) = take (Suc k) (e # es)" by (simp add: between_def ledger_list_def)
    then show ?thesis by blast
  next
    case False
    with Cons.prems have "between 0 c (e # es) = take 0 (e # es)"
      by (fastforce simp: between_def ledger_list_def filter_empty_conv)
    then show ?thesis by blast
  qed
qed (simp add: between_def)

lemma watch_page_run:
  assumes "watch_page render a es s = (ls, Inr c, t)" and "\<forall>e \<in> set es. item e ''id'' = Inr (PInt (event_id e))"
  shows "t = s \<and> ls = map (watch_text render) es \<and> c = foldl max a (map event_id es)"
  using assms
proof (induction es arbitrary: a ls)
  case Nil
  then show ?case by (simp add: cli_ret_def)
next
  case (Cons e es)
  from Cons.prems obtain l where l: "watch_line render e = Inr l"
    by (cases "watch_line render e") (auto simp: cli_bind_def cli_of_def cli_fail_def cli_ret_def int_value_def rbind_def)
  obtain ms r u where m: "watch_page render (max a (event_id e)) es s = (ms, r, u)"
    by (cases "watch_page render (max a (event_id e)) es s") auto
  from Cons.prems l m have "ls = l # ms" "r = Inr c" "u = t"
    by (auto simp: cli_bind_def cli_then_def cli_say_def cli_of_def cli_ret_def int_value_def rbind_def)
  with Cons.IH [of "max a (event_id e)" ms] m Cons.prems(2) l show ?case by (auto simp: watch_text_def)
qed
lemma bind_Inr:
  "cli_bind m f s = (ls, Inr y, t) \<longleftrightarrow>
   (\<exists>ms x u ns. m s = (ms, Inr x, u) \<and> f x u = (ns, Inr y, t) \<and> ls = ms @ ns)"
  by (auto simp: cli_bind_def split: prod.splits sum.splits)

lemma then_Inr:
  "cli_then m n s = (ls, Inr y, t) \<longleftrightarrow>
   (\<exists>ms x u ns. m s = (ms, Inr x, u) \<and> n u = (ns, Inr y, t) \<and> ls = ms @ ns)"
  by (simp add: cli_then_def bind_Inr)

lemma of_Inr: "cli_of r s = (ls, Inr x, t) \<longleftrightarrow> r = Inr x \<and> ls = [] \<and> t = s"
  by (cases r) (auto simp: cli_of_def cli_ret_def cli_fail_def)

text \<open>Printing does not touch the server.\<close>

definition still :: "('s, 'a) cli \<Rightarrow> bool" where
  "still m \<longleftrightarrow> (\<forall>s. snd (snd (m s)) = s)"

lemma still_bind: "still m \<Longrightarrow> (\<And>x. still (f x)) \<Longrightarrow> still (cli_bind m f)"
  unfolding still_def cli_bind_def by (auto split: prod.splits sum.splits) (metis snd_conv)+

lemma still_basic: "still (cli_ret x)" "still (cli_fail e)" "still (cli_say ls)" "still (cli_of r)"
  by (auto simp: still_def cli_ret_def cli_fail_def cli_say_def cli_of_def split: sum.splits)

lemma still_then: "still m \<Longrightarrow> still n \<Longrightarrow> still (cli_then m n)"
  unfolding cli_then_def by (rule still_bind)

lemma still_lines: "still (cli_lines ps)"
  by (induction ps) (simp_all add: still_bind still_then still_basic)

lemma still_status: "still (print_status render status)"
proof -
  have "still (if c then cli_say ls else m)" if "still m" for c ls and m :: "('s, unit) cli"
    using that by (simp add: still_basic)
  note still_if = this
  show ?thesis
    unfolding print_status_def by (intro still_bind still_if still_then still_basic still_lines)
qed

section \<open>A server whose ledger grows\<close>

named_theorems silent_intros

locale event_feed =
  fixes h :: "'s cli_host" and job_id :: string and ok :: "'s \<Rightarrow> bool" and ledger :: "'s \<Rightarrow> payload list"
  assumes page: "ok s \<Longrightarrow> cursor a (ledger s) \<Longrightarrow>
      ch_call h ''events'' (page_request job_id a) s = (Inr v, t) \<Longrightarrow>
      \<exists>n. v = PList (take n (filter (\<lambda>e. a < event_id e) (ledger s)))"
    and ordered: "ok s \<Longrightarrow> ledger_list (ledger s)"
    and call_grows: "ok s \<Longrightarrow> verb \<in> {''events'', ''status'', ''ping''} \<Longrightarrow> ch_call h verb ps s = (r, t) \<Longrightarrow>
      ok t \<and> (\<exists>es. ledger t = ledger s @ es)"
    and sleep_grows: "ok s \<Longrightarrow> ok (ch_sleep h s) \<and> (\<exists>es. ledger (ch_sleep h s) = ledger s @ es)"
    and dir_grows: "ok s \<Longrightarrow> ch_private_dir h p s = (q, t) \<Longrightarrow> ok t \<and> (\<exists>es. ledger t = ledger s @ es)"
    and log_grows: "ok s \<Longrightarrow> ch_open_log h p s = (q, t) \<Longrightarrow> ok t \<and> (\<exists>es. ledger t = ledger s @ es)"
    and start_grows: "ok s \<Longrightarrow> ok (ch_start h p s) \<and> (\<exists>es. ledger (ch_start h p s) = ledger s @ es)"
    and spawn_grows: "ok s \<Longrightarrow> ok (ch_spawn h p s) \<and> (\<exists>es. ledger (ch_spawn h p s) = ledger s @ es)"
begin

definition grows :: "'s \<Rightarrow> 's \<Rightarrow> bool" where
  "grows s t \<longleftrightarrow> ok t \<and> (\<exists>es. ledger t = ledger s @ es)"

definition silent :: "('s, 'a) cli \<Rightarrow> bool" where
  "silent m \<longleftrightarrow> (\<forall>s ls r t. ok s \<longrightarrow> m s = (ls, r, t) \<longrightarrow> ls = [] \<and> grows s t)"

lemma grows_refl: "ok s \<Longrightarrow> grows s s"
  by (simp add: grows_def)

lemma grows_trans: "grows s t \<Longrightarrow> grows t u \<Longrightarrow> grows s u"
  by (auto simp: grows_def)

lemma grows_ok: "grows s t \<Longrightarrow> ok t"
  by (simp add: grows_def)

lemma silentI: "(\<And>s ls r t. ok s \<Longrightarrow> m s = (ls, r, t) \<Longrightarrow> ls = [] \<and> grows s t) \<Longrightarrow> silent m"
  by (auto simp: silent_def)

lemma silentD: "silent m \<Longrightarrow> ok s \<Longrightarrow> m s = (ls, r, t) \<Longrightarrow> ls = [] \<and> grows s t"
  by (auto simp: silent_def)

lemma silent_ret [silent_intros]: "silent (cli_ret x)"
  by (rule silentI) (auto simp: cli_ret_def grows_refl)

lemma silent_fail [silent_intros]: "silent (cli_fail e)"
  by (rule silentI) (auto simp: cli_fail_def grows_refl)

lemma silent_of [silent_intros]: "silent (cli_of r)"
  unfolding cli_of_def by (cases r) (simp_all add: silent_ret silent_fail)

lemma silent_bind [silent_intros]:
  assumes "silent m" and "\<And>x. silent (f x)"
  shows "silent (cli_bind m f)"
proof (rule silentI)
  fix s ls r t assume "ok s" and run: "cli_bind m f s = (ls, r, t)"
  obtain ms q u where m: "m s = (ms, q, u)" by (cases "m s")
  note step = silentD [OF assms(1) \<open>ok s\<close> m]
  show "ls = [] \<and> grows s t"
  proof (cases q)
    case (Inl e)
    with run m step show ?thesis by (simp add: cli_bind_def)
  next
    case (Inr x)
    obtain ns p v where f: "f x u = (ns, p, v)" by (cases "f x u")
    from silentD [OF assms(2) grows_ok f] step grows_trans run m f Inr show ?thesis
      by (auto simp: cli_bind_def)
  qed
qed

lemma silent_then [silent_intros]: "silent m \<Longrightarrow> silent n \<Longrightarrow> silent (cli_then m n)"
  unfolding cli_then_def by (rule silent_bind)

lemma silent_if [silent_intros]: "silent m \<Longrightarrow> silent n \<Longrightarrow> silent (if c then m else n)"
  by simp

lemma silent_call: "verb \<in> {''events'', ''status'', ''ping''} \<Longrightarrow> silent (cli_call h verb ps)"
  by (rule silentI) (auto simp: cli_call_def grows_def split: prod.splits sum.splits dest: call_grows)

lemma silent_dir [silent_intros]: "silent (cli_host (ch_private_dir h p))"
  by (rule silentI) (auto simp: cli_host_def grows_def split: prod.splits sum.splits dest: dir_grows)

lemma silent_log [silent_intros]: "silent (cli_host (ch_open_log h p))"
  by (rule silentI) (auto simp: cli_host_def grows_def split: prod.splits sum.splits dest: log_grows)

lemma silent_start [silent_intros]: "silent (cli_move (ch_start h p))"
  by (rule silentI) (use start_grows in \<open>auto simp: cli_move_def grows_def\<close>)

lemma silent_spawn [silent_intros]: "silent (cli_move (ch_spawn h p))"
  by (rule silentI) (use spawn_grows in \<open>auto simp: cli_move_def grows_def\<close>)

lemma silent_sleep [silent_intros]: "silent (cli_move (ch_sleep h))"
  by (rule silentI) (use sleep_grows in \<open>auto simp: cli_move_def grows_def\<close>)

lemma silent_ping_loop [silent_intros]: "silent (ping_loop h n)"
proof (induction n)
  case (Suc n)
  show ?case
  proof (rule silentI)
    fix s ls r t assume "ok s" and run: "ping_loop h (Suc n) s = (ls, r, t)"
    obtain q u where c: "ch_call h ''ping'' [] s = (q, u)" by (cases "ch_call h ''ping'' [] s")
    then have u: "grows s u" using call_grows [OF \<open>ok s\<close> _ c] by (simp add: grows_def)
    have "grows u (ch_sleep h u)" using sleep_grows [OF grows_ok [OF u]] by (simp add: grows_def)
    with u have s': "grows s (ch_sleep h u)" by (rule grows_trans)
    show "ls = [] \<and> grows s t"
    proof (cases "\<exists>e. q = Inl e \<and> is_rpc_error e")
      case True
      with run c have "ping_loop h n (ch_sleep h u) = (ls, r, t)" by auto
      from silentD [OF Suc grows_ok [OF s'] this] grows_trans [OF s'] show ?thesis by blast
    next
      case False
      with run c have "ls = [] \<and> t = u" by (cases q) auto
      with u show ?thesis by simp
    qed
  qed
qed (simp add: silent_ret)

lemma silent_ensure [silent_intros]: "silent (ensure_daemon h)"
proof -
  have boot: "silent (bootstrap_daemon h cfg)" for cfg
    unfolding bootstrap_daemon_def Let_def by (intro silent_intros)
  have "silent (case found of None \<Rightarrow> bootstrap_daemon h cfg
      | Some executable \<Rightarrow> cli_then (cli_move (ch_start h executable))
          (cli_bind (ping_loop h 8) (\<lambda>up. if up then cli_ret () else bootstrap_daemon h cfg)))" for found cfg
    by (cases found) (simp_all add: boot silent_intros)
  then show ?thesis unfolding ensure_daemon_def by (intro silent_intros)
qed

lemma silent_rpc:
  assumes "verb \<in> {''events'', ''status'', ''ping''}"
  shows "silent (cli_rpc h ensure verb ps)"
proof (rule silentI)
  fix s ls r t assume "ok s" and run: "cli_rpc h ensure verb ps s = (ls, r, t)"
  obtain q u where c: "ch_call h verb ps s = (q, u)" by (cases "ch_call h verb ps s")
  have u: "grows s u" using call_grows [OF \<open>ok s\<close> assms c] by (simp add: grows_def)
  have retry: "silent (cli_then (ensure_daemon h) (cli_call h verb ps))"
    by (intro silent_intros silent_call assms)
  show "ls = [] \<and> grows s t"
  proof (cases "ensure \<and> (\<exists>m. q = Inl (RpcUnavailable m))")
    case True
    with run c have "cli_then (ensure_daemon h) (cli_call h verb ps) u = (ls, r, t)" by (auto simp: cli_rpc_def)
    from silentD [OF retry grows_ok [OF u] this] grows_trans [OF u] show ?thesis by blast
  next
    case False
    with run c have "ls = [] \<and> t = u" by (auto simp: cli_rpc_def split: sum.splits rpc_error.splits)
    with u show ?thesis by simp
  qed
qed

text \<open>What \<open>_rpc\<close> returns is the answer of one call, made after whatever it took to have a daemon.\<close>

lemma rpc_answer:
  assumes "ok s" and "verb \<in> {''events'', ''status'', ''ping''}" and run: "cli_rpc h ensure verb ps s = (ls, Inr v, t)"
  shows "\<exists>u. grows s u \<and> ch_call h verb ps u = (Inr v, t)"
proof -
  obtain q u where c: "ch_call h verb ps s = (q, u)" by (cases "ch_call h verb ps s")
  show ?thesis
  proof (cases q)
    case (Inr x)
    with run c grows_refl [OF assms(1)] show ?thesis by (auto simp: cli_rpc_def)
  next
    case (Inl e)
    with run c obtain m where "e = RpcUnavailable m" and
      retry: "cli_then (ensure_daemon h) (cli_call h verb ps) u = (ls, Inr v, t)"
      by (auto simp: cli_rpc_def split: rpc_error.splits if_splits)
    obtain ms p w where e: "ensure_daemon h u = (ms, p, w)" by (cases "ensure_daemon h u") auto
    have u: "grows s u" using call_grows [OF assms(1,2) c] by (simp add: grows_def)
    have w: "grows u w" using silentD [OF silent_ensure grows_ok [OF u] e] by blast
    have "ch_call h verb ps w = (Inr v, t)"
      using retry e
      by (auto simp: cli_then_def cli_bind_def cli_call_def split: sum.splits prod.splits)
    with grows_trans [OF u w] show ?thesis by blast
  qed
qed

lemma cursor_grows: "cursor a (ledger s) \<Longrightarrow> grows s t \<Longrightarrow> cursor a (ledger t)"
  by (auto simp: cursor_def grows_def)

lemma between_grows:
  "ok s \<Longrightarrow> cursor c (ledger s) \<Longrightarrow> grows s t \<Longrightarrow> between a c (ledger t) = between a c (ledger s)"
  using between_append [of "ledger s" _ c a] ordered [of t] by (auto simp: grows_def)

lemma events_page:
  assumes "ok s" and "cursor a (ledger s)"
    and run: "cli_rpc h True ''events'' (page_request job_id a) s = (ls, Inr v, t)"
  shows "ls = [] \<and> grows s t \<and> (\<exists>c. v = PList (between a c (ledger t)) \<and> a \<le> c \<and> cursor c (ledger t) \<and>
    c = foldl max a (map event_id (between a c (ledger t))) \<and>
    (\<forall>e \<in> set (between a c (ledger t)). item e ''id'' = Inr (PInt (event_id e))))"
proof -
  have silent: "ls = [] \<and> grows s t" using silentD [OF silent_rpc assms(1) run] by simp
  obtain u where u: "grows s u" "ch_call h ''events'' (page_request job_id a) u = (Inr v, t)"
    using rpc_answer [OF assms(1) _ run] by auto
  have t: "grows u t" using call_grows [OF grows_ok [OF u(1)] _ u(2)] by (simp add: grows_def)
  note cu = cursor_grows [OF assms(2) u(1)]
  from page [OF grows_ok [OF u(1)] cu u(2)] obtain n where
    v: "v = PList (take n (filter (\<lambda>e. a < event_id e) (ledger u)))" by blast
  have led: "ledger_list (ledger u)" by (rule ordered [OF grows_ok [OF u(1)]])
  then have "sorted_wrt (<) (map event_id (ledger u))" by (simp add: ledger_list_def)
  from take_filter_between [OF this, of n a] obtain c where
    c: "a \<le> c" "c = foldl max a (map event_id (take n (filter (\<lambda>e. a < event_id e) (ledger u))))"
      "take n (filter (\<lambda>e. a < event_id e) (ledger u)) = between a c (ledger u)"
      "c = a \<or> c \<in> event_id ` set (ledger u)"
    unfolding between_def by blast
  have "cursor c (ledger u)" using c(4) cu by (auto simp: cursor_def)
  then have "between a c (ledger t) = between a c (ledger u)" "cursor c (ledger t)"
    using between_grows [OF grows_ok [OF u(1)] _ t] cursor_grows t by blast+
  moreover have "\<forall>e \<in> set (between a c (ledger u)). item e ''id'' = Inr (PInt (event_id e))"
    using led by (auto simp: between_def ledger_list_def)
  moreover have "v = PList (between a c (ledger u))" using v unfolding c(3) .
  moreover have "c = foldl max a (map event_id (between a c (ledger u)))" using c(2) unfolding c(3) .
  ultimately have "v = PList (between a c (ledger t)) \<and> a \<le> c \<and> cursor c (ledger t) \<and>
      c = foldl max a (map event_id (between a c (ledger t))) \<and>
      (\<forall>e \<in> set (between a c (ledger t)). item e ''id'' = Inr (PInt (event_id e)))"
    using c(1) by simp
  then show ?thesis using silent by blast
qed

text \<open>One round shows exactly the events between the old and the new cursor.\<close>

lemma watch_round_run:
  assumes "ok s" and "cursor a (ledger s)" and run: "watch_round h job_id a s = (ls, Inr r, t)"
  shows "grows s t \<and> (\<exists>c st. ls = map (watch_text (ch_render h)) (between a c (ledger t)) @ st \<and> a \<le> c \<and>
    cursor c (ledger t) \<and>
    (case r of Inr d \<Rightarrow> d = c \<and> st = []
     | Inl code \<Rightarrow> \<exists>status job state. item status ''job'' = Inr job \<and> item job ''state'' = Inr (PStr state) \<and>
         state \<in> set TERMINAL_STATES \<and> code = (if state = ''completed'' then 0 else 1) \<and>
         print_status (ch_render h) status t = (st, Inr (), t)))"
proof -
  from run obtain l1 answer u es l2 c v l3 status w state l4 where
    ev: "cli_rpc h True ''events'' (page_request job_id a) s = (l1, Inr answer, u)"
    and es: "elements_of answer = Inr es" and pg: "watch_page (ch_render h) a es u = (l2, Inr c, v)"
    and stt: "cli_rpc h True ''status'' [(''job_id'', PStr job_id)] v = (l3, Inr status, w)"
    and state: "rbind (item status ''job'') (\<lambda>job. item job ''state'') = Inr state"
    and fin: "(if state \<in> PStr ` set TERMINAL_STATES
       then cli_then (print_status (ch_render h) status) (cli_ret (Inl (if state = PStr ''completed'' then 0 else 1)))
       else cli_then (cli_move (ch_sleep h)) (cli_ret (Inr c))) w = (l4, Inr r, t)"
    and ls: "ls = l1 @ ([] @ (l2 @ (l3 @ ([] @ ([] @ l4)))))"
    unfolding watch_round_def bind_Inr then_Inr of_Inr by blast
  from events_page [OF assms(1,2) ev] obtain c' where l1: "l1 = []" and su: "grows s u"
    and c': "answer = PList (between a c' (ledger u))" "a \<le> c'" "cursor c' (ledger u)"
      "c' = foldl max a (map event_id (between a c' (ledger u)))"
      "\<forall>e \<in> set (between a c' (ledger u)). item e ''id'' = Inr (PInt (event_id e))" by blast
  from es c'(1) have es': "es = between a c' (ledger u)" by (simp add: elements_of_def)
  from watch_page_run [OF pg] c'(5) es' have pg': "v = u" "l2 = map (watch_text (ch_render h)) es" "c = c'"
    using c'(4) by auto
  have vw: "l3 = []" "grows u w" using silentD [OF silent_rpc _ stt] grows_ok [OF su] pg'(1) by auto
  have uw: "between a c (ledger w) = es" "cursor c (ledger w)"
    using between_grows [OF grows_ok [OF su] c'(3) vw(2)] cursor_grows [OF c'(3) vw(2)] es' pg'(3) by auto
  show ?thesis
  proof (cases "state \<in> PStr ` set TERMINAL_STATES")
    case True
    with fin obtain l5 q x l6 where ps: "print_status (ch_render h) status w = (l5, Inr x, q)"
      and r: "r = Inl (if state = PStr ''completed'' then 0 else 1)" "t = q" "l4 = l5"
      by (auto simp: then_Inr cli_ret_def)
    have "q = w" using still_status [of "ch_render h" status] ps unfolding still_def by (metis snd_conv)
    moreover obtain job label where "item status ''job'' = Inr job" "item job ''state'' = Inr (PStr label)"
      "label \<in> set TERMINAL_STATES" "state = PStr label"
      using state True by (auto simp: rbind_def split: sum.splits)
    ultimately show ?thesis
      using ps r ls l1 vw uw pg' su c'(2) grows_trans [OF su vw(2)] by (intro conjI exI [of _ c] exI [of _ l4]) auto
  next
    case False
    with fin have r: "r = Inr c" "l4 = []" "t = ch_sleep h w" by (auto simp: then_Inr cli_move_def cli_ret_def)
    have wt: "grows w t" using sleep_grows [OF grows_ok [OF vw(2)]] r(3) by (simp add: grows_def)
    have "between a c (ledger t) = es" "cursor c (ledger t)"
      using between_grows [OF grows_ok [OF vw(2)] uw(2) wt] uw(1) cursor_grows [OF uw(2) wt] by auto
    then show ?thesis
      using r ls l1 vw pg' c'(2) grows_trans [OF su grows_trans [OF vw(2) wt]]
      by (intro conjI exI [of _ c] exI [of _ "[]"]) auto
  qed
qed

lemma watch_run:
  assumes "ok s" and "cursor a (ledger s)" and run: "watch h job_id n a s = (ls, Inr r, t)"
  shows "grows s t \<and> (\<exists>c st. ls = map (watch_text (ch_render h)) (between a c (ledger t)) @ st \<and> a \<le> c \<and>
    (case r of None \<Rightarrow> st = []
     | Some code \<Rightarrow> \<exists>status job state. item status ''job'' = Inr job \<and> item job ''state'' = Inr (PStr state) \<and>
         state \<in> set TERMINAL_STATES \<and> code = (if state = ''completed'' then 0 else 1) \<and>
         print_status (ch_render h) status t = (st, Inr (), t)))"
  using assms
proof (induction n arbitrary: a s ls)
  case 0
  then have "between a a (ledger t) = []" "ls = []" "r = None" "t = s"
    by (auto simp: cli_ret_def between_def filter_empty_conv)
  then show ?case using grows_refl [OF 0(1)] by (intro conjI exI [of _ a] exI [of _ "[]"]) auto
next
  case (Suc n)
  from Suc.prems(3) obtain l1 q u l2 where rd: "watch_round h job_id a s = (l1, Inr q, u)"
    and k: "(case q of Inl code \<Rightarrow> cli_ret (Some code) | Inr c \<Rightarrow> watch h job_id n c) u = (l2, Inr r, t)"
    and ls: "ls = l1 @ l2"
    unfolding watch.simps bind_Inr by blast
  from watch_round_run [OF Suc.prems(1,2) rd] obtain c st where su: "grows s u"
    and l1: "l1 = map (watch_text (ch_render h)) (between a c (ledger u)) @ st" and ac: "a \<le> c"
    and cu: "cursor c (ledger u)" and out: "case q of Inr d \<Rightarrow> d = c \<and> st = []
     | Inl code \<Rightarrow> \<exists>status job state. item status ''job'' = Inr job \<and> item job ''state'' = Inr (PStr state) \<and>
         state \<in> set TERMINAL_STATES \<and> code = (if state = ''completed'' then 0 else 1) \<and>
         print_status (ch_render h) status u = (st, Inr (), u)" by blast
  show ?case
  proof (cases q)
    case (Inl code)
    with k have "t = u" "l2 = []" "r = Some code" by (auto simp: cli_ret_def)
    with su l1 ac out ls Inl show ?thesis by (intro conjI exI [of _ c] exI [of _ st]) auto
  next
    case (Inr d)
    with out have d: "d = c" "st = []" by auto
    with k Inr have "watch h job_id n c u = (l2, Inr r, t)" by simp
    from Suc.IH [OF grows_ok [OF su] cu this] obtain c2 st2 where ut: "grows u t"
      and l2: "l2 = map (watch_text (ch_render h)) (between c c2 (ledger t)) @ st2" and cc: "c \<le> c2"
      and out2: "case r of None \<Rightarrow> st2 = []
       | Some code \<Rightarrow> \<exists>status job state. item status ''job'' = Inr job \<and> item job ''state'' = Inr (PStr state) \<and>
           state \<in> set TERMINAL_STATES \<and> code = (if state = ''completed'' then 0 else 1) \<and>
           print_status (ch_render h) status t = (st2, Inr (), t)" by blast
    have "between a c (ledger u) = between a c (ledger t)"
      using between_grows [OF grows_ok [OF su] cu ut] by simp
    moreover have "between a c (ledger t) @ between c c2 (ledger t) = between a c2 (ledger t)"
      by (rule between_split [OF ordered [OF grows_ok [OF ut]] ac cc])
    ultimately have "ls = map (watch_text (ch_render h)) (between a c2 (ledger t)) @ st2"
      using ls l1 l2 d(2) by (metis append_Nil2 append_assoc map_append)
    then show ?thesis using grows_trans [OF su ut] ac cc out2 by (intro conjI exI [of _ c2] exI [of _ st2]) auto
  qed
qed

end

section \<open>The daemon as such a server\<close>

text \<open>What \<open>json.loads\<close> gives for a text the daemon wrote.\<close>

fun payload_of :: "json \<Rightarrow> payload" where
  "payload_of JNull = PNull"
| "payload_of (JBool b) = PBool b"
| "payload_of (JInt i) = PInt i"
| "payload_of (JFloat r) = PFloat (ascii_text r)"
| "payload_of (JStr s) = PStr (ascii_text s)"
| "payload_of (JArr vs) = PList (map payload_of vs)"
| "payload_of (JObj kvs) = PDict (map (\<lambda>(k, v). (ascii_text k, v)) (map (\<lambda>(k, v). (k, payload_of v)) kvs))"

lemma ascii_text_cps [simp]: "ascii_text (cps s) = s"
  by (induction s) (auto simp: ascii_text_def cps_def)

definition event_payload :: "(timestamp \<Rightarrow> code_points) \<Rightarrow> event_row \<Rightarrow> payload" where
  "event_payload fl e = payload_of (event_json fl e)"

text \<open>An event that fits in a page by itself; the daemon leaves the others out.\<close>

definition page_fits :: "(timestamp \<Rightarrow> code_points) \<Rightarrow> event_row \<Rightarrow> bool" where
  "page_fits fl e \<longleftrightarrow> encoded_size (event_json fl e) + 1 \<le> MAX_RPC_MESSAGE_BYTES - 65536"

definition shown_events :: "(timestamp \<Rightarrow> code_points) \<Rightarrow> string \<Rightarrow> db \<Rightarrow> payload list" where
  "shown_events fl job_id db = map (event_payload fl) (filter (\<lambda>e. e_job_id e = job_id \<and> page_fits fl e) (db_events db))"

text \<open>
  The world of a client: the store and the daemon of this moment, and the stores of the next pauses,
  one for each. A call is answered by the dispatcher.
\<close>

type_synonym 'g served_world = "(db \<times> 'g dworld) \<times> db list"

definition daemon_call ::
  "'g daemon_host \<Rightarrow> config \<Rightarrow> string \<Rightarrow> payload_dict \<Rightarrow> 'g served_world \<Rightarrow> (rpc_error + payload) \<times> 'g served_world" where
  "daemon_call dh cfg verb ps = (\<lambda>(s, later). case dispatch dh cfg verb ps s of
     (Inr (Served v), t) \<Rightarrow> (Inr (payload_of v), (t, later))
   | (Inr (WaitRunner _ _), t) \<Rightarrow> (Inl RpcTimeout, (t, later))
   | (Inl (Raised e), t) \<Rightarrow> (Inl (RpcRemoteError (cps (err_text e))), (t, later))
   | (Inl Cancelled, t) \<Rightarrow> (Inl (RpcUnavailable ''daemon closed RPC connection without a response''), (t, later)))"

definition daemon_pause :: "'g served_world \<Rightarrow> 'g served_world" where
  "daemon_pause = (\<lambda>((db, w), later). case later of [] \<Rightarrow> ((db, w), []) | d # ds \<Rightarrow> ((d, w), ds))"

definition daemon_client :: "'g daemon_host \<Rightarrow> config \<Rightarrow> 'g served_world cli_host" where
  "daemon_client dh cfg =
     \<lparr>ch_config = Inr cfg, ch_call = daemon_call dh cfg, ch_sleep = daemon_pause,
      ch_private_dir = (\<lambda>_ s. (Inr (), s)), ch_open_log = (\<lambda>_ s. (Inr (), s)), ch_which = (\<lambda>_. None),
      ch_start = (\<lambda>_ s. s), ch_spawn = (\<lambda>_ s. s), ch_render = dh_str dh\<rparr>"

text \<open>Each store comes from the one before, and no identifier is beyond the largest SQLite gives out.\<close>

fun evolving :: "(string \<Rightarrow> string) \<Rightarrow> db \<Rightarrow> db list \<Rightarrow> bool" where
  "evolving sha db [] \<longleftrightarrow> db_last_event_id db \<le> 2 ^ 63 - 1"
| "evolving sha db (d # ds) \<longleftrightarrow>
     db_last_event_id db \<le> 2 ^ 63 - 1 \<and> (db_step sha)\<^sup>*\<^sup>* db d \<and> evolving sha d ds"

definition served_ok :: "(string \<Rightarrow> string) \<Rightarrow> 'g served_world \<Rightarrow> bool" where
  "served_ok sha s \<longleftrightarrow> db_inv sha (fst (fst s)) \<and> evolving sha (fst (fst s)) (snd s)"

lemma evolving_last: "evolving sha db later \<Longrightarrow> db_last_event_id db \<le> 2 ^ 63 - 1"
  by (cases later) auto

lemma event_payload_id [simp]: "item (event_payload fl e) ''id'' = Inr (PInt (e_id e))"
  by (simp add: event_payload_def event_json_def jobj_def item_def)

lemma event_id_payload [simp]: "event_id (event_payload fl e) = e_id e"
  by (simp add: event_id_def)

lemma shown_ordered: "db_inv sha db \<Longrightarrow> ledger_list (shown_events fl job_id db)"
  by (auto simp: db_inv_def ledger_ok_def ledger_list_def shown_events_def comp_def sorted_wrt_map
      intro: sorted_wrt_filter)

lemma dispatch_verbs:
  "dispatch dh cfg ''events'' ps = serve_reply (events_reply dh ps)"
  "dispatch dh cfg ''ping'' ps = serve_reply (ret (jobj [(''version'', jstr (dh_version dh)), (''pid'', JInt (dh_pid dh))]))"
  "dispatch dh cfg ''status'' ps = serve_reply (status_reply dh
     (case dict_get ps ''job_id'' of None \<Rightarrow> [] | Some v \<Rightarrow> if truthy v then arg_str dh v else []))"
  by (simp_all add: dispatch_def)

lemma reads_events: "moves only_reads (dispatch dh cfg ''events'' ps)"
  unfolding dispatch_verbs(1) events_reply_def by (intro moves_intros)

lemma reads_ping: "moves only_reads (dispatch dh cfg ''ping'' ps)"
  unfolding dispatch_verbs(2) by (intro moves_intros)

lemma reads_status: "moves only_reads (dispatch dh cfg ''status'' ps)"
  unfolding dispatch_verbs(3) by (intro moves_intros)

lemma read_calls:
  assumes "verb \<in> {''events'', ''status'', ''ping''}" and "daemon_call dh cfg verb ps ((db, w), later) = (r, t)"
  shows "\<exists>w'. t = ((db, w'), later)"
proof -
  have "moves only_reads (dispatch dh cfg verb ps)"
    using assms(1) reads_events reads_ping reads_status by blast
  moreover obtain q u where d: "dispatch dh cfg verb ps (db, w) = (q, u)" by (cases "dispatch dh cfg verb ps (db, w)")
  ultimately have "fst u = db" using movesD by (fastforce simp: only_reads_def)
  moreover have "t = (u, later)"
    using assms(2) d by (auto simp: daemon_call_def split: sum.splits served.splits exc.splits)
  ultimately show ?thesis by (cases u) auto
qed

text \<open>The page of a request is what a client is to see next.\<close>

lemma filter_take: "\<exists>m. filter P (take n xs) = take m (filter P xs)"
proof -
  have "filter P xs = filter P (take n xs) @ filter P (drop n xs)" by (metis append_take_drop_id filter_append)
  then have "take (length (filter P (take n xs))) (filter P xs) = filter P (take n xs)" by simp
  then show ?thesis by metis
qed

lemma events_next:
  assumes "db_inv sha db" and "0 \<le> a"
  shows "events job_id a 100 db = take 100 (filter (\<lambda>e. e_job_id e = job_id \<and> a < e_id e) (db_events db))"
proof -
  have "sorted_wrt (\<lambda>x y. e_id x < e_id y) (db_events db)"
    using assms(1) by (simp add: db_inv_def ledger_ok_def sorted_wrt_map)
  then have "sort_key e_id (filter (\<lambda>e. e_job_id e = job_id \<and> max 0 a < e_id e) (db_events db)) =
    filter (\<lambda>e. e_job_id e = job_id \<and> max 0 a < e_id e) (db_events db)"
    by (intro sort_key_sorted sorted_wrt_filter)
  with assms(2) show ?thesis by (simp add: events_def MAX_EVENT_LIST_LIMIT_def max_def)
qed

lemma events_answer:
  assumes inv: "db_inv sha db" and range: "0 \<le> a" "a \<le> 2 ^ 63 - 1"
  shows "daemon_call dh cfg ''events'' (page_request job_id a) ((db, w), later) =
    (Inr (PList (map (event_payload (dh_float dh)) (events_bounded (dh_float dh) (events job_id a 100 db)))), ((db, w), later))"
proof -
  have "job_arg dh (page_request job_id a) = Inr job_id"
    by (simp add: job_arg_def page_request_def dict_get_def arg_str_def)
  moreover have "arg_int (dict_get (page_request job_id a) ''after_id'') 0 0 (2 ^ 63 - 1) ''after_id'' = Inr a"
    using range by (simp add: page_request_def dict_get_def arg_int_def)
  moreover have "arg_int (dict_get (page_request job_id a) ''limit'') 200 1 MAX_EVENT_LIST_LIMIT ''limit'' = Inr 100"
    by (simp add: page_request_def dict_get_def arg_int_def MAX_EVENT_LIST_LIMIT_def)
  ultimately show ?thesis
    by (simp add: daemon_call_def dispatch_verbs(1) events_reply_def serve_reply_def act_bind_def of_result_def
        ret_def read_db_def comp_def event_payload_def)
qed

lemma daemon_page:
  assumes inv: "db_inv sha db" and "0 \<le> a"
  shows "\<exists>n. map (event_payload fl) (events_bounded fl (events job_id a 100 db)) =
    take n (filter (\<lambda>e. a < event_id e) (shown_events fl job_id db))"
proof -
  let ?xs = "filter (\<lambda>e. e_job_id e = job_id \<and> a < e_id e) (db_events db)"
  obtain k where k: "events_bounded fl (events job_id a 100 db) = take k (filter (page_fits fl) (take 100 ?xs))"
    using event_page_fits [of fl "events job_id a 100 db"] unfolding page_fits_def events_next [OF assms] by blast
  obtain m where m: "filter (page_fits fl) (take 100 ?xs) = take m (filter (page_fits fl) ?xs)"
    using filter_take by blast
  have "map (event_payload fl) (filter (page_fits fl) ?xs) = filter (\<lambda>e. a < event_id e) (shown_events fl job_id db)"
    unfolding shown_events_def filter_map comp_def event_id_payload filter_filter
    by (intro arg_cong [of _ _ "map _"] filter_cong) auto
  then show ?thesis unfolding k m take_take by (metis take_map)
qed

lemma shown_grows: "\<exists>es. db_events d = db_events db @ es \<Longrightarrow>
    \<exists>es. shown_events fl job_id d = shown_events fl job_id db @ es"
  by (auto simp: shown_events_def)

lemma pause_grows:
  assumes "served_ok sha s"
  shows "served_ok sha (daemon_pause s) \<and>
    (\<exists>es. shown_events fl job_id (fst (fst (daemon_pause s))) = shown_events fl job_id (fst (fst s)) @ es)"
proof -
  obtain db w later where s: "s = ((db, w), later)" by (metis prod.collapse)
  show ?thesis
  proof (cases later)
    case Nil
    with assms s show ?thesis by (simp add: daemon_pause_def)
  next
    case (Cons d ds)
    with assms s have inv: "db_inv sha db" and step: "(db_step sha)\<^sup>*\<^sup>* db d" and rest: "evolving sha d ds"
      by (auto simp: served_ok_def)
    have "db_inv sha d" by (rule store.run_inv [OF step inv])
    moreover have "kept db d" by (rule store.run_hist [OF step inv])
    then have "\<exists>es. db_events d = db_events db @ es" by (simp add: kept_def)
    ultimately show ?thesis using Cons s rest shown_grows by (simp add: daemon_pause_def served_ok_def)
  qed
qed

interpretation served: event_feed "daemon_client dh cfg" job_id "served_ok sha"
    "\<lambda>s. shown_events (dh_float dh) job_id (fst (fst s))" for dh cfg job_id sha
proof
  fix s :: "'a served_world" and a v t
  assume ok: "served_ok sha s" and cur: "cursor a (shown_events (dh_float dh) job_id (fst (fst s)))"
    and call: "ch_call (daemon_client dh cfg) ''events'' (page_request job_id a) s = (Inr v, t)"
  obtain db w later where s: "s = ((db, w), later)" by (metis prod.collapse)
  have inv: "db_inv sha db" and last: "db_last_event_id db \<le> 2 ^ 63 - 1"
    using ok s evolving_last by (auto simp: served_ok_def)
  have range: "0 \<le> a \<and> a \<le> 2 ^ 63 - 1"
    using cur s inv last by (fastforce simp: cursor_def shown_events_def db_inv_def ledger_ok_def)
  then have "daemon_call dh cfg ''events'' (page_request job_id a) s =
      (Inr (PList (map (event_payload (dh_float dh)) (events_bounded (dh_float dh) (events job_id a 100 db)))), s)"
    unfolding s using events_answer [OF inv] by blast
  with call have "v = PList (map (event_payload (dh_float dh)) (events_bounded (dh_float dh) (events job_id a 100 db)))"
    by (simp add: daemon_client_def)
  with daemon_page [OF inv] range s
  show "\<exists>n. v = PList (take n (filter (\<lambda>e. a < event_id e) (shown_events (dh_float dh) job_id (fst (fst s)))))"
    by auto
next
  fix s t :: "'a served_world" and verb ps r
  assume "served_ok sha s" "verb \<in> {''events'', ''status'', ''ping''}" "ch_call (daemon_client dh cfg) verb ps s = (r, t)"
  moreover obtain db w later where "s = ((db, w), later)" by (metis prod.collapse)
  ultimately show "served_ok sha t \<and> (\<exists>es. shown_events (dh_float dh) job_id (fst (fst t)) =
      shown_events (dh_float dh) job_id (fst (fst s)) @ es)"
    using read_calls [of verb dh cfg ps db w later r t] by (auto simp: daemon_client_def served_ok_def)
next
  fix s :: "'a served_world" assume "served_ok sha s"
  then show "ledger_list (shown_events (dh_float dh) job_id (fst (fst s)))"
    using shown_ordered [of sha "fst (fst s)"] by (simp add: served_ok_def)
next
  fix s :: "'a served_world" assume "served_ok sha s"
  from pause_grows [OF this] show "served_ok sha (ch_sleep (daemon_client dh cfg) s) \<and>
      (\<exists>es. shown_events (dh_float dh) job_id (fst (fst (ch_sleep (daemon_client dh cfg) s))) =
        shown_events (dh_float dh) job_id (fst (fst s)) @ es)"
    by (simp add: daemon_client_def)
qed (simp_all add: daemon_client_def)

section \<open>What watching shows\<close>


definition watched :: "unit served_world" where
  "watched = ((demo_db 1, idle_world), [])"

definition watched_status :: status where
  "watched_status = status_of_job (dh_float demo_daemon) (dh_coordinator demo_daemon ()) (demo_db 1)
     (hd (db_jobs (demo_db 1))) 2 2 2"

lemma watched_sizes:
  "map (\<lambda>e. encoded_size (event_json (dh_float demo_daemon) e)) (db_events (demo_db 1)) = [117]"
  "encoded_size (status_json (dh_float demo_daemon) watched_status) = 1167"
  by code_simp+

lemma watched_answers:
  "get_job ''job-1'' (demo_db 1) = Inr (hd (db_jobs (demo_db 1)))"
  "rbind (item (payload_of (status_json (dh_float demo_daemon) watched_status)) ''job'') (\<lambda>job. item job ''state'') =
     Inr (PStr ''queued'')"
  "db_last_event_id (demo_db 1) = 1"
  "events ''job-1'' 0 100 (demo_db 1) = db_events (demo_db 1)"
  by code_simp+

lemma watch_line_event: "\<exists>l. watch_line render (event_payload fl e) = Inr l"
  by (simp add: watch_line_def event_payload_def event_json_def jobj_def get_or_def item_def rbind_def
      format_zeros_def dict_get_or_def)

lemma watched_status_call:
  "daemon_call demo_daemon cfg ''status'' [(''job_id'', PStr ''job-1'')] watched =
    (Inr (payload_of (status_json (dh_float demo_daemon) watched_status)), watched)"
proof -
  have "status_fits (dh_float demo_daemon) watched_status"
    unfolding status_fits_def watched_sizes(2) by (simp add: MAX_STATUS_RESPONSE_BYTES_def MAX_RPC_MESSAGE_BYTES_def)
  then have fits: "bound_status_response (dh_float demo_daemon) watched_status = Inr watched_status"
    by (simp add: bound_status_response_def)
  have now: "dnow demo_daemon (d, w) = (Inr 2, (d, w\<lparr>dw_rest := dw_rest w\<rparr>))" for d w
    by (simp add: dnow_def demo_daemon_def)
  have rest: "dw_rest idle_world = ()" by (simp add: idle_world_def)
  have job: "rbind (get_job ''job-1'' (demo_db 1)) (\<lambda>j. Inr (Some j)) = Inr (Some (hd (db_jobs (demo_db 1))))"
    unfolding watched_answers(1) by (simp add: rbind_def del: One_nat_def)
  have "status_reply demo_daemon ''job-1'' (demo_db 1, idle_world) =
      (Inr (status_json (dh_float demo_daemon) watched_status), (demo_db 1, idle_world))"
    by (simp add: status_reply_def act_bind_def read_db_def read_world_def of_result_def ret_def now rest job fits
        watched_status_def [symmetric] del: One_nat_def)
  then show ?thesis
    by (simp add: watched_def daemon_call_def dispatch_verbs(3) dict_get_def arg_str_def serve_reply_def act_bind_def ret_def del: One_nat_def)
qed

lemma watched_round:
  "\<exists>l. cmd_watch (daemon_client demo_daemon cfg) 1 ''job-1'' watched = ([l], Inr None, watched)"
proof -
  obtain E where E: "db_events (demo_db 1) = [E]" and sz: "encoded_size (event_json (dh_float demo_daemon) E) = 117"
    using watched_sizes(1) by (auto simp: map_eq_Cons_conv)
  have inv: "db_inv demo_sha (demo_db 1)" by (rule store.reach_inv [OF demo_reachable])
  have "events_bounded (dh_float demo_daemon) [E] = [E]"
    by (simp add: events_bounded_def sz MAX_RPC_MESSAGE_BYTES_def)
  then have ev: "daemon_call demo_daemon cfg ''events'' (page_request ''job-1'' 0) watched =
      (Inr (PList [event_payload (dh_float demo_daemon) E]), watched)"
    unfolding watched_def using events_answer [OF inv, of 0 demo_daemon cfg "''job-1''" idle_world "[]"]
    by (simp add: watched_answers(4) E del: One_nat_def)
  obtain l where l: "watch_line (dh_str demo_daemon) (event_payload (dh_float demo_daemon) E) = Inr l"
    using watch_line_event by blast
  have pause: "daemon_pause watched = watched" by (simp add: daemon_pause_def watched_def)
  show ?thesis
    by (rule exI [of _ l])
      (simp add: cmd_watch_def watch_round_def daemon_client_def cli_rpc_def ev watched_status_call watched_answers(2)
        cli_bind_def cli_then_def cli_of_def cli_ret_def cli_say_def cli_move_def elements_of_def int_value_def l
        hashable_def TERMINAL_STATES_def pause)
qed


text \<open>A page has at most 100 events, whatever limit the client asks for.\<close>

lemma events_bounded_length: "length (events_bounded fl es) \<le> length es"
proof -
  obtain k where "events_bounded fl es =
      take k (filter (\<lambda>e. encoded_size (event_json fl e) + 1 \<le> MAX_RPC_MESSAGE_BYTES - 65536) es)"
    using event_page_fits by blast
  then show ?thesis by (simp add: min.coboundedI1)
qed

lemma watch_page_limit:
  assumes "db_inv sha db" "0 \<le> a" "a \<le> 2 ^ 63 - 1"
  shows "\<exists>es. daemon_call dh cfg ''events'' (page_request job_id a) ((db, w), later) = (Inr (PList es), ((db, w), later)) \<and>
    length es \<le> 100"
proof -
  have "length (events_bounded (dh_float dh) (events job_id a 100 db)) \<le> 100"
    using events_bounded_length [of "dh_float dh" "events job_id a 100 db"] events_next [OF assms(1,2), of job_id]
    by simp
  then show ?thesis
    unfolding events_answer [OF assms]
    by (intro exI [of _ "map (event_payload (dh_float dh)) (events_bounded (dh_float dh) (events job_id a 100 db))"]) simp
qed

section \<open>The daemon is up\<close>

text \<open>When \<open>_ensure_daemon\<close> returns, the last thing that happened is that the daemon answered a ping.\<close>

lemma ping_loop_up: "ping_loop h n s = (ls, Inr True, t) \<Longrightarrow> \<exists>u v. ch_call h ''ping'' [] u = (Inr v, t)"
proof (induction n arbitrary: s)
  case (Suc n)
  obtain q u where c: "ch_call h ''ping'' [] s = (q, u)" by (cases "ch_call h ''ping'' [] s")
  show ?case
  proof (cases q)
    case (Inl e)
    with Suc.prems c have "ping_loop h n (ch_sleep h u) = (ls, Inr True, t)" by (simp split: if_splits)
    then show ?thesis by (rule Suc.IH)
  next
    case (Inr v)
    with Suc.prems c show ?thesis by auto
  qed
qed (simp add: cli_ret_def)

lemma bootstrap_up: "bootstrap_daemon h cfg s = (ls, Inr (), t) \<Longrightarrow> \<exists>u v. ch_call h ''ping'' [] u = (Inr v, t)"
  unfolding bootstrap_daemon_def Let_def then_Inr bind_Inr
  by (auto simp: cli_ret_def cli_fail_def split: if_splits dest: ping_loop_up)

lemma ensure_daemon_up:
  assumes "ensure_daemon h s = (ls, Inr (), t)"
  shows "\<exists>u v. ch_call h ''ping'' [] u = (Inr v, t)"
proof -
  from assms obtain cfg u l where "(case ch_which h ''systemctl'' of None \<Rightarrow> bootstrap_daemon h cfg
      | Some executable \<Rightarrow> cli_then (cli_move (ch_start h executable))
          (cli_bind (ping_loop h 8) (\<lambda>up. if up then cli_ret () else bootstrap_daemon h cfg))) u = (l, Inr (), t)"
    unfolding ensure_daemon_def bind_Inr then_Inr by blast
  then show ?thesis
    by (cases "ch_which h ''systemctl''")
      (auto simp: then_Inr bind_Inr cli_ret_def split: if_splits dest: bootstrap_up ping_loop_up)
qed

text \<open>An exchange that times out is no \<open>YoloError\<close>: it leaves the program as a traceback.\<close>

lemma timeout_not_handled:
  assumes "ch_call h ''stop'' [(''job_id'', PStr job_id)] s = (Inl RpcTimeout, t)"
  shows "cli_main (cmd_stop h job_id) s = ([], Inl (Rpc RpcTimeout), t)"
  using assms by (simp add: cli_main_def cmd_stop_def cli_bind_def cli_rpc_def)

section \<open>The doctor\<close>

lemma report_checks_run:
  "report_checks cs ready =
     (map check_line cs, ready \<and> (\<forall>(name, ok, detail) \<in> set cs. required_check name \<longrightarrow> ok))"
  by (induction cs arbitrary: ready) (auto split: prod.splits)

section \<open>The dossier of a completed job\<close>

text \<open>In a reachable store the dossier of a completed job is served: the check of its digest passes, the
  digest that is printed is the one of the content that is printed, and nothing else is.\<close>

theorem completed_dossier_served:
  assumes "(db_step sha)\<^sup>*\<^sup>* empty_db db" and "find_job job_id (db_jobs db) = Some j"
    and "j_state j = JobCompleted" and "job_id_matches job_id"
  shows "\<exists>content. get_dossier job_id db \<noteq> None \<and>
    dossier_cli sha (Inr cfg) (Inr db) write job_id True output s = ([Out (sha content)], Inr 0, s) \<and>
    dossier_cli sha (Inr cfg) (Inr db) write job_id False None s = ([Out content], Inr 0, s)"
proof -
  have inv: "db_inv sha db" by (rule store.reach_inv [OF assms(1)])
  have j: "j \<in> set (db_jobs db)" "j_id j = job_id" using assms(2) by (auto dest: job_tab.select_SomeD)
  have stop: "\<not> j_stop_requested j" by (rule inv_completed(2) [OF inv j(1) assms(3)])
  obtain d where found: "find_dossier job_id (db_dossiers db) = Some d" "d_published d"
    using published_dossier [OF inv j(1) assms(3)] j(2) by blast
  then have "d \<in> set (db_dossiers db)" by (auto dest: dossier_tab.select_SomeD)
  with inv found have d: "get_dossier job_id db = Some d" "sha (d_content d) = d_sha256 d"
    by (auto simp: db_inv_def dossiers_ok_def get_dossier_eq [OF inv] digest_matches_def)
  have "published_record job_id db = Inr (Some d)"
    using assms(2,3) stop d(1) by (simp add: published_record_def get_job_def lookup_job_def row_or_def)
  then show ?thesis
    using assms(4) d
    by (intro exI [of _ "d_content d"])
      (simp add: dossier_cli_def validate_job_id_def cli_bind_def cli_then_def cli_of_def cli_ret_def cli_say_def
        verify_dossier_def rbind_def)
qed

text \<open>The export makes an existing directory it writes to private to the user.\<close>

lemma export_changes_parent:
  assumes "fs (parent_dir path) = Some n" "n_kind n = Directory" "n_uid n = uid" "path \<noteq> parent_dir path"
    and "export_dossier uid race path content fs = (Inr (), fs')"
  shows "fs' (parent_dir path) = Some (n\<lparr>n_mode := mode_700\<rparr>)"
proof -
  have again: "ensure_private_dir uid r (parent_dir path) (fs(parent_dir path \<mapsto> n\<lparr>n_mode := mode_700\<rparr>)) =
      (Inr (), fs(parent_dir path \<mapsto> n\<lparr>n_mode := mode_700\<rparr>))" for r
    using assms(2,3) by (simp add: ensure_private_dir_def check_private_dir_def)
  show ?thesis
    using assms again
    by (auto simp: export_dossier_def ensure_private_dir_def [of _ _ _ fs] check_private_dir_def open_private_binary_def
        Let_def split: prod.splits sum.splits option.splits if_splits)
qed

definition demo_delivery :: "(db \<Rightarrow> py_error + db) list" where
  "demo_delivery =
    [\<lambda>d. drop_value (create_job 1 ''job_0123456789ab'' ''/repo'' ''goal'' ''main'' ''c0'' ''yolo/job'' False d),
     update_job 1 ''job_0123456789ab'' (no_job_update\<lparr>ju_state := Some JobRunning\<rparr>),
     prepare_accepted_job demo_sha 1 ''job_0123456789ab'' ''c1'' ''done'' ''not-requested'' 1 (demo_sha ''{}'') ''{}'',
     publish_completed_job demo_sha 1 ''job_0123456789ab'' 1 (demo_sha ''{}'') ''done'' ''not-requested'' '''']"

definition delivered_db :: db where
  "delivered_db = the_db (after_all demo_delivery empty_db)"

lemma delivered_run: "\<not> isl (after_all demo_delivery empty_db)"
  by code_simp

lemma delivered_job:
  "find_job ''job_0123456789ab'' (db_jobs delivered_db) = Some (hd (db_jobs delivered_db))"
  "j_state (hd (db_jobs delivered_db)) = JobCompleted"
  "job_id_matches ''job_0123456789ab''"
  by code_simp+

lemma delivered_reachable: "(db_step demo_sha)\<^sup>*\<^sup>* empty_db delivered_db"
  unfolding delivered_db_def
  by (rule after_all_run [OF delivered_run])
    (auto simp: demo_delivery_def drop_value_def rbind_Inr_iff
      intro: step_create_job step_update_job step_prepare step_publish)

lemma completed_dossier_served_witness:
  "\<exists>content. dossier_cli demo_sha (Inr demo_dossier_config) (Inr delivered_db) (\<lambda>_ _. Inr ()) ''job_0123456789ab'' True None () =
      ([Out (demo_sha content)], Inr 0, ()) \<and>
    dossier_cli demo_sha (Inr demo_dossier_config) (Inr delivered_db) (\<lambda>_ _. Inr ()) ''job_0123456789ab'' False None () =
      ([Out content], Inr 0, ())"
  using completed_dossier_served [OF delivered_reachable delivered_job,
    of demo_dossier_config "\<lambda>_ _. Inr ()" None "()"] by blast

end
