(* ===== verification/Yolo_Coverage.thy ===== *)
theory Yolo_Coverage
  imports Yolo_Util
begin

text \<open>
  The coverage floors of the release process, \<open>src/scripts/check_coverage.py\<close>. The report is decoded
  JSON; the value of the text of a float and the text of a percentage are arguments, and percentages
  are rational numbers.
\<close>

definition FLOORS :: "(string \<times> rat) list" where
  "FLOORS =
    [(''src/omarchy_yolo/orchestrator.py'', 72), (''src/omarchy_yolo/orchestrator_integration.py'', 60),
     (''src/omarchy_yolo/orchestrator_task.py'', 65), (''src/omarchy_yolo/git.py'', 83),
     (''src/omarchy_yolo/gates.py'', 90), (''src/omarchy_yolo/process.py'', 90),
     (''src/omarchy_yolo/db.py'', 80), (''src/omarchy_yolo/db_core.py'', 90),
     (''src/omarchy_yolo/db_records.py'', 82), (''src/omarchy_yolo/db_recovery.py'', 80),
     (''src/omarchy_yolo/db_provenance.py'', 80), (''src/omarchy_yolo/state_machine.py'', 95),
     (''src/omarchy_yolo/resources.py'', 85), (''src/omarchy_yolo/dossier_cli.py'', 75),
     (''src/omarchy_yolo/runtime.py'', 94), (''src/omarchy_yolo/sandbox.py'', 95),
     (''src/omarchy_yolo/review_source.py'', 85), (''src/omarchy_yolo/reviewer.py'', 75)]"

text \<open>\<open>isinstance(value, (int, float))\<close>, then \<open>float(value)\<close>; a Boolean is an integer of Python.\<close>

definition number_of :: "(string \<Rightarrow> rat) \<Rightarrow> payload option \<Rightarrow> rat option" where
  "number_of value_of v =
     (case v of
        Some (PInt i) \<Rightarrow> Some (of_int i)
      | Some (PFloat s) \<Rightarrow> Some (value_of s)
      | Some (PBool b) \<Rightarrow> Some (if b then 1 else 0)
      | _ \<Rightarrow> None)"

text \<open>\<open>d.get(key)\<close>, when it is a dictionary.\<close>

definition dict_at :: "payload_dict \<Rightarrow> string \<Rightarrow> payload_dict option" where
  "dict_at d key = Option.bind (dict_get d key) as_dict"

text \<open>One module: the line that is printed, and the failure.\<close>

definition check_floor ::
  "(string \<Rightarrow> rat) \<Rightarrow> (rat \<Rightarrow> string) \<Rightarrow> payload_dict \<Rightarrow> string \<times> rat \<Rightarrow> string list \<times> string list" where
  "check_floor value_of percent_text files = (\<lambda>(filename, floor_percent).
     case dict_at files filename of
       None \<Rightarrow> ([], [filename @ '': missing from coverage report''])
     | Some entry \<Rightarrow>
         (case dict_at entry ''summary'' of
            None \<Rightarrow> ([], [filename @ '': missing coverage summary''])
          | Some summary \<Rightarrow>
              (case number_of value_of (dict_get summary ''percent_covered'') of
                 None \<Rightarrow> ([], [filename @ '': invalid percent_covered''])
               | Some percent \<Rightarrow>
                   ([''coverage floor '' @ filename @ '': '' @ percent_text percent @ ''% >= '' @
                      percent_text floor_percent @ ''%''],
                    if percent + 1 / 10 ^ 9 < floor_percent
                    then [filename @ '': '' @ percent_text percent @ ''% < required '' @ percent_text floor_percent @ ''%'']
                    else []))))"

text \<open>\<open>main\<close>: what goes to standard output and to standard error, and the exit code.\<close>

definition coverage_main ::
  "(string \<Rightarrow> rat) \<Rightarrow> (rat \<Rightarrow> string) \<Rightarrow> payload_dict \<Rightarrow> string list \<times> string list \<times> int" where
  "coverage_main value_of percent_text payload =
     (case dict_at payload ''files'' of
        None \<Rightarrow> ([], [''coverage JSON does not contain a files object''], 1)
      | Some files \<Rightarrow>
          (let results = map (check_floor value_of percent_text files) FLOORS;
               failures = concat (map snd results)
           in (concat (map fst results),
               if failures \<noteq> [] then ''critical-module coverage gate failed:'' # map (\<lambda>f. ''- '' @ f) failures else [],
               if failures \<noteq> [] then 1 else 0)))"

text \<open>The percentage a report has for a module, when it is readable.\<close>

definition reported :: "(string \<Rightarrow> rat) \<Rightarrow> payload_dict \<Rightarrow> string \<Rightarrow> rat option" where
  "reported value_of payload filename =
     Option.bind (dict_at payload ''files'') (\<lambda>files.
     Option.bind (dict_at files filename) (\<lambda>entry.
     Option.bind (dict_at entry ''summary'') (\<lambda>summary.
     number_of value_of (dict_get summary ''percent_covered''))))"

definition reaches_floor :: "(string \<Rightarrow> rat) \<Rightarrow> payload_dict \<Rightarrow> string \<times> rat \<Rightarrow> bool" where
  "reaches_floor value_of payload m \<longleftrightarrow>
     (\<exists>percent. reported value_of payload (fst m) = Some percent \<and> snd m \<le> percent + 1 / 10 ^ 9)"

lemma check_floor_passes:
  assumes "dict_at payload ''files'' = Some files"
  shows "snd (check_floor value_of percent_text files m) = [] \<longleftrightarrow> reaches_floor value_of payload m"
  using assms by (cases m) (auto simp: check_floor_def reported_def reaches_floor_def split: option.splits)

text \<open>The gate is green exactly when every module with a floor is in the report and reaches it: a
  module that is missing, or whose percentage cannot be read, counts as a failure.\<close>

lemma coverage_gate_exact:
  "snd (snd (coverage_main value_of percent_text payload)) = 0 \<longleftrightarrow>
   (\<forall>m \<in> set FLOORS. reaches_floor value_of payload m)"
proof (cases "dict_at payload ''files''")
  case None
  then have "\<not> reaches_floor value_of payload m" for m by (simp add: reported_def reaches_floor_def)
  moreover have "hd FLOORS \<in> set FLOORS" by (rule hd_in_set) (simp add: FLOORS_def)
  ultimately have "\<not> (\<forall>m \<in> set FLOORS. reaches_floor value_of payload m)" by blast
  with None show ?thesis by (simp add: coverage_main_def)
next
  case (Some files)
  then have "snd (snd (coverage_main value_of percent_text payload)) = 0 \<longleftrightarrow>
      (\<forall>m \<in> set FLOORS. snd (check_floor value_of percent_text files m) = [])"
    by (auto simp: coverage_main_def Let_def)
  with check_floor_passes [OF Some] show ?thesis by simp
qed

end
