(* ===== verification/Spec2Isabelle.thy ===== *)
theory Spec2Isabelle
  imports Yolo_Review_Source Yolo_Schedule Yolo_Git_Worktree Yolo_Daemon_Proofs
    Yolo_Schema_Proofs Yolo_Migration Yolo_Prompts Yolo_Agent_Run Yolo_Cli_Proofs Yolo_Coverage
begin

text \<open>
  A verification development for Omarchy YOLO, an orchestrator of coding agents
  (\<open>src/src/omarchy_yolo\<close>, Python). A daemon accepts jobs over a Unix socket. For each job it asks a
  planning agent for a task graph, runs every task in a Git worktree of its own (a worker agent, a
  commit, gates, a review), merges finished tasks into an integration branch, reviews the whole
  candidate, records the accepted result in a durable store together with an execution dossier, and
  only then may fast-forward the branch of the user. Everything that has to survive a crash is a row of
  a SQLite database, and recovery works from these rows alone.

  \<^bold>\<open>How the program is modelled.\<close> A dataclass is a record, an enumeration a datatype whose text in
  the database is a function (\<open>job_state_value\<close>), a function of the code is a definition of the same
  name, an exception is the left side of a sum (\<open>py_error\<close>, theory \<open>Yolo_Prelude\<close>), a dictionary an
  association list where its order or its text matters. A store mutation is one
  \<open>BEGIN IMMEDIATE\<close> transaction: the right side is the committed store, the left side the rollback. A
  coroutine is an action \<open>('g, 'a) act\<close> over the store and the rest of the world (\<open>Yolo_Actions\<close>), which
  ends with a value, an error or a cancellation and in either case in a state. Where coroutines
  interleave (worker slots, repository locks, daemon requests, the lock of the daemon) the code is cut
  at its suspension points into the rules of an inductive step relation. Python integers are \<open>int\<close>, text
  is \<open>string\<close>, and text whose result depends on its encoding is a list of code points.

  \<^bold>\<open>Theories, from the bottom.\<close>
  \<^item> \<open>Yolo_Prelude\<close>: results, slices, tables of rows and the locale \<open>keyed_table\<close> (what a SELECT by key
    returns after an INSERT or UPDATE), interpreted in \<open>Yolo_DB_Core\<close> for jobs, tasks, attempts and
    dossiers. \<open>Yolo_Json\<close>, \<open>Yolo_Utf8\<close>, \<open>Yolo_Util\<close>: JSON text, UTF-8, and the helpers of \<open>util.py\<close>.
  \<^item> \<open>Yolo_Model\<close> (\<open>model.py\<close>), \<open>Yolo_State_Machine\<close> (\<open>state_machine.py\<close>): data, transition tables, the
    snapshot validator with its exact specification; the locale \<open>lifecycle\<close> is interpreted for the
    three tables.
  \<^item> \<open>Yolo_DB_Core\<close>, \<open>Yolo_DB_Records\<close>, \<open>Yolo_DB\<close>, \<open>Yolo_DB_Recovery\<close>, \<open>Yolo_DB_Provenance\<close>: the store,
    file by file (\<open>db_core.py\<close>, \<open>db_records.py\<close>, \<open>db.py\<close>, \<open>db_recovery.py\<close>, \<open>db_provenance.py\<close>).
    \<open>Yolo_DB_Effects\<close> says what each transaction does when it succeeds, \<open>Yolo_DB_Invariant\<close> and
    \<open>Yolo_DB_Steps\<close> that it keeps the invariant \<open>db_inv\<close>, \<open>Yolo_DB_History\<close> that it undoes nothing
    (\<open>kept\<close>), \<open>Yolo_DB_Reachable\<close> puts both into the locale \<open>durable_system\<close>, whose interpretation
    \<open>store\<close> the other theories use; \<open>Yolo_DB_Properties\<close>, \<open>Yolo_DB_Queries\<close> and
    \<open>Yolo_DB_Recovery_Proofs\<close> hold the properties of completion, acceptance, paging and recovery.
  \<^item> \<open>Yolo_SQL\<close>, \<open>Yolo_Schema\<close>, \<open>Yolo_Schema_Proofs\<close>, \<open>Yolo_Migration\<close>: the statements of \<open>SCHEMA\<close> and
    \<open>_MIGRATIONS\<close> on a small SQLite, the contract of \<open>db_schema_contract.py\<close>, opening with backup
    and rollback, and what the migrations do to the rows.
  \<^item> \<open>Yolo_Config\<close>, \<open>Yolo_Sandbox\<close>, \<open>Yolo_Agents\<close>, \<open>Yolo_Process\<close>, \<open>Yolo_Agent_Run\<close>, \<open>Yolo_Gates\<close>: the
    configuration from the parsed TOML on, the bubblewrap and systemd envelopes, the command line,
    contract and output of an agent, child processes with their bounded logs, a run of an agent, the gates.
  \<^item> \<open>Yolo_Planner\<close>, \<open>Yolo_Review_Source\<close>, \<open>Yolo_Reviewer\<close>, \<open>Yolo_Prompts\<close>: plans and their validation, the
    byte-bounded shards of a candidate, reviews, and the text of every prompt.
  \<^item> \<open>Yolo_Actions\<close>, \<open>Yolo_Integration\<close>, \<open>Yolo_Run_Task\<close>, \<open>Yolo_Orchestrator\<close>: the three orchestrator
    files as actions; \<open>Yolo_Task_Proofs\<close>, \<open>Yolo_Orchestrator_Proofs\<close> and \<open>Yolo_Schedule\<close> show what a
    finished, failed or cancelled run leaves in the store and that the schedule ends.
  \<^item> \<open>Yolo_Git\<close>, \<open>Yolo_Git_Proofs\<close>, \<open>Yolo_Git_Worktree\<close> (\<open>git.py\<close>): every operation over a host that answers
    each command; the log of the commands shows the evidence in front of every command that changes
    a repository.
  \<^item> \<open>Yolo_Runtime\<close> (\<open>runtime.py\<close>): worker slots and repository locks. \<open>Yolo_Dossier\<close>
    (\<open>provenance.py\<close>): the execution dossier. \<open>Yolo_Files\<close>: private files and the lock of the daemon.
  \<^item> \<open>Yolo_Rpc\<close>, \<open>Yolo_Daemon\<close>, \<open>Yolo_Daemon_Proofs\<close> (\<open>rpc.py\<close>, \<open>daemon.py\<close>): the line protocol, the requests
    and the runners; the locale \<open>effect\<close> carries a relation through every action and is interpreted
    for "only reads" and for "moves the store by its transactions".
  \<^item> \<open>Yolo_Cli\<close>, \<open>Yolo_Cli_Proofs\<close> (\<open>cli.py\<close>, \<open>dossier_cli.py\<close>, \<open>omarchy.py\<close>): the commands and what they print;
    the locale \<open>event_feed\<close> is what following a job needs of a server, interpreted on the dispatcher of
    the daemon over any history of the store. \<open>Yolo_Coverage\<close>: the coverage floors of
    \<open>src/scripts/check_coverage.py\<close>.

  \<^bold>\<open>What is shown.\<close> Store: the invariant of every reachable store; the acceptance journal and a
  completed job are final; only publication completes a job and a completed job has its evidence;
  recovery never fails and leaves nothing running. Orchestration: a run that returns has completed its
  job; the source branch is touched only when the start of the application is journaled; a completed
  task had green gates and a passed review; integration is all or nothing; a failed or cancelled run is
  settled; the task-graph loop ends. Data: plan validation accepts exactly the acyclic bounded plans; the
  shards of a candidate concatenate to its diffs and cover every file; snapshots are accepted exactly
  when coherent; the dossier can be rebuilt byte for byte. Isolation: the hostile preset, the mounts of the
  sandbox, the overrides against a repository that configures commands, the deletion of a worktree.
  Concurrency: one runner per job, bounded worker slots, exclusive repository locks, no lost waiter.
  Schema: opening is all or nothing, every legacy store migrates or stays as it was, and rows keep their
  type. Client: a watch shows the events of a job without loss, repetition or reordering.

  \<^bold>\<open>Fuel and bounds.\<close> Recursion is structural or has a measure. \<open>execute_dag\<close> takes a number of rounds;
  as many rounds as there are tasks, and one more, are enough (\<open>dag_ends_completed\<close>). The attempts of
  a task, the cycles of repair and of finalisation and the visits of \<open>collect_text\<close> are counted by the
  limits of the code itself. The watch of the command line takes a number of rounds, because a job may run
  for ever; the theorem is about any number.

  \<^bold>\<open>What is assumed.\<close> The environment of the orchestrator (\<open>env\<close>) is arbitrary; the facts about the store
  need that it moves the store by transactions only (\<open>env_ok\<close>), those about the schedule that the
  wait for the running tasks reports at least one outcome and only outcomes of their runs (\<open>join_ok\<close>). Git, agents, gate commands, the clock,
  identifiers, SHA-256, the JSON and TOML readers and the text of a float are parameters. SQLite is
  modelled as far as the code relies on it: serial transactions, keys, foreign keys, CHECK and NOT NULL
  constraints, and identifiers that are never reused.

  \<^bold>\<open>Not modelled.\<close> The argument parsers and the entry points (\<open>argparse\<close>, \<open>asyncio.run\<close>), the socket and
  the signal handlers of the daemon, Pragmas that only tune SQLite and damage to the pages of its file
  (the integrity check is an input), the modes of the files of the store, the thread that runs a blocking
  call, and the pumps of a pipe beyond the order of their chunks.
\<close>

end
